(* ===== verification/Prelude.thy ===== *)
theory Prelude
  imports Main "HOL-Library.AList" "HOL-Library.Multiset" "HOL-Library.List_Lexorder" "HOL-Library.Char_ord"
begin

text \<open>
  What every component shares: Python exceptions as values, sequencing of fallible
  computations, loops that may raise, and the Python string and integer operations the
  program uses. A Python \<open>str\<close> is modelled by its UTF-8 encoding, a list of byte-sized
  characters, so that \<open>s.encode("utf-8")\<close> is the identity and comparison by code point
  is comparison by byte; \<open>lower\<close> and \<open>casefold\<close> act on the ASCII letters.
\<close>

section \<open>Exceptions and fallible computations\<close>

text \<open>
  \<open>LoveEngineError c d n\<close> is the exception of \<^verbatim>\<open>errors.py\<close> with code \<open>c\<close> and exit
  code \<open>n\<close>. The detail \<open>d\<close> is the message where the message is computed from data; the
  fixed explanatory sentences are determined by the place that raises and are left empty.
  The other constructors are the Python exceptions that the code raises or catches.
\<close>

datatype exc =
    LoveEngineError (err_code: string) (err_detail: string) (err_exit: nat)
  | KeyError | TypeError | ValueError | AttributeError | AssertionError
  | BadSignature | ClientError | TimeoutError | OSError | InterfaceError | IntegrityError
  | SocketClosed

type_synonym 'a res = "exc + 'a"

abbreviation le_error :: "string \<Rightarrow> string \<Rightarrow> 'a res" where
  "le_error c d \<equiv> Inl (LoveEngineError c d 2)"

abbreviation le_error_exit :: "string \<Rightarrow> string \<Rightarrow> nat \<Rightarrow> 'a res" where
  "le_error_exit c d n \<equiv> Inl (LoveEngineError c d n)"

definition bindE :: "'a res \<Rightarrow> ('a \<Rightarrow> 'b res) \<Rightarrow> 'b res" where
  "bindE m f = (case m of Inl e \<Rightarrow> Inl e | Inr x \<Rightarrow> f x)"

lemma bindE_simps [simp]:
  "bindE (Inl e) f = Inl e"
  "bindE (Inr x) f = f x"
  by (simp_all add: bindE_def)

lemma bindE_cong [fundef_cong]:
  "m = m' \<Longrightarrow> (\<And>x. m' = Inr x \<Longrightarrow> f x = g x) \<Longrightarrow> bindE m f = bindE m' g"
  by (simp add: bindE_def split: sum.splits)

text \<open>
  The collection \<open>res_simps\<close> takes a successful run apart: a bind succeeds when both
  parts do, a guarded raise when the guard is false.
\<close>

named_theorems res_simps

lemma bindE_Inr_iff [res_simps]: "bindE m f = Inr y \<longleftrightarrow> (\<exists>x. m = Inr x \<and> f x = Inr y)"
  by (simp add: bindE_def split: sum.splits)

lemma bindE_Inl_iff: "bindE m f = Inl e \<longleftrightarrow> m = Inl e \<or> (\<exists>x. m = Inr x \<and> f x = Inl e)"
  by (simp add: bindE_def split: sum.splits)

lemma guard_Inr_iff [res_simps]: "(if b then Inl e else m) = Inr y \<longleftrightarrow> \<not> b \<and> m = Inr y"
  by simp

lemma guard_Inl_iff: "(if b then Inl e else m) = Inl x \<longleftrightarrow> b \<and> e = x \<or> \<not> b \<and> m = Inl x"
  by simp

lemma bindE_assoc [simp]: "bindE (bindE m f) g = bindE m (\<lambda>x. bindE (f x) g)"
  by (simp add: bindE_def split: sum.splits)

text \<open>\<open>try: m except e when c: h e\<close>.\<close>

definition catchE :: "'a res \<Rightarrow> (exc \<Rightarrow> bool) \<Rightarrow> (exc \<Rightarrow> 'a res) \<Rightarrow> 'a res" where
  "catchE m c h = (case m of Inl e \<Rightarrow> (if c e then h e else Inl e) | Inr x \<Rightarrow> Inr x)"

lemma catchE_simps [simp]:
  "catchE (Inr x) c h = Inr x"
  "catchE (Inl e) c h = (if c e then h e else Inl e)"
  by (simp_all add: catchE_def)

lemma catchE_raise_Inr_iff [res_simps]:
  "catchE m c (\<lambda>e. Inl (f e)) = Inr y \<longleftrightarrow> m = Inr y"
  by (cases m) auto

text \<open>\<open>if not b: raise LoveEngineError(c, d)\<close>, and the same under a value that may be absent.\<close>

definition ensure :: "bool \<Rightarrow> string \<Rightarrow> string \<Rightarrow> unit res" where
  "ensure b c d = (if b then Inr () else le_error c d)"

definition when_some :: "'a option \<Rightarrow> ('a \<Rightarrow> unit res) \<Rightarrow> unit res" where
  "when_some v f = (case v of None \<Rightarrow> Inr () | Some x \<Rightarrow> f x)"

lemma ensure_simps [simp]: "ensure True c d = Inr ()" "ensure False c d = le_error c d"
  by (simp_all add: ensure_def)

lemma ensure_Inr_iff [res_simps]: "ensure b c d = Inr u \<longleftrightarrow> b"
  by (simp add: ensure_def)

lemma ensure_Inl_iff: "ensure b c d = Inl e \<longleftrightarrow> \<not> b \<and> e = LoveEngineError c d 2"
  by (auto simp: ensure_def)

text \<open>The same as elimination rules, which take a long run apart without rewriting it.\<close>

lemma bindE_InrE:
  assumes "bindE m f = Inr y"
  obtains x where "m = Inr x" "f x = Inr y"
  using assms by (auto simp: bindE_Inr_iff)

lemma ensure_InrE:
  assumes "ensure b c d = Inr u"
  obtains b
  using assms by (auto simp: ensure_Inr_iff)

lemmas run_elims = bindE_InrE ensure_InrE

lemma when_some_simps [simp]: "when_some None f = Inr ()" "when_some (Some x) f = f x"
  by (simp_all add: when_some_def)

lemma when_some_Inr_iff [res_simps]: "when_some v f = Inr u \<longleftrightarrow> (\<forall>x. v = Some x \<longrightarrow> f x = Inr ())"
  by (cases v) auto

text \<open>A \<open>for\<close> loop that threads a state and stops at the first exception.\<close>

fun foldE :: "('s \<Rightarrow> 'a \<Rightarrow> 's res) \<Rightarrow> 's \<Rightarrow> 'a list \<Rightarrow> 's res" where
  "foldE f s [] = Inr s"
| "foldE f s (x # xs) = bindE (f s x) (\<lambda>s'. foldE f s' xs)"

fun mapE :: "('a \<Rightarrow> 'b res) \<Rightarrow> 'a list \<Rightarrow> 'b list res" where
  "mapE f [] = Inr []"
| "mapE f (x # xs) = bindE (f x) (\<lambda>y. bindE (mapE f xs) (\<lambda>ys. Inr (y # ys)))"

lemma foldE_cong [fundef_cong]:
  "s = t \<Longrightarrow> xs = ys \<Longrightarrow> (\<And>s x. x \<in> set ys \<Longrightarrow> f s x = g s x) \<Longrightarrow> foldE f s xs = foldE g t ys"
proof (induction ys arbitrary: s t xs)
  case (Cons y ys)
  then show ?case by (cases "g t y") auto
qed simp

lemma mapE_cong [fundef_cong]:
  "xs = ys \<Longrightarrow> (\<And>x. x \<in> set ys \<Longrightarrow> f x = g x) \<Longrightarrow> mapE f xs = mapE g ys"
  by (induction ys arbitrary: xs) auto

lemma foldE_append: "foldE f s (xs @ ys) = bindE (foldE f s xs) (\<lambda>t. foldE f t ys)"
  by (induction xs arbitrary: s) auto

text \<open>The invariant rule for a loop that returned.\<close>

lemma foldE_invariant:
  assumes "foldE f s xs = Inr t" and "P s"
    and "\<And>s x s'. x \<in> set xs \<Longrightarrow> P s \<Longrightarrow> f s x = Inr s' \<Longrightarrow> P s'"
  shows "P t"
  using assms
proof (induction xs arbitrary: s)
  case (Cons x xs)
  then obtain s' where "f s x = Inr s'" "foldE f s' xs = Inr t"
    by (auto simp: res_simps)
  with Cons show ?case by (meson list.set_intros)
qed simp

text \<open>A loop that only checks.\<close>

lemma foldE_unit: "foldE (\<lambda>_ x. f x) () xs = Inr u \<longleftrightarrow> (\<forall>x \<in> set xs. f x = Inr ())"
  by (induction xs) (auto simp: bindE_Inr_iff)

lemma mapE_Inr_iff: "mapE f xs = Inr ys \<longleftrightarrow> list_all2 (\<lambda>x y. f x = Inr y) xs ys"
proof (induction xs arbitrary: ys)
  case Nil
  then show ?case by auto
next
  case (Cons x xs)
  then show ?case by (cases ys) (auto simp: res_simps)
qed

lemma mapE_member: "mapE f xs = Inr ys \<Longrightarrow> y \<in> set ys \<Longrightarrow> \<exists>x \<in> set xs. f x = Inr y"
  by (induction xs arbitrary: ys) (auto simp: bindE_Inr_iff)

lemma mapE_map_Inr: "(\<And>x. x \<in> set xs \<Longrightarrow> f x = Inr (g x)) \<Longrightarrow> mapE f xs = Inr (map g xs)"
  by (induction xs) auto

lemma list_all2_set2: "list_all2 P xs ys \<Longrightarrow> y \<in> set ys \<Longrightarrow> \<exists>x \<in> set xs. P x y"
  by (induction rule: list_all2_induct) auto

section \<open>Characters and strings\<close>

abbreviation ord_char :: "char \<Rightarrow> nat" where
  "ord_char c \<equiv> of_char c"

definition is_digit :: "char \<Rightarrow> bool" where
  "is_digit c \<longleftrightarrow> 48 \<le> ord_char c \<and> ord_char c \<le> 57"

definition digit_val :: "char \<Rightarrow> nat" where
  "digit_val c = ord_char c - 48"

definition digit_char :: "nat \<Rightarrow> char" where
  "digit_char d = char_of (48 + d)"

lemma ord_digit_char: "d < 10 \<Longrightarrow> ord_char (digit_char d) = 48 + d"
  by (simp add: digit_char_def)

lemma digit_char_props [simp]:
  "d < 10 \<Longrightarrow> is_digit (digit_char d)"
  "d < 10 \<Longrightarrow> digit_val (digit_char d) = d"
  by (simp_all add: is_digit_def digit_val_def ord_digit_char)

definition lower_char :: "char \<Rightarrow> char" where
  "lower_char c = (if 65 \<le> ord_char c \<and> ord_char c \<le> 90 then char_of (ord_char c + 32) else c)"

definition py_lower :: "string \<Rightarrow> string" where
  "py_lower s = map lower_char s"

lemma lower_char_idem [simp]: "lower_char (lower_char c) = lower_char c"
  by (auto simp: lower_char_def)

lemma py_lower_idem [simp]: "py_lower (py_lower s) = py_lower s"
  by (simp add: py_lower_def)

lemma length_py_lower [simp]: "length (py_lower s) = length s"
  by (simp add: py_lower_def)

text \<open>\<open>str.isalnum\<close> per character, on ASCII; a byte of a non-ASCII code point counts as a letter.\<close>

definition is_alnum :: "char \<Rightarrow> bool" where
  "is_alnum c \<longleftrightarrow> is_digit c \<or> 65 \<le> ord_char c \<and> ord_char c \<le> 90
     \<or> 97 \<le> ord_char c \<and> ord_char c \<le> 122 \<or> 128 \<le> ord_char c"

definition starts_with :: "string \<Rightarrow> string \<Rightarrow> bool" where
  "starts_with s p \<longleftrightarrow> take (length p) s = p"

fun join :: "string \<Rightarrow> string list \<Rightarrow> string" where
  "join sep [] = []"
| "join sep [x] = x"
| "join sep (x # y # zs) = x @ sep @ join sep (y # zs)"

lemma join_Cons: "join sep (x # xs) = (if xs = [] then x else x @ sep @ join sep xs)"
  by (cases xs) auto

text \<open>\<open>k in s\<close> on strings.\<close>

definition py_contains :: "string \<Rightarrow> string \<Rightarrow> bool" where
  "py_contains s k = list_ex (\<lambda>i. take (length k) (drop i s) = k) [0..<Suc (length s)]"

text \<open>\<open>str.splitlines()\<close>: LF, CR, CR LF, VT, FF, FS, GS, RS, NEL (U+0085), U+2028 and U+2029 end a line. The
  length in bytes of the line end that a text starts with:\<close>

definition line_break :: "string \<Rightarrow> nat" where
  "line_break s = (case s of
       [] \<Rightarrow> 0
     | c # cs \<Rightarrow>
         (if ord_char c = 13 then (if starts_with cs [CHR 0x0A] then 2 else 1)
          else if ord_char c \<in> {10, 11, 12, 28, 29, 30} then 1
          else if ord_char c = 194 \<and> starts_with cs [CHR 0x85] then 2
          else if ord_char c = 226 \<and> (starts_with cs [CHR 0x80, CHR 0xA8] \<or> starts_with cs [CHR 0x80, CHR 0xA9]) then 3
          else 0))"

function splitlines_from :: "string \<Rightarrow> string \<Rightarrow> string list" where
  "splitlines_from acc s = (case s of
       [] \<Rightarrow> if acc = [] then [] else [rev acc]
     | c # cs \<Rightarrow>
         (if line_break s = 0 then splitlines_from (c # acc) cs
          else rev acc # splitlines_from [] (drop (line_break s - 1) cs)))"
  by pat_completeness auto
termination
  by (relation "measure (\<lambda>(acc, s). length s)") auto

declare splitlines_from.simps [simp del]

definition py_splitlines :: "string \<Rightarrow> string list" where
  "py_splitlines s = splitlines_from [] s"

section \<open>Integers and their decimal text\<close>

fun dec_nat :: "nat \<Rightarrow> string" where
  "dec_nat n = (if n < 10 then [digit_char n] else dec_nat (n div 10) @ [digit_char (n mod 10)])"

declare dec_nat.simps [simp del]

lemma dec_nat_small [simp]: "n < 10 \<Longrightarrow> dec_nat n = [digit_char n]"
  by (simp add: dec_nat.simps)

lemma dec_nat_large: "10 \<le> n \<Longrightarrow> dec_nat n = dec_nat (n div 10) @ [digit_char (n mod 10)]"
  by (simp add: dec_nat.simps)

lemma dec_nat_nonempty [simp]: "dec_nat n \<noteq> []"
  by (cases "n < 10") (simp_all add: dec_nat_large)

lemma dec_nat_digits: "c \<in> set (dec_nat n) \<Longrightarrow> is_digit c"
proof (induction n rule: dec_nat.induct)
  case (1 n)
  show ?case
  proof (cases "n < 10")
    case True
    with 1 show ?thesis by simp
  next
    case False
    with 1 show ?thesis by (auto simp: dec_nat_large)
  qed
qed

definition py_str_int :: "int \<Rightarrow> string" where
  "py_str_int i = (if i < 0 then CHR ''-'' # dec_nat (nat (- i)) else dec_nat (nat i))"

text \<open>Digits with single underscores between them, as \<open>int(s)\<close> accepts.\<close>

fun parse_digits :: "nat \<Rightarrow> bool \<Rightarrow> string \<Rightarrow> nat option" where
  "parse_digits acc ok [] = (if ok then Some acc else None)"
| "parse_digits acc ok (c # cs) =
     (if is_digit c then parse_digits (10 * acc + digit_val c) True cs
      else if c = CHR ''_'' \<and> ok then parse_digits acc False cs
      else None)"

definition is_space :: "char \<Rightarrow> bool" where
  "is_space c \<longleftrightarrow> 9 \<le> ord_char c \<and> ord_char c \<le> 13 \<or> 28 \<le> ord_char c \<and> ord_char c \<le> 32"

text \<open>The tests of characters as conditions on their bits, for evaluation: the comparison of character codes
  counts in unary.\<close>

lemma lower_char_bits [code]:
  "lower_char (Char a b c d e f g h) =
     Char a b c d e (f \<or> g \<and> \<not> h \<and> (a \<or> b \<or> c \<or> d \<or> e) \<and> \<not> (e \<and> d \<and> (c \<or> a \<and> b))) g h"
  by (cases a; cases b; cases c; cases d; cases e; cases f; cases g; cases h; simp add: lower_char_def char_of_def bit_1_iff bit_Suc_0_iff)

lemma is_digit_bits [code]:
  "is_digit (Char a b c d e f g h) \<longleftrightarrow> \<not> h \<and> \<not> g \<and> f \<and> e \<and> (\<not> d \<or> \<not> c \<and> \<not> b)"
  by (cases a; cases b; cases c; cases d; cases e; cases f; cases g; cases h; simp add: is_digit_def)

lemma is_alnum_bits [code]:
  "is_alnum (Char a b c d e f g h) \<longleftrightarrow>
     h \<or> is_digit (Char a b c d e f g h) \<or> g \<and> (a \<or> b \<or> c \<or> d \<or> e) \<and> \<not> (e \<and> d \<and> (c \<or> a \<and> b))"
  by (cases a; cases b; cases c; cases d; cases e; cases f; cases g; cases h; simp add: is_alnum_def is_digit_def)

lemma is_space_bits [code]:
  "is_space (Char a b c d e f g h) \<longleftrightarrow> \<not> h \<and> \<not> g \<and>
     (if f then \<not> (a \<or> b \<or> c \<or> d \<or> e) else d \<and> (if e then c else (a \<or> b \<or> c) \<and> \<not> (b \<and> c)))"
  by (cases a; cases b; cases c; cases d; cases e; cases f; cases g; cases h; simp add: is_space_def)

definition py_strip :: "string \<Rightarrow> string" where
  "py_strip s = rev (dropWhile is_space (rev (dropWhile is_space s)))"

definition py_int_str :: "string \<Rightarrow> int option" where
  "py_int_str s = (case py_strip s of
       [] \<Rightarrow> None
     | c # cs \<Rightarrow>
         (if c = CHR ''-'' then map_option (\<lambda>n. - int n) (parse_digits 0 False cs)
          else if c = CHR ''+'' then map_option int (parse_digits 0 False cs)
          else map_option int (parse_digits 0 False (c # cs))))"

lemma parse_digits_append:
  "(\<And>c. c \<in> set xs \<Longrightarrow> is_digit c) \<Longrightarrow> xs \<noteq> [] \<Longrightarrow> parse_digits acc ok xs = Some n \<Longrightarrow>
   parse_digits acc ok (xs @ ys) = parse_digits n True ys"
proof (induction xs arbitrary: acc ok)
  case (Cons x xs)
  then show ?case by (cases "xs = []") auto
qed simp

lemma parse_digits_dec_nat: "parse_digits 0 ok (dec_nat n) = Some n"
proof (induction n arbitrary: ok rule: dec_nat.induct)
  case (1 n)
  show ?case
  proof (cases "n < 10")
    case True
    then show ?thesis by simp
  next
    case False
    with 1 have "parse_digits 0 ok (dec_nat (n div 10)) = Some (n div 10)" by blast
    then have "parse_digits 0 ok (dec_nat (n div 10) @ [digit_char (n mod 10)])
        = parse_digits (n div 10) True [digit_char (n mod 10)]"
      by (intro parse_digits_append) (auto dest: dec_nat_digits)
    with False show ?thesis by (simp add: dec_nat_large)
  qed
qed

lemma strip_nonspace: "(\<And>c. c \<in> set s \<Longrightarrow> \<not> is_space c) \<Longrightarrow> py_strip s = s"
proof -
  assume *: "\<And>c. c \<in> set s \<Longrightarrow> \<not> is_space c"
  have "dropWhile is_space t = t" if "\<And>c. c \<in> set t \<Longrightarrow> \<not> is_space c" for t
    using that by (cases t) auto
  from this [of s] this [of "rev s"] * show ?thesis by (simp add: py_strip_def)
qed

lemma digit_not_space: "is_digit c \<Longrightarrow> \<not> is_space c"
  by (auto simp: is_digit_def is_space_def)

lemma dec_nat_nonspace: "c \<in> set (dec_nat n) \<Longrightarrow> \<not> is_space c"
  by (blast dest: dec_nat_digits digit_not_space)

text \<open>\<open>int(str(i)) == i\<close>.\<close>

lemma py_int_str_of_int [simp]: "py_int_str (py_str_int i) = Some i"
proof -
  have sp: "py_strip (dec_nat n) = dec_nat n" "py_strip (CHR ''-'' # dec_nat n) = CHR ''-'' # dec_nat n" for n
    by (rule strip_nonspace, auto dest: dec_nat_nonspace simp: is_space_def [of "CHR ''-''"])+
  obtain c cs where c: "dec_nat (nat i) = c # cs"
    by (cases "dec_nat (nat i)") auto
  then have "is_digit c" using dec_nat_digits [of c "nat i"] by simp
  then have "c \<noteq> CHR ''-''" "c \<noteq> CHR ''+''" by (auto simp: is_digit_def)
  with c sp [of "nat i"] sp [of "nat (- i)"] show ?thesis
    using parse_digits_dec_nat [of False "nat i"]
    by (auto simp: py_int_str_def py_str_int_def parse_digits_dec_nat)
qed

lemma py_str_int_inject [simp]: "py_str_int i = py_str_int j \<longleftrightarrow> i = j"
  by (metis option.inject py_int_str_of_int)

end
