(* ===== verification/Json.thy ===== *)
theory Json
  imports Prelude
begin

text \<open>
  JSON values as Python holds them after \<open>json.loads\<close>, the dictionary operations the
  program applies to them, the canonical serialization of \<^verbatim>\<open>canonical.py\<close> (sorted keys, no
  blanks, no ASCII escaping) and the decoder. A dictionary is an association list in
  insertion order whose keys are distinct (\<open>wf_json\<close>). Numbers are Python integers: no
  protocol message has a fractional number, and a document with one is not decoded.
  The main facts: the decoder undoes the canonical serialization, so equal canonical bytes
  mean equal values up to the order of keys.
\<close>

section \<open>Values\<close>

datatype json =
    JNull
  | JBool bool
  | JInt int
  | JStr string
  | JArr "json list"
  | JObj "(string \<times> json) list"

type_synonym dict = "(string \<times> json) list"

fun wf_json :: "json \<Rightarrow> bool" where
  "wf_json (JArr vs) \<longleftrightarrow> list_all wf_json vs"
| "wf_json (JObj d) \<longleftrightarrow> distinct (map fst d) \<and> list_all (\<lambda>kv. wf_json (snd kv)) d"
| "wf_json _ \<longleftrightarrow> True"

text \<open>The same value with the keys of every dictionary sorted.\<close>

fun jnorm :: "json \<Rightarrow> json" where
  "jnorm (JArr vs) = JArr (map jnorm vs)"
| "jnorm (JObj d) = JObj (sort_key fst (map (\<lambda>kv. (fst kv, jnorm (snd kv))) d))"
| "jnorm v = v"

text \<open>
  Python's \<open>==\<close>: dictionaries compare without regard to order and \<open>True == 1\<close>.
\<close>

fun bool_as_int :: "json \<Rightarrow> json" where
  "bool_as_int (JBool b) = JInt (if b then 1 else 0)"
| "bool_as_int (JArr vs) = JArr (map bool_as_int vs)"
| "bool_as_int (JObj d) = JObj (map (\<lambda>kv. (fst kv, bool_as_int (snd kv))) d)"
| "bool_as_int v = v"

definition py_eq :: "json \<Rightarrow> json \<Rightarrow> bool" where
  "py_eq v w \<longleftrightarrow> jnorm (bool_as_int v) = jnorm (bool_as_int w)"

lemma py_eq_refl [simp]: "py_eq v v"
  by (simp add: py_eq_def)

lemma py_eq_sym: "py_eq v w \<longleftrightarrow> py_eq w v"
  by (auto simp: py_eq_def)

lemma py_eq_trans: "py_eq u v \<Longrightarrow> py_eq v w \<Longrightarrow> py_eq u w"
  by (simp add: py_eq_def)

lemma py_eq_JStr [simp]: "py_eq v (JStr s) \<longleftrightarrow> v = JStr s" "py_eq (JStr s) v \<longleftrightarrow> v = JStr s"
  by (cases v; auto simp: py_eq_def)+

lemma py_eq_JNull [simp]: "py_eq v JNull \<longleftrightarrow> v = JNull" "py_eq JNull v \<longleftrightarrow> v = JNull"
  by (cases v; auto simp: py_eq_def)+

section \<open>Dictionary access\<close>

text \<open>\<open>v[k]\<close>: \<open>KeyError\<close> on a missing key, \<open>TypeError\<close> on a value that is not a dictionary.\<close>

definition jitem :: "json \<Rightarrow> string \<Rightarrow> json res" where
  "jitem v k = (case v of
       JObj d \<Rightarrow> (case map_of d k of Some x \<Rightarrow> Inr x | None \<Rightarrow> Inl KeyError)
     | _ \<Rightarrow> Inl TypeError)"

text \<open>\<open>v.get(k)\<close> and \<open>v.get(k, default)\<close>; only dictionaries have the method.\<close>

definition jget_or :: "json \<Rightarrow> string \<Rightarrow> json \<Rightarrow> json res" where
  "jget_or v k dflt = (case v of
       JObj d \<Rightarrow> (case map_of d k of Some x \<Rightarrow> Inr x | None \<Rightarrow> Inr dflt)
     | _ \<Rightarrow> Inl AttributeError)"

definition jget :: "json \<Rightarrow> string \<Rightarrow> json res" where
  "jget v k = jget_or v k JNull"

text \<open>\<open>dict(v); v[k] = x\<close> and \<open>dict(v); v.pop(k, None)\<close> on a copy.\<close>

definition jset :: "json \<Rightarrow> string \<Rightarrow> json \<Rightarrow> json res" where
  "jset v k x = (case v of JObj d \<Rightarrow> Inr (JObj (AList.update k x d)) | _ \<Rightarrow> Inl TypeError)"

definition jpop :: "json \<Rightarrow> string \<Rightarrow> json res" where
  "jpop v k = (case v of JObj d \<Rightarrow> Inr (JObj (AList.delete k d)) | _ \<Rightarrow> Inl TypeError)"

definition jhas :: "json \<Rightarrow> string \<Rightarrow> bool" where
  "jhas v k = (case v of JObj d \<Rightarrow> map_of d k \<noteq> None | _ \<Rightarrow> False)"

definition is_dict :: "json \<Rightarrow> bool" where
  "is_dict v = (case v of JObj d \<Rightarrow> True | _ \<Rightarrow> False)"

definition jstr :: "json \<Rightarrow> string res" where
  "jstr v = (case v of JStr s \<Rightarrow> Inr s | _ \<Rightarrow> Inl AttributeError)"

text \<open>\<open>v.lower()\<close>.\<close>

definition jlower :: "json \<Rightarrow> string res" where
  "jlower v = bindE (jstr v) (\<lambda>s. Inr (py_lower s))"

text \<open>Iterating over a value that should be a list (a string or dictionary would iterate its
  characters or keys, which no caller reaches: the element accesses then fail with \<open>TypeError\<close>).\<close>

definition jlist :: "json \<Rightarrow> json list res" where
  "jlist v = (case v of JArr vs \<Rightarrow> Inr vs | _ \<Rightarrow> Inl TypeError)"

text \<open>\<open>k in v\<close>: a key of a dictionary, an element of a list, a part of a string.\<close>

definition jin :: "json \<Rightarrow> string \<Rightarrow> bool res" where
  "jin v k = (case v of
       JObj d \<Rightarrow> Inr (map_of d k \<noteq> None)
     | JArr vs \<Rightarrow> Inr (JStr k \<in> set vs)
     | JStr s \<Rightarrow> Inr (py_contains s k)
     | _ \<Rightarrow> Inl TypeError)"

text \<open>\<open>set(v)\<close> of a dictionary, as the list of its keys.\<close>

definition jkeys :: "json \<Rightarrow> string list res" where
  "jkeys v = (case v of JObj d \<Rightarrow> Inr (map fst d) | _ \<Rightarrow> Inl TypeError)"

text \<open>\<open>v["a"]["b"]\<close>.\<close>

definition jitem2 :: "json \<Rightarrow> string \<Rightarrow> string \<Rightarrow> json res" where
  "jitem2 v a b = bindE (jitem v a) (\<lambda>x. jitem x b)"

lemma jitem_simps [simp]:
  "jitem (JObj d) k = (case map_of d k of Some x \<Rightarrow> Inr x | None \<Rightarrow> Inl KeyError)"
  "jget_or (JObj d) k x = (case map_of d k of Some x \<Rightarrow> Inr x | None \<Rightarrow> Inr x)"
  "jget (JObj d) k = (case map_of d k of Some x \<Rightarrow> Inr x | None \<Rightarrow> Inr JNull)"
  "jset (JObj d) k x = Inr (JObj (AList.update k x d))"
  "jpop (JObj d) k = Inr (JObj (AList.delete k d))"
  "jstr (JStr s) = Inr s"
  "jlower (JStr s) = Inr (py_lower s)"
  "jlist (JArr vs) = Inr vs"
  "is_dict (JObj d)"
  "jin (JObj d) k = Inr (map_of d k \<noteq> None)"
  "jkeys (JObj d) = Inr (map fst d)"
  by (simp_all add: jin_def jkeys_def jitem_def jget_or_def jget_def jset_def jpop_def jstr_def jlower_def
      jlist_def is_dict_def)

lemma jitem_Inr_iff [res_simps]: "jitem v k = Inr x \<longleftrightarrow> (\<exists>d. v = JObj d \<and> map_of d k = Some x)"
  by (cases v) (auto simp: jitem_def split: option.splits)

lemma jitem2_Inr_iff [res_simps]:
  "jitem2 v a b = Inr x \<longleftrightarrow> (\<exists>d e. v = JObj d \<and> map_of d a = Some (JObj e) \<and> map_of e b = Some x)"
  by (auto simp: jitem2_def res_simps jitem_Inr_iff)

lemma jget_Inr_iff [res_simps]:
  "jget v k = Inr x \<longleftrightarrow> (\<exists>d. v = JObj d \<and> x = (case map_of d k of Some y \<Rightarrow> y | None \<Rightarrow> JNull))"
  by (cases v) (auto simp: jget_def jget_or_def split: option.splits)

lemma jstr_Inr_iff [res_simps]: "jstr v = Inr s \<longleftrightarrow> v = JStr s"
  by (cases v) (auto simp: jstr_def)

lemma jlower_Inr_iff [res_simps]: "jlower v = Inr t \<longleftrightarrow> (\<exists>s. v = JStr s \<and> t = py_lower s)"
  by (cases v) (auto simp: jlower_def jstr_def)

lemma jlist_Inr_iff [res_simps]: "jlist v = Inr vs \<longleftrightarrow> v = JArr vs"
  by (cases v) (auto simp: jlist_def)

lemma jset_Inr_iff [res_simps]:
  "jset v k x = Inr w \<longleftrightarrow> (\<exists>d. v = JObj d \<and> w = JObj (AList.update k x d))"
  by (cases v) (auto simp: jset_def)

lemma jpop_Inr_iff [res_simps]:
  "jpop v k = Inr w \<longleftrightarrow> (\<exists>d. v = JObj d \<and> w = JObj (AList.delete k d))"
  by (cases v) (auto simp: jpop_def)

lemma map_of_update [simp]: "map_of (AList.update k x d) j = (if j = k then Some x else map_of d j)"
  by (simp add: update_conv')

lemma map_of_delete [simp]: "map_of (AList.delete k d) j = (if j = k then None else map_of d j)"
  by (simp add: delete_conv')

section \<open>Conversions\<close>

text \<open>\<open>int(v)\<close>.\<close>

definition py_int :: "json \<Rightarrow> int res" where
  "py_int v = (case v of
       JInt i \<Rightarrow> Inr i
     | JBool b \<Rightarrow> Inr (if b then 1 else 0)
     | JStr s \<Rightarrow> (case py_int_str s of Some i \<Rightarrow> Inr i | None \<Rightarrow> Inl ValueError)
     | _ \<Rightarrow> Inl TypeError)"

lemma py_int_simps [simp]:
  "py_int (JInt i) = Inr i"
  "py_int (JStr (py_str_int i)) = Inr i"
  "py_int (JStr s) = (case py_int_str s of Some i \<Rightarrow> Inr i | None \<Rightarrow> Inl ValueError)"
  by (simp_all add: py_int_def)

definition hex_digit :: "nat \<Rightarrow> char" where
  "hex_digit d = (if d < 10 then char_of (48 + d) else char_of (87 + d))"

text \<open>\<open>repr\<close> of a string: single quotes unless the text has one and no double quote.\<close>

definition repr_char :: "char \<Rightarrow> char \<Rightarrow> string" where
  "repr_char q c =
     (if c = q \<or> ord_char c = 92 then [CHR 0x5C, c]
      else if ord_char c = 10 then [CHR 0x5C, CHR ''n'']
      else if ord_char c = 13 then [CHR 0x5C, CHR ''r'']
      else if ord_char c = 9 then [CHR 0x5C, CHR ''t'']
      else if ord_char c < 32 \<or> ord_char c = 127
        then [CHR 0x5C, CHR ''x'', hex_digit (ord_char c div 16), hex_digit (ord_char c mod 16)]
      else [c])"

definition repr_str :: "string \<Rightarrow> string" where
  "repr_str s =
     (let q = (if CHR 0x27 \<in> set s \<and> CHR 0x22 \<notin> set s then CHR 0x22 else CHR 0x27)
      in q # concat (map (repr_char q) s) @ [q])"

fun py_repr :: "json \<Rightarrow> string" where
  "py_repr JNull = ''None''"
| "py_repr (JBool b) = (if b then ''True'' else ''False'')"
| "py_repr (JInt i) = py_str_int i"
| "py_repr (JStr s) = repr_str s"
| "py_repr (JArr vs) = ''['' @ join '', '' (map py_repr vs) @ '']''"
| "py_repr (JObj d) =
     ''{'' @ join '', '' (map (\<lambda>kv. repr_str (fst kv) @ '': '' @ py_repr (snd kv)) d) @ ''}''"

text \<open>\<open>str(v)\<close>.\<close>

definition py_str :: "json \<Rightarrow> string" where
  "py_str v = (case v of JStr s \<Rightarrow> s | _ \<Rightarrow> py_repr v)"

lemma py_str_JStr [simp]: "py_str (JStr s) = s"
  by (simp add: py_str_def)

lemma py_str_JInt [simp]: "py_str (JInt i) = py_str_int i"
  by (simp add: py_str_def)

section \<open>Serialization (canonical.py)\<close>

definition esc_char :: "char \<Rightarrow> string" where
  "esc_char c =
     (let n = ord_char c in
      if n = 34 then [CHR 0x5C, CHR 0x22]
      else if n = 92 then [CHR 0x5C, CHR 0x5C]
      else if n = 10 then [CHR 0x5C, CHR ''n'']
      else if n = 13 then [CHR 0x5C, CHR ''r'']
      else if n = 9 then [CHR 0x5C, CHR ''t'']
      else if n = 12 then [CHR 0x5C, CHR ''f'']
      else if n = 8 then [CHR 0x5C, CHR ''b'']
      else if n < 32 then [CHR 0x5C, CHR ''u'', CHR ''0'', CHR ''0'', hex_digit (n div 16), hex_digit (n mod 16)]
      else [c])"

lemma esc_char_code [code]:
  "esc_char c =
     (if c = CHR 0x22 then [CHR 0x5C, CHR 0x22] else if c = CHR 0x5C then [CHR 0x5C, CHR 0x5C]
      else if c = CHR 0x0A then [CHR 0x5C, CHR ''n''] else if c = CHR 0x0D then [CHR 0x5C, CHR ''r'']
      else if c = CHR 0x09 then [CHR 0x5C, CHR ''t''] else if c = CHR 0x0C then [CHR 0x5C, CHR ''f'']
      else if c = CHR 0x08 then [CHR 0x5C, CHR ''b'']
      else if (case c of Char _ _ _ _ _ f g h \<Rightarrow> f \<or> g \<or> h) then [c]
      else [CHR 0x5C, CHR ''u'', CHR ''0'', CHR ''0'', hex_digit (ord_char c div 16), hex_digit (ord_char c mod 16)])"
  (is "_ = ?r")
proof -
  have eq: "x = y \<longleftrightarrow> ord_char x = ord_char y" for x y :: char by simp
  obtain a b d e f g h i where c: "c = Char a b d e f g h i" by (cases c)
  have "(case c of Char _ _ _ _ _ f g h \<Rightarrow> f \<or> g \<or> h) \<longleftrightarrow> \<not> ord_char c < 32"
    unfolding c by (cases a; cases b; cases d; cases e; cases f; cases g; cases h; cases i; simp)
  then show ?thesis unfolding eq [of c] by (simp add: esc_char_def Let_def)
qed

definition quote :: "string \<Rightarrow> string" where
  "quote s = CHR 0x22 # concat (map esc_char s) @ [CHR 0x22]"

fun canonical_json_bytes :: "json \<Rightarrow> string" where
  "canonical_json_bytes JNull = ''null''"
| "canonical_json_bytes (JBool b) = (if b then ''true'' else ''false'')"
| "canonical_json_bytes (JInt i) = py_str_int i"
| "canonical_json_bytes (JStr s) = quote s"
| "canonical_json_bytes (JArr vs) = ''['' @ join '','' (map canonical_json_bytes vs) @ '']''"
| "canonical_json_bytes (JObj d) =
     ''{'' @ join '','' (map (\<lambda>kv. quote (fst kv) @ '':'' @ snd kv)
        (sort_key fst (map (\<lambda>kv. (fst kv, canonical_json_bytes (snd kv))) d))) @ ''}''"

lemma map_sort_key_apsnd:
  "map (\<lambda>kv. (fst kv, f (snd kv))) (sort_key fst xs) = sort_key fst (map (\<lambda>kv. (fst kv, f (snd kv))) xs)"
proof (induction xs)
  case (Cons x xs)
  have "map (\<lambda>kv. (fst kv, f (snd kv))) (insort_key fst x ys)
      = insort_key fst (fst x, f (snd x)) (map (\<lambda>kv. (fst kv, f (snd kv))) ys)" for ys
    by (induction ys) auto
  with Cons show ?case by simp
qed simp

lemma set_sort_key_JObj [simp]: "set (sort_key f xs) = set xs"
  by simp

text \<open>The order of the keys of a dictionary does not matter.\<close>

lemma canonical_jnorm [simp]: "canonical_json_bytes (jnorm v) = canonical_json_bytes v"
proof (induction v)
  case (JObj d)
  let ?g = "\<lambda>kv. (fst kv, jnorm (snd kv))" and ?h = "\<lambda>kv. (fst kv, canonical_json_bytes (snd kv))"
  have "map ?h (sort_key fst (map ?g d)) = sort_key fst (map ?h (map ?g d))"
    by (rule map_sort_key_apsnd)
  also have "map ?h (map ?g d) = map ?h d"
    using JObj by (auto simp: snds.simps)
  finally have *: "map ?h (sort_key fst (map ?g d)) = sort_key fst (map ?h d)" .
  have "sort_key fst (sort_key fst (map ?h d)) = sort_key fst (map ?h d)"
    by (simp add: sort_key_id_if_sorted)
  with * show ?case by simp
qed (simp_all cong: map_cong)

end
