(* ===== verification/JsonDecode.thy ===== *)
theory JsonDecode
  imports Json
begin

text \<open>
  \<open>json.loads\<close> of the Python standard library: blanks, literals, integers, strings with
  their escapes (\<open>\uXXXX\<close> is stored as UTF-8, surrogate pairs are combined), arrays and
  objects (a repeated key keeps its last value). A fractional number or a lone surrogate is
  not decoded, as \<^theory_text>\<open>Json\<close> says. The recursion is on a fuel that \<open>json_loads\<close> sets to one
  more than the length of the text; \<open>json_loads_canonical\<close> shows that it is enough for
  every text the program writes.
\<close>

section \<open>The decoder\<close>

definition json_space :: "char \<Rightarrow> bool" where
  "json_space c \<longleftrightarrow> ord_char c = 32 \<or> ord_char c = 9 \<or> ord_char c = 10 \<or> ord_char c = 13"

definition skip_ws :: "string \<Rightarrow> string" where
  "skip_ws s = dropWhile json_space s"

definition hex_val :: "char \<Rightarrow> nat option" where
  "hex_val c = (if is_digit c then Some (digit_val c)
     else if 97 \<le> ord_char c \<and> ord_char c \<le> 102 then Some (ord_char c - 87)
     else if 65 \<le> ord_char c \<and> ord_char c \<le> 70 then Some (ord_char c - 55)
     else None)"

definition hex4 :: "char \<Rightarrow> char \<Rightarrow> char \<Rightarrow> char \<Rightarrow> nat option" where
  "hex4 a b c d = (case (hex_val a, hex_val b, hex_val c, hex_val d) of
       (Some x, Some y, Some z, Some w) \<Rightarrow> Some (4096 * x + 256 * y + 16 * z + w)
     | _ \<Rightarrow> None)"

definition utf8 :: "nat \<Rightarrow> string" where
  "utf8 n =
     (if n < 128 then [char_of n]
      else if n < 2048 then [char_of (192 + n div 64), char_of (128 + n mod 64)]
      else if n < 65536 then
        [char_of (224 + n div 4096), char_of (128 + n div 64 mod 64), char_of (128 + n mod 64)]
      else [char_of (240 + n div 262144), char_of (128 + n div 4096 mod 64),
            char_of (128 + n div 64 mod 64), char_of (128 + n mod 64)])"

definition simple_escape :: "char \<Rightarrow> char option" where
  "simple_escape c =
     (let n = ord_char c in
      if n = 34 \<or> n = 92 \<or> n = 47 then Some c
      else if n = 98 then Some (char_of (8::nat))
      else if n = 102 then Some (char_of (12::nat))
      else if n = 110 then Some (char_of (10::nat))
      else if n = 114 then Some (char_of (13::nat))
      else if n = 116 then Some (char_of (9::nat))
      else None)"

definition is_high :: "nat \<Rightarrow> bool" where
  "is_high n \<longleftrightarrow> 55296 \<le> n \<and> n < 56320"

definition is_low :: "nat \<Rightarrow> bool" where
  "is_low n \<longleftrightarrow> 56320 \<le> n \<and> n < 57344"

text \<open>The four hexadecimal digits after \<open>\u\<close>, with the low half of a surrogate pair.\<close>

definition unicode_escape :: "string \<Rightarrow> (string \<times> string) option" where
  "unicode_escape s = (case s of
       a # b # c # d # rest \<Rightarrow>
         (case hex4 a b c d of
            None \<Rightarrow> None
          | Some n \<Rightarrow>
              if is_high n then
                (case rest of
                   x # y # e # f # g # h # rest' \<Rightarrow>
                     (if ord_char x = 92 \<and> y = CHR ''u'' then
                        (case hex4 e f g h of
                           Some m \<Rightarrow> if is_low m
                             then Some (utf8 (65536 + (n - 55296) * 1024 + (m - 56320)), rest')
                             else None
                         | None \<Rightarrow> None)
                      else None)
                 | _ \<Rightarrow> None)
              else if is_low n then None
              else Some (utf8 n, rest))
     | _ \<Rightarrow> None)"

lemma unicode_escape_length: "unicode_escape s = Some (t, r) \<Longrightarrow> length r < length s"
  by (auto simp: unicode_escape_def split: list.splits option.splits if_splits)

text \<open>The text after the opening quote, up to the closing one.\<close>

function p_str :: "string \<Rightarrow> (string \<times> string) option" where
  "p_str [] = None"
| "p_str (c # cs) =
     (if ord_char c = 34 then Some ([], cs)
      else if ord_char c = 92 then
        (case cs of
           [] \<Rightarrow> None
         | e # es \<Rightarrow>
             (if e = CHR ''u'' then
                (case unicode_escape es of
                   None \<Rightarrow> None
                 | Some (t, r) \<Rightarrow> map_option (\<lambda>(u, r'). (t @ u, r')) (p_str r))
              else
                (case simple_escape e of
                   None \<Rightarrow> None
                 | Some d \<Rightarrow> map_option (\<lambda>(u, r'). (d # u, r')) (p_str es))))
      else if ord_char c < 32 then None
      else map_option (\<lambda>(u, r'). (c # u, r')) (p_str cs))"
  by pat_completeness auto
termination
  by (relation "measure length") (auto dest: unicode_escape_length)

declare p_str.simps [simp del]

fun span_digits :: "string \<Rightarrow> string \<times> string" where
  "span_digits [] = ([], [])"
| "span_digits (c # cs) =
     (if is_digit c then (case span_digits cs of (ds, r) \<Rightarrow> (c # ds, r)) else ([], c # cs))"

text \<open>\<open>0\<close> or a digit string without leading zero; a fraction or exponent is not an integer.\<close>

definition p_nat :: "string \<Rightarrow> (nat \<times> string) option" where
  "p_nat s = (case span_digits s of
       ([], r) \<Rightarrow> None
     | (d # ds, r) \<Rightarrow>
         (case (if d = CHR ''0'' then (0, ds @ r) else (the (parse_digits 0 False (d # ds)), r)) of
            (n, r') \<Rightarrow>
              (case r' of
                 c # _ \<Rightarrow> if c = CHR ''.'' \<or> c = CHR ''e'' \<or> c = CHR ''E'' then None else Some (n, r')
               | [] \<Rightarrow> Some (n, r'))))"

definition p_int :: "string \<Rightarrow> (int \<times> string) option" where
  "p_int s = (case s of
       c # cs \<Rightarrow> if c = CHR ''-'' then map_option (\<lambda>(n, r). (- int n, r)) (p_nat cs)
                 else map_option (\<lambda>(n, r). (int n, r)) (p_nat s)
     | [] \<Rightarrow> None)"

definition strip_prefix :: "string \<Rightarrow> string \<Rightarrow> string option" where
  "strip_prefix p s = (if take (length p) s = p then Some (drop (length p) s) else None)"

fun p_value :: "nat \<Rightarrow> string \<Rightarrow> (json \<times> string) option"
  and p_elems :: "nat \<Rightarrow> string \<Rightarrow> (json list \<times> string) option"
  and p_members :: "nat \<Rightarrow> string \<Rightarrow> (dict \<times> string) option" where
  "p_value 0 s = None"
| "p_value (Suc f) s =
     (case s of
        [] \<Rightarrow> None
      | c # cs \<Rightarrow>
          (if ord_char c = 34 then map_option (\<lambda>(t, r). (JStr t, r)) (p_str cs)
           else if c = CHR ''['' then
             (case skip_ws cs of
                [] \<Rightarrow> None
              | d # ds \<Rightarrow> if d = CHR '']'' then Some (JArr [], ds)
                  else map_option (\<lambda>(vs, r). (JArr vs, r)) (p_elems f (d # ds)))
           else if c = CHR ''{'' then
             (case skip_ws cs of
                [] \<Rightarrow> None
              | d # ds \<Rightarrow> if d = CHR ''}'' then Some (JObj [], ds)
                  else map_option (\<lambda>(kvs, r). (JObj (fold (\<lambda>(k, v). AList.update k v) kvs []), r))
                         (p_members f (d # ds)))
           else if is_digit c \<or> c = CHR ''-'' then map_option (\<lambda>(i, r). (JInt i, r)) (p_int s)
           else (case strip_prefix ''null'' s of
                   Some r \<Rightarrow> Some (JNull, r)
                 | None \<Rightarrow> (case strip_prefix ''true'' s of
                     Some r \<Rightarrow> Some (JBool True, r)
                   | None \<Rightarrow> map_option (\<lambda>r. (JBool False, r)) (strip_prefix ''false'' s)))))"
| "p_elems 0 s = None"
| "p_elems (Suc f) s =
     (case p_value f s of
        None \<Rightarrow> None
      | Some (v, r) \<Rightarrow>
          (case skip_ws r of
             [] \<Rightarrow> None
           | c # cs \<Rightarrow>
               (if c = CHR '']'' then Some ([v], cs)
                else if c = CHR '','' then
                  map_option (\<lambda>(vs, r'). (v # vs, r')) (p_elems f (skip_ws cs))
                else None)))"
| "p_members 0 s = None"
| "p_members (Suc f) s =
     (case s of
        [] \<Rightarrow> None
      | q # qs \<Rightarrow>
          if ord_char q \<noteq> 34 then None
          else (case p_str qs of
             None \<Rightarrow> None
           | Some (k, r) \<Rightarrow>
               (case skip_ws r of
                  [] \<Rightarrow> None
                | c # cs \<Rightarrow>
                    if c \<noteq> CHR '':'' then None
                    else (case p_value f (skip_ws cs) of
                       None \<Rightarrow> None
                     | Some (v, r') \<Rightarrow>
                         (case skip_ws r' of
                            [] \<Rightarrow> None
                          | e # es \<Rightarrow>
                              (if e = CHR ''}'' then Some ([(k, v)], es)
                               else if e = CHR '','' then
                                 map_option (\<lambda>(kvs, r''). ((k, v) # kvs, r'')) (p_members f (skip_ws es))
                               else None))))))"

definition json_loads :: "string \<Rightarrow> json option" where
  "json_loads s =
     (case p_value (Suc (length s)) (skip_ws s) of
        Some (v, r) \<Rightarrow> if skip_ws r = [] then Some v else None
      | None \<Rightarrow> None)"

section \<open>The decoder undoes the canonical serialization\<close>

subsection \<open>Strings\<close>

lemma hex_val_hex_digit: "d < 16 \<Longrightarrow> hex_val (hex_digit d) = Some d"
  by (auto simp: hex_val_def hex_digit_def is_digit_def digit_val_def)

lemma hex_val_0: "hex_val CHR ''0'' = Some 0"
  by (simp add: hex_val_def is_digit_def digit_val_def)

lemma hex4_low: "n < 32 \<Longrightarrow> hex4 CHR ''0'' CHR ''0'' (hex_digit (n div 16)) (hex_digit (n mod 16)) = Some n"
  by (simp add: hex4_def hex_val_0 hex_val_hex_digit)

lemma unicode_escape_low:
  assumes "n < 32"
  shows "unicode_escape (CHR ''0'' # CHR ''0'' # hex_digit (n div 16) # hex_digit (n mod 16) # r)
    = Some ([char_of n], r)"
proof -
  have "\<not> is_high n" "\<not> is_low n" "utf8 n = [char_of n]"
    using assms by (simp_all add: is_high_def is_low_def utf8_def)
  then show ?thesis by (simp add: unicode_escape_def hex4_low [OF assms])
qed

lemma char_of_ord: "ord_char c = n \<Longrightarrow> char_of n = c"
  by (metis char_of_char)

lemma p_str_backslash:
  "p_str (CHR 0x5C # e # es) =
     (if e = CHR ''u'' then
        (case unicode_escape es of
           None \<Rightarrow> None
         | Some (t, r) \<Rightarrow> map_option (\<lambda>(u, r'). (t @ u, r')) (p_str r))
      else
        (case simple_escape e of
           None \<Rightarrow> None
         | Some d \<Rightarrow> map_option (\<lambda>(u, r'). (d # u, r')) (p_str es)))"
  by (simp add: p_str.simps)

lemma simple_escape_simps:
  "simple_escape CHR 0x22 = Some CHR 0x22" "simple_escape CHR 0x5C = Some CHR 0x5C"
  "simple_escape CHR ''n'' = Some (char_of (10::nat))"
  "simple_escape CHR ''r'' = Some (char_of (13::nat))"
  "simple_escape CHR ''t'' = Some (char_of (9::nat))"
  "simple_escape CHR ''f'' = Some (char_of (12::nat))"
  "simple_escape CHR ''b'' = Some (char_of (8::nat))"
  by (simp_all add: simple_escape_def)

lemma p_str_esc_char: "p_str (esc_char c @ s) = map_option (\<lambda>(u, r). (c # u, r)) (p_str s)"
proof -
  have q: "c = CHR 0x22" if "ord_char c = 34" by (rule of_char_eqI [where ?'a = nat]) (simp add: that)
  have b: "c = CHR 0x5C" if "ord_char c = 92" by (rule of_char_eqI [where ?'a = nat]) (simp add: that)
  consider (q) "ord_char c = 34" | (b) "ord_char c = 92" | (1) "ord_char c \<in> {10, 13, 9, 12, 8}"
    | (2) "ord_char c < 32" "ord_char c \<notin> {34, 92, 10, 13, 9, 12, 8}"
    | (3) "\<not> ord_char c < 32" "ord_char c \<notin> {34, 92, 10, 13, 9, 12, 8}" by blast
  then show ?thesis
  proof cases
    case q
    then show ?thesis
      using \<open>ord_char c = 34 \<Longrightarrow> c = CHR 0x22\<close> by (simp add: esc_char_def p_str_backslash simple_escape_simps)
  next
    case b
    then show ?thesis
      using \<open>ord_char c = 92 \<Longrightarrow> c = CHR 0x5C\<close> by (simp add: esc_char_def p_str_backslash simple_escape_simps)
  next
    case 1
    then show ?thesis
      using char_of_ord [of c]
      by (elim insertE; simp add: esc_char_def p_str_backslash simple_escape_simps)
  next
    case 2
    then show ?thesis
      by (simp add: esc_char_def Let_def p_str_backslash unicode_escape_low)
  next
    case 3
    then show ?thesis by (simp add: esc_char_def p_str.simps)
  qed
qed

lemma p_str_quote: "p_str (concat (map esc_char s) @ CHR 0x22 # r) = Some (s, r)"
  by (induction s) (simp_all add: p_str_esc_char, simp add: p_str.simps)

subsection \<open>Integers\<close>

text \<open>What may follow a value in a serialized text.\<close>

definition delim :: "string \<Rightarrow> bool" where
  "delim r \<longleftrightarrow> r = [] \<or> hd r \<in> {CHR '','', CHR '']'', CHR ''}'', CHR '' '', CHR 0x0A}"

lemma delim_simps [simp]:
  "delim []" "delim (CHR '','' # r)" "delim (CHR '']'' # r)" "delim (CHR ''}'' # r)"
  by (simp_all add: delim_def)

lemma span_digits_append:
  "(\<And>c. c \<in> set ds \<Longrightarrow> is_digit c) \<Longrightarrow> r = [] \<or> \<not> is_digit (hd r) \<Longrightarrow> span_digits (ds @ r) = (ds, r)"
proof (induction ds)
  case Nil
  then show ?case by (cases r) auto
qed simp

lemma hd_dec_nat: "0 < n \<Longrightarrow> hd (dec_nat n) \<noteq> CHR ''0''"
proof (induction n rule: dec_nat.induct)
  case (1 n)
  show ?case
  proof (cases "n < 10")
    case True
    have "digit_char n \<noteq> CHR ''0''"
    proof
      assume "digit_char n = CHR ''0''"
      then have "ord_char (digit_char n) = 48" by simp
      with True 1 show False by (simp add: ord_digit_char)
    qed
    with True show ?thesis by simp
  next
    case False
    with 1 show ?thesis by (simp add: dec_nat_large)
  qed
qed

lemma p_nat_dec:
  assumes "delim r"
  shows "p_nat (dec_nat n @ r) = Some (n, r)"
proof -
  have r: "r = [] \<or> \<not> is_digit (hd r)" "\<And>c cs. r = c # cs \<Longrightarrow> c \<noteq> CHR ''.'' \<and> c \<noteq> CHR ''e'' \<and> c \<noteq> CHR ''E''"
    using assms by (auto simp: delim_def is_digit_def)
  have sp: "span_digits (dec_nat n @ r) = (dec_nat n, r)"
    using r(1) by (intro span_digits_append) (auto dest: dec_nat_digits)
  obtain d ds where d: "dec_nat n = d # ds" by (cases "dec_nat n") auto
  have z: "d = CHR ''0'' \<Longrightarrow> n = 0 \<and> ds = []"
    using hd_dec_nat [of n] d by (cases "n = 0") auto
  have "parse_digits 0 False (d # ds) = Some n"
    using parse_digits_dec_nat [of False n] d by simp
  with sp d z r(2) show ?thesis
    by (auto simp: p_nat_def split: list.splits)
qed

lemma p_int_str:
  assumes "delim r"
  shows "p_int (py_str_int i @ r) = Some (i, r)"
proof -
  obtain d ds where d: "dec_nat (nat i) = d # ds" by (cases "dec_nat (nat i)") auto
  then have "d \<noteq> CHR ''-''" using dec_nat_digits [of d "nat i"] by (auto simp: is_digit_def)
  with d p_nat_dec [OF assms, of "nat i"] p_nat_dec [OF assms, of "nat (- i)"]
  show ?thesis by (auto simp: p_int_def py_str_int_def)
qed

lemma hd_py_str_int: "\<exists>c cs. py_str_int i = c # cs \<and> (is_digit c \<or> c = CHR ''-'')"
proof (cases "i < 0")
  case False
  obtain d ds where d: "dec_nat (nat i) = d # ds" by (cases "dec_nat (nat i)") auto
  with False dec_nat_digits [of d "nat i"] show ?thesis by (simp add: py_str_int_def)
qed (simp add: py_str_int_def)

subsection \<open>Values\<close>

text \<open>The texts that \<open>json.dumps\<close> writes: the canonical layout has nothing after a comma or a colon, the
  default a blank. \<open>json_text\<close> sorts the keys, \<open>plain_text\<close> keeps the order of the members.\<close>

fun json_text :: "string \<Rightarrow> json \<Rightarrow> string" where
  "json_text gap JNull = ''null''"
| "json_text gap (JBool b) = (if b then ''true'' else ''false'')"
| "json_text gap (JInt i) = py_str_int i"
| "json_text gap (JStr s) = quote s"
| "json_text gap (JArr vs) = ''['' @ join ('','' @ gap) (map (json_text gap) vs) @ '']''"
| "json_text gap (JObj d) =
     ''{'' @ join ('','' @ gap) (map (\<lambda>kv. quote (fst kv) @ '':'' @ gap @ snd kv)
        (sort_key fst (map (\<lambda>kv. (fst kv, json_text gap (snd kv))) d))) @ ''}''"

fun plain_text :: "string \<Rightarrow> json \<Rightarrow> string" where
  "plain_text gap JNull = ''null''"
| "plain_text gap (JBool b) = (if b then ''true'' else ''false'')"
| "plain_text gap (JInt i) = py_str_int i"
| "plain_text gap (JStr s) = quote s"
| "plain_text gap (JArr vs) = ''['' @ join ('','' @ gap) (map (plain_text gap) vs) @ '']''"
| "plain_text gap (JObj d) =
     ''{'' @ join ('','' @ gap) (map (\<lambda>kv. quote (fst kv) @ '':'' @ gap @ plain_text gap (snd kv)) d) @ ''}''"

lemma json_text_plain: "json_text gap v = plain_text gap (jnorm v)"
proof (induction v)
  case (JObj d)
  have "map (\<lambda>kv. (fst kv, json_text gap (snd kv))) d = map (\<lambda>kv. (fst kv, plain_text gap (snd kv))) (map (\<lambda>kv. (fst kv, jnorm (snd kv))) d)"
    using JObj by (auto simp: snds.simps)
  then show ?case
    by (simp only: json_text.simps jnorm.simps plain_text.simps map_sort_key_apsnd [symmetric]) (simp add: comp_def)
next
  case (JArr vs)
  then have "map (json_text gap) vs = map (plain_text gap) (map jnorm vs)" by simp
  then show ?case by (simp only: json_text.simps plain_text.simps jnorm.simps)
qed simp_all

lemma canonical_json_text: "canonical_json_bytes v = json_text [] v"
proof (induction v)
  case (JObj d)
  have "map (\<lambda>kv. (fst kv, canonical_json_bytes (snd kv))) d = map (\<lambda>kv. (fst kv, json_text [] (snd kv))) d"
    using JObj by (auto simp: snds.simps)
  then show ?case by (simp only: canonical_json_bytes.simps json_text.simps append_Nil append_Nil2)
next
  case (JArr vs)
  then have "map canonical_json_bytes vs = map (json_text []) vs" by simp
  then show ?case by (simp only: canonical_json_bytes.simps json_text.simps append_Nil2)
qed simp_all

lemma distinct_map_sort_key: "distinct (map g (sort_key f xs)) \<longleftrightarrow> distinct (map g xs)"
  by (metis mset_eq_imp_distinct_iff mset_map mset_sort)

lemma distinct_keys_norm: "distinct (map fst (sort_key fst (map (\<lambda>kv. (fst kv, f (snd kv))) d))) \<longleftrightarrow> distinct (map fst d)"
  by (simp add: distinct_map_sort_key comp_def)

lemma wf_jnorm [simp]: "wf_json v \<Longrightarrow> wf_json (jnorm v)"
proof (induction v)
  case (JObj d)
  then show ?case by (auto simp: distinct_map_sort_key comp_def list_all_iff snds.simps)
qed (auto simp: list_all_iff)

text \<open>The decoding of one value, for every fuel that exceeds the length of its text, and the members
  of a dictionary, given with the text of each value.\<close>

definition decodes :: "string \<Rightarrow> json \<Rightarrow> bool" where
  "decodes gap v \<longleftrightarrow> (\<forall>fuel r. length (plain_text gap v) < fuel \<longrightarrow> delim r \<longrightarrow>
     p_value fuel (plain_text gap v @ r) = Some (v, r))"

definition member_text :: "string \<Rightarrow> string \<times> string \<Rightarrow> string" where
  "member_text gap kv = quote (fst kv) @ '':'' @ gap @ snd kv"

lemma fold_update_distinct:
  "distinct (map fst kvs) \<Longrightarrow> (\<And>k. k \<in> fst ` set kvs \<Longrightarrow> k \<notin> fst ` set acc) \<Longrightarrow>
   fold (\<lambda>(k, v). AList.update k v) kvs acc = acc @ kvs"
proof (induction kvs arbitrary: acc)
  case (Cons kv kvs)
  obtain k v where kv: "kv = (k, v)" by (cases kv)
  have "AList.update k v acc = acc @ [(k, v)]"
    using Cons.prems(2) [of k] kv by (induction acc) auto
  moreover have "fold (\<lambda>(k, v). AList.update k v) kvs (acc @ [(k, v)]) = (acc @ [(k, v)]) @ kvs"
    using Cons.prems kv by (intro Cons.IH) auto
  ultimately show ?case using kv by simp
qed simp

locale json_layout =
  fixes gap :: string
  assumes gap_blank: "list_all json_space gap"
begin

lemma skip_gap [simp]: "skip_ws (gap @ s) = skip_ws s"
  using gap_blank by (auto simp: skip_ws_def list_all_iff dropWhile_append)


text \<open>A serialized value starts with a character that is neither blank nor a closing bracket.\<close>

lemma canonical_head:
  "\<exists>c cs. plain_text gap v = c # cs \<and> \<not> json_space c \<and> c \<noteq> CHR '']'' \<and> c \<noteq> CHR ''}''"
proof (cases v)
  case (JInt i)
  then show ?thesis using hd_py_str_int [of i] by (auto simp: json_space_def is_digit_def)
qed (auto simp: json_space_def quote_def)

lemma skip_ws_nonspace [simp]: "\<not> json_space c \<Longrightarrow> skip_ws (c # cs) = c # cs"
  by (simp add: skip_ws_def)

lemma skip_ws_Nil [simp]: "skip_ws [] = []"
  by (simp add: skip_ws_def)

lemma skip_ws_canonical [simp]: "skip_ws (plain_text gap v @ r) = plain_text gap v @ r"
  using canonical_head [of v] by auto

lemma json_space_punct [simp]:
  "\<not> json_space CHR '',''" "\<not> json_space CHR '']''" "\<not> json_space CHR ''}''" "\<not> json_space CHR '':''"
  "\<not> json_space CHR 0x22" "\<not> json_space CHR ''[''" "\<not> json_space CHR ''{''"
  by (simp_all add: json_space_def)

lemma skip_ws_quote [simp]: "skip_ws (quote s @ r) = quote s @ r"
  by (simp add: quote_def)

lemma decodesD:
  "decodes gap v \<Longrightarrow> length (plain_text gap v) < fuel \<Longrightarrow> delim r \<Longrightarrow>
   p_value fuel (plain_text gap v @ r) = Some (v, r)"
  by (simp add: decodes_def)

lemma decodesI:
  assumes "\<And>f r. length (plain_text gap v) \<le> f \<Longrightarrow> delim r \<Longrightarrow>
    p_value (Suc f) (plain_text gap v @ r) = Some (v, r)"
  shows "decodes gap v"
  unfolding decodes_def
proof (intro allI impI)
  fix fuel r
  assume "length (plain_text gap v) < fuel" "delim r"
  then show "p_value fuel (plain_text gap v @ r) = Some (v, r)"
    using assms by (cases fuel) auto
qed

lemma p_elems_join:
  assumes "\<And>v. v \<in> set vs \<Longrightarrow> decodes gap v" and "vs \<noteq> []"
    and "length (join ('','' @ gap) (map (plain_text gap) vs)) + 1 < fuel"
  shows "p_elems fuel (join ('','' @ gap) (map (plain_text gap) vs) @ '']'' @ r) = Some (vs, r)"
  using assms
proof (induction vs arbitrary: fuel)
  case (Cons v vs)
  then obtain f where f: "fuel = Suc f" by (cases fuel) auto
  show ?case
  proof (cases "vs = []")
    case True
    with Cons f have "p_value f (plain_text gap v @ CHR '']'' # r) = Some (v, CHR '']'' # r)"
      by (intro decodesD) auto
    with True f show ?thesis by simp
  next
    case False
    then obtain w ws where ws: "vs = w # ws" by (cases vs) auto
    have "p_value f (plain_text gap v @ CHR '','' # gap @ join ('','' @ gap) (map (plain_text gap) vs) @ '']'' @ r)
        = Some (v, CHR '','' # gap @ join ('','' @ gap) (map (plain_text gap) vs) @ '']'' @ r)"
      using Cons.prems f ws by (intro decodesD) auto
    moreover have "p_elems f (join ('','' @ gap) (map (plain_text gap) vs) @ '']'' @ r) = Some (vs, r)"
      using Cons.prems f ws by (intro Cons.IH) auto
    moreover have "skip_ws (join ('','' @ gap) (map (plain_text gap) vs) @ '']'' @ r)
        = join ('','' @ gap) (map (plain_text gap) vs) @ '']'' @ r"
      using ws by (simp add: join_Cons)
    ultimately show ?thesis using f ws by simp
  qed
qed simp

lemma p_members_join:
  assumes "\<And>kv. kv \<in> set kvs \<Longrightarrow> decodes gap (snd kv)" and "kvs \<noteq> []"
    and "length (join ('','' @ gap) (map (\<lambda>kv. member_text gap (fst kv, plain_text gap (snd kv))) kvs)) + 1 < fuel"
  shows "p_members fuel (join ('','' @ gap) (map (\<lambda>kv. member_text gap (fst kv, plain_text gap (snd kv))) kvs) @ ''}'' @ r)
    = Some (kvs, r)"
  using assms
proof (induction kvs arbitrary: fuel)
  case (Cons kv kvs)
  let ?t = "\<lambda>kv. member_text gap (fst kv, plain_text gap (snd kv))"
  obtain k v where kv: "kv = (k, v)" by (cases kv)
  from Cons.prems obtain f where f: "fuel = Suc f" by (cases fuel) auto
  have dv: "decodes gap v" using Cons.prems(1) [of kv] kv by simp
  have ks: "p_str (concat (map esc_char k) @ CHR 0x22 # s) = Some (k, s)" for s
    by (rule p_str_quote)
  show ?case
  proof (cases "kvs = []")
    case True
    have "p_value f (plain_text gap v @ CHR ''}'' # r) = Some (v, CHR ''}'' # r)"
      using Cons.prems(3) dv True f kv by (intro decodesD) (auto simp: member_text_def)
    with True f kv ks show ?thesis by (simp add: member_text_def quote_def)
  next
    case False
    then obtain w ws where ws: "kvs = w # ws" by (cases kvs) auto
    let ?rest = "join ('','' @ gap) (map ?t kvs) @ ''}'' @ r"
    have "p_value f (plain_text gap v @ CHR '','' # gap @ ?rest) = Some (v, CHR '','' # gap @ ?rest)"
      using Cons.prems(3) dv f ws kv by (intro decodesD) (auto simp: member_text_def)
    moreover have "p_members f ?rest = Some (kvs, r)"
      using Cons.prems f ws by (intro Cons.IH) (auto simp: member_text_def)
    moreover have "skip_ws ?rest = ?rest"
      using ws by (simp add: join_Cons member_text_def)
    ultimately show ?thesis using f ws kv ks by (simp add: member_text_def quote_def)
  qed
qed simp

lemma decodes_JObj:
  assumes d: "distinct (map fst d)" "\<And>kv. kv \<in> set d \<Longrightarrow> decodes gap (snd kv)"
  shows "decodes gap (JObj d)"
proof (rule decodesI)
  fix f r
  assume len: "length (plain_text gap (JObj d)) \<le> f"
  let ?t = "\<lambda>kv. member_text gap (fst kv, plain_text gap (snd kv))"
  have tx: "plain_text gap (JObj d) = ''{'' @ join ('','' @ gap) (map ?t d) @ ''}''"
    by (simp add: member_text_def)
  show "p_value (Suc f) (plain_text gap (JObj d) @ r) = Some (JObj d, r)"
  proof (cases "d = []")
    case True
    then show ?thesis using tx by (simp del: plain_text.simps)
  next
    case False
    then obtain w ws where ws: "d = w # ws" by (cases d) auto
    have "p_members f (join ('','' @ gap) (map ?t d) @ ''}'' @ r) = Some (d, r)"
      using d(2) False len tx by (intro p_members_join) auto
    moreover have "fold (\<lambda>(k, v). AList.update k v) d [] = [] @ d"
      using d(1) by (intro fold_update_distinct) simp_all
    moreover obtain c cs where "join ('','' @ gap) (map ?t d) @ ''}'' @ r = c # cs" "\<not> json_space c" "c \<noteq> CHR ''}''"
      using ws by (cases "ws = []") (auto simp: join_Cons member_text_def quote_def)
    ultimately show ?thesis using tx by (simp del: plain_text.simps)
  qed
qed

lemma decodes_JArr:
  assumes "\<And>v. v \<in> set vs \<Longrightarrow> decodes gap v"
  shows "decodes gap (JArr vs)"
proof (rule decodesI)
  fix f r
  assume len: "length (plain_text gap (JArr vs)) \<le> f"
  show "p_value (Suc f) (plain_text gap (JArr vs) @ r) = Some (JArr vs, r)"
  proof (cases "vs = []")
    case True
    then show ?thesis by simp
  next
    case False
    then obtain w ws where ws: "vs = w # ws" by (cases vs) auto
    have e: "p_elems f (join ('','' @ gap) (map (plain_text gap) vs) @ '']'' @ r) = Some (vs, r)"
      using assms False len by (intro p_elems_join) auto
    obtain c cs where "join ('','' @ gap) (map (plain_text gap) vs) @ '']'' @ r = c # cs"
      "\<not> json_space c" "c \<noteq> CHR '']''"
      using ws canonical_head [of w] by (cases "ws = []") (auto simp: join_Cons)
    with e show ?thesis by simp
  qed
qed

lemma decodes_wf: "wf_json v \<Longrightarrow> decodes gap v"
proof (induction v)
  case (JObj d)
  then show ?case by (intro decodes_JObj) (auto simp: list_all_iff snds.simps)
next
  case (JArr vs)
  then show ?case by (intro decodes_JArr) (auto simp: list_all_iff)
next
  case (JInt i)
  have "p_value (Suc f) (py_str_int i @ r) = Some (JInt i, r)" if "delim r" for f r
    using hd_py_str_int [of i] p_int_str [OF that, of i] by (auto simp: is_digit_def)
  then show ?case by (intro decodesI) simp
next
  case (JStr s)
  have "p_value (Suc f) (quote s @ r) = Some (JStr s, r)" for f r
    using p_str_quote [of s r] by (simp add: quote_def)
  then show ?case by (intro decodesI) simp
next
  case JNull
  show ?case by (intro decodesI) (simp add: strip_prefix_def is_digit_def)
next
  case (JBool b)
  show ?case by (intro decodesI) (simp add: strip_prefix_def is_digit_def)
qed

lemma loads_plain: "wf_json v \<Longrightarrow> json_loads (plain_text gap v) = Some v"
  using decodesD [OF decodes_wf, of v "Suc (length (plain_text gap v))" "[]"]
    skip_ws_canonical [of v "[]"]
  by (simp add: json_loads_def)

lemma loads_text: "wf_json v \<Longrightarrow> json_loads (json_text gap v) = Some (jnorm v)"
  unfolding json_text_plain by (rule loads_plain) (rule wf_jnorm)

end

interpretation canonical: json_layout "[]"
  by unfold_locales simp

interpretation spaced: json_layout "'' ''"
  by unfold_locales (simp add: json_space_def)

text \<open>\<open>json.loads(canonical_json_bytes(v))\<close> is \<open>v\<close>, with sorted keys.\<close>

lemma json_loads_canonical: "wf_json v \<Longrightarrow> json_loads (canonical_json_bytes v) = Some (jnorm v)"
  unfolding canonical_json_text by (rule canonical.loads_text)

lemma canonical_inject:
  "wf_json v \<Longrightarrow> wf_json w \<Longrightarrow> canonical_json_bytes v = canonical_json_bytes w \<longleftrightarrow> jnorm v = jnorm w"
  by (metis canonical_jnorm json_loads_canonical option.inject)

section \<open>A decoded value behaves like the value that was written\<close>

lemma map_of_norm:
  assumes "distinct (map fst d)"
  shows "map_of (sort_key fst (map (\<lambda>kv. (fst kv, f (snd kv))) d)) k = map_option f (map_of d k)"
proof -
  have "map_of (sort_key fst (map (\<lambda>kv. (fst kv, f (snd kv))) d)) = map_of (map (\<lambda>kv. (fst kv, f (snd kv))) d)"
    using assms by (subst map_of_inject_set) (simp_all add: distinct_map_sort_key comp_def)
  moreover have "map_of (map (\<lambda>kv. (fst kv, f (snd kv))) d) k = map_option f (map_of d k)"
    by (induction d) auto
  ultimately show ?thesis by simp
qed

lemma wf_map_of: "wf_json (JObj d) \<Longrightarrow> map_of d k = Some x \<Longrightarrow> wf_json x"
  by (fastforce simp: list_all_iff dest: map_of_SomeD)

lemma jitem_jnorm:
  assumes "wf_json v"
  shows "jitem (jnorm v) k = (case jitem v k of Inr x \<Rightarrow> Inr (jnorm x) | Inl e \<Rightarrow> Inl e)"
  using assms by (cases v) (auto simp: jitem_def map_of_norm split: option.splits)

lemma jitem_jnorm_Inr: "wf_json v \<Longrightarrow> jitem v k = Inr x \<Longrightarrow> jitem (jnorm v) k = Inr (jnorm x)"
  by (simp add: jitem_jnorm)

lemma py_int_jnorm [simp]: "py_int (jnorm v) = py_int v"
  by (cases v) (simp_all add: py_int_def)

lemma wf_jitem: "wf_json v \<Longrightarrow> jitem v k = Inr x \<Longrightarrow> wf_json x"
  by (auto simp: jitem_Inr_iff simp del: wf_json.simps intro: wf_map_of)

text \<open>Removing a key commutes with sorting the keys.\<close>

lemma delete_norm:
  "AList.delete k (sort_key fst (map (\<lambda>kv. (fst kv, f (snd kv))) d))
   = sort_key fst (map (\<lambda>kv. (fst kv, f (snd kv))) (AList.delete k d))"
  by (simp add: AList.delete_eq filter_sort filter_map comp_def split_def)

lemma canonical_delete_norm:
  "canonical_json_bytes (JObj (AList.delete k (sort_key fst (map (\<lambda>kv. (fst kv, jnorm (snd kv))) d))))
   = canonical_json_bytes (JObj (AList.delete k d))"
proof -
  have "JObj (AList.delete k (sort_key fst (map (\<lambda>kv. (fst kv, jnorm (snd kv))) d))) = jnorm (JObj (AList.delete k d))"
    by (simp add: delete_norm)
  then show ?thesis by (simp only: canonical_jnorm)
qed

lemma wf_delete [simp]: "wf_json (JObj d) \<Longrightarrow> wf_json (JObj (AList.delete k d))"
  by (auto simp: list_all_iff AList.delete_eq split_def intro: distinct_map_filter)

lemma wf_update [simp]: "wf_json (JObj d) \<Longrightarrow> wf_json x \<Longrightarrow> wf_json (JObj (AList.update k x d))"
proof -
  assume d: "wf_json (JObj d)" and x: "wf_json x"
  have "wf_json (snd kv)" if "kv \<in> set (AList.update k x d)" for kv
  proof -
    have "distinct (map fst (AList.update k x d))" using d by (simp add: distinct_update)
    then have "map_of (AList.update k x d) (fst kv) = Some (snd kv)" using that by (metis map_of_is_SomeI prod.collapse)
    then show ?thesis
      using d x by (auto simp del: wf_json.simps split: if_splits intro: wf_map_of)
  qed
  with d show ?thesis by (simp add: distinct_update list_all_iff)
qed

lemma wf_jset: "wf_json v \<Longrightarrow> wf_json x \<Longrightarrow> jset v k x = Inr w \<Longrightarrow> wf_json w"
  by (auto simp: jset_Inr_iff simp del: wf_json.simps)

lemma jitem_jset: "jset v k x = Inr w \<Longrightarrow> jitem w j = (if j = k then Inr x else jitem v j)"
  by (auto simp: jset_Inr_iff)

section \<open>Decoded values are well-formed\<close>

lemma wf_fold_update:
  "wf_json (JObj d) \<Longrightarrow> list_all (\<lambda>kv. wf_json (snd kv)) kvs \<Longrightarrow>
   wf_json (JObj (fold (\<lambda>(k, v). AList.update k v) kvs d))"
  by (induction kvs arbitrary: d) (auto simp del: wf_json.simps)

lemma parsed_wf:
  "(\<forall>s v r. p_value f s = Some (v, r) \<longrightarrow> wf_json v) \<and>
   (\<forall>s vs r. p_elems f s = Some (vs, r) \<longrightarrow> list_all wf_json vs) \<and>
   (\<forall>s kvs r. p_members f s = Some (kvs, r) \<longrightarrow> list_all (\<lambda>kv. wf_json (snd kv)) kvs)"
proof (induction f)
  case (Suc f)
  have obj: "wf_json (JObj (fold (\<lambda>(k, v). AList.update k v) kvs []))" if "list_all (\<lambda>kv. wf_json (snd kv)) kvs" for kvs
    using wf_fold_update [of "[]" kvs] that by simp
  have "wf_json v" if p: "p_value (Suc f) s = Some (v, r)" for s v r
  proof -
    from p obtain c cs where s: "s = c # cs" by (cases s) auto
    consider "ord_char c = 34" | "c = CHR ''[''" | "c = CHR ''{''"
      | "ord_char c \<noteq> 34" "c \<noteq> CHR ''[''" "c \<noteq> CHR ''{''" by blast
    then show ?thesis
    proof cases
      case 2
      with p s Suc show ?thesis by (auto split: list.splits if_splits) blast
    next
      case 3
      with p s Suc show ?thesis
        by (auto simp del: wf_json.simps intro!: obj split: list.splits if_splits) (simp_all, blast)
    next
      case 4
      with p s show ?thesis by (auto split: if_splits option.splits)
    qed (use p s in auto)
  qed
  moreover have "list_all wf_json vs" if "p_elems (Suc f) s = Some (vs, r)" for s vs r
    using that Suc by (fastforce split: option.splits list.splits if_splits)
  moreover have "list_all (\<lambda>kv. wf_json (snd kv)) kvs" if "p_members (Suc f) s = Some (kvs, r)" for s kvs r
    using that Suc by (fastforce split: option.splits list.splits if_splits)
  ultimately show ?case by blast
qed simp

lemma p_value_wf: "p_value f s = Some (v, r) \<Longrightarrow> wf_json v"
  using parsed_wf by blast

lemma json_loads_wf: "json_loads t = Some v \<Longrightarrow> wf_json v"
  unfolding json_loads_def by (auto simp del: p_value.simps split: option.splits if_splits dest: p_value_wf)

declare canonical_json_bytes.simps [simp del]

end
