(* ===== verification/Hashes.thy ===== *)
theory Hashes
  imports JsonDecode
begin

text \<open>
  The code outside the repository that the protocol calls, collected in one record that the
  definitions take as an argument, and the adapters \<^verbatim>\<open>hashes.py\<close>, \<^verbatim>\<open>schema.py\<close> and
  \<^verbatim>\<open>secrets.py\<close> built on it. Nothing is assumed about the record here: a theorem that needs
  a law (the absence of a hash collision among given texts, say) states it.
\<close>

section \<open>External functions\<close>

text \<open>
  \<^item> \<open>sha256_hex\<close>: \<open>hashlib.sha256(data).hexdigest()\<close>; \<open>keccak_hex\<close>: \<open>eth_hash.auto.keccak(data).hex()\<close>;
  \<^item> \<open>checksum_address\<close>: \<open>eth_utils.to_checksum_address\<close>, which raises \<open>ValueError\<close> or \<open>TypeError\<close>;
  \<^item> \<open>recover_typed\<close>: \<open>Account.recover_message(encode_typed_data(full_message=t), signature=s)\<close>;
  \<^item> \<open>recover_text\<close>: the same for \<open>encode_defunct(text=t)\<close>; \<open>recover_vrs\<close>: typed data with the
    signature given as \<open>vrs=(v, r, s)\<close>;
  \<^item> \<open>schema_error\<close>: the error of \<open>Draft202012Validator(schema).validate(value)\<close> for a schema
    file, or \<open>None\<close>;
  \<^item> \<open>netloc_error\<close>: whether \<open>urllib.parse.urlsplit\<close> refuses a network location that has brackets or
    characters outside ASCII (the checks of \<open>ipaddress\<close> and \<open>unicodedata\<close>).
\<close>

record ext =
  sha256_hex :: "string \<Rightarrow> string"
  keccak_hex :: "string \<Rightarrow> string"
  checksum_address :: "json \<Rightarrow> string res"
  recover_typed :: "json \<Rightarrow> json \<Rightarrow> string res"
  recover_text :: "string \<Rightarrow> json \<Rightarrow> string res"
  recover_vrs :: "json \<Rightarrow> int \<Rightarrow> int \<Rightarrow> int \<Rightarrow> string res"
  schema_error :: "string \<Rightarrow> json \<Rightarrow> string option"
  netloc_error :: "string \<Rightarrow> bool"

section \<open>hashes.py\<close>

definition sha256_prefixed :: "ext \<Rightarrow> string \<Rightarrow> string" where
  "sha256_prefixed E data = ''sha256:'' @ sha256_hex E data"

definition keccak256_hex :: "ext \<Rightarrow> string \<Rightarrow> string" where
  "keccak256_hex E data = ''0x'' @ keccak_hex E data"

lemma sha256_prefixed_inject [simp]:
  "sha256_prefixed E a = sha256_prefixed E b \<longleftrightarrow> sha256_hex E a = sha256_hex E b"
  by (simp add: sha256_prefixed_def)

lemma keccak256_hex_inject [simp]:
  "keccak256_hex E a = keccak256_hex E b \<longleftrightarrow> keccak_hex E a = keccak_hex E b"
  by (simp add: keccak256_hex_def)

definition TEXT_SOURCE_SUFFIXES :: "string list" where
  "TEXT_SOURCE_SUFFIXES = [''.css'', ''.html'', ''.json'', ''.lock'', ''.md'', ''.ndjson'', ''.py'',
     ''.sol'', ''.toml'', ''.txt'', ''.yaml'', ''.yml'']"

text \<open>\<open>data.replace(b"\r\n", b"\n")\<close> and \<open>data.replace(b"\r", b"\n")\<close>.\<close>

fun replace_crlf :: "string \<Rightarrow> string" where
  "replace_crlf [] = []"
| "replace_crlf [c] = [c]"
| "replace_crlf (c # d # s) =
     (if c = CHR 0x0D \<and> d = CHR 0x0A then CHR 0x0A # replace_crlf s else c # replace_crlf (d # s))"

definition replace_cr :: "string \<Rightarrow> string" where
  "replace_cr s = map (\<lambda>c. if c = CHR 0x0D then CHR 0x0A else c) s"

text \<open>The suffix and the bytes of the file stand for the path that the code reads.\<close>

definition source_bytes_for_hash :: "string \<Rightarrow> string \<Rightarrow> string" where
  "source_bytes_for_hash suffix data =
     (if py_lower suffix \<in> set TEXT_SOURCE_SUFFIXES then replace_cr (replace_crlf data) else data)"

definition source_sha256_prefixed :: "ext \<Rightarrow> string \<Rightarrow> string \<Rightarrow> string" where
  "source_sha256_prefixed E suffix data = sha256_prefixed E (source_bytes_for_hash suffix data)"

text \<open>A checkout with CRLF line ends: every LF of the text became CR LF.\<close>

definition to_crlf :: "string \<Rightarrow> string" where
  "to_crlf s = concat (map (\<lambda>c. if c = CHR 0x0A then [CHR 0x0D, CHR 0x0A] else [c]) s)"

lemma replace_cr_no_cr: "CHR 0x0D \<notin> set (replace_cr s)"
  by (auto simp: replace_cr_def)

lemma replace_cr_id: "CHR 0x0D \<notin> set s \<Longrightarrow> replace_cr s = s"
  by (induction s) (auto simp: replace_cr_def)

lemma replace_crlf_id: "CHR 0x0D \<notin> set s \<Longrightarrow> replace_crlf s = s"
  by (induction s rule: replace_crlf.induct) auto

lemma replace_crlf_Cons: "c \<noteq> CHR 0x0D \<Longrightarrow> replace_crlf (c # s) = c # replace_crlf s"
  by (cases s) auto

lemma replace_crlf_to_crlf: "CHR 0x0D \<notin> set s \<Longrightarrow> replace_crlf (to_crlf s) = s"
  by (induction s) (auto simp: to_crlf_def replace_crlf_Cons)

section \<open>schema.py\<close>

definition validate_schema :: "ext \<Rightarrow> json \<Rightarrow> string \<Rightarrow> unit res" where
  "validate_schema E v schema_name =
     (case schema_error E schema_name v of
        Some detail \<Rightarrow> le_error ''schema_validation_failed'' detail
      | None \<Rightarrow> Inr ())"

lemma validate_schema_Inr_iff [res_simps]:
  "validate_schema E v s = Inr u \<longleftrightarrow> schema_error E s v = None"
  by (auto simp: validate_schema_def split: option.splits)

section \<open>Addresses\<close>

definition to_checksum_address :: "ext \<Rightarrow> json \<Rightarrow> string res" where
  "to_checksum_address E v = checksum_address E v"

text \<open>Both addresses are normalized and compared, the left one first.\<close>

definition same_address :: "ext \<Rightarrow> json \<Rightarrow> json \<Rightarrow> bool res" where
  "same_address E left right =
     bindE (to_checksum_address E left) (\<lambda>l.
     bindE (to_checksum_address E right) (\<lambda>r. Inr (l = r)))"

lemma same_address_Inr_iff [res_simps]:
  "same_address E l r = Inr b \<longleftrightarrow>
     (\<exists>x y. checksum_address E l = Inr x \<and> checksum_address E r = Inr y \<and> b = (x = y))"
  by (auto simp: same_address_def to_checksum_address_def res_simps)

section \<open>secrets.py\<close>

definition FORBIDDEN_KEYS :: "string list" where
  "FORBIDDEN_KEYS = [''privatekey'', ''mnemonic'', ''keystore'', ''authtoken'', ''accesstoken'',
     ''writetoken'', ''operatortoken'', ''pilottoken'', ''bearertoken'']"

definition normalize_key :: "string \<Rightarrow> string" where
  "normalize_key key = filter is_alnum (py_lower key)"

function reject_secret_fields :: "json \<Rightarrow> string \<Rightarrow> unit res"
  and reject_members :: "dict \<Rightarrow> string \<Rightarrow> unit res"
  and reject_elements :: "json list \<Rightarrow> nat \<Rightarrow> string \<Rightarrow> unit res" where
  "reject_secret_fields v path =
     (case v of
        JObj d \<Rightarrow> reject_members d path
      | JArr vs \<Rightarrow> reject_elements vs 0 path
      | _ \<Rightarrow> Inr ())"
| "reject_members [] path = Inr ()"
| "reject_members ((key, child) # d) path =
     (if normalize_key key \<in> set FORBIDDEN_KEYS
      then le_error ''forbidden_secret_field'' (path @ ''.'' @ key @ '' is not allowed'')
      else bindE (reject_secret_fields child (path @ ''.'' @ key)) (\<lambda>_. reject_members d path))"
| "reject_elements [] index path = Inr ()"
| "reject_elements (child # vs) index path =
     bindE (reject_secret_fields child (path @ ''['' @ dec_nat index @ '']''))
       (\<lambda>_. reject_elements vs (Suc index) path)"
  by pat_completeness auto
termination
  by (relation "measure (\<lambda>x. case x of
        Inl (v, _) \<Rightarrow> Suc (2 * size v)
      | Inr (Inl (d, _)) \<Rightarrow> 2 * size_list (size_prod (\<lambda>_. 0) size) d
      | Inr (Inr (vs, _)) \<Rightarrow> 2 * size_list size vs)") auto

definition check_secrets :: "json \<Rightarrow> unit res" where
  "check_secrets v = reject_secret_fields v ''$''"

text \<open>Every key at every depth.\<close>

fun all_keys :: "json \<Rightarrow> string list" where
  "all_keys (JObj d) = map fst d @ concat (map (\<lambda>kv. all_keys (snd kv)) d)"
| "all_keys (JArr vs) = concat (map all_keys vs)"
| "all_keys _ = []"

definition secret_free :: "json \<Rightarrow> bool" where
  "secret_free v \<longleftrightarrow> (\<forall>k \<in> set (all_keys v). normalize_key k \<notin> set FORBIDDEN_KEYS)"

declare reject_secret_fields.simps [simp del]

lemma secret_free_simps:
  "secret_free (JObj d) \<longleftrightarrow>
     (\<forall>kv \<in> set d. normalize_key (fst kv) \<notin> set FORBIDDEN_KEYS \<and> secret_free (snd kv))"
  "secret_free (JArr vs) \<longleftrightarrow> (\<forall>v \<in> set vs. secret_free v)"
  "secret_free JNull" "secret_free (JBool b)" "secret_free (JInt i)" "secret_free (JStr s)"
  by (auto simp: secret_free_def)

lemma reject_iff:
  "reject_secret_fields v p = Inr () \<longleftrightarrow> secret_free v"
  "reject_members d p = Inr () \<longleftrightarrow>
     (\<forall>kv \<in> set d. normalize_key (fst kv) \<notin> set FORBIDDEN_KEYS \<and> secret_free (snd kv))"
  "reject_elements vs i p = Inr () \<longleftrightarrow> (\<forall>v \<in> set vs. secret_free v)"
proof (induction v p and d p and vs i p rule: reject_secret_fields_reject_members_reject_elements.induct)
  case (1 v path)
  then show ?case by (cases v) (simp_all add: reject_secret_fields.simps secret_free_simps)
next
  case (3 key child d path)
  then show ?case by (auto simp: reject_secret_fields.simps res_simps)
next
  case (5 child vs index path)
  then show ?case by (auto simp: reject_secret_fields.simps res_simps)
qed (simp_all add: reject_secret_fields.simps)

lemma check_secrets_Inr_iff [res_simps]: "check_secrets v = Inr u \<longleftrightarrow> secret_free v"
  by (simp add: check_secrets_def reject_iff)

lemma secret_free_jnorm [simp]: "secret_free (jnorm v) \<longleftrightarrow> secret_free v"
proof (induction v)
  case (JObj d)
  then show ?case by (force simp: secret_free_simps snds.simps)
qed (simp_all add: secret_free_simps)

section \<open>Restricted files (secrets.py)\<close>

text \<open>
  What the reader asks of the file system: the node a name denotes. \<open>Path.resolve\<close> follows
  symbolic links; more than \<open>fuel\<close> of them are a loop, which it reports with an exception
  that the function does not catch.
\<close>

datatype fnode = Symlink string | Regular "string option" nat | Directory

type_synonym fs = "string \<rightharpoonup> fnode"

fun fs_resolve :: "nat \<Rightarrow> fs \<Rightarrow> string \<Rightarrow> string res" where
  "fs_resolve 0 fs p = Inl OSError"
| "fs_resolve (Suc n) fs p =
     (case fs p of Some (Symlink q) \<Rightarrow> fs_resolve n fs q | _ \<Rightarrow> Inr p)"

definition is_symlink :: "fs \<Rightarrow> string \<Rightarrow> bool" where
  "is_symlink fs p = (case fs p of Some (Symlink q) \<Rightarrow> True | _ \<Rightarrow> False)"

text \<open>\<open>len\<close> of a Python string: the UTF-8 continuation bytes do not count.\<close>

definition py_len :: "string \<Rightarrow> nat" where
  "py_len s = length (filter (\<lambda>c. \<not> (128 \<le> ord_char c \<and> ord_char c < 192)) s)"

text \<open>A regular file holds \<open>Some\<close> decodable text or \<open>None\<close>, and its permission bits; \<open>nt\<close> says
  whether the host is Windows. \<open>mode & 0o077\<close> is \<open>mode mod 64\<close>.\<close>

definition read_restricted_text_file ::
    "nat \<Rightarrow> fs \<Rightarrow> bool \<Rightarrow> string \<Rightarrow> string \<Rightarrow> nat \<Rightarrow> nat \<Rightarrow> string res" where
  "read_restricted_text_file fuel fs nt path label minimum_length maximum_length =
     bindE (fs_resolve fuel fs path) (\<lambda>p.
     if is_symlink fs p then le_error_exit ''restricted_file_unavailable'' (label @ '':OSError'') 3
     else case fs p of
       Some (Regular (Some contents) mode) \<Rightarrow>
         (let v = py_strip contents in
          if \<not> (minimum_length \<le> py_len v \<and> py_len v \<le> maximum_length) \<or> CHR 0x00 \<in> set v
          then le_error ''restricted_file_invalid'' label
          else if \<not> nt \<and> mode mod 64 \<noteq> 0 then le_error ''restricted_file_permissions'' label
          else Inr v)
     | Some (Regular None mode) \<Rightarrow>
         le_error_exit ''restricted_file_unavailable'' (label @ '':UnicodeDecodeError'') 3
     | _ \<Rightarrow> le_error_exit ''restricted_file_unavailable'' (label @ '':OSError'') 3)"

lemma fs_resolve_not_symlink: "fs_resolve n fs p = Inr q \<Longrightarrow> \<not> is_symlink fs q"
  by (induction n arbitrary: p) (auto simp: is_symlink_def split: option.splits fnode.splits)

end
