(* ===== verification/TypedData.thy ===== *)
theory TypedData
  imports Hashes
begin

text \<open>
  The EIP-712 typed-data builders: \<^verbatim>\<open>typed_data.py\<close> (WitnessDAO votes), \<^verbatim>\<open>network_typed_data.py\<close>
  (V1 network messages) and \<^verbatim>\<open>m4_typed_data.py\<close> (V2). A typed-data document is a JSON value
  whose numbers are integers; a builder fails where Python's \<open>int\<close>, \<open>to_checksum_address\<close>,
  \<open>require_bytes32\<close> or a missing key raises, in the order in which the source evaluates.
\<close>

section \<open>typed_data.py\<close>

definition type_field :: "string \<Rightarrow> string \<Rightarrow> json" where
  "type_field name ty = JObj [(''name'', JStr name), (''type'', JStr ty)]"

definition DOMAIN_TYPES :: json where
  "DOMAIN_TYPES = JArr [type_field ''name'' ''string'', type_field ''version'' ''string'',
     type_field ''chainId'' ''uint256'', type_field ''verifyingContract'' ''address'']"

definition is_hex :: "char \<Rightarrow> bool" where
  "is_hex c \<longleftrightarrow> hex_val c \<noteq> None"

lemma is_hex_bits [code]:
  "is_hex (Char a b c d e f g h) \<longleftrightarrow>
     is_digit (Char a b c d e f g h) \<or> g \<and> \<not> h \<and> \<not> e \<and> \<not> d \<and> (a \<or> b \<or> c) \<and> \<not> (a \<and> b \<and> c)"
  by (cases a; cases b; cases c; cases d; cases e; cases f; cases g; cases h; simp add: is_hex_def hex_val_def is_digit_def)

definition is_bytes32 :: "string \<Rightarrow> bool" where
  "is_bytes32 s \<longleftrightarrow> length s = 66 \<and> take 2 s = ''0x'' \<and> list_all is_hex (drop 2 s)"

definition require_bytes32 :: "json \<Rightarrow> string \<Rightarrow> string res" where
  "require_bytes32 v name =
     (case v of
        JStr s \<Rightarrow> if is_bytes32 s then Inr (py_lower s) else le_error ''invalid_bytes32'' name
      | _ \<Rightarrow> Inl TypeError)"

lemma require_bytes32_Inr_iff [res_simps]:
  "require_bytes32 v n = Inr t \<longleftrightarrow> (\<exists>s. v = JStr s \<and> is_bytes32 s \<and> t = py_lower s)"
  by (cases v) (auto simp: require_bytes32_def)

definition typed_doc :: "string \<Rightarrow> json \<Rightarrow> json \<Rightarrow> json \<Rightarrow> json" where
  "typed_doc primary flds dm msg = JObj [
     (''types'', JObj [(''EIP712Domain'', DOMAIN_TYPES), (primary, flds)]),
     (''primaryType'', JStr primary),
     (''domain'', dm),
     (''message'', msg)]"

definition domain_doc :: "string \<Rightarrow> string \<Rightarrow> int \<Rightarrow> string \<Rightarrow> json" where
  "domain_doc name version chain contract = JObj [
     (''name'', JStr name), (''version'', JStr version),
     (''chainId'', JInt chain), (''verifyingContract'', JStr contract)]"

definition vote_domain :: "ext \<Rightarrow> json \<Rightarrow> json res" where
  "vote_domain E data =
     bindE (jitem data ''chain_id'') (\<lambda>c. bindE (py_int c) (\<lambda>chain.
     bindE (jitem data ''verifying_contract'') (\<lambda>v. bindE (to_checksum_address E v) (\<lambda>contract.
     Inr (domain_doc ''LoveEngine WitnessDAO'' ''1'' chain contract)))))"

text \<open>\<open>to_checksum_address(m[k])\<close>, \<open>int(m[k])\<close> and \<open>require_bytes32(m[k], k)\<close>.\<close>

definition addr_item :: "ext \<Rightarrow> json \<Rightarrow> string \<Rightarrow> string res" where
  "addr_item E m k = bindE (jitem m k) (to_checksum_address E)"

definition int_item :: "json \<Rightarrow> string \<Rightarrow> int res" where
  "int_item m k = bindE (jitem m k) py_int"

definition bytes32_item :: "json \<Rightarrow> string \<Rightarrow> string res" where
  "bytes32_item m k = bindE (jitem m k) (\<lambda>v. require_bytes32 v k)"

definition build_register_typed_data :: "ext \<Rightarrow> json \<Rightarrow> json res" where
  "build_register_typed_data E data =
     bindE (check_secrets data) (\<lambda>_.
     bindE (vote_domain E data) (\<lambda>dom.
     bindE (addr_item E data ''witness'') (\<lambda>witness.
     bindE (int_item data ''nonce'') (\<lambda>nonce.
     bindE (int_item data ''deadline'') (\<lambda>deadline.
     Inr (typed_doc ''Register''
       (JArr [type_field ''witness'' ''address'', type_field ''nonce'' ''uint256'',
              type_field ''deadline'' ''uint256''])
       dom
       (JObj [(''witness'', JStr witness), (''nonce'', JInt nonce), (''deadline'', JInt deadline)])))))))"

text \<open>\<open>bool(v)\<close>.\<close>

definition py_bool :: "json \<Rightarrow> bool" where
  "py_bool v = (case v of JNull \<Rightarrow> False | JBool b \<Rightarrow> b | JInt i \<Rightarrow> i \<noteq> 0
     | JStr s \<Rightarrow> s \<noteq> [] | JArr vs \<Rightarrow> vs \<noteq> [] | JObj d \<Rightarrow> d \<noteq> [])"

definition build_vote_typed_data :: "ext \<Rightarrow> json \<Rightarrow> json res" where
  "build_vote_typed_data E data =
     bindE (check_secrets data) (\<lambda>_.
     bindE (vote_domain E data) (\<lambda>dom.
     bindE (addr_item E data ''witness'') (\<lambda>witness.
     bindE (int_item data ''proposal_id'') (\<lambda>proposal.
     bindE (jitem data ''support'') (\<lambda>support.
     bindE (bytes32_item data ''reason_hash'') (\<lambda>reason.
     bindE (bytes32_item data ''payload_hash'') (\<lambda>payload.
     bindE (int_item data ''nonce'') (\<lambda>nonce.
     bindE (int_item data ''deadline'') (\<lambda>deadline.
     Inr (typed_doc ''Vote''
       (JArr [type_field ''witness'' ''address'', type_field ''proposalId'' ''uint256'',
              type_field ''support'' ''bool'', type_field ''reasonHash'' ''bytes32'',
              type_field ''payloadHash'' ''bytes32'', type_field ''nonce'' ''uint256'',
              type_field ''deadline'' ''uint256''])
       dom
       (JObj [(''witness'', JStr witness), (''proposalId'', JInt proposal),
              (''support'', JBool (py_bool support)), (''reasonHash'', JStr reason),
              (''payloadHash'', JStr payload), (''nonce'', JInt nonce),
              (''deadline'', JInt deadline)])))))))))))"

section \<open>network_typed_data.py\<close>

definition network_domain :: "ext \<Rightarrow> json \<Rightarrow> json \<Rightarrow> json res" where
  "network_domain E chain_id registry =
     bindE (py_int chain_id) (\<lambda>chain. bindE (to_checksum_address E registry) (\<lambda>contract.
     Inr (domain_doc ''LoveEngine Agent Network'' ''1'' chain contract)))"

definition envelope :: "ext \<Rightarrow> string \<Rightarrow> json \<Rightarrow> json \<Rightarrow> json \<Rightarrow> json \<Rightarrow> json res" where
  "envelope E primary flds chain_id registry message =
     bindE (network_domain E chain_id registry) (\<lambda>dom. Inr (typed_doc primary flds dom message))"

definition payload_hash :: "ext \<Rightarrow> json \<Rightarrow> string" where
  "payload_hash E v = keccak256_hex E (canonical_json_bytes v)"

definition id_hash :: "ext \<Rightarrow> json \<Rightarrow> string res" where
  "id_hash E v = bindE (jstr v) (\<lambda>s. Inr (keccak256_hex E s))"

definition id_item :: "ext \<Rightarrow> json \<Rightarrow> string \<Rightarrow> string res" where
  "id_item E m k = bindE (jitem m k) (id_hash E)"

definition profile_fields :: json where
  "profile_fields = JArr [type_field ''node'' ''address'', type_field ''profileHash'' ''bytes32'',
     type_field ''sequence'' ''uint256'', type_field ''validUntil'' ''uint256'']"

definition profile_message :: "ext \<Rightarrow> json \<Rightarrow> json res" where
  "profile_message E profile =
     bindE (addr_item E profile ''node'') (\<lambda>node.
     bindE (int_item profile ''sequence'') (\<lambda>seq.
     bindE (int_item profile ''valid_until'') (\<lambda>until.
     Inr (JObj [(''node'', JStr node), (''profileHash'', JStr (payload_hash E profile)),
       (''sequence'', JInt seq), (''validUntil'', JInt until)]))))"

definition build_node_profile_typed_data :: "ext \<Rightarrow> json \<Rightarrow> json \<Rightarrow> json \<Rightarrow> json res" where
  "build_node_profile_typed_data E chain_id registry profile =
     bindE (profile_message E profile) (\<lambda>msg.
     envelope E ''NodeProfile'' profile_fields chain_id registry msg)"

definition bootstrap_fields :: json where
  "bootstrap_fields = JArr [type_field ''publisher'' ''address'', type_field ''directoryHash'' ''bytes32'',
     type_field ''sequence'' ''uint256'', type_field ''validUntil'' ''uint256'']"

definition bootstrap_message :: "ext \<Rightarrow> json \<Rightarrow> json \<Rightarrow> json res" where
  "bootstrap_message E bootstrap directory_hash =
     bindE (addr_item E bootstrap ''publisher'') (\<lambda>publisher.
     bindE (require_bytes32 directory_hash ''directory_hash'') (\<lambda>dh.
     bindE (int_item bootstrap ''sequence'') (\<lambda>seq.
     bindE (int_item bootstrap ''valid_until'') (\<lambda>until.
     Inr (JObj [(''publisher'', JStr publisher), (''directoryHash'', JStr dh),
       (''sequence'', JInt seq), (''validUntil'', JInt until)])))))"

text \<open>\<open>bootstrap.get("directory_hash") or payload_hash(bootstrap["directory"])\<close>.\<close>

definition build_bootstrap_typed_data :: "ext \<Rightarrow> json \<Rightarrow> json \<Rightarrow> json \<Rightarrow> json res" where
  "build_bootstrap_typed_data E chain_id registry bootstrap =
     bindE (jget bootstrap ''directory_hash'') (\<lambda>given.
     bindE (if py_bool given then Inr given
            else bindE (jitem bootstrap ''directory'') (\<lambda>d. Inr (JStr (payload_hash E d)))) (\<lambda>dh.
     bindE (bootstrap_message E bootstrap dh) (\<lambda>msg.
     envelope E ''Bootstrap'' bootstrap_fields chain_id registry msg)))"

definition task_fields :: json where
  "task_fields = JArr [type_field ''taskId'' ''bytes32'', type_field ''taskType'' ''bytes32'',
     type_field ''issuer'' ''address'', type_field ''recipient'' ''address'',
     type_field ''manifestHash'' ''bytes32'', type_field ''payloadHash'' ''bytes32'',
     type_field ''nonce'' ''uint256'', type_field ''deadline'' ''uint256'']"

text \<open>The message part, the same in the two versions.\<close>

definition task_message :: "ext \<Rightarrow> json \<Rightarrow> json res" where
  "task_message E task =
     bindE (id_item E task ''task_id'') (\<lambda>tid.
     bindE (id_item E task ''task_type'') (\<lambda>ttype.
     bindE (addr_item E task ''issuer'') (\<lambda>issuer.
     bindE (addr_item E task ''recipient'') (\<lambda>recipient.
     bindE (bytes32_item task ''manifest_hash'') (\<lambda>manifest.
     bindE (bytes32_item task ''payload_hash'') (\<lambda>payload.
     bindE (int_item task ''nonce'') (\<lambda>nonce.
     bindE (int_item task ''deadline'') (\<lambda>deadline.
     Inr (JObj [(''taskId'', JStr tid), (''taskType'', JStr ttype), (''issuer'', JStr issuer),
       (''recipient'', JStr recipient), (''manifestHash'', JStr manifest),
       (''payloadHash'', JStr payload), (''nonce'', JInt nonce), (''deadline'', JInt deadline)])))))))))"

definition build_task_typed_data :: "ext \<Rightarrow> json \<Rightarrow> json res" where
  "build_task_typed_data E task =
     bindE (jitem task ''chain_id'') (\<lambda>chain_id.
     bindE (jitem task ''registry'') (\<lambda>registry.
     bindE (task_message E task) (\<lambda>msg.
     envelope E ''NetworkTask'' task_fields chain_id registry msg)))"

definition receipt_fields :: json where
  "receipt_fields = JArr [type_field ''taskId'' ''bytes32'', type_field ''node'' ''address'',
     type_field ''status'' ''bytes32'', type_field ''resultHash'' ''bytes32'',
     type_field ''nonce'' ''uint256'', type_field ''completedAt'' ''uint256'']"

definition receipt_message :: "ext \<Rightarrow> json \<Rightarrow> json res" where
  "receipt_message E receipt =
     bindE (id_item E receipt ''task_id'') (\<lambda>tid.
     bindE (addr_item E receipt ''node'') (\<lambda>node.
     bindE (id_item E receipt ''status'') (\<lambda>status.
     bindE (bytes32_item receipt ''result_hash'') (\<lambda>result.
     bindE (int_item receipt ''nonce'') (\<lambda>nonce.
     bindE (int_item receipt ''completed_at'') (\<lambda>completed.
     Inr (JObj [(''taskId'', JStr tid), (''node'', JStr node), (''status'', JStr status),
       (''resultHash'', JStr result), (''nonce'', JInt nonce), (''completedAt'', JInt completed)])))))))"

definition build_receipt_typed_data :: "ext \<Rightarrow> json \<Rightarrow> json res" where
  "build_receipt_typed_data E receipt =
     bindE (jitem receipt ''chain_id'') (\<lambda>chain_id.
     bindE (jitem receipt ''registry'') (\<lambda>registry.
     bindE (receipt_message E receipt) (\<lambda>msg.
     envelope E ''TaskReceipt'' receipt_fields chain_id registry msg)))"

section \<open>m4_typed_data.py\<close>

definition v2_domain :: "ext \<Rightarrow> json \<Rightarrow> json \<Rightarrow> json res" where
  "v2_domain E chain_id registry =
     bindE (py_int chain_id) (\<lambda>chain. bindE (to_checksum_address E registry) (\<lambda>contract.
     Inr (domain_doc ''LoveEngine Agent Network'' ''2'' chain contract)))"

definition v2_domain_of :: "ext \<Rightarrow> json \<Rightarrow> json res" where
  "v2_domain_of E m =
     bindE (jitem m ''chain_id'') (\<lambda>c. bindE (py_int c) (\<lambda>chain.
     bindE (jitem m ''registry'') (\<lambda>r. bindE (to_checksum_address E r) (\<lambda>contract.
     Inr (domain_doc ''LoveEngine Agent Network'' ''2'' chain contract)))))"

definition build_task_v2_typed_data :: "ext \<Rightarrow> json \<Rightarrow> json res" where
  "build_task_v2_typed_data E task =
     bindE (v2_domain_of E task) (\<lambda>dom.
     bindE (task_message E task) (\<lambda>msg.
     Inr (typed_doc ''NetworkTaskV2'' task_fields dom msg)))"

definition build_node_profile_v2_typed_data :: "ext \<Rightarrow> json \<Rightarrow> json \<Rightarrow> json \<Rightarrow> json res" where
  "build_node_profile_v2_typed_data E chain_id registry profile =
     bindE (v2_domain E chain_id registry) (\<lambda>dom.
     bindE (profile_message E profile) (\<lambda>msg.
     Inr (typed_doc ''NodeProfileV2'' profile_fields dom msg)))"

definition build_bootstrap_v2_typed_data :: "ext \<Rightarrow> json \<Rightarrow> json res" where
  "build_bootstrap_v2_typed_data E bootstrap =
     bindE (jitem bootstrap ''chain_id'') (\<lambda>chain_id.
     bindE (jitem bootstrap ''registry'') (\<lambda>registry.
     bindE (v2_domain E chain_id registry) (\<lambda>dom.
     bindE (addr_item E bootstrap ''publisher'') (\<lambda>publisher.
     bindE (bytes32_item bootstrap ''directory_hash'') (\<lambda>dh.
     bindE (int_item bootstrap ''sequence'') (\<lambda>seq.
     bindE (int_item bootstrap ''valid_until'') (\<lambda>until.
     Inr (typed_doc ''BootstrapV2'' bootstrap_fields dom
       (JObj [(''publisher'', JStr publisher), (''directoryHash'', JStr dh),
         (''sequence'', JInt seq), (''validUntil'', JInt until)])))))))))"

definition build_receipt_v2_typed_data :: "ext \<Rightarrow> json \<Rightarrow> json res" where
  "build_receipt_v2_typed_data E receipt =
     bindE (jitem receipt ''chain_id'') (\<lambda>chain_id.
     bindE (jitem receipt ''registry'') (\<lambda>registry.
     bindE (v2_domain E chain_id registry) (\<lambda>dom.
     bindE (receipt_message E receipt) (\<lambda>msg.
     Inr (typed_doc ''TaskReceiptV2'' receipt_fields dom msg)))))"

section \<open>What a signature covers\<close>

text \<open>Equal documents have equal domains and messages, and name the same kind of message.\<close>

lemma typed_doc_inject [simp]:
  "typed_doc p f d m = typed_doc p' f' d' m' \<longleftrightarrow> p = p' \<and> f = f' \<and> d = d' \<and> m = m'"
  by (auto simp: typed_doc_def)

lemma domain_doc_inject [simp]:
  "domain_doc n v c k = domain_doc n' v' c' k' \<longleftrightarrow> n = n' \<and> v = v' \<and> c = c' \<and> k = k'"
  by (auto simp: domain_doc_def)

lemma item_Inr_iffs [res_simps]:
  "addr_item E m k = Inr a \<longleftrightarrow> (\<exists>d v. m = JObj d \<and> map_of d k = Some v \<and> checksum_address E v = Inr a)"
  "int_item m k = Inr i \<longleftrightarrow> (\<exists>d v. m = JObj d \<and> map_of d k = Some v \<and> py_int v = Inr i)"
  "bytes32_item m k = Inr b \<longleftrightarrow>
     (\<exists>d s. m = JObj d \<and> map_of d k = Some (JStr s) \<and> is_bytes32 s \<and> b = py_lower s)"
  "id_item E m k = Inr h \<longleftrightarrow>
     (\<exists>d s. m = JObj d \<and> map_of d k = Some (JStr s) \<and> h = keccak256_hex E s)"
  by (auto simp: addr_item_def int_item_def bytes32_item_def id_item_def id_hash_def
      to_checksum_address_def res_simps)

text \<open>The string under a key, for the statements below.\<close>

definition str_of :: "json \<Rightarrow> string \<Rightarrow> string" where
  "str_of m k = (case m of JObj d \<Rightarrow> (case map_of d k of Some (JStr s) \<Rightarrow> s | _ \<Rightarrow> []) | _ \<Rightarrow> [])"

lemma str_of_simps [simp]: "map_of d k = Some (JStr s) \<Longrightarrow> str_of (JObj d) k = s"
  by (simp add: str_of_def)

lemma id_item_inject:
  assumes "id_item E t k = Inr h" and "id_item E t' k = Inr h"
    and "inj_on (keccak_hex E) {str_of t k, str_of t' k}"
  shows "jitem t k = jitem t' k"
  using assms by (auto simp: item_Inr_iffs inj_on_def)

lemma task_message_Inr_iff:
  "task_message E t = Inr m \<longleftrightarrow>
     (\<exists>tid ttype issuer recipient manifest payload nonce deadline.
        id_item E t ''task_id'' = Inr tid \<and> id_item E t ''task_type'' = Inr ttype \<and>
        addr_item E t ''issuer'' = Inr issuer \<and> addr_item E t ''recipient'' = Inr recipient \<and>
        bytes32_item t ''manifest_hash'' = Inr manifest \<and> bytes32_item t ''payload_hash'' = Inr payload \<and>
        int_item t ''nonce'' = Inr nonce \<and> int_item t ''deadline'' = Inr deadline \<and>
        m = JObj [(''taskId'', JStr tid), (''taskType'', JStr ttype), (''issuer'', JStr issuer),
          (''recipient'', JStr recipient), (''manifestHash'', JStr manifest),
          (''payloadHash'', JStr payload), (''nonce'', JInt nonce), (''deadline'', JInt deadline)])"
  unfolding task_message_def bindE_Inr_iff by (auto; metis)

lemma task_message_inject:
  assumes "task_message E t = Inr m" and "task_message E t' = Inr m"
    and inj: "inj_on (keccak_hex E)
       {str_of t ''task_id'', str_of t' ''task_id'', str_of t ''task_type'', str_of t' ''task_type''}"
  shows "jitem t ''task_id'' = jitem t' ''task_id''" "jitem t ''task_type'' = jitem t' ''task_type''"
    "addr_item E t ''issuer'' = addr_item E t' ''issuer''"
    "addr_item E t ''recipient'' = addr_item E t' ''recipient''"
    "bytes32_item t ''manifest_hash'' = bytes32_item t' ''manifest_hash''"
    "bytes32_item t ''payload_hash'' = bytes32_item t' ''payload_hash''"
    "int_item t ''nonce'' = int_item t' ''nonce''" "int_item t ''deadline'' = int_item t' ''deadline''"
proof -
  obtain tid ttype issuer recipient manifest payload nonce deadline where
    m: "id_item E t ''task_id'' = Inr tid" "id_item E t ''task_type'' = Inr ttype"
      "addr_item E t ''issuer'' = Inr issuer" "addr_item E t ''recipient'' = Inr recipient"
      "bytes32_item t ''manifest_hash'' = Inr manifest" "bytes32_item t ''payload_hash'' = Inr payload"
      "int_item t ''nonce'' = Inr nonce" "int_item t ''deadline'' = Inr deadline"
      "m = JObj [(''taskId'', JStr tid), (''taskType'', JStr ttype), (''issuer'', JStr issuer),
          (''recipient'', JStr recipient), (''manifestHash'', JStr manifest),
          (''payloadHash'', JStr payload), (''nonce'', JInt nonce), (''deadline'', JInt deadline)]"
    using assms(1) unfolding task_message_Inr_iff by blast
  have m': "id_item E t' ''task_id'' = Inr tid" "id_item E t' ''task_type'' = Inr ttype"
      "addr_item E t' ''issuer'' = Inr issuer" "addr_item E t' ''recipient'' = Inr recipient"
      "bytes32_item t' ''manifest_hash'' = Inr manifest" "bytes32_item t' ''payload_hash'' = Inr payload"
      "int_item t' ''nonce'' = Inr nonce" "int_item t' ''deadline'' = Inr deadline"
    using assms(2) unfolding task_message_Inr_iff m(9) by auto
  show "jitem t ''task_id'' = jitem t' ''task_id''" "jitem t ''task_type'' = jitem t' ''task_type''"
    using id_item_inject [OF m(1) m'(1)] id_item_inject [OF m(2) m'(2)] inj
    by (auto intro: inj_on_subset)
  show "addr_item E t ''issuer'' = addr_item E t' ''issuer''"
    "addr_item E t ''recipient'' = addr_item E t' ''recipient''"
    "bytes32_item t ''manifest_hash'' = bytes32_item t' ''manifest_hash''"
    "bytes32_item t ''payload_hash'' = bytes32_item t' ''payload_hash''"
    "int_item t ''nonce'' = int_item t' ''nonce''" "int_item t ''deadline'' = int_item t' ''deadline''"
    using m m' by simp_all
qed

end
