(* ===== verification/LiveProtocol.thy ===== *)
theory LiveProtocol
  imports TypedData
begin

text \<open>
  \<^verbatim>\<open>live_protocol.py\<close>: sessions and hash-linked events as the gateway builds them, and the
  verification of one event. The hash of an event is taken over its canonical form without the
  \<open>event_hash\<close> field.
\<close>

definition ZERO_HASH :: string where
  "ZERO_HASH = ''0x'' @ replicate 64 CHR ''0''"

definition CATEGORIES :: "string list" where
  "CATEGORIES = [''source'', ''summary'', ''derived'']"

definition build_live_session :: "json \<Rightarrow> json \<Rightarrow> json \<Rightarrow> json res" where
  "build_live_session session_id source_type created_at =
     (let v = JObj [(''schema_version'', JStr ''loveengine.live-session/1''),
           (''session_id'', session_id), (''source_type'', source_type), (''status'', JStr ''live''),
           (''created_at'', JStr (py_str created_at)), (''closed_at'', JNull),
           (''next_sequence'', JStr ''1''), (''head_event_hash'', JStr ZERO_HASH)]
      in bindE (check_secrets v) (\<lambda>_. Inr v))"

text \<open>\<open>view = dict(value); view.pop(field, None); keccak256_hex(canonical_json_bytes(view))\<close>, the
  hash that the event, bundle and observation-set formats share.\<close>

definition self_hash :: "ext \<Rightarrow> string \<Rightarrow> json \<Rightarrow> string res" where
  "self_hash E fld v = bindE (jpop v fld) (\<lambda>view. Inr (keccak256_hex E (canonical_json_bytes view)))"

definition live_event_hash :: "ext \<Rightarrow> json \<Rightarrow> string res" where
  "live_event_hash E v = self_hash E ''event_hash'' v"

text \<open>The keyword arguments of \<open>build_live_event\<close>.\<close>

record event_args =
  a_event_id :: json
  a_session_id :: json
  a_sequence :: json
  a_occurred_at :: json
  a_category :: json
  a_source_type :: json
  a_content :: json
  a_artifact_hash :: json
  a_previous_event_hash :: json
  a_source_uri :: json
  a_media_url :: json
  a_media_hash :: json

definition build_live_event :: "ext \<Rightarrow> event_args \<Rightarrow> json res" where
  "build_live_event E a =
     (if a_category a \<notin> JStr ` set CATEGORIES then Inl ValueError
      else
        bindE (jstr (a_content a)) (\<lambda>content.
        bindE (jlower (a_previous_event_hash a)) (\<lambda>previous.
        let v = JObj [(''schema_version'', JStr ''loveengine.live-event/1''),
              (''event_id'', a_event_id a), (''session_id'', a_session_id a),
              (''sequence'', JStr (py_str (a_sequence a))),
              (''occurred_at'', JStr (py_str (a_occurred_at a))),
              (''category'', a_category a), (''source_type'', a_source_type a),
              (''source_uri'', a_source_uri a), (''content'', JStr content),
              (''content_hash'', JStr (sha256_prefixed E content)),
              (''artifact_hash'', a_artifact_hash a), (''media_url'', a_media_url a),
              (''media_hash'', a_media_hash a), (''previous_event_hash'', JStr previous)]
        in bindE (live_event_hash E v) (\<lambda>h.
           bindE (jset v ''event_hash'' (JStr h)) (\<lambda>w.
           bindE (check_secrets w) (\<lambda>_. Inr w))))))"

definition verify_live_event :: "ext \<Rightarrow> json \<Rightarrow> bool res" where
  "verify_live_event E v =
     bindE (check_secrets v) (\<lambda>_.
     bindE (jitem v ''content_hash'') (\<lambda>ch.
     bindE (jitem v ''content'') (\<lambda>c. bindE (jstr c) (\<lambda>content.
     if ch \<noteq> JStr (sha256_prefixed E content) then Inr False
     else
       bindE (jitem v ''event_hash'') (\<lambda>eh.
       bindE (live_event_hash E v) (\<lambda>h. Inr (eh = JStr h)))))))"

section \<open>Facts\<close>

lemma live_event_hash_JObj [simp]:
  "live_event_hash E (JObj d) = Inr (keccak256_hex E (canonical_json_bytes (JObj (AList.delete ''event_hash'' d))))"
  by (simp add: live_event_hash_def self_hash_def)

text \<open>An event that verifies, field by field.\<close>

definition event_ok :: "ext \<Rightarrow> dict \<Rightarrow> bool" where
  "event_ok E d \<longleftrightarrow> secret_free (JObj d) \<and>
     (\<exists>c. map_of d ''content'' = Some (JStr c) \<and> map_of d ''content_hash'' = Some (JStr (sha256_prefixed E c))) \<and>
     map_of d ''event_hash'' =
       Some (JStr (keccak256_hex E (canonical_json_bytes (JObj (AList.delete ''event_hash'' d)))))"

lemma verify_live_event_iff: "verify_live_event E v = Inr True \<longleftrightarrow> (\<exists>d. v = JObj d \<and> event_ok E d)"
  by (auto simp: verify_live_event_def event_ok_def res_simps split: if_splits)

lemma normalize_key_lit [simp]:
  "normalize_key ''event_hash'' = ''eventhash''"
  by (simp add: normalize_key_def py_lower_def lower_char_def is_alnum_def is_digit_def)

lemma build_live_event_verifies:
  assumes "build_live_event E a = Inr v"
  shows "verify_live_event E v = Inr True"
proof -
  from assms obtain content where "a_content a = JStr content"
    by (auto simp: build_live_event_def res_simps Let_def split: if_splits)
  with assms show ?thesis
    by (auto simp: build_live_event_def verify_live_event_iff event_ok_def res_simps Let_def
        split: if_splits)
qed

end
