(* ===== verification/PutOnce.thy ===== *)
theory PutOnce
  imports Prelude
begin

text \<open>
  The interface of a store whose entries are written once: artifacts under their digest,
  disputes and evidence bundles under their identifier, tasks in an agent's journal. A put
  stores the content of a value under its key, or returns normally when the same content is
  there already, or raises; it never replaces a content by another one. The clients rely on
  that for idempotent retries, and derive here, once, what it gives for runs of puts.
\<close>

locale put_once =
  fixes put :: "'s \<Rightarrow> 'v \<Rightarrow> ('r \<times> 's) res"
    and key :: "'v \<Rightarrow> 'k"
    and content :: "'v \<Rightarrow> 'c"
    and look :: "'s \<Rightarrow> 'k \<Rightarrow> 'c option"
    and inv :: "'s \<Rightarrow> bool"
    and ok :: "'v \<Rightarrow> bool"
  assumes put_look: "inv s \<Longrightarrow> ok v \<Longrightarrow> put s v = Inr (r, s') \<Longrightarrow>
      look s' = (look s)(key v \<mapsto> content v)"
    and put_same: "inv s \<Longrightarrow> ok v \<Longrightarrow> put s v = Inr (r, s') \<Longrightarrow> look s (key v) = Some c \<Longrightarrow>
      c = content v"
    and put_inv: "inv s \<Longrightarrow> ok v \<Longrightarrow> put s v = Inr (r, s') \<Longrightarrow> inv s'"
begin

definition put_state :: "'s \<Rightarrow> 'v \<Rightarrow> 's res" where
  "put_state s v = bindE (put s v) (\<lambda>(r, s'). Inr s')"

lemma put_state_Inr_iff: "put_state s v = Inr s' \<longleftrightarrow> (\<exists>r. put s v = Inr (r, s'))"
  by (auto simp: put_state_def bindE_Inr_iff split: prod.splits)

lemma conflict: "inv s \<Longrightarrow> ok v \<Longrightarrow> look s (key v) = Some c \<Longrightarrow> c \<noteq> content v \<Longrightarrow> \<exists>e. put s v = Inl e"
  by (metis put_same surj_pair sum.exhaust)

lemma keeps: "inv s \<Longrightarrow> ok v \<Longrightarrow> put s v = Inr (r, s') \<Longrightarrow> look s k = Some c \<Longrightarrow> look s' k = Some c"
  by (metis fun_upd_apply put_look put_same)

lemma run_inv:
  assumes "foldE put_state s vs = Inr t" "inv s" "\<And>v. v \<in> set vs \<Longrightarrow> ok v"
  shows "inv t"
  using assms(1,2) by (rule foldE_invariant) (auto simp: put_state_Inr_iff intro: put_inv assms(3))

text \<open>What is stored stays as it is.\<close>

lemma run_keeps:
  assumes "foldE put_state s vs = Inr t" "inv s" "\<And>v. v \<in> set vs \<Longrightarrow> ok v" "look s k = Some c"
  shows "look t k = Some c"
proof -
  have "inv t \<and> look t k = Some c"
    using assms(1)
  proof (rule foldE_invariant [where P = "\<lambda>s. inv s \<and> look s k = Some c"])
    show "inv s \<and> look s k = Some c" using assms by simp
  next
    fix s x s'
    assume "x \<in> set vs" "inv s \<and> look s k = Some c" "put_state s x = Inr s'"
    then show "inv s' \<and> look s' k = Some c"
      using assms(3) by (auto simp: put_state_Inr_iff intro: put_inv keeps)
  qed
  then show ?thesis ..
qed

text \<open>After a run that did not raise, every value of the run is there with its content.\<close>

lemma run_stored:
  assumes "foldE put_state s vs = Inr t" "inv s" "\<And>v. v \<in> set vs \<Longrightarrow> ok v" "v \<in> set vs"
  shows "look t (key v) = Some (content v)"
proof -
  from assms(4) obtain us ws where vs: "vs = us @ v # ws" by (auto simp: in_set_conv_decomp)
  with assms(1) obtain s1 r s2 where
    1: "foldE put_state s us = Inr s1" and 2: "put s1 v = Inr (r, s2)" and 3: "foldE put_state s2 ws = Inr t"
    by (auto simp: foldE_append bindE_Inr_iff put_state_Inr_iff)
  have i1: "inv s1" using run_inv [OF 1 assms(2)] assms(3) vs by auto
  then have "look s2 (key v) = Some (content v)" "inv s2"
    using put_look [OF _ _ 2] put_inv [OF _ _ 2] assms(3,4) by auto
  with run_keeps [OF 3] assms(3) vs show ?thesis by auto
qed

text \<open>So two values of one run with the same key have the same content.\<close>

lemma run_agree:
  assumes "foldE put_state s vs = Inr t" "inv s" "\<And>v. v \<in> set vs \<Longrightarrow> ok v"
    and "v \<in> set vs" "w \<in> set vs" "key v = key w"
  shows "content v = content w"
  using run_stored [OF assms(1-3) assms(4)] run_stored [OF assms(1-3) assms(5)] assms(6) by simp

end

text \<open>A store that raises only on a conflict; then a repeated put succeeds and changes nothing.\<close>

locale put_once_total = put_once +
  assumes put_succeeds: "inv s \<Longrightarrow> ok v \<Longrightarrow> look s (key v) = None \<or> look s (key v) = Some (content v) \<Longrightarrow>
      \<exists>r s'. put s v = Inr (r, s')"
begin

lemma retry:
  assumes "inv s" "ok v" "put s v = Inr (r, s')"
  shows "\<exists>r' s''. put s' v = Inr (r', s'') \<and> look s'' = look s'"
proof -
  have l: "look s' (key v) = Some (content v)" "inv s'"
    using put_look [OF assms] put_inv [OF assms] by auto
  then obtain r' s'' where 2: "put s' v = Inr (r', s'')" using put_succeeds assms(2) by blast
  have "look s'' = look s'" using put_look [OF l(2) assms(2) 2] l(1) by (simp add: fun_upd_idem)
  with 2 show ?thesis by blast
qed

lemma put_iff:
  "inv s \<Longrightarrow> ok v \<Longrightarrow>
   (\<exists>r s'. put s v = Inr (r, s')) \<longleftrightarrow> look s (key v) = None \<or> look s (key v) = Some (content v)"
  by (metis not_None_eq put_same put_succeeds)

end

end
