(* ===== verification/Stored.thy ===== *)
theory Stored
  imports Hashes
begin

text \<open>
  JSON values in their canonical text form: a database column or a log line holds the text that
  \<open>canonical_json_bytes\<close> wrote, and a reader decodes it again. What the reader gets behaves like
  the value that was written, in every access the program makes, and has the same hash.
\<close>

text \<open>\<open>json.loads(row["value_json"])\<close>.\<close>

definition load_json :: "string \<Rightarrow> json res" where
  "load_json t = (case json_loads t of Some v \<Rightarrow> Inr v | None \<Rightarrow> Inl ValueError)"

lemma load_canonical [simp]: "wf_json v \<Longrightarrow> load_json (canonical_json_bytes v) = Inr (jnorm v)"
  by (simp add: load_json_def json_loads_canonical)

text \<open>A Python value bound to a \<open>TEXT\<close> column. \<open>None\<close> would be \<open>NULL\<close>, which no table is
  meant to hold as a key; it is an error here, like a value SQLite cannot bind.\<close>

definition sql_text :: "json \<Rightarrow> string res" where
  "sql_text v = (case v of
       JStr s \<Rightarrow> Inr s
     | JInt i \<Rightarrow> Inr (py_str_int i)
     | JBool b \<Rightarrow> Inr (if b then ''1'' else ''0'')
     | _ \<Rightarrow> Inl InterfaceError)"

definition text_item :: "json \<Rightarrow> string \<Rightarrow> string res" where
  "text_item v k = bindE (jitem v k) sql_text"

lemma sql_text_JStr [simp]: "sql_text (JStr s) = Inr s"
  by (simp add: sql_text_def)

definition text_key :: "string \<Rightarrow> json \<Rightarrow> string" where
  "text_key k v = (case text_item v k of Inr s \<Rightarrow> s | Inl _ \<Rightarrow> [])"

section \<open>Stored values\<close>

text \<open>A column holds the canonical text of the value that a read returns.\<close>

definition stored :: "string \<Rightarrow> json \<Rightarrow> bool" where
  "stored t v \<longleftrightarrow> wf_json v \<and> load_json t = Inr v \<and> canonical_json_bytes v = t"

lemma stored_canonical [intro]: "wf_json v \<Longrightarrow> stored (canonical_json_bytes v) (jnorm v)"
  by (simp add: stored_def)

lemma stored_load: "stored t v \<Longrightarrow> load_json t = Inr v"
  by (simp add: stored_def)

definition sorted_dict :: "dict \<Rightarrow> dict" where
  "sorted_dict d = sort_key fst (map (\<lambda>kv. (fst kv, jnorm (snd kv))) d)"

lemma jnorm_JObj: "jnorm (JObj d) = JObj (sorted_dict d)"
  by (simp add: sorted_dict_def)

lemma map_of_sorted_dict: "wf_json (JObj d) \<Longrightarrow> map_of (sorted_dict d) k = map_option jnorm (map_of d k)"
  by (simp add: sorted_dict_def map_of_norm)

lemma canonical_delete_sorted:
  "canonical_json_bytes (JObj (AList.delete k (sorted_dict d))) = canonical_json_bytes (JObj (AList.delete k d))"
  unfolding sorted_dict_def by (rule canonical_delete_norm)

lemma stored_JObj: "wf_json (JObj d) \<Longrightarrow> stored (canonical_json_bytes (JObj d)) (JObj (sorted_dict d))"
  using stored_canonical [of "JObj d"] by (simp only: jnorm_JObj)

lemma jnorm_eq_JStr [simp]: "jnorm v = JStr s \<longleftrightarrow> v = JStr s"
  by (cases v) auto

section \<open>The text under a self-hash\<close>

definition str_at :: "string \<Rightarrow> dict \<Rightarrow> string option" where
  "str_at k d = (case map_of d k of Some (JStr s) \<Rightarrow> Some s | _ \<Rightarrow> None)"

lemma str_at_Some: "str_at k d = Some s \<longleftrightarrow> map_of d k = Some (JStr s)"
  by (auto simp: str_at_def split: option.splits json.splits)

definition wf_dict :: "dict \<Rightarrow> bool" where
  "wf_dict d \<longleftrightarrow> wf_json (JObj d)"

definition body_without :: "string \<Rightarrow> dict \<Rightarrow> string" where
  "body_without k d = canonical_json_bytes (JObj (AList.delete k d))"

text \<open>The bytes under the hash determine every other field.\<close>

lemma body_without_str_at:
  assumes "wf_json (JObj a)" "wf_json (JObj b)" "body_without k a = body_without k b" "j \<noteq> k"
  shows "str_at j a = str_at j b"
proof -
  have "jnorm (JObj (AList.delete k a)) = jnorm (JObj (AList.delete k b))"
    using assms(1-3) canonical_inject [OF wf_delete [OF assms(1)] wf_delete [OF assms(2)]]
    by (simp add: body_without_def)
  then have "sorted_dict (AList.delete k a) = sorted_dict (AList.delete k b)" by (simp only: jnorm_JObj json.inject)
  then have "map_option jnorm (map_of a j) = map_option jnorm (map_of b j)"
    using map_of_sorted_dict [OF wf_delete [OF assms(1)], of k j] map_of_sorted_dict [OF wf_delete [OF assms(2)], of k j]
      assms(4) by simp
  then show ?thesis
    by (cases "map_of a j"; cases "map_of b j"; cases "the (map_of a j)"; cases "the (map_of b j)") (auto simp: str_at_def)
qed

lemma map_of_sorted_delete:
  assumes "wf_json (JObj d)" "j \<noteq> k"
  shows "map_of (sorted_dict (AList.delete k d)) j = map_of (sorted_dict d) j"
  using assms(2) map_of_sorted_dict [OF assms(1), of j] map_of_sorted_dict [OF wf_delete [OF assms(1)], of k j]
  by simp

text \<open>Two records with the same body and the same value under the removed key are the same record.\<close>

lemma body_without_inject:
  assumes wd: "wf_json (JObj d)" and we: "wf_json (JObj e)"
    and b: "body_without k d = body_without k e" and k: "map_of d k = map_of e k"
  shows "jnorm (JObj d) = jnorm (JObj e)"
proof -
  have "map_of (sorted_dict d) j = map_of (sorted_dict e) j" for j
  proof (cases "j = k")
    case True
    with k wd we show ?thesis by (simp add: map_of_sorted_dict del: wf_json.simps)
  next
    case False
    have "jnorm (JObj (AList.delete k d)) = jnorm (JObj (AList.delete k e))"
      using b canonical_inject [OF wf_delete [OF wd] wf_delete [OF we]] by (simp add: body_without_def)
    then have "sorted_dict (AList.delete k d) = sorted_dict (AList.delete k e)"
      by (simp only: jnorm_JObj json.inject)
    with map_of_sorted_delete [OF wd False] map_of_sorted_delete [OF we False] show ?thesis by simp
  qed
  then have "map_of (sorted_dict d) = map_of (sorted_dict e)" by blast
  moreover have dist: "distinct (map fst (sorted_dict d))" "distinct (map fst (sorted_dict e))"
    using wf_jnorm [OF wd] wf_jnorm [OF we] unfolding jnorm_JObj by simp_all
  ultimately have "set (sorted_dict d) = set (sorted_dict e)" by (metis map_of_inject_set)
  moreover have "sorted (map fst (sorted_dict d))" "sorted (map fst (sorted_dict e))"
    by (simp_all add: sorted_dict_def)
  ultimately have "sorted_dict d = sorted_dict e"
    using dist by (intro map_sorted_distinct_set_unique [of fst]) (auto simp: distinct_map)
  then show ?thesis by (simp only: jnorm_JObj)
qed

end
