(* ===== verification/LiveStore.thy ===== *)
theory LiveStore
  imports LiveProtocol PutOnce Stored
begin

text \<open>
  \<^verbatim>\<open>live_store.py\<close>: the content-addressed artifact files and the SQLite metadata tables of a
  live session. A table is the list of its rows in insertion order, an \<open>INSERT\<close> fails where a
  key or a \<open>UNIQUE\<close> group is taken, and the JSON column holds the canonical text that the code
  writes and decodes again on every read. An operation that raises leaves the tables as they
  were, as the transaction of \<open>with self.connect()\<close> does.
\<close>

section \<open>Artifacts\<close>

type_synonym artifact_fs = "string list \<rightharpoonup> string"

definition path_for :: "string \<Rightarrow> string list res" where
  "path_for digest =
     (if \<not> starts_with digest ''sha256:'' \<or> length digest \<noteq> 71
      then le_error ''invalid_artifact_hash'' digest
      else let raw = drop 7 digest in Inr [''sha256'', take 2 raw, raw])"

definition artifact_put :: "ext \<Rightarrow> artifact_fs \<Rightarrow> string \<Rightarrow> (string \<times> artifact_fs) res" where
  "artifact_put E files data =
     (let digest = sha256_prefixed E data in
      bindE (path_for digest) (\<lambda>path.
      case files path of
        Some present \<Rightarrow> if present \<noteq> data then le_error ''artifact_conflict'' digest
          else Inr (digest, files)
      | None \<Rightarrow> Inr (digest, files(path \<mapsto> data))))"

definition artifact_get :: "ext \<Rightarrow> artifact_fs \<Rightarrow> string \<Rightarrow> string res" where
  "artifact_get E files digest =
     bindE (path_for digest) (\<lambda>path.
     case files path of
       None \<Rightarrow> le_error ''artifact_missing'' digest
     | Some data \<Rightarrow>
         if sha256_prefixed E data \<noteq> digest then le_error ''artifact_hash_mismatch'' digest
         else Inr data)"

text \<open>Only \<open>LoveEngineError\<close> is caught; the reader raises nothing else.\<close>

definition artifact_exists :: "ext \<Rightarrow> artifact_fs \<Rightarrow> string \<Rightarrow> bool" where
  "artifact_exists E files digest = (case artifact_get E files digest of Inr _ \<Rightarrow> True | Inl _ \<Rightarrow> False)"

lemma path_for_Inr_iff:
  "path_for digest = Inr path \<longleftrightarrow>
     (\<exists>raw. digest = ''sha256:'' @ raw \<and> length raw = 64 \<and> path = [''sha256'', take 2 raw, raw])"
proof
  assume *: "path_for digest = Inr path"
  then have "take 7 digest = ''sha256:''" "length digest = 71"
    by (auto simp: path_for_def starts_with_def eval_nat_numeral split: if_splits)
  then have "digest = ''sha256:'' @ drop 7 digest" "length (drop 7 digest) = 64"
    by (metis append_take_drop_id, simp)
  with * show "\<exists>raw. digest = ''sha256:'' @ raw \<and> length raw = 64 \<and> path = [''sha256'', take 2 raw, raw]"
    by (intro exI [of _ "drop 7 digest"]) (auto simp: path_for_def Let_def split: if_splits)
qed (auto simp: path_for_def starts_with_def Let_def)

lemma path_for_inject: "path_for a = Inr p \<Longrightarrow> path_for b = Inr p \<Longrightarrow> a = b"
  by (auto simp: path_for_Inr_iff)

lemma artifact_put_Inr_iff:
  "artifact_put E files data = Inr (digest, files') \<longleftrightarrow>
     (\<exists>path. digest = sha256_prefixed E data \<and> path_for digest = Inr path \<and>
        (files path = None \<or> files path = Some data) \<and> files' = files(path \<mapsto> data))"
proof (cases "path_for (sha256_prefixed E data)")
  case (Inr p)
  then show ?thesis by (cases "files p") (auto simp: artifact_put_def Let_def fun_upd_idem)
qed (auto simp: artifact_put_def Let_def)

lemma artifact_get_Inr_iff [res_simps]:
  "artifact_get E files digest = Inr data \<longleftrightarrow>
     (\<exists>path. path_for digest = Inr path \<and> files path = Some data \<and> sha256_prefixed E data = digest)"
  by (auto simp: artifact_get_def res_simps split: option.splits if_splits)

text \<open>Artifacts as a write-once store; the digest must have the length of a SHA-256 digest.\<close>

interpretation artifacts: put_once_total "artifact_put E" "sha256_prefixed E" id
    "\<lambda>files k. case path_for k of Inr p \<Rightarrow> files p | Inl _ \<Rightarrow> None" "\<lambda>_. True"
    "\<lambda>data. length (sha256_hex E data) = 64" for E
proof (unfold_locales, goal_cases)
  case (1 s v r s')
  then show ?case
    by (auto simp: artifact_put_Inr_iff fun_eq_iff split: sum.splits dest: path_for_inject)
next
  case (2 s v r s' c)
  then show ?case by (auto simp: artifact_put_Inr_iff split: sum.splits)
next
  case (4 s v)
  then have "path_for (sha256_prefixed E v) = Inr [''sha256'', take 2 (sha256_hex E v), sha256_hex E v]"
    by (simp add: path_for_Inr_iff sha256_prefixed_def)
  with 4 show ?case by (auto simp: artifact_put_Inr_iff)
qed simp

section \<open>Tables\<close>

record event_row =
  er_id :: string
  er_session :: string
  er_sequence :: int
  er_hash :: string
  er_value :: string

record bundle_row =
  br_session :: string
  br_revision :: int
  br_hash :: string
  br_value :: string

record review_row =
  rr_id :: string
  rr_dispute :: string
  rr_node :: string
  rr_value :: string

record live_db =
  sessions :: "(string \<times> string) list"
  events :: "event_row list"
  bundles :: "bundle_row list"
  disputes :: "(string \<times> string) list"
  reviews :: "review_row list"
  cursors :: "(string \<times> string) list"

definition empty_db :: live_db where
  "empty_db = \<lparr>sessions = [], events = [], bundles = [], disputes = [], reviews = [], cursors = []\<rparr>"

subsection \<open>Sessions\<close>

definition get_session :: "live_db \<Rightarrow> string \<Rightarrow> json res" where
  "get_session db session_id =
     (case map_of (sessions db) session_id of
        None \<Rightarrow> le_error ''session_not_found'' session_id
      | Some t \<Rightarrow> load_json t)"

definition create_session :: "live_db \<Rightarrow> json \<Rightarrow> (json \<times> live_db) res" where
  "create_session db v =
     bindE (text_item v ''session_id'') (\<lambda>sid.
     if map_of (sessions db) sid = None
     then Inr (v, db\<lparr>sessions := sessions db @ [(sid, canonical_json_bytes v)]\<rparr>)
     else bindE (get_session db sid) (\<lambda>existing.
       if canonical_json_bytes existing = canonical_json_bytes v then Inr (existing, db)
       else le_error ''session_conflict'' []))"

definition list_sessions :: "live_db \<Rightarrow> json list res" where
  "list_sessions db = mapE (\<lambda>r. load_json (snd r)) (sort_key fst (sessions db))"

text \<open>\<open>UPDATE sessions SET value_json = ? WHERE session_id = ?\<close>.\<close>

definition update_session :: "live_db \<Rightarrow> string \<Rightarrow> json \<Rightarrow> live_db" where
  "update_session db sid v =
     db\<lparr>sessions := map (\<lambda>r. if fst r = sid then (sid, canonical_json_bytes v) else r) (sessions db)\<rparr>"

definition close_session :: "live_db \<Rightarrow> string \<Rightarrow> json \<Rightarrow> (json \<times> live_db) res" where
  "close_session db session_id closed_at =
     bindE (get_session db session_id) (\<lambda>session.
     bindE (jitem session ''status'') (\<lambda>status.
     if status = JStr ''closed'' then Inr (session, db)
     else
       bindE (jset session ''status'' (JStr ''closed'')) (\<lambda>s1.
       bindE (jset s1 ''closed_at'' (JStr (py_str closed_at))) (\<lambda>s2.
       Inr (s2, update_session db session_id s2)))))"

subsection \<open>Events\<close>

definition find_event :: "live_db \<Rightarrow> string \<Rightarrow> event_row option" where
  "find_event db event_id = find (\<lambda>r. er_id r = event_id) (events db)"

definition get_event :: "live_db \<Rightarrow> string \<Rightarrow> json option res" where
  "get_event db event_id =
     (case find_event db event_id of
        None \<Rightarrow> Inr None
      | Some r \<Rightarrow> bindE (load_json (er_value r)) (\<lambda>v. Inr (Some v)))"

definition insert_event :: "live_db \<Rightarrow> event_row \<Rightarrow> live_db res" where
  "insert_event db row =
     (if \<exists>r \<in> set (events db). er_id r = er_id row \<or>
           er_session r = er_session row \<and> er_sequence r = er_sequence row
      then Inl IntegrityError
      else Inr (db\<lparr>events := events db @ [row]\<rparr>))"

text \<open>The result tells whether the event was there already.\<close>

definition append_event :: "ext \<Rightarrow> live_db \<Rightarrow> json \<Rightarrow> (bool \<times> live_db) res" where
  "append_event E db event =
     bindE (text_item event ''session_id'') (\<lambda>sid.
     bindE (get_session db sid) (\<lambda>session.
     bindE (jitem session ''status'') (\<lambda>status.
     bindE (ensure (status \<noteq> JStr ''closed'') ''session_closed'' sid) (\<lambda>_.
     bindE (text_item event ''event_id'') (\<lambda>eid.
     case find_event db eid of
       Some row \<Rightarrow>
         bindE (load_json (er_value row)) (\<lambda>existing.
         if canonical_json_bytes existing = canonical_json_bytes event then Inr (True, db)
         else le_error ''event_conflict'' [])
     | None \<Rightarrow>
         bindE (verify_live_event E event) (\<lambda>valid.
         bindE (ensure valid ''event_hash_mismatch'' eid) (\<lambda>_.
         bindE (int_item event ''sequence'') (\<lambda>seq.
         bindE (int_item session ''next_sequence'') (\<lambda>expected.
         bindE (ensure (seq = expected) ''sequence_gap'' (py_str_int seq)) (\<lambda>_.
         bindE (jitem event ''previous_event_hash'') (\<lambda>previous.
         bindE (jitem session ''head_event_hash'') (\<lambda>head.
         bindE (ensure (py_eq previous head) ''hash_chain_broken'' eid) (\<lambda>_.
         bindE (text_item event ''event_hash'') (\<lambda>hash.
         bindE (insert_event db \<lparr>er_id = eid, er_session = sid, er_sequence = seq,
                  er_hash = hash, er_value = canonical_json_bytes event\<rparr>) (\<lambda>db1.
         bindE (jset session ''next_sequence'' (JStr (py_str_int (seq + 1)))) (\<lambda>s1.
         bindE (jitem event ''event_hash'') (\<lambda>event_hash.
         bindE (jset s1 ''head_event_hash'' event_hash) (\<lambda>s2.
         Inr (False, update_session db1 sid s2)))))))))))))))))))"

definition session_rows :: "live_db \<Rightarrow> string \<Rightarrow> event_row list" where
  "session_rows db sid = sort_key er_sequence (filter (\<lambda>r. er_session r = sid) (events db))"

definition list_events :: "live_db \<Rightarrow> string \<Rightarrow> int \<Rightarrow> json list res" where
  "list_events db session_id after_sequence =
     mapE (\<lambda>r. load_json (er_value r))
       (sort_key er_sequence
         (filter (\<lambda>r. er_session r = session_id \<and> after_sequence < er_sequence r) (events db)))"

subsection \<open>Bundles\<close>

definition find_bundle :: "live_db \<Rightarrow> string \<Rightarrow> int \<Rightarrow> bundle_row option" where
  "find_bundle db sid revision = find (\<lambda>r. br_session r = sid \<and> br_revision r = revision) (bundles db)"

definition save_bundle :: "live_db \<Rightarrow> json \<Rightarrow> (json \<times> live_db) res" where
  "save_bundle db bundle =
     bindE (text_item bundle ''session_id'') (\<lambda>sid.
     bindE (int_item bundle ''revision'') (\<lambda>revision.
     case find_bundle db sid revision of
       Some row \<Rightarrow>
         bindE (load_json (br_value row)) (\<lambda>current.
         bindE (jitem current ''bundle_hash'') (\<lambda>h.
         bindE (jitem bundle ''bundle_hash'') (\<lambda>h'.
         if py_eq h h' then Inr (current, db)
         else le_error ''bundle_revision_conflict'' (py_str_int revision))))
     | None \<Rightarrow>
         bindE (text_item bundle ''bundle_hash'') (\<lambda>hash.
         Inr (bundle, db\<lparr>bundles := bundles db @ [\<lparr>br_session = sid, br_revision = revision,
           br_hash = hash, br_value = canonical_json_bytes bundle\<rparr>]\<rparr>))))"

text \<open>\<open>ORDER BY revision DESC LIMIT 1\<close> when no revision is given.\<close>

definition get_bundle :: "live_db \<Rightarrow> string \<Rightarrow> json option \<Rightarrow> json res" where
  "get_bundle db session_id revision =
     bindE (case revision of
         None \<Rightarrow> Inr (case rev (sort_key br_revision (filter (\<lambda>r. br_session r = session_id) (bundles db))) of
             r # _ \<Rightarrow> Some r | [] \<Rightarrow> None)
       | Some v \<Rightarrow> bindE (py_int v) (\<lambda>i. Inr (find_bundle db session_id i))) (\<lambda>row.
     case row of
       None \<Rightarrow> le_error ''bundle_not_found'' session_id
     | Some r \<Rightarrow> load_json (br_value r))"

subsection \<open>Disputes, reviews, cursors\<close>

definition save_dispute :: "live_db \<Rightarrow> json \<Rightarrow> (json \<times> live_db) res" where
  "save_dispute db dispute =
     bindE (text_item dispute ''dispute_id'') (\<lambda>did.
     case map_of (disputes db) did of
       Some t \<Rightarrow>
         bindE (load_json t) (\<lambda>current.
         if canonical_json_bytes current = canonical_json_bytes dispute then Inr (current, db)
         else le_error ''dispute_conflict'' did)
     | None \<Rightarrow> Inr (dispute, db\<lparr>disputes := disputes db @ [(did, canonical_json_bytes dispute)]\<rparr>))"

definition get_dispute :: "live_db \<Rightarrow> string \<Rightarrow> json res" where
  "get_dispute db dispute_id =
     (case map_of (disputes db) dispute_id of
        None \<Rightarrow> le_error ''dispute_not_found'' dispute_id
      | Some t \<Rightarrow> load_json t)"

definition save_review :: "live_db \<Rightarrow> json \<Rightarrow> (json \<times> live_db) res" where
  "save_review db review =
     bindE (text_item review ''review_id'') (\<lambda>rid.
     bindE (text_item review ''dispute_id'') (\<lambda>did.
     bindE (text_item review ''node'') (\<lambda>node.
     if \<exists>r \<in> set (reviews db). rr_id r = rid \<or> rr_dispute r = did \<and> rr_node r = node
     then le_error ''duplicate_review_node'' node
     else Inr (review, db\<lparr>reviews := reviews db @ [\<lparr>rr_id = rid, rr_dispute = did, rr_node = node,
       rr_value = canonical_json_bytes review\<rparr>]\<rparr>))))"

definition list_reviews :: "live_db \<Rightarrow> string \<Rightarrow> json list res" where
  "list_reviews db dispute_id =
     mapE (\<lambda>r. load_json (rr_value r)) (sort_key rr_id (filter (\<lambda>r. rr_dispute r = dispute_id) (reviews db)))"

definition set_cursor :: "live_db \<Rightarrow> string \<Rightarrow> json \<Rightarrow> live_db" where
  "set_cursor db consumer cursor = db\<lparr>cursors := AList.update consumer (py_str cursor) (cursors db)\<rparr>"

definition get_cursor :: "live_db \<Rightarrow> string \<Rightarrow> string option" where
  "get_cursor db consumer = map_of (cursors db) consumer"

end
