(* ===== verification/LiveStoreInv.thy ===== *)
theory LiveStoreInv
  imports LiveStore
begin

text \<open>
  What the metadata store of \<^verbatim>\<open>live_store.py\<close> keeps true: each session's events form one
  gap-free chain of verified events from the zero hash to the recorded head, in a state that
  any sequence of calls reaches from the empty database. The store's tables are also shown to
  be write-once where the code promises it.
\<close>

section \<open>Stored events\<close>

lemma event_ok_sorted:
  assumes "wf_json (JObj d)" "event_ok E d"
  shows "event_ok E (sorted_dict d)"
proof -
  have "secret_free (JObj (sorted_dict d))"
    using assms(2) secret_free_jnorm [of "JObj d"] unfolding event_ok_def jnorm_JObj by simp
  with assms show ?thesis
    by (auto simp: event_ok_def map_of_sorted_dict canonical_delete_sorted simp del: wf_json.simps)
qed

lemma text_item_sorted:
  "wf_json (JObj d) \<Longrightarrow> text_item (JObj (sorted_dict d)) k = text_item (JObj d) k"
  by (auto simp: text_item_def map_of_sorted_dict sql_text_def simp del: wf_json.simps split: option.splits json.splits)

lemma int_item_sorted:
  "wf_json (JObj d) \<Longrightarrow> int_item (JObj (sorted_dict d)) k = int_item (JObj d) k"
  by (auto simp: int_item_def map_of_sorted_dict simp del: wf_json.simps split: option.splits)

section \<open>The chain of a session\<close>

text \<open>Row \<open>r\<close> of session \<open>sid\<close> holds a verified event with sequence number \<open>n\<close> that names \<open>h\<close>
  as its predecessor.\<close>

definition row_ok :: "ext \<Rightarrow> string \<Rightarrow> int \<Rightarrow> string \<Rightarrow> event_row \<Rightarrow> bool" where
  "row_ok E sid n h r \<longleftrightarrow> er_session r = sid \<and> er_sequence r = n \<and>
     (\<exists>d. stored (er_value r) (JObj d) \<and> event_ok E d \<and>
        text_item (JObj d) ''event_id'' = Inr (er_id r) \<and>
        text_item (JObj d) ''session_id'' = Inr sid \<and>
        int_item (JObj d) ''sequence'' = Inr n \<and>
        map_of d ''previous_event_hash'' = Some (JStr h) \<and>
        map_of d ''event_hash'' = Some (JStr (er_hash r)))"

fun rows_chain :: "ext \<Rightarrow> string \<Rightarrow> int \<Rightarrow> string \<Rightarrow> event_row list \<Rightarrow> int \<Rightarrow> string \<Rightarrow> bool" where
  "rows_chain E sid n h [] n' h' \<longleftrightarrow> n' = n \<and> h' = h"
| "rows_chain E sid n h (r # rs) n' h' \<longleftrightarrow>
     row_ok E sid n h r \<and> rows_chain E sid (n + 1) (er_hash r) rs n' h'"

lemma rows_chain_snoc:
  "rows_chain E sid n h (rs @ [r]) n' h' \<longleftrightarrow>
     (\<exists>h1. rows_chain E sid n h rs (n' - 1) h1 \<and> row_ok E sid (n' - 1) h1 r \<and> h' = er_hash r)"
  by (induction rs arbitrary: n h) auto

lemma rows_chain_length: "rows_chain E sid n h rs n' h' \<Longrightarrow> n' = n + int (length rs)"
  by (induction rs arbitrary: n h) fastforce+

lemma rows_chain_sequences: "rows_chain E sid n h rs n' h' \<Longrightarrow> r \<in> set rs \<Longrightarrow> n \<le> er_sequence r \<and> er_sequence r < n'"
proof (induction rs arbitrary: n h)
  case (Cons x xs)
  from rows_chain_length [of E sid "n + 1" "er_hash x" xs n' h'] Cons show ?case
    by (fastforce simp: row_ok_def)
qed simp

lemma rows_chain_sorted: "rows_chain E sid n h rs n' h' \<Longrightarrow> sorted (map er_sequence rs)"
proof (induction rs arbitrary: n h)
  case (Cons x xs)
  from rows_chain_sequences [of E sid "n + 1" "er_hash x" xs n' h'] Cons show ?case
    by (fastforce simp: row_ok_def)
qed simp

section \<open>The invariant\<close>

definition rows_of :: "live_db \<Rightarrow> string \<Rightarrow> event_row list" where
  "rows_of db sid = filter (\<lambda>r. er_session r = sid) (events db)"

definition session_ok :: "ext \<Rightarrow> event_row list \<Rightarrow> string \<Rightarrow> string \<Rightarrow> bool" where
  "session_ok E rows sid t \<longleftrightarrow> (\<exists>d n h. stored t (JObj d) \<and>
     map_of d ''status'' \<in> {Some (JStr ''live''), Some (JStr ''closed'')} \<and>
     map_of d ''next_sequence'' = Some (JStr (py_str_int n)) \<and>
     map_of d ''head_event_hash'' = Some (JStr h) \<and>
     rows_chain E sid 1 ZERO_HASH rows n h)"

definition live_inv :: "ext \<Rightarrow> live_db \<Rightarrow> bool" where
  "live_inv E db \<longleftrightarrow>
     distinct (map fst (sessions db)) \<and>
     (\<forall>(sid, t) \<in> set (sessions db). session_ok E (rows_of db sid) sid t) \<and>
     (\<forall>r \<in> set (events db). er_session r \<in> fst ` set (sessions db)) \<and>
     distinct (map er_id (events db))"

lemma live_inv_empty: "live_inv E empty_db"
  by (simp add: live_inv_def empty_db_def)

lemma live_inv_cong:
  "live_inv E db \<Longrightarrow> sessions db' = sessions db \<Longrightarrow> events db' = events db \<Longrightarrow> live_inv E db'"
  by (simp add: live_inv_def rows_of_def)

lemma live_inv_session:
  "live_inv E db \<Longrightarrow> map_of (sessions db) sid = Some t \<Longrightarrow> session_ok E (rows_of db sid) sid t"
  by (auto simp: live_inv_def dest!: map_of_SomeD)

lemma get_session_Inr:
  assumes "live_inv E db" "get_session db sid = Inr s"
  obtains d n h where "s = JObj d" "wf_json (JObj d)" "map_of (sessions db) sid = Some (canonical_json_bytes (JObj d))"
    "map_of d ''status'' \<in> {Some (JStr ''live''), Some (JStr ''closed'')}"
    "map_of d ''next_sequence'' = Some (JStr (py_str_int n))"
    "map_of d ''head_event_hash'' = Some (JStr h)" "rows_chain E sid 1 ZERO_HASH (rows_of db sid) n h"
proof -
  from assms(2) obtain t where t: "map_of (sessions db) sid = Some t" "load_json t = Inr s"
    by (auto simp: get_session_def split: option.splits)
  from live_inv_session [OF assms(1) t(1)] obtain d n h where
    "stored t (JObj d)" "map_of d ''status'' \<in> {Some (JStr ''live''), Some (JStr ''closed'')}"
    "map_of d ''next_sequence'' = Some (JStr (py_str_int n))"
    "map_of d ''head_event_hash'' = Some (JStr h)" "rows_chain E sid 1 ZERO_HASH (rows_of db sid) n h"
    unfolding session_ok_def by blast
  with t show ?thesis by (intro that [of d n h]) (auto simp: stored_def)
qed

lemma live_inv_sessionI:
  assumes inv: "live_inv E db" and ok: "session_ok E (rows_of db sid @ rows) sid t"
    and known: "map_of (sessions db) sid \<noteq> None"
    and ev: "events db' = events db @ rows" and rows: "\<And>r. r \<in> set rows \<Longrightarrow> er_session r = sid"
    and ids: "distinct (map er_id (events db @ rows))"
    and se: "sessions db' = map (\<lambda>r. if fst r = sid then (sid, t) else r) (sessions db)"
  shows "live_inv E db'"
proof -
  have keys: "map fst (sessions db') = map fst (sessions db)"
    using se by (simp add: comp_def)
  have rows_sid: "rows_of db' s = (if s = sid then rows_of db sid @ rows else rows_of db s)" for s
    using ev rows by (auto simp: rows_of_def filter_empty_conv)
  have "session_ok E (rows_of db' s) s u" if "(s, u) \<in> set (sessions db')" for s u
    using that se ok inv by (auto simp: rows_sid live_inv_def split: if_splits)
  moreover have "fst ` set (sessions db') = fst ` set (sessions db)"
    using keys by (metis list.set_map)
  moreover have "sid \<in> fst ` set (sessions db)"
    using known unfolding map_of_eq_None_iff by simp
  then have "\<forall>r \<in> set (events db @ rows). er_session r \<in> fst ` set (sessions db)"
    using inv rows by (auto simp: live_inv_def)
  ultimately show ?thesis
    using inv keys ids ev unfolding live_inv_def by auto
qed

lemma py_str_int_1 [simp]: "py_str_int 1 = ''1''"
  by code_simp

section \<open>Every operation keeps it\<close>

lemma create_session_inv:
  assumes inv: "live_inv E db" and b: "build_live_session sid src at = Inr v" and w: "wf_json v"
    and c: "create_session db v = Inr (w', db')"
  shows "live_inv E db'"
proof -
  from b obtain d where v: "v = JObj d" "map_of d ''status'' = Some (JStr ''live'')"
    "map_of d ''next_sequence'' = Some (JStr ''1'')" "map_of d ''head_event_hash'' = Some (JStr ZERO_HASH)"
    by (auto simp: build_live_session_def res_simps Let_def)
  from c obtain k where k: "db' = db \<or>
      map_of (sessions db) k = None \<and> db' = db\<lparr>sessions := sessions db @ [(k, canonical_json_bytes v)]\<rparr>"
    by (auto simp: create_session_def res_simps split: if_splits)
  show ?thesis
  proof (cases "db' = db")
    case False
    with k have new: "map_of (sessions db) k = None"
      and db': "db' = db\<lparr>sessions := sessions db @ [(k, canonical_json_bytes v)]\<rparr>" by auto
    then have "k \<notin> fst ` set (sessions db)" by (simp add: map_of_eq_None_iff)
    moreover from this inv have none: "rows_of db k = []"
      by (auto simp: live_inv_def rows_of_def filter_empty_conv)
    moreover have "session_ok E [] k (canonical_json_bytes v)"
      unfolding session_ok_def
      using w v stored_JObj [of d]
      by (intro exI [of _ "sorted_dict d"] exI [of _ 1] exI [of _ ZERO_HASH])
        (auto simp: map_of_sorted_dict simp del: wf_json.simps)
    ultimately show ?thesis
      using inv db' by (auto simp: live_inv_def rows_of_def)
  qed (use inv in simp)
qed

lemma close_session_inv:
  assumes inv: "live_inv E db" and c: "close_session db sid at = Inr (w, db')"
  shows "live_inv E db'"
proof (cases "db' = db")
  case False
  with c obtain s where s: "get_session db sid = Inr s" by (auto simp: close_session_def res_simps)
  from get_session_Inr [OF inv s] obtain d n h where
    d: "s = JObj d" "wf_json (JObj d)" "map_of (sessions db) sid = Some (canonical_json_bytes (JObj d))"
    "map_of d ''next_sequence'' = Some (JStr (py_str_int n))"
    "map_of d ''head_event_hash'' = Some (JStr h)" "rows_chain E sid 1 ZERO_HASH (rows_of db sid) n h" .
  let ?d = "AList.update ''closed_at'' (JStr (py_str at)) (AList.update ''status'' (JStr ''closed'') d)"
  from c s d(1) False have db': "db' = update_session db sid (JObj ?d)"
    by (auto simp: close_session_def res_simps split: if_splits)
  have wf: "wf_json (JObj ?d)" using d(2) by (intro wf_update) simp_all
  have "session_ok E (rows_of db sid @ []) sid (canonical_json_bytes (JObj ?d))"
    unfolding session_ok_def using d stored_JObj [OF wf] wf
    by (intro exI [of _ "sorted_dict ?d"] exI [of _ n] exI [of _ h])
      (auto simp: map_of_sorted_dict simp del: wf_json.simps)
  then show ?thesis
    by (rule live_inv_sessionI [OF inv]) (use inv d(3) db' in \<open>auto simp: update_session_def live_inv_def\<close>)
qed (use inv in simp)

lemma find_event_Some: "find_event db eid = Some row \<Longrightarrow> row \<in> set (events db) \<and> er_id row = eid"
  by (auto simp: find_event_def find_Some_iff)

lemma append_event_cases:
  assumes inv: "live_inv E db" and a: "append_event E db event = Inr (dup, db')"
  obtains (duplicate) row v where "dup" "db' = db" "row \<in> set (events db)"
      "text_item event ''event_id'' = Inr (er_id row)" "load_json (er_value row) = Inr v"
      "canonical_json_bytes v = canonical_json_bytes event"
  | (new) d sid eid n h hash sd where "\<not> dup" "event = JObj d" "text_item event ''session_id'' = Inr sid"
      "text_item event ''event_id'' = Inr eid" "get_session db sid = Inr (JObj sd)"
      "map_of sd ''status'' = Some (JStr ''live'')" "find_event db eid = None"
      "event_ok E d" "int_item event ''sequence'' = Inr n" "map_of sd ''next_sequence'' = Some (JStr (py_str_int n))"
      "map_of sd ''head_event_hash'' = Some (JStr h)" "map_of d ''previous_event_hash'' = Some (JStr h)"
      "map_of d ''event_hash'' = Some (JStr hash)"
      "db' = update_session (db\<lparr>events := events db @ [\<lparr>er_id = eid, er_session = sid, er_sequence = n,
                  er_hash = hash, er_value = canonical_json_bytes event\<rparr>]\<rparr>) sid
          (JObj (AList.update ''head_event_hash'' (JStr hash)
            (AList.update ''next_sequence'' (JStr (py_str_int (n + 1))) sd)))"
proof -
  from a obtain sid eid s status where 1: "text_item event ''session_id'' = Inr sid"
    "get_session db sid = Inr s" "jitem s ''status'' = Inr status" "status \<noteq> JStr ''closed''"
    "text_item event ''event_id'' = Inr eid"
    unfolding append_event_def by (elim run_elims)
  from get_session_Inr [OF inv 1(2)] obtain sd n h where sd: "s = JObj sd"
    "map_of sd ''status'' \<in> {Some (JStr ''live''), Some (JStr ''closed'')}"
    "map_of sd ''next_sequence'' = Some (JStr (py_str_int n))" "map_of sd ''head_event_hash'' = Some (JStr h)" .
  show ?thesis
  proof (cases "find_event db eid")
    case (Some row)
    with a 1 have "bindE (load_json (er_value row)) (\<lambda>existing.
         if canonical_json_bytes existing = canonical_json_bytes event then Inr (True, db)
         else le_error ''event_conflict'' []) = Inr (dup, db')"
      by (simp add: append_event_def)
    then show ?thesis
      using find_event_Some [OF Some] 1(5) by (auto simp: bindE_Inr_iff split: if_splits intro: duplicate)
  next
    case None
    have head: "jitem s ''head_event_hash'' = Inr (JStr h)" and next_seq: "int_item s ''next_sequence'' = Inr n"
      using sd by (simp_all add: int_item_def)
    from a obtain valid seq previous hash db1 s1 eh s2 where 2: "verify_live_event E event = Inr valid" "valid"
      "int_item event ''sequence'' = Inr seq" "seq = n" "jitem event ''previous_event_hash'' = Inr previous"
      "py_eq previous (JStr h)" "text_item event ''event_hash'' = Inr hash"
      "insert_event db \<lparr>er_id = eid, er_session = sid, er_sequence = seq,
                  er_hash = hash, er_value = canonical_json_bytes event\<rparr> = Inr db1"
      "jset s ''next_sequence'' (JStr (py_str_int (seq + 1))) = Inr s1"
      "jitem event ''event_hash'' = Inr eh" "jset s1 ''head_event_hash'' eh = Inr s2"
      "Inr (False, update_session db1 sid s2) = (Inr (dup, db') :: (bool \<times> live_db) res)"
      unfolding append_event_def 1(1,2,3,5) bindE_simps None option.case head next_seq
      by (elim run_elims)
    then obtain d where d: "event = JObj d" "event_ok E d" by (auto simp: verify_live_event_iff)
    from d 2(7,10) have hash: "map_of d ''event_hash'' = Some (JStr hash)" "eh = JStr hash"
      by (auto simp: event_ok_def text_item_def)
    have "db1 = db\<lparr>events := events db @ [\<lparr>er_id = eid, er_session = sid, er_sequence = n,
                  er_hash = hash, er_value = canonical_json_bytes event\<rparr>]\<rparr>"
      using 2(4,8) by (auto simp: insert_event_def split: if_splits)
    moreover have "s2 = JObj (AList.update ''head_event_hash'' (JStr hash)
            (AList.update ''next_sequence'' (JStr (py_str_int (n + 1))) sd))"
      using 2(4,9,11) sd(1) hash(2) by (auto simp: jset_Inr_iff)
    moreover have "map_of d ''previous_event_hash'' = Some (JStr h)"
      using 2(5,6) d(1) by (auto split: option.splits)
    moreover have "map_of sd ''status'' = Some (JStr ''live'')"
      using 1(3,4) sd(1,2) by auto
    ultimately show ?thesis
      using new [OF _ d(1) 1(1,5) _ _ None d(2) _ sd(3,4) _ hash(1)] 1(2) 2(3,4,12) sd(1) by auto
  qed
qed

lemma append_event_inv:
  assumes inv: "live_inv E db" and w: "wf_json event" and a: "append_event E db event = Inr (dup, db')"
  shows "live_inv E db'"
  using inv a
proof (cases rule: append_event_cases)
  case (new d sid eid n h hash sd)
  let ?row = "\<lparr>er_id = eid, er_session = sid, er_sequence = n, er_hash = hash, er_value = canonical_json_bytes event\<rparr>"
  let ?d = "AList.update ''head_event_hash'' (JStr hash) (AList.update ''next_sequence'' (JStr (py_str_int (n + 1))) sd)"
  from get_session_Inr [OF inv new(5)] obtain n' h' where s: "wf_json (JObj sd)"
    "map_of (sessions db) sid = Some (canonical_json_bytes (JObj sd))"
    "map_of sd ''next_sequence'' = Some (JStr (py_str_int n'))"
    "map_of sd ''head_event_hash'' = Some (JStr h')" "rows_chain E sid 1 ZERO_HASH (rows_of db sid) n' h'"
    by (metis json.inject(5))
  with new have nh: "n' = n" "h' = h" by simp_all
  have wd: "wf_json (JObj d)" using w new(2) by simp
  have row: "row_ok E sid n h ?row"
    unfolding row_ok_def using new wd stored_JObj [OF wd] event_ok_sorted [OF wd]
    by (auto intro!: exI [of _ "sorted_dict d"] simp: text_item_sorted int_item_sorted map_of_sorted_dict
        simp del: wf_json.simps)
  have wf: "wf_json (JObj ?d)" using s(1) by (intro wf_update) simp_all
  have "rows_chain E sid 1 ZERO_HASH (rows_of db sid @ [?row]) (n + 1) hash"
    using s(5) row nh by (auto simp: rows_chain_snoc)
  then have "session_ok E (rows_of db sid @ [?row]) sid (canonical_json_bytes (JObj ?d))"
    unfolding session_ok_def using stored_JObj [OF wf] wf new(6)
    by (intro exI [of _ "sorted_dict ?d"] exI [of _ "n + 1"] exI [of _ hash])
      (auto simp: map_of_sorted_dict simp del: wf_json.simps)
  then show ?thesis
  proof (rule live_inv_sessionI [OF inv])
    show "distinct (map er_id (events db @ [?row]))"
      using inv new(7) by (auto simp: live_inv_def find_event_def find_None_iff)
  qed (use s(2) new(14) in \<open>auto simp: update_session_def\<close>)
qed (use inv in simp)

text \<open>The other tables do not touch sessions and events.\<close>

lemma save_bundle_tables:
  "save_bundle db v = Inr (w, db') \<Longrightarrow> sessions db' = sessions db \<and> events db' = events db"
  by (auto simp: save_bundle_def res_simps split: option.splits if_splits)

lemma save_dispute_tables:
  "save_dispute db v = Inr (w, db') \<Longrightarrow> sessions db' = sessions db \<and> events db' = events db"
  by (auto simp: save_dispute_def res_simps split: option.splits if_splits)

lemma save_review_tables:
  "save_review db v = Inr (w, db') \<Longrightarrow> sessions db' = sessions db \<and> events db' = events db"
  by (auto simp: save_review_def res_simps)

section \<open>Runs\<close>

text \<open>One call of the store by its users; an operation that raises changes nothing.\<close>

datatype live_cmd =
    CreateSession json json json
  | AppendEvent json
  | CloseSession string json
  | SaveBundle json
  | SaveDispute json
  | SaveReview json
  | SetCursor string json

fun op_ok :: "live_cmd \<Rightarrow> bool" where
  "op_ok (CreateSession a b c) \<longleftrightarrow> wf_json a \<and> wf_json b \<and> wf_json c"
| "op_ok (AppendEvent v) \<longleftrightarrow> wf_json v"
| "op_ok (SaveBundle v) \<longleftrightarrow> wf_json v"
| "op_ok (SaveDispute v) \<longleftrightarrow> wf_json v"
| "op_ok (SaveReview v) \<longleftrightarrow> wf_json v"
| "op_ok _ \<longleftrightarrow> True"

fun live_op :: "ext \<Rightarrow> live_db \<Rightarrow> live_cmd \<Rightarrow> live_db res" where
  "live_op E db (CreateSession sid src at) =
     bindE (build_live_session sid src at) (\<lambda>v. bindE (create_session db v) (\<lambda>(_, db'). Inr db'))"
| "live_op E db (AppendEvent v) = bindE (append_event E db v) (\<lambda>(_, db'). Inr db')"
| "live_op E db (CloseSession sid at) = bindE (close_session db sid at) (\<lambda>(_, db'). Inr db')"
| "live_op E db (SaveBundle v) = bindE (save_bundle db v) (\<lambda>(_, db'). Inr db')"
| "live_op E db (SaveDispute v) = bindE (save_dispute db v) (\<lambda>(_, db'). Inr db')"
| "live_op E db (SaveReview v) = bindE (save_review db v) (\<lambda>(_, db'). Inr db')"
| "live_op E db (SetCursor c v) = Inr (set_cursor db c v)"

definition live_call :: "ext \<Rightarrow> live_db \<Rightarrow> live_cmd \<Rightarrow> live_db" where
  "live_call E db op = (case live_op E db op of Inr db' \<Rightarrow> db' | Inl _ \<Rightarrow> db)"

definition live_run :: "ext \<Rightarrow> live_db \<Rightarrow> live_cmd list \<Rightarrow> live_db" where
  "live_run E db ops = fold (\<lambda>op db. live_call E db op) ops db"

inductive live_reachable :: "ext \<Rightarrow> live_db \<Rightarrow> bool" for E where
  init: "live_reachable E empty_db"
| step: "live_reachable E db \<Longrightarrow> op_ok op \<Longrightarrow> live_op E db op = Inr db' \<Longrightarrow> live_reachable E db'"

lemma build_live_session_wf:
  "wf_json a \<Longrightarrow> wf_json b \<Longrightarrow> build_live_session a b c = Inr v \<Longrightarrow> wf_json v"
  by (auto simp: build_live_session_def res_simps Let_def)

lemma live_op_inv:
  assumes "live_inv E db" "op_ok op" "live_op E db op = Inr db'"
  shows "live_inv E db'"
proof (cases op)
  case (CreateSession sid src at)
  with assms show ?thesis
    by (auto simp: bindE_Inr_iff split: prod.splits intro: create_session_inv build_live_session_wf)
next
  case (AppendEvent v)
  with assms show ?thesis by (auto simp: bindE_Inr_iff split: prod.splits intro: append_event_inv)
next
  case (CloseSession sid at)
  with assms show ?thesis by (auto simp: bindE_Inr_iff split: prod.splits intro: close_session_inv)
next
  case (SaveBundle v)
  with assms show ?thesis
    by (auto simp: bindE_Inr_iff split: prod.splits dest!: save_bundle_tables intro: live_inv_cong)
next
  case (SaveDispute v)
  with assms show ?thesis
    by (auto simp: bindE_Inr_iff split: prod.splits dest!: save_dispute_tables intro: live_inv_cong)
next
  case (SaveReview v)
  with assms show ?thesis
    by (auto simp: bindE_Inr_iff split: prod.splits dest!: save_review_tables intro: live_inv_cong)
next
  case (SetCursor c v)
  with assms show ?thesis by (auto simp: set_cursor_def intro: live_inv_cong)
qed

lemma live_reachable_inv: "live_reachable E db \<Longrightarrow> live_inv E db"
  by (induction rule: live_reachable.induct) (auto intro: live_inv_empty live_op_inv)

lemma live_run_reachable:
  "live_reachable E db \<Longrightarrow> list_all op_ok ops \<Longrightarrow> live_reachable E (live_run E db ops)"
proof (induction ops arbitrary: db)
  case (Cons op ops)
  then have "live_reachable E (live_call E db op)"
    by (auto simp: live_call_def split: sum.splits intro: step)
  with Cons show ?case by (simp add: live_run_def)
qed (simp add: live_run_def)

section \<open>What a reader of the session sees\<close>

text \<open>A gap-free chain of verified events, as \<open>list_events\<close> returns it.\<close>

fun event_chain :: "ext \<Rightarrow> int \<Rightarrow> string \<Rightarrow> json list \<Rightarrow> string \<Rightarrow> bool" where
  "event_chain E n h [] h' \<longleftrightarrow> h' = h"
| "event_chain E n h (v # vs) h' \<longleftrightarrow>
     verify_live_event E v = Inr True \<and> int_item v ''sequence'' = Inr n \<and>
     jitem v ''previous_event_hash'' = Inr (JStr h) \<and>
     (\<exists>g. jitem v ''event_hash'' = Inr (JStr g) \<and> event_chain E (n + 1) g vs h')"

lemma row_ok_value:
  assumes "row_ok E sid n h r"
  obtains d where "load_json (er_value r) = Inr (JObj d)" "wf_json (JObj d)" "event_ok E d"
    "int_item (JObj d) ''sequence'' = Inr n" "map_of d ''previous_event_hash'' = Some (JStr h)"
    "map_of d ''event_hash'' = Some (JStr (er_hash r))" "text_item (JObj d) ''session_id'' = Inr sid"
  using assms by (auto simp: row_ok_def stored_def simp del: wf_json.simps)

lemma rows_chain_values:
  assumes "rows_chain E sid n h rs n' h'"
  shows "\<exists>vs. mapE (\<lambda>r. load_json (er_value r)) rs = Inr vs \<and> event_chain E n h vs h' \<and>
           (\<forall>v \<in> set vs. wf_json v \<and> text_item v ''session_id'' = Inr sid)"
  using assms
proof (induction rs arbitrary: n h)
  case (Cons r rs)
  from Cons.prems Cons.IH [of "n + 1" "er_hash r"] obtain vs where
    vs: "mapE (\<lambda>r. load_json (er_value r)) rs = Inr vs"
    "event_chain E (n + 1) (er_hash r) vs h'" "\<forall>v \<in> set vs. wf_json v \<and> text_item v ''session_id'' = Inr sid"
    by auto
  from Cons.prems have "row_ok E sid n h r" by simp
  then obtain d where d: "load_json (er_value r) = Inr (JObj d)" "wf_json (JObj d)" "event_ok E d"
    "int_item (JObj d) ''sequence'' = Inr n" "map_of d ''previous_event_hash'' = Some (JStr h)"
    "map_of d ''event_hash'' = Some (JStr (er_hash r))" "text_item (JObj d) ''session_id'' = Inr sid"
    by (rule row_ok_value)
  then have "verify_live_event E (JObj d) = Inr True" by (auto simp: verify_live_event_iff)
  with d vs show ?case by (intro exI [of _ "JObj d # vs"]) (simp del: wf_json.simps)
qed simp

lemma list_events_rows:
  assumes "live_inv E db" "get_session db sid = Inr s"
  shows "list_events db sid 0 = mapE (\<lambda>r. load_json (er_value r)) (rows_of db sid)"
proof -
  from get_session_Inr [OF assms] obtain n h where c: "rows_chain E sid 1 ZERO_HASH (rows_of db sid) n h" .
  have "filter (\<lambda>r. er_session r = sid \<and> 0 < er_sequence r) (events db) = rows_of db sid"
    using rows_chain_sequences [OF c] by (force simp: rows_of_def intro: filter_cong)
  with rows_chain_sorted [OF c] show ?thesis by (simp add: list_events_def sort_key_id_if_sorted)
qed

lemma session_events:
  assumes "live_inv E db" "get_session db sid = Inr s"
  obtains vs h where "list_events db sid 0 = Inr vs" "event_chain E 1 ZERO_HASH vs h"
    "jitem s ''head_event_hash'' = Inr (JStr h)" "int_item s ''next_sequence'' = Inr (int (length vs) + 1)"
    "\<And>v. v \<in> set vs \<Longrightarrow> wf_json v \<and> text_item v ''session_id'' = Inr sid"
proof -
  from get_session_Inr [OF assms] obtain d n h where d: "s = JObj d"
    "map_of d ''next_sequence'' = Some (JStr (py_str_int n))" "map_of d ''head_event_hash'' = Some (JStr h)"
    "rows_chain E sid 1 ZERO_HASH (rows_of db sid) n h" .
  from rows_chain_values [OF d(4)] obtain vs where vs: "list_events db sid 0 = Inr vs" "event_chain E 1 ZERO_HASH vs h"
    "\<forall>v \<in> set vs. wf_json v \<and> text_item v ''session_id'' = Inr sid"
    by (auto simp: list_events_rows [OF assms])
  then have "length vs = length (rows_of db sid)"
    by (auto simp: list_events_rows [OF assms] mapE_Inr_iff dest: list_all2_lengthD)
  with rows_chain_length [OF d(4)] d vs that show ?thesis by (simp add: int_item_def)
qed

text \<open>No interleaving of calls makes the insert of an event violate a key.\<close>

lemma insert_event_row:
  assumes inv: "live_inv E db" and s: "get_session db sid = Inr (JObj sd)"
    and n: "map_of sd ''next_sequence'' = Some (JStr (py_str_int n))" and f: "find_event db (er_id row) = None"
    and row: "er_session row = sid" "er_sequence row = n"
  shows "insert_event db row = Inr (db\<lparr>events := events db @ [row]\<rparr>)"
proof -
  from get_session_Inr [OF inv s] obtain d m h where "JObj sd = JObj d"
    "map_of d ''next_sequence'' = Some (JStr (py_str_int m))"
    "rows_chain E sid 1 ZERO_HASH (rows_of db sid) m h" .
  with n have c: "rows_chain E sid 1 ZERO_HASH (rows_of db sid) n h" by simp
  have "er_sequence r \<noteq> n" if "r \<in> set (events db)" "er_session r = sid" for r
    using rows_chain_sequences [OF c, of r] that by (auto simp: rows_of_def)
  with f row show ?thesis by (auto simp: insert_event_def find_event_def find_None_iff)
qed

section \<open>Appending\<close>

text \<open>An event with a new identifier is recorded exactly if it verifies, has the next sequence
  number of a session that is not closed and names the head of that session.\<close>

lemma append_event_accepted:
  assumes inv: "live_inv E db" and s: "get_session db sid = Inr s" "jitem s ''status'' \<noteq> Inr (JStr ''closed'')"
    and id: "text_item event ''session_id'' = Inr sid" "text_item event ''event_id'' = Inr eid"
    and f: "find_event db eid = None" and v: "verify_live_event E event = Inr True"
    and q: "int_item event ''sequence'' = int_item s ''next_sequence''"
    and p: "jitem event ''previous_event_hash'' = jitem s ''head_event_hash''"
  shows "\<exists>db'. append_event E db event = Inr (False, db')"
proof -
  from get_session_Inr [OF inv s(1)] obtain sd n h where sd: "s = JObj sd"
    "map_of sd ''status'' \<in> {Some (JStr ''live''), Some (JStr ''closed'')}"
    "map_of sd ''next_sequence'' = Some (JStr (py_str_int n))" "map_of sd ''head_event_hash'' = Some (JStr h)" .
  from v obtain d where d: "event = JObj d" "event_ok E d" by (auto simp: verify_live_event_iff)
  then obtain hash where hash: "map_of d ''event_hash'' = Some (JStr hash)" by (auto simp: event_ok_def)
  let ?row = "\<lparr>er_id = eid, er_session = sid, er_sequence = n, er_hash = hash, er_value = canonical_json_bytes event\<rparr>"
  have row: "insert_event db ?row = Inr (db\<lparr>events := events db @ [?row]\<rparr>)"
    using inv s(1) sd(1,3) f by (intro insert_event_row) auto
  have "text_item event ''event_hash'' = Inr hash" "jitem event ''event_hash'' = Inr (JStr hash)"
    using d(1) hash by (simp_all add: text_item_def)
  moreover have "int_item s ''next_sequence'' = Inr n" "jitem s ''head_event_hash'' = Inr (JStr h)"
    "jitem s ''status'' = Inr (JStr ''live'')" "jset s k x = Inr (JObj (AList.update k x sd))" for k x
    using sd s(2) by (auto simp: int_item_def)
  ultimately show ?thesis
    using s(1) id f v q p row by (simp add: append_event_def)
qed

lemma find_snoc: "find P (xs @ [x]) = (case find P xs of None \<Rightarrow> if P x then Some x else None | r \<Rightarrow> r)"
  by (induction xs) auto

text \<open>Sending an accepted event again reports a duplicate and changes nothing.\<close>

lemma append_event_again:
  assumes inv: "live_inv E db" and w: "wf_json event" and a: "append_event E db event = Inr (dup, db')"
  shows "append_event E db' event = Inr (True, db')"
  using inv a
proof (cases rule: append_event_cases)
  case (duplicate row v)
  with a show ?thesis by simp
next
  case (new d sid eid n h hash sd)
  let ?row = "\<lparr>er_id = eid, er_session = sid, er_sequence = n, er_hash = hash, er_value = canonical_json_bytes event\<rparr>"
  let ?d = "AList.update ''head_event_hash'' (JStr hash) (AList.update ''next_sequence'' (JStr (py_str_int (n + 1))) sd)"
  from get_session_Inr [OF inv new(5)] have sd: "wf_json (JObj sd)"
    "map_of (sessions db) sid = Some (canonical_json_bytes (JObj sd))" by (metis json.inject(5))+
  have wf: "wf_json (JObj ?d)" using sd(1) by (intro wf_update) simp_all
  have "map_of (map (\<lambda>r. if fst r = sid then (sid, t) else r) xs) sid = map_option (\<lambda>_. t) (map_of xs sid)"
    for t and xs :: "(string \<times> string) list"
    by (induction xs) auto
  then have "get_session db' sid = Inr (JObj (sorted_dict ?d))"
    using new(14) sd(2) wf by (simp add: get_session_def update_session_def jnorm_JObj del: wf_json.simps jnorm.simps)
  moreover have "map_of (sorted_dict ?d) ''status'' = Some (JStr ''live'')"
    using new(6) wf by (simp add: map_of_sorted_dict del: wf_json.simps)
  moreover have "find_event db' eid = Some ?row"
    using new(7,14) by (simp add: find_event_def update_session_def find_snoc)
  ultimately show ?thesis
    using new(3,4) w by (simp add: append_event_def)
qed

section \<open>A closed session\<close>

lemma map_of_update_other:
  "k \<noteq> sid \<Longrightarrow> map_of (map (\<lambda>r. if fst r = sid then (sid, t) else r) xs) k = map_of xs k"
  by (induction xs) auto

lemma closed_append:
  assumes "get_session db sid = Inr s" "jitem s ''status'' = Inr (JStr ''closed'')"
    and "text_item event ''session_id'' = Inr sid"
  shows "append_event E db event = le_error ''session_closed'' sid"
  using assms by (simp add: append_event_def)

lemma closed_op:
  assumes inv: "live_inv E db" and s: "get_session db sid = Inr s" "jitem s ''status'' = Inr (JStr ''closed'')"
    and op: "live_op E db op = Inr db'"
  shows "get_session db' sid = Inr s \<and> list_events db' sid = list_events db sid"
proof -
  have same: "get_session db' sid = Inr s \<and> list_events db' sid = list_events db sid"
    if "map_of (sessions db') sid = map_of (sessions db) sid"
      "filter (\<lambda>r. er_session r = sid) (events db') = filter (\<lambda>r. er_session r = sid) (events db)"
  proof -
    have split_filter: "filter (\<lambda>r. er_session r = sid \<and> i < er_sequence r) xs =
        filter (\<lambda>r. i < er_sequence r) (filter (\<lambda>r. er_session r = sid) xs)" for i xs
      by (simp add: conj_commute)
    show ?thesis
      using s(1) unfolding get_session_def list_events_def split_filter that by (simp add: fun_eq_iff)
  qed
  show ?thesis
  proof (cases op)
    case (CreateSession a b c)
    with op have "events db' = events db" "map_of (sessions db') sid = map_of (sessions db) sid"
      using s(1) by (auto simp: create_session_def get_session_def map_add_def bindE_Inr_iff
          split: prod.splits if_splits option.splits)
    then show ?thesis by (intro same) auto
  next
    case (AppendEvent v)
    with op obtain dup where a: "append_event E db v = Inr (dup, db')" by (auto simp: bindE_Inr_iff)
    from inv a show ?thesis
    proof (cases rule: append_event_cases)
      case (new d sid' eid n h hash sd)
      then have "sid' \<noteq> sid" using s by auto
      with new(14) show ?thesis by (intro same) (auto simp: update_session_def map_of_update_other)
    qed (use s(1) in simp)
  next
    case (CloseSession sid' at)
    show ?thesis
    proof (cases "sid' = sid")
      case True
      with CloseSession op s show ?thesis by (auto simp: close_session_def bindE_Inr_iff)
    next
      case False
      with CloseSession op show ?thesis
        by (intro same) (auto simp: close_session_def bindE_Inr_iff update_session_def map_of_update_other
            split: if_splits)
    qed
  next
    case (SaveBundle v)
    with op show ?thesis by (intro same) (auto simp: bindE_Inr_iff dest!: save_bundle_tables)
  next
    case (SaveDispute v)
    with op show ?thesis by (intro same) (auto simp: bindE_Inr_iff dest!: save_dispute_tables)
  next
    case (SaveReview v)
    with op show ?thesis by (intro same) (auto simp: bindE_Inr_iff dest!: save_review_tables)
  next
    case (SetCursor c v)
    with op show ?thesis by (intro same) (auto simp: set_cursor_def)
  qed
qed

lemma closed_run:
  assumes "live_reachable E db" "get_session db sid = Inr s" "jitem s ''status'' = Inr (JStr ''closed'')"
    and "list_all op_ok ops"
  shows "get_session (live_run E db ops) sid = Inr s \<and> list_events (live_run E db ops) sid = list_events db sid"
  using assms
proof (induction ops arbitrary: db)
  case (Cons op ops)
  show ?case
  proof (cases "live_op E db op")
    case (Inl e)
    with Cons show ?thesis by (simp add: live_run_def live_call_def)
  next
    case (Inr db')
    with Cons.prems have "live_reachable E db'" by (auto intro: step)
    moreover from closed_op [OF live_reachable_inv Cons.prems(2,3) Inr] Cons.prems(1)
    have "get_session db' sid = Inr s" "list_events db' sid = list_events db sid" by auto
    ultimately show ?thesis
      using Cons Inr by (simp add: live_run_def live_call_def)
  qed
qed (simp add: live_run_def)

section \<open>Disputes and bundles are written once\<close>

definition disputes_ok :: "live_db \<Rightarrow> bool" where
  "disputes_ok db \<longleftrightarrow> (\<forall>(k, t) \<in> set (disputes db). \<exists>v. stored t v)"

definition dispute_ok :: "json \<Rightarrow> bool" where
  "dispute_ok v \<longleftrightarrow> wf_json v \<and> (\<exists>k. text_item v ''dispute_id'' = Inr k)"

lemma save_dispute_Inr_iff:
  assumes "disputes_ok db" "dispute_ok v"
  shows "save_dispute db v = Inr (r, db') \<longleftrightarrow>
    (case map_of (disputes db) (text_key ''dispute_id'' v) of
       Some t \<Rightarrow> t = canonical_json_bytes v \<and> load_json t = Inr r \<and> db' = db
     | None \<Rightarrow> r = v \<and> db' = db\<lparr>disputes := disputes db @ [(text_key ''dispute_id'' v, canonical_json_bytes v)]\<rparr>)"
proof -
  from assms(2) obtain k where k: "text_item v ''dispute_id'' = Inr k" by (auto simp: dispute_ok_def)
  show ?thesis
  proof (cases "map_of (disputes db) k")
    case None
    with k show ?thesis by (auto simp: save_dispute_def text_key_def)
  next
    case (Some t)
    with assms(1) obtain w where "load_json t = Inr w" "canonical_json_bytes w = t"
      by (fastforce simp: disputes_ok_def stored_def dest: map_of_SomeD)
    with Some k show ?thesis by (auto simp: save_dispute_def text_key_def)
  qed
qed

interpretation dispute_store: put_once_total save_dispute "text_key ''dispute_id''" canonical_json_bytes
    "\<lambda>db. map_of (disputes db)" disputes_ok dispute_ok
proof (unfold_locales, goal_cases)
  case (1 s v r s')
  then show ?case by (auto simp: save_dispute_Inr_iff fun_eq_iff map_add_def split: option.splits)
next
  case (2 s v r s' c)
  then show ?case by (simp add: save_dispute_Inr_iff)
next
  case (3 s v r s')
  then have "stored (canonical_json_bytes v) (jnorm v)" by (simp add: dispute_ok_def stored_canonical)
  with 3 show ?case by (auto simp: save_dispute_Inr_iff disputes_ok_def split: option.splits)
next
  case (4 s v)
  then show ?case
    by (fastforce simp: save_dispute_Inr_iff disputes_ok_def stored_def split: option.splits dest: map_of_SomeD)
qed

definition bundles_ok :: "live_db \<Rightarrow> bool" where
  "bundles_ok db \<longleftrightarrow> (\<forall>r \<in> set (bundles db). \<exists>d. stored (br_value r) (JObj d) \<and>
     map_of d ''bundle_hash'' = Some (JStr (br_hash r)))"

definition bundle_ok :: "json \<Rightarrow> bool" where
  "bundle_ok v \<longleftrightarrow> wf_json v \<and> (\<exists>k. text_item v ''session_id'' = Inr k) \<and>
     (\<exists>i. int_item v ''revision'' = Inr i) \<and> (\<exists>h. jitem v ''bundle_hash'' = Inr (JStr h))"

definition bundle_key :: "json \<Rightarrow> string \<times> int" where
  "bundle_key v = (text_key ''session_id'' v, case int_item v ''revision'' of Inr i \<Rightarrow> i | Inl _ \<Rightarrow> 0)"

definition bundle_look :: "live_db \<Rightarrow> string \<times> int \<Rightarrow> string option" where
  "bundle_look db k = map_option br_hash (find_bundle db (fst k) (snd k))"

lemma find_bundle_Some:
  "find_bundle db sid i = Some r \<Longrightarrow> r \<in> set (bundles db) \<and> br_session r = sid \<and> br_revision r = i"
  by (auto simp: find_bundle_def find_Some_iff)

lemma save_bundle_Inr_iff:
  assumes "bundles_ok db" "bundle_ok v" "bundle_key v = (sid, i)"
  shows "save_bundle db v = Inr (r, db') \<longleftrightarrow>
    (case find_bundle db sid i of
       Some row \<Rightarrow> br_hash row = text_key ''bundle_hash'' v \<and> load_json (br_value row) = Inr r \<and> db' = db
     | None \<Rightarrow> r = v \<and> db' = db\<lparr>bundles := bundles db @ [\<lparr>br_session = sid, br_revision = i,
           br_hash = text_key ''bundle_hash'' v, br_value = canonical_json_bytes v\<rparr>]\<rparr>)"
proof -
  from assms(2,3) obtain h where k: "text_item v ''session_id'' = Inr sid" "int_item v ''revision'' = Inr i"
    "jitem v ''bundle_hash'' = Inr (JStr h)"
    by (auto simp: bundle_ok_def bundle_key_def text_key_def)
  show ?thesis
  proof (cases "find_bundle db sid i")
    case None
    with k show ?thesis by (auto simp: save_bundle_def text_key_def text_item_def)
  next
    case (Some row)
    with assms(1) obtain d where "load_json (br_value row) = Inr (JObj d)"
      "map_of d ''bundle_hash'' = Some (JStr (br_hash row))"
      by (fastforce simp: bundles_ok_def stored_def dest: find_bundle_Some)
    with Some k show ?thesis by (auto simp: save_bundle_def text_key_def text_item_def)
  qed
qed

interpretation bundle_store: put_once_total save_bundle bundle_key "text_key ''bundle_hash''"
    bundle_look bundles_ok bundle_ok
proof (unfold_locales, goal_cases)
  case (1 s v r s')
  obtain sid i where k: "bundle_key v = (sid, i)" by (cases "bundle_key v")
  with 1 show ?case
    by (auto simp: save_bundle_Inr_iff [OF _ _ k] fun_eq_iff bundle_look_def find_bundle_def find_snoc
        split: option.splits)
next
  case (2 s v r s' c)
  obtain sid i where k: "bundle_key v = (sid, i)" by (cases "bundle_key v")
  with 2 show ?case by (auto simp: save_bundle_Inr_iff [OF _ _ k] bundle_look_def)
next
  case (3 s v r s')
  obtain sid i where k: "bundle_key v = (sid, i)" by (cases "bundle_key v")
  from 3(2) obtain d h where d: "v = JObj d" "wf_json (JObj d)" "map_of d ''bundle_hash'' = Some (JStr h)"
    by (auto simp: bundle_ok_def jitem_Inr_iff simp del: wf_json.simps)
  then have "stored (canonical_json_bytes v) (JObj (sorted_dict d)) \<and>
      map_of (sorted_dict d) ''bundle_hash'' = Some (JStr (text_key ''bundle_hash'' v))"
    by (simp add: stored_JObj map_of_sorted_dict text_key_def text_item_def del: wf_json.simps)
  with 3 show ?case
    by (auto simp: save_bundle_Inr_iff [OF _ _ k] bundles_ok_def split: option.splits)
next
  case (4 s v)
  obtain sid i where k: "bundle_key v = (sid, i)" by (cases "bundle_key v")
  with 4 show ?case
    by (fastforce simp: save_bundle_Inr_iff [OF _ _ k] bundle_look_def bundles_ok_def stored_def
        split: option.splits dest: find_bundle_Some)
qed

end
