(* ===== verification/HashChain.thy ===== *)
theory HashChain
  imports Prelude
begin

text \<open>
  The interface of a hash-linked log. Every entry carries a claimed hash of its own body and
  names the hash of the entry before it; the body covers that name. From this alone follows what
  a reader may conclude from the last hash of a log: it determines every entry, unless two
  different bodies of the logs compared have the same digest. Live events and audit records
  are two such logs.
\<close>

locale hash_chain =
  fixes digest :: "string \<Rightarrow> string"
    and entry_ok :: "'e \<Rightarrow> bool"
    and body :: "'e \<Rightarrow> string"
    and claimed :: "'e \<Rightarrow> string option"
    and previous :: "'e \<Rightarrow> string option"
  assumes body_previous: "entry_ok a \<Longrightarrow> entry_ok b \<Longrightarrow> body a = body b \<Longrightarrow> previous a = previous b"
begin

fun linked :: "string \<Rightarrow> 'e list \<Rightarrow> string \<Rightarrow> bool" where
  "linked h [] h' \<longleftrightarrow> h' = h"
| "linked h (e # es) h' \<longleftrightarrow> entry_ok e \<and> previous e = Some h \<and> claimed e = Some (digest (body e)) \<and>
     linked (digest (body e)) es h'"

lemma linked_snoc:
  "linked h (es @ [e]) h' \<longleftrightarrow>
     (\<exists>g. linked h es g \<and> entry_ok e \<and> previous e = Some g \<and> claimed e = Some (digest (body e)) \<and>
          h' = digest (body e))"
  by (induction es arbitrary: h) auto

lemma linked_append: "linked h (es @ fs) h' \<longleftrightarrow> (\<exists>g. linked h es g \<and> linked g fs h')"
  by (induction es arbitrary: h) auto

lemma linked_entry_ok: "linked h es h' \<Longrightarrow> e \<in> set es \<Longrightarrow> entry_ok e"
  by (induction es arbitrary: h) auto

lemma linked_fun: "linked h es g \<Longrightarrow> linked h es g' \<Longrightarrow> g = g'"
  by (induction es arbitrary: h) auto

text \<open>The last hash determines the bodies of the whole log.\<close>

theorem head_determines:
  assumes "linked h es g" "linked h fs g"
    and inj: "inj_on digest (body ` (set es \<union> set fs))"
    and start: "\<And>e. e \<in> set es \<union> set fs \<Longrightarrow> digest (body e) \<noteq> h"
  shows "map body es = map body fs"
  using assms
proof (induction es arbitrary: fs g rule: rev_induct)
  case Nil
  then show ?case
  proof (cases fs rule: rev_cases)
    case (snoc fs' f)
    with Nil show ?thesis by (auto simp: linked_snoc)
  qed simp
next
  case (snoc e es)
  show ?case
  proof (cases fs rule: rev_cases)
    case Nil
    with snoc.prems show ?thesis by (auto simp: linked_snoc)
  next
    case (snoc fs' f)
    with snoc.prems(1,2) obtain g1 g2 where l: "linked h es g1" "linked h fs' g2" "previous e = Some g1"
      "previous f = Some g2" "digest (body e) = digest (body f)" "entry_ok e" "entry_ok f"
      by (auto simp: linked_snoc)
    have "body e \<in> body ` (set (es @ [e]) \<union> set fs)" "body f \<in> body ` (set (es @ [e]) \<union> set fs)"
      using snoc by auto
    with l(5) snoc.prems(3) have eq: "body e = body f" by (meson inj_onD)
    with body_previous [OF l(6,7)] l(3,4) have "g1 = g2" by simp
    moreover have "inj_on digest (body ` (set es \<union> set fs'))"
      using snoc.prems(3) snoc by (auto elim: inj_on_subset)
    ultimately have "map body es = map body fs'"
      using snoc.IH [OF l(1)] l(2) snoc.prems(4) snoc by auto
    with eq snoc show ?thesis by simp
  qed
qed

text \<open>A log that extends another one keeps its entries, so an entry changed in place breaks the
  head of every extension.\<close>

corollary tamper_evident:
  assumes "linked h es g" "linked h fs g"
    and "inj_on digest (body ` (set es \<union> set fs))"
    and "\<And>e. e \<in> set es \<union> set fs \<Longrightarrow> digest (body e) \<noteq> h"
    and "i < length es" "body (es ! i) \<noteq> b"
  shows "i < length fs \<and> body (fs ! i) \<noteq> b"
proof -
  have "map body es = map body fs" using head_determines assms(1-4) by blast
  then have "length es = length fs" "map body es ! i = map body fs ! i" by (auto dest: map_eq_imp_length_eq)
  with assms(5,6) show ?thesis by simp
qed

end

end
