(* ===== verification/LiveEvidence.thy ===== *)
theory LiveEvidence
  imports LiveStoreInv HashChain
begin

text \<open>
  \<^verbatim>\<open>live_evidence.py\<close>: the evidence bundle of a closed session, which replays the event chain,
  reads every artifact back and records one reference per event; and the first bundle format of
  \<^verbatim>\<open>evidence.py\<close>. The theorems say what a bundle that was returned contains, that finalizing a
  closed session of any reachable store succeeds when its artifacts are there, and that two
  sessions with the same head hash hold the same events.
\<close>

section \<open>evidence.py\<close>

definition build_evidence_bundle :: "ext \<Rightarrow> json \<Rightarrow> json res" where
  "build_evidence_bundle E session =
     bindE (check_secrets session) (\<lambda>_.
     bindE (jitem session ''bundle_id'') (\<lambda>bundle_id.
     bindE (jitem session ''session_id'') (\<lambda>session_id.
     bindE (jitem session ''proposal_type'') (\<lambda>proposal_type.
     bindE (jitem session ''subject'') (\<lambda>subject.
     bindE (jget_or session ''source_refs'' (JArr [])) (\<lambda>source_refs.
     bindE (jget_or session ''attachments'' (JArr [])) (\<lambda>attachments.
     bindE (jget_or session ''summary'' (JStr [])) (\<lambda>summary.
     bindE (jitem session ''created_at'') (\<lambda>created_at.
     let base = [(''schema_version'', JStr ''loveengine.evidence-bundle/1''),
           (''bundle_id'', bundle_id), (''session_id'', session_id),
           (''proposal_type'', proposal_type), (''subject'', subject),
           (''source_refs'', source_refs), (''attachments'', attachments),
           (''summary'', JObj [(''kind'', JStr ''summary''), (''text'', summary)]),
           (''created_at'', created_at)];
         payload = keccak256_hex E (canonical_json_bytes (JObj base));
         artifact_view = base @ [(''payload_hash'', JStr payload)];
         evidence = JObj (artifact_view @
           [(''artifact_hash'', JStr (sha256_prefixed E (canonical_json_bytes (JObj artifact_view))))])
     in bindE (validate_schema E evidence ''evidence-bundle-v1.schema.json'') (\<lambda>_. Inr evidence))))))))))"

section \<open>live_evidence.py\<close>

definition evidence_bundle_hash :: "ext \<Rightarrow> json \<Rightarrow> string res" where
  "evidence_bundle_hash E v = self_hash E ''bundle_hash'' v"

definition EVENT_REFERENCE_KEYS :: "string list" where
  "EVENT_REFERENCE_KEYS = [''event_id'', ''sequence'', ''category'', ''event_hash'', ''artifact_hash'']"

definition event_reference :: "json \<Rightarrow> json res" where
  "event_reference event =
     bindE (mapE (\<lambda>k. bindE (jitem event k) (\<lambda>x. Inr (k, x))) EVENT_REFERENCE_KEYS) (\<lambda>d. Inr (JObj d))"

text \<open>\<open>counts[category] += 1\<close>, for a category that is a key.\<close>

definition count_category :: "(string \<times> nat) list \<Rightarrow> json \<Rightarrow> (string \<times> nat) list res" where
  "count_category counts category =
     (case category of
        JStr c \<Rightarrow> (case map_of counts c of
            Some n \<Rightarrow> Inr (AList.update c (Suc n) counts)
          | None \<Rightarrow> Inl KeyError)
      | JArr _ \<Rightarrow> Inl TypeError
      | JObj _ \<Rightarrow> Inl TypeError
      | _ \<Rightarrow> Inl KeyError)"

record scan =
  sc_expected :: nat
  sc_previous :: json
  sc_counts :: "(string \<times> nat) list"
  sc_references :: "json list"

definition scan_start :: scan where
  "scan_start = \<lparr>sc_expected = 1, sc_previous = JStr ZERO_HASH,
     sc_counts = [(''source'', 0), (''summary'', 0), (''derived'', 0)], sc_references = []\<rparr>"

text \<open>The body of the loop. The artifact is checked against its digest by \<open>artifacts.get\<close> and once
  more by the loop.\<close>

definition scan_event :: "ext \<Rightarrow> artifact_fs \<Rightarrow> scan \<Rightarrow> json \<Rightarrow> scan res" where
  "scan_event E files s event =
     bindE (int_item event ''sequence'') (\<lambda>seq.
     bindE (ensure (seq = int (sc_expected s)) ''sequence_gap'' (dec_nat (sc_expected s))) (\<lambda>_.
     bindE (jitem event ''previous_event_hash'') (\<lambda>previous.
     bindE (if \<not> py_eq previous (sc_previous s) then Inr False else verify_live_event E event) (\<lambda>valid.
     bindE (if valid then Inr ()
            else bindE (jitem event ''event_id'') (\<lambda>i. le_error ''hash_chain_broken'' (py_str i))) (\<lambda>_.
     bindE (jitem event ''artifact_hash'') (\<lambda>artifact_hash. bindE (jstr artifact_hash) (\<lambda>digest.
     bindE (artifact_get E files digest) (\<lambda>artifact.
     bindE (ensure (sha256_prefixed E artifact = digest) ''artifact_hash_mismatch'' digest) (\<lambda>_.
     bindE (jitem event ''content'') (\<lambda>c. bindE (jstr c) (\<lambda>content.
     bindE (if digest = sha256_prefixed E content then Inr ()
            else bindE (jitem event ''event_id'') (\<lambda>i. le_error ''artifact_content_mismatch'' (py_str i))) (\<lambda>_.
     bindE (jitem event ''category'') (\<lambda>category.
     bindE (count_category (sc_counts s) category) (\<lambda>counts.
     bindE (event_reference event) (\<lambda>reference.
     bindE (jitem event ''event_hash'') (\<lambda>event_hash.
     Inr \<lparr>sc_expected = Suc (sc_expected s), sc_previous = event_hash, sc_counts = counts,
          sc_references = sc_references s @ [reference]\<rparr>))))))))))))))))"

definition bundle_value :: "string \<Rightarrow> string \<Rightarrow> string \<Rightarrow> scan \<Rightarrow> json" where
  "bundle_value session_id revision finalized_at s = JObj
     [(''schema_version'', JStr ''loveengine.evidence-bundle/2''),
      (''bundle_id'', JStr (session_id @ '':r'' @ revision)),
      (''session_id'', JStr session_id),
      (''revision'', JStr revision),
      (''status'', JStr ''finalized''),
      (''finalized_at'', JStr finalized_at),
      (''event_count'', JStr (dec_nat (length (sc_references s)))),
      (''head_event_hash'', sc_previous s),
      (''category_counts'', JObj (map (\<lambda>(k, n). (k, JStr (dec_nat n))) (sc_counts s))),
      (''events'', JArr (sc_references s))]"

definition finalize_evidence_bundle ::
    "ext \<Rightarrow> live_db \<Rightarrow> artifact_fs \<Rightarrow> string \<Rightarrow> string \<Rightarrow> string \<Rightarrow> (json \<times> live_db) res" where
  "finalize_evidence_bundle E db files session_id revision finalized_at =
     bindE (get_session db session_id) (\<lambda>session.
     bindE (jitem session ''status'') (\<lambda>status.
     bindE (ensure (status = JStr ''closed'') ''session_not_closed'' session_id) (\<lambda>_.
     bindE (list_events db session_id 0) (\<lambda>evs.
     bindE (foldE (scan_event E files) scan_start evs) (\<lambda>s.
     bindE (jitem session ''head_event_hash'') (\<lambda>head.
     bindE (ensure (py_eq (sc_previous s) head) ''hash_chain_broken'' session_id) (\<lambda>_.
     let v = bundle_value session_id revision finalized_at s in
     bindE (evidence_bundle_hash E v) (\<lambda>h.
     bindE (jset v ''bundle_hash'' (JStr h)) (\<lambda>w.
     save_bundle db w)))))))))"

section \<open>The replay of a verified chain\<close>

text \<open>What a stored event needs besides its place in the chain: its text is in the artifact store
  under the digest it names, and its category is one of the three.\<close>

definition event_ready :: "ext \<Rightarrow> artifact_fs \<Rightarrow> json \<Rightarrow> bool" where
  "event_ready E files v \<longleftrightarrow> (\<exists>c data cat.
     jitem v ''content'' = Inr (JStr c) \<and> jitem v ''artifact_hash'' = Inr (JStr (sha256_prefixed E c)) \<and>
     artifact_get E files (sha256_prefixed E c) = Inr data \<and>
     cat \<in> set CATEGORIES \<and> jitem v ''category'' = Inr (JStr cat) \<and> (\<exists>i. jitem v ''event_id'' = Inr i))"

definition counts_ok :: "(string \<times> nat) list \<Rightarrow> bool" where
  "counts_ok counts \<longleftrightarrow> map fst counts = CATEGORIES"

lemma map_fst_update_old: "k \<in> fst ` set d \<Longrightarrow> map fst (AList.update k x d) = map fst d"
  by (induction d) auto

lemma count_category_Inr_iff:
  assumes "counts_ok counts"
  shows "count_category counts v = Inr counts' \<longleftrightarrow>
    (\<exists>c \<in> set CATEGORIES. v = JStr c \<and> counts' = AList.update c (Suc (the (map_of counts c))) counts)"
proof (cases v)
  case (JStr c)
  have "map_of counts c \<noteq> None \<longleftrightarrow> c \<in> set CATEGORIES"
    using assms unfolding counts_ok_def by (metis domIff dom_map_of_conv_image_fst list.set_map)
  with JStr show ?thesis by (cases "map_of counts c") (auto simp: count_category_def)
qed (auto simp: count_category_def)

lemma counts_ok_update: "counts_ok counts \<Longrightarrow> c \<in> set CATEGORIES \<Longrightarrow> counts_ok (AList.update c n counts)"
  unfolding counts_ok_def by (metis list.set_map map_fst_update_old)

lemma counts_ok_start: "counts_ok (sc_counts scan_start)"
  by (simp add: counts_ok_def scan_start_def CATEGORIES_def)

text \<open>One step of the loop on an event that continues the chain.\<close>

lemma scan_event_Inr_iff:
  assumes v: "verify_live_event E v = Inr True" and q: "int_item v ''sequence'' = Inr (int (sc_expected s))"
    and p: "jitem v ''previous_event_hash'' = Inr (JStr h)" "sc_previous s = JStr h"
    and g: "jitem v ''event_hash'' = Inr (JStr g)" and c: "counts_ok (sc_counts s)"
  shows "scan_event E files s v = Inr s' \<longleftrightarrow>
    (\<exists>r cat. event_ready E files v \<and> event_reference v = Inr r \<and> jitem v ''category'' = Inr (JStr cat) \<and>
       s' = \<lparr>sc_expected = Suc (sc_expected s), sc_previous = JStr g,
             sc_counts = AList.update cat (Suc (the (map_of (sc_counts s) cat))) (sc_counts s),
             sc_references = sc_references s @ [r]\<rparr>)" (is "_ \<longleftrightarrow> ?R")
proof
  assume a: "scan_event E files s v = Inr s'"
  then obtain ah digest artifact c content category counts r where
    1: "jitem v ''artifact_hash'' = Inr ah" "jstr ah = Inr digest" "artifact_get E files digest = Inr artifact"
    "jitem v ''content'' = Inr c" "jstr c = Inr content"
    "(if digest = sha256_prefixed E content then Inr ()
      else bindE (jitem v ''event_id'') (\<lambda>i. le_error ''artifact_content_mismatch'' (py_str i))) = Inr ()"
    "jitem v ''category'' = Inr category" "count_category (sc_counts s) category = Inr counts"
    "event_reference v = Inr r"
    "Inr \<lparr>sc_expected = Suc (sc_expected s), sc_previous = JStr g, sc_counts = counts,
          sc_references = sc_references s @ [r]\<rparr> = (Inr s' :: scan res)"
    unfolding scan_event_def q bindE_simps ensure_simps p g v if_True if_False py_eq_refl not_True_eq_False refl
    by (elim run_elims) simp
  then have d: "digest = sha256_prefixed E content" by (auto split: if_splits simp: bindE_Inl_iff bindE_def split: sum.splits)
  have "\<exists>i. jitem v ''event_id'' = Inr i"
    using 1(9) by (auto simp: event_reference_def EVENT_REFERENCE_KEYS_def bindE_Inr_iff)
  with 1 d show ?R
    using count_category_Inr_iff [OF c, of category counts]
    by (auto simp: event_ready_def jstr_Inr_iff)
next
  assume ?R
  then obtain r cat c' data where 1: "event_reference v = Inr r" "jitem v ''category'' = Inr (JStr cat)"
    "jitem v ''content'' = Inr (JStr c')" "jitem v ''artifact_hash'' = Inr (JStr (sha256_prefixed E c'))"
    "artifact_get E files (sha256_prefixed E c') = Inr data" "cat \<in> set CATEGORIES"
    and s': "s' = \<lparr>sc_expected = Suc (sc_expected s), sc_previous = JStr g,
             sc_counts = AList.update cat (Suc (the (map_of (sc_counts s) cat))) (sc_counts s),
             sc_references = sc_references s @ [r]\<rparr>"
    by (auto simp: event_ready_def)
  have "sha256_prefixed E data = sha256_prefixed E c'" using 1(5) by (auto simp: artifact_get_Inr_iff)
  moreover have "count_category (sc_counts s) (JStr cat)
      = Inr (AList.update cat (Suc (the (map_of (sc_counts s) cat))) (sc_counts s))"
    using count_category_Inr_iff [OF c] 1(6) by blast
  ultimately show "scan_event E files s v = Inr s'"
    using v q p g 1 s' by (simp add: scan_event_def del: sha256_prefixed_inject)
qed

definition category_of :: "json \<Rightarrow> string" where
  "category_of v = (case jitem v ''category'' of Inr (JStr c) \<Rightarrow> c | _ \<Rightarrow> [])"

definition tally :: "json list \<Rightarrow> (string \<times> nat) list \<Rightarrow> (string \<times> nat) list" where
  "tally vs counts = fold (\<lambda>v cs. AList.update (category_of v) (Suc (the (map_of cs (category_of v)))) cs) vs counts"

lemma ready_reference:
  assumes "event_ready E files v" "event_chain E n h (v # vs) h'"
  shows "\<exists>r. event_reference v = Inr r"
  using assms by (auto simp: event_ready_def event_reference_def EVENT_REFERENCE_KEYS_def bindE_Inr_iff int_item_def)

lemma scan_chain:
  assumes "event_chain E (int (sc_expected s)) h vs h'" "sc_previous s = JStr h" "counts_ok (sc_counts s)"
  shows "foldE (scan_event E files) s vs = Inr s' \<longleftrightarrow>
    (\<forall>v \<in> set vs. event_ready E files v) \<and>
    (\<exists>rs. mapE event_reference vs = Inr rs \<and>
       s' = \<lparr>sc_expected = sc_expected s + length vs, sc_previous = JStr h',
             sc_counts = tally vs (sc_counts s), sc_references = sc_references s @ rs\<rparr>)"
  using assms
proof (induction vs arbitrary: s h)
  case Nil
  then show ?case by (cases s) (auto simp: tally_def)
next
  case (Cons v vs)
  from Cons.prems(1) obtain g where v: "verify_live_event E v = Inr True"
    "int_item v ''sequence'' = Inr (int (sc_expected s))" "jitem v ''previous_event_hash'' = Inr (JStr h)"
    "jitem v ''event_hash'' = Inr (JStr g)" "event_chain E (int (sc_expected s) + 1) g vs h'" by auto
  note step = scan_event_Inr_iff [OF v(1,2,3) Cons.prems(2) v(4) Cons.prems(3)]
  show ?case
  proof (cases "event_ready E files v")
    case False
    with step show ?thesis by (auto simp: bindE_Inr_iff)
  next
    case True
    with ready_reference [OF True Cons.prems(1)] obtain r cat where r: "event_reference v = Inr r"
      "jitem v ''category'' = Inr (JStr cat)" "cat \<in> set CATEGORIES" by (auto simp: event_ready_def)
    let ?s = "\<lparr>sc_expected = Suc (sc_expected s), sc_previous = JStr g,
             sc_counts = AList.update cat (Suc (the (map_of (sc_counts s) cat))) (sc_counts s),
             sc_references = sc_references s @ [r]\<rparr>"
    have "scan_event E files s v = Inr ?s" using step True r by auto
    moreover have "category_of v = cat" using r(2) by (simp add: category_of_def)
    moreover have "event_chain E (int (sc_expected ?s)) g vs h'" using v(5) by (simp add: add.commute)
    note IH = Cons.IH [OF this]
    ultimately show ?thesis
      using True r counts_ok_update [OF Cons.prems(3) r(3)] by (auto simp: IH tally_def bindE_Inr_iff)
  qed
qed

lemma map_of_tally:
  assumes "counts_ok counts" "\<And>v. v \<in> set vs \<Longrightarrow> category_of v \<in> set CATEGORIES" "c \<in> set CATEGORIES"
  shows "map_of (tally vs counts) c = Some (the (map_of counts c) + length (filter (\<lambda>v. category_of v = c) vs))"
  using assms
proof (induction vs arbitrary: counts)
  case Nil
  then have "map_of counts c \<noteq> None"
    unfolding counts_ok_def by (metis domIff dom_map_of_conv_image_fst list.set_map)
  then show ?case by (auto simp: tally_def)
next
  case (Cons v vs)
  let ?c = "category_of v"
  have "counts_ok (AList.update ?c (Suc (the (map_of counts ?c))) counts)"
    using Cons.prems by (intro counts_ok_update) auto
  from Cons.IH [OF this] Cons.prems show ?case by (auto simp: tally_def)
qed

section \<open>Bundles of reachable stores\<close>

text \<open>The bundle that a session's events determine, with its hash.\<close>

definition session_bundle :: "ext \<Rightarrow> string \<Rightarrow> string \<Rightarrow> string \<Rightarrow> json list \<Rightarrow> json list \<Rightarrow> json \<Rightarrow> json" where
  "session_bundle E sid revision at vs rs head =
     (let v = bundle_value sid revision at
            \<lparr>sc_expected = Suc (length vs), sc_previous = head,
              sc_counts = tally vs (sc_counts scan_start), sc_references = rs\<rparr>
      in case v of JObj d \<Rightarrow> JObj (d @ [(''bundle_hash'', JStr (keccak256_hex E (canonical_json_bytes v)))]) | _ \<Rightarrow> v)"

lemma update_fresh: "map_of d k = None \<Longrightarrow> AList.update k x d = d @ [(k, x)]"
  by (induction d) (auto split: if_splits)

lemma delete_fresh: "map_of d k = None \<Longrightarrow> AList.delete k d = d"
  by (induction d) (auto simp: AList.delete_eq split: if_splits)

lemma finalize_Inr_iff:
  assumes inv: "live_inv E db" and s: "get_session db sid = Inr s" and evs: "list_events db sid 0 = Inr vs"
  shows "finalize_evidence_bundle E db files sid revision at = Inr res \<longleftrightarrow>
    jitem s ''status'' = Inr (JStr ''closed'') \<and> (\<forall>v \<in> set vs. event_ready E files v) \<and>
    (\<exists>rs head. mapE event_reference vs = Inr rs \<and> jitem s ''head_event_hash'' = Inr head \<and>
       save_bundle db (session_bundle E sid revision at vs rs head) = Inr res)"
proof -
  from session_events [OF inv s] evs obtain h where
    chain: "event_chain E (int (sc_expected scan_start)) ZERO_HASH vs h" and head: "jitem s ''head_event_hash'' = Inr (JStr h)"
    by (auto simp: scan_start_def)
  note scan = scan_chain [OF chain _ counts_ok_start, of files]
  have start: "sc_previous scan_start = JStr ZERO_HASH" "sc_references scan_start = []" "sc_expected scan_start = 1"
    by (simp_all add: scan_start_def)
  have finish: "bindE (evidence_bundle_hash E v) (\<lambda>h. bindE (jset v ''bundle_hash'' (JStr h)) (save_bundle db)) = save_bundle db w"
    if "v = bundle_value sid revision at t"
      "w = (case v of JObj d \<Rightarrow> JObj (d @ [(''bundle_hash'', JStr (keccak256_hex E (canonical_json_bytes v)))]) | _ \<Rightarrow> v)" for v t w
    using that by (simp add: bundle_value_def evidence_bundle_hash_def self_hash_def update_fresh delete_fresh)
  show ?thesis
    unfolding finalize_evidence_bundle_def
    using s evs head scan [OF start(1)] start finish [OF refl refl]
    by (auto simp: bindE_Inr_iff ensure_Inr_iff session_bundle_def Let_def)
qed

text \<open>What a new bundle says of the session.\<close>

lemma session_bundle_items:
  "jitem (session_bundle E sid revision at vs rs head) ''events'' = Inr (JArr rs)"
  "jitem (session_bundle E sid revision at vs rs head) ''event_count'' = Inr (JStr (dec_nat (length rs)))"
  "jitem (session_bundle E sid revision at vs rs head) ''head_event_hash'' = Inr head"
  "jitem (session_bundle E sid revision at vs rs head) ''category_counts''
     = Inr (JObj (map (\<lambda>(k, n). (k, JStr (dec_nat n))) (tally vs (sc_counts scan_start))))"
  "\<exists>h. jitem (session_bundle E sid revision at vs rs head) ''bundle_hash'' = Inr (JStr h) \<and>
     evidence_bundle_hash E (session_bundle E sid revision at vs rs head) = Inr h"
  by (simp_all add: session_bundle_def bundle_value_def Let_def evidence_bundle_hash_def self_hash_def)

lemma save_new_bundle:
  assumes "save_bundle db (session_bundle E sid revision at vs rs head) = Inr (v, db')"
    and "py_int (JStr revision) = Inr i" "find_bundle db sid i = None"
  shows "v = session_bundle E sid revision at vs rs head" "find_bundle db' sid i \<noteq> None"
  using assms by (auto simp: save_bundle_def session_bundle_def bundle_value_def Let_def text_item_def int_item_def
      find_bundle_def find_snoc)

lemma tally_counts:
  assumes "\<forall>v \<in> set vs. event_ready E files v" "c \<in> set CATEGORIES"
  shows "map_of (map (\<lambda>(k, n). (k, JStr (dec_nat n))) (tally vs (sc_counts scan_start))) c
    = Some (JStr (dec_nat (length (filter (\<lambda>v. category_of v = c) vs))))"
proof -
  have "category_of v \<in> set CATEGORIES" if "v \<in> set vs" for v
    using assms(1) that by (auto simp: event_ready_def category_of_def)
  then have "map_of (tally vs (sc_counts scan_start)) c = Some (the (map_of (sc_counts scan_start) c) + length (filter (\<lambda>v. category_of v = c) vs))"
    using counts_ok_start assms(2) by (intro map_of_tally) auto
  moreover have "the (map_of (sc_counts scan_start) c) = 0" using assms(2) by (auto simp: scan_start_def CATEGORIES_def)
  ultimately show ?thesis by (simp add: map_of_map [of "\<lambda>n. JStr (dec_nat n)", unfolded comp_def])
qed

lemma finalize_contents:
  assumes inv: "live_inv E db" and s: "get_session db sid = Inr s"
    and rev: "py_int (JStr revision) = Inr i" "find_bundle db sid i = None"
    and f: "finalize_evidence_bundle E db files sid revision at = Inr (v, db')"
  shows "jitem s ''status'' = Inr (JStr ''closed'') \<and>
    (\<exists>vs rs cs h. list_events db sid 0 = Inr vs \<and> mapE event_reference vs = Inr rs \<and>
       jitem v ''events'' = Inr (JArr rs) \<and> jitem v ''event_count'' = Inr (JStr (dec_nat (length vs))) \<and>
       jitem v ''head_event_hash'' = jitem s ''head_event_hash'' \<and>
       jitem v ''category_counts'' = Inr (JObj cs) \<and>
       (\<forall>c \<in> set CATEGORIES. map_of cs c = Some (JStr (dec_nat (length (filter (\<lambda>x. category_of x = c) vs))))) \<and>
       jitem v ''bundle_hash'' = Inr (JStr h) \<and> evidence_bundle_hash E v = Inr h \<and>
       (\<forall>x \<in> set vs. event_ready E files x))"
proof -
  obtain vs where vs: "list_events db sid 0 = Inr vs" by (rule session_events [OF inv s])
  from f [unfolded finalize_Inr_iff [OF inv s vs]] obtain rs head where st: "jitem s ''status'' = Inr (JStr ''closed'')"
    and ready: "\<forall>v \<in> set vs. event_ready E files v" and rs: "mapE event_reference vs = Inr rs"
    and head: "jitem s ''head_event_hash'' = Inr head"
    and save: "save_bundle db (session_bundle E sid revision at vs rs head) = Inr (v, db')" by blast
  have len: "length rs = length vs" using rs by (auto simp: mapE_Inr_iff dest: list_all2_lengthD)
  note b = session_bundle_items [of E sid revision at vs rs head, folded save_new_bundle(1) [OF save rev], unfolded len]
  from b(5) obtain h where "jitem v ''bundle_hash'' = Inr (JStr h)" "evidence_bundle_hash E v = Inr h" by blast
  moreover have "\<forall>c \<in> set CATEGORIES. map_of (map (\<lambda>(k, n). (k, JStr (dec_nat n))) (tally vs (sc_counts scan_start))) c
      = Some (JStr (dec_nat (length (filter (\<lambda>x. category_of x = c) vs))))"
    using tally_counts [OF ready] by blast
  ultimately show ?thesis using st vs rs b(1-4) head ready by auto
qed

section \<open>Events as a hash chain\<close>

interpretation live_chain: hash_chain "keccak256_hex E" wf_dict
    "body_without ''event_hash''" "str_at ''event_hash''" "str_at ''previous_event_hash''" for E
  by unfold_locales (unfold wf_dict_def, rule body_without_str_at, auto)

lemma event_chain_linked:
  assumes "event_chain E n h vs g" "\<And>v. v \<in> set vs \<Longrightarrow> wf_json v"
  shows "\<exists>ds. vs = map JObj ds \<and> live_chain.linked E h ds g"
  using assms
proof (induction vs arbitrary: n h)
  case (Cons v vs)
  from Cons.prems(1) obtain d where d: "v = JObj d" "event_ok E d" by (auto simp: verify_live_event_iff)
  then have hash: "map_of d ''event_hash'' = Some (JStr (keccak256_hex E (body_without ''event_hash'' d)))"
    by (simp add: event_ok_def body_without_def)
  with Cons.prems(1) d(1) have "event_chain E (n + 1) (keccak256_hex E (body_without ''event_hash'' d)) vs g"
    and prev: "map_of d ''previous_event_hash'' = Some (JStr h)" by (auto split: option.splits)
  with Cons obtain ds where "vs = map JObj ds" "live_chain.linked E (keccak256_hex E (body_without ''event_hash'' d)) ds g"
    by fastforce
  moreover have "wf_dict d" using Cons.prems(2) [of v] d(1) by (simp add: wf_dict_def)
  ultimately show ?case
    using d(1) hash prev by (intro exI [of _ "d # ds"]) (simp add: str_at_Some)
qed simp

text \<open>The bytes that the hash of an event covers.\<close>

definition event_preimage :: "json \<Rightarrow> string" where
  "event_preimage v = (case v of JObj d \<Rightarrow> body_without ''event_hash'' d | _ \<Rightarrow> [])"

lemma chain_head_determines:
  assumes "event_chain E 1 ZERO_HASH vs h" "event_chain E 1 ZERO_HASH ws h"
    and "\<And>v. v \<in> set vs \<union> set ws \<Longrightarrow> wf_json v"
    and inj: "inj_on (keccak256_hex E) (event_preimage ` (set vs \<union> set ws))"
    and start: "ZERO_HASH \<notin> keccak256_hex E ` event_preimage ` (set vs \<union> set ws)"
  shows "map event_preimage vs = map event_preimage ws"
proof -
  from event_chain_linked [OF assms(1)] assms(3) obtain ds where
    ds: "vs = map JObj ds" "live_chain.linked E ZERO_HASH ds h" by auto
  from event_chain_linked [OF assms(2)] assms(3) obtain es where
    es: "ws = map JObj es" "live_chain.linked E ZERO_HASH es h" by auto
  have im: "event_preimage ` (set vs \<union> set ws) = body_without ''event_hash'' ` (set ds \<union> set es)"
    using ds(1) es(1) by (simp add: event_preimage_def image_Un image_image)
  have "map (body_without ''event_hash'') ds = map (body_without ''event_hash'') es"
    using ds(2) es(2)
  proof (rule live_chain.head_determines)
    show "inj_on (keccak256_hex E) (body_without ''event_hash'' ` (set ds \<union> set es))" using inj im by simp
    show "keccak256_hex E (body_without ''event_hash'' e) \<noteq> ZERO_HASH" if "e \<in> set ds \<union> set es" for e
      using start im that by (metis image_eqI)
  qed
  with ds(1) es(1) show ?thesis by (simp add: event_preimage_def comp_def)
qed

text \<open>Two events with the same preimage have the same values in every field.\<close>

lemma event_preimage_inject:
  assumes "wf_json v" "wf_json w" "verify_live_event E v = Inr True" "verify_live_event E w = Inr True"
    and "event_preimage v = event_preimage w"
  shows "jnorm v = jnorm w"
proof -
  from assms(3,4) obtain d e where d: "v = JObj d" "event_ok E d" and e: "w = JObj e" "event_ok E e"
    by (auto simp: verify_live_event_iff)
  with assms(5) have b: "body_without ''event_hash'' d = body_without ''event_hash'' e" by (simp add: event_preimage_def)
  have k: "map_of d ''event_hash'' = map_of e ''event_hash''"
    using d(2) e(2) b by (simp add: event_ok_def body_without_def)
  show ?thesis
    unfolding d(1) e(1) by (rule body_without_inject [OF assms(1,2) [unfolded d(1) e(1)] b k])
qed

text \<open>So sessions with the same head hold the same events.\<close>

lemma event_chain_verified: "event_chain E n h vs g \<Longrightarrow> v \<in> set vs \<Longrightarrow> verify_live_event E v = Inr True"
  by (induction vs arbitrary: n h) auto

lemma heads_agree:
  assumes "live_inv E db" "get_session db sid = Inr s" "list_events db sid 0 = Inr vs"
    and "live_inv E db'" "get_session db' sid' = Inr s'" "list_events db' sid' 0 = Inr ws"
    and head: "jitem s ''head_event_hash'' = jitem s' ''head_event_hash''"
    and inj: "inj_on (keccak256_hex E) (event_preimage ` (set vs \<union> set ws))"
    and start: "ZERO_HASH \<notin> keccak256_hex E ` event_preimage ` (set vs \<union> set ws)"
  shows "map jnorm vs = map jnorm ws"
proof -
  obtain vs' h where v': "list_events db sid 0 = Inr vs'" "event_chain E 1 ZERO_HASH vs' h"
    "jitem s ''head_event_hash'' = Inr (JStr h)" "\<And>v. v \<in> set vs' \<Longrightarrow> wf_json v \<and> text_item v ''session_id'' = Inr sid"
    by (rule session_events [OF assms(1,2)]) blast
  obtain ws' g where w': "list_events db' sid' 0 = Inr ws'" "event_chain E 1 ZERO_HASH ws' g"
    "jitem s' ''head_event_hash'' = Inr (JStr g)" "\<And>v. v \<in> set ws' \<Longrightarrow> wf_json v \<and> text_item v ''session_id'' = Inr sid'"
    by (rule session_events [OF assms(4,5)]) blast
  from v' assms(3) have v: "event_chain E 1 ZERO_HASH vs h" "jitem s ''head_event_hash'' = Inr (JStr h)"
    "\<And>v. v \<in> set vs \<Longrightarrow> wf_json v" by auto
  from w' assms(6) have w: "event_chain E 1 ZERO_HASH ws g" "jitem s' ''head_event_hash'' = Inr (JStr g)"
    "\<And>v. v \<in> set ws \<Longrightarrow> wf_json v" by auto
  have "g = h" using head v(2) w(2) by simp
  with v w have eq: "map event_preimage vs = map event_preimage ws"
    using chain_head_determines [OF v(1), of ws] inj start by auto
  then have len: "length vs = length ws" by (rule map_eq_imp_length_eq)
  show ?thesis
  proof (rule nth_equalityI)
    fix i assume "i < length (map jnorm vs)"
    then have i: "i < length vs" "vs ! i \<in> set vs" "ws ! i \<in> set ws" using len by auto
    moreover have "event_preimage (vs ! i) = event_preimage (ws ! i)"
      using eq i(1) len by (metis nth_map)
    ultimately show "map jnorm vs ! i = map jnorm ws ! i"
      using len v w by (simp add: event_preimage_inject [OF v(3) w(3) event_chain_verified [OF v(1)] event_chain_verified [OF w(1)]])
  qed (simp add: len)
qed

end
