(* ===== verification/LiveGateway.thy ===== *)
theory LiveGateway
  imports LiveEvidence
begin

text \<open>
  \<^verbatim>\<open>live_gateway.py\<close>: the HTTP handlers over the metadata store and the artifact store, with the
  middleware that turns exceptions into responses. A handler takes the decoded parts of the
  request that the code reads and returns the new state with a response; it keeps the effects of
  what it did before an exception, as the code does. Rendering of the dashboard is not modelled.
  The invariant says that everything a gateway accepts can be finalized later.
\<close>

record gateway =
  gw_db :: live_db
  gw_files :: artifact_fs

datatype response =
    JsonResponse nat json
  | BytesResponse string
  | ErrorResponse nat string
  | ServerError exc

section \<open>Middleware\<close>

definition error_middleware :: "response res \<Rightarrow> response" where
  "error_middleware r = (case r of
       Inr resp \<Rightarrow> resp
     | Inl (LoveEngineError c d n) \<Rightarrow>
         ErrorResponse (if py_contains c ''conflict'' \<or> py_contains c ''closed'' then 409 else 400) c
     | Inl KeyError \<Rightarrow> ErrorResponse 400 ''invalid_input''
     | Inl TypeError \<Rightarrow> ErrorResponse 400 ''invalid_input''
     | Inl ValueError \<Rightarrow> ErrorResponse 400 ''invalid_input''
     | Inl e \<Rightarrow> ServerError e)"

text \<open>A handler that only reads, and one that returns a value with a new database.\<close>

definition reply :: "nat \<Rightarrow> json res \<Rightarrow> response" where
  "reply status r = error_middleware (bindE r (\<lambda>v. Inr (JsonResponse status v)))"

definition with_db :: "gateway \<Rightarrow> nat \<Rightarrow> (json \<times> live_db) res \<Rightarrow> gateway \<times> response" where
  "with_db gw status r =
     (case r of
        Inr (v, db) \<Rightarrow> (gw\<lparr>gw_db := db\<rparr>, reply status (Inr v))
      | Inl e \<Rightarrow> (gw, reply status (Inl e)))"

section \<open>Handlers\<close>

definition create_session_handler :: "gateway \<Rightarrow> string \<Rightarrow> gateway \<times> response" where
  "create_session_handler gw text =
     with_db gw 201
       (bindE (load_json text) (\<lambda>body.
        bindE (jitem body ''session_id'') (\<lambda>sid.
        bindE (jget_or body ''source_type'' (JStr ''http_push'')) (\<lambda>src.
        bindE (jitem body ''created_at'') (\<lambda>at.
        bindE (build_live_session sid src at) (\<lambda>v.
        create_session (gw_db gw) v))))))"

text \<open>\<open>_input_events\<close>; \<open>str.splitlines\<close> also ends a line inside a JSON string that holds U+0085, U+2028 or U+2029.\<close>

definition NDJSON_TYPES :: "string list" where
  "NDJSON_TYPES = [''application/x-ndjson'', ''application/ndjson'']"

definition input_events :: "string \<Rightarrow> string \<Rightarrow> json list res" where
  "input_events content_type text =
     (if content_type \<in> set NDJSON_TYPES
      then mapE load_json (filter (\<lambda>l. py_strip l \<noteq> []) (py_splitlines text))
      else bindE (load_json text) (\<lambda>body. Inr (case body of JArr vs \<Rightarrow> vs | v \<Rightarrow> [v])))"

definition IDEMPOTENT_KEYS :: "string list" where
  "IDEMPOTENT_KEYS = [''event_id'', ''occurred_at'', ''category'', ''source_type'', ''content'']"

definition same_fields :: "json \<Rightarrow> json \<Rightarrow> bool res" where
  "same_fields existing raw =
     foldE (\<lambda>b k. if \<not> b then Inr False
        else bindE (jget existing k) (\<lambda>x. bindE (jget raw k) (\<lambda>y. Inr (py_eq x y)))) True IDEMPOTENT_KEYS"

text \<open>The part of one round that runs after the artifact was stored.\<close>

definition ingest_event :: "ext \<Rightarrow> string \<Rightarrow> live_db \<Rightarrow> json \<Rightarrow> string \<Rightarrow> ((bool \<times> json) \<times> live_db) res" where
  "ingest_event E session_id db raw artifact_hash =
     bindE (text_item raw ''event_id'') (\<lambda>eid.
     bindE (get_event db eid) (\<lambda>existing.
     bindE (case existing of None \<Rightarrow> Inr False | Some x \<Rightarrow> same_fields x raw) (\<lambda>same.
     if same then Inr ((True, the existing), db)
     else
       bindE (get_session db session_id) (\<lambda>session.
       bindE (jitem raw ''event_id'') (\<lambda>event_id.
       bindE (jitem session ''next_sequence'') (\<lambda>next. bindE (jget_or raw ''sequence'' next) (\<lambda>sequence.
       bindE (jitem raw ''occurred_at'') (\<lambda>occurred_at.
       bindE (jitem raw ''category'') (\<lambda>category.
       bindE (jitem session ''source_type'') (\<lambda>src. bindE (jget_or raw ''source_type'' src) (\<lambda>source_type.
       bindE (jitem raw ''content'') (\<lambda>content.
       bindE (jitem session ''head_event_hash'') (\<lambda>head. bindE (jget_or raw ''previous_event_hash'' head) (\<lambda>previous.
       bindE (jget raw ''source_uri'') (\<lambda>source_uri.
       bindE (jget raw ''media_url'') (\<lambda>media_url.
       bindE (jget raw ''media_hash'') (\<lambda>media_hash.
       bindE (build_live_event E \<lparr>a_event_id = event_id, a_session_id = JStr session_id, a_sequence = sequence,
           a_occurred_at = occurred_at, a_category = category, a_source_type = source_type,
           a_content = content, a_artifact_hash = JStr artifact_hash, a_previous_event_hash = previous,
           a_source_uri = source_uri, a_media_url = media_url, a_media_hash = media_hash\<rparr>) (\<lambda>event.
       bindE (append_event E db event) (\<lambda>(duplicate, db').
       Inr ((duplicate, event), db'))))))))))))))))))))"

text \<open>One round of the loop: the checks before the artifact is stored, the artifact, the event. The
  digest that the store returns is the one computed before, so the second comparison passes.\<close>

definition append_round :: "ext \<Rightarrow> string \<Rightarrow> gateway \<Rightarrow> json \<Rightarrow> gateway \<times> (bool \<times> json) res" where
  "append_round E session_id gw raw =
     (case bindE (jitem raw ''content'') (\<lambda>c. bindE (jstr c) (\<lambda>content.
           let artifact_hash = sha256_prefixed E content in
           bindE (jget raw ''artifact_hash'') (\<lambda>claimed.
           bindE (ensure (claimed = JNull \<or> claimed = JStr artifact_hash) ''artifact_hash_mismatch'' []) (\<lambda>_.
           bindE (artifact_put E (gw_files gw) content) (\<lambda>(stored_hash, files).
           bindE (ensure (stored_hash = artifact_hash) ''artifact_hash_mismatch'' []) (\<lambda>_.
           Inr (artifact_hash, files))))))) of
        Inl e \<Rightarrow> (gw, Inl e)
      | Inr (artifact_hash, files) \<Rightarrow>
          (let gw1 = gw\<lparr>gw_files := files\<rparr> in
           case ingest_event E session_id (gw_db gw) raw artifact_hash of
             Inl e \<Rightarrow> (gw1, Inl e)
           | Inr (r, db') \<Rightarrow> (gw1\<lparr>gw_db := db'\<rparr>, Inr r)))"

fun append_loop :: "ext \<Rightarrow> string \<Rightarrow> gateway \<Rightarrow> (bool \<times> json) list \<Rightarrow> json list \<Rightarrow> gateway \<times> (bool \<times> json) list res" where
  "append_loop E session_id gw results [] = (gw, Inr results)"
| "append_loop E session_id gw results (raw # raws) =
     (case append_round E session_id gw raw of
        (gw', Inl e) \<Rightarrow> (gw', Inl e)
      | (gw', Inr r) \<Rightarrow> append_loop E session_id gw' (results @ [r]) raws)"

definition append_events_handler :: "ext \<Rightarrow> gateway \<Rightarrow> string \<Rightarrow> string \<Rightarrow> string \<Rightarrow> gateway \<times> response" where
  "append_events_handler E gw session_id content_type text =
     (case input_events content_type text of
        Inl e \<Rightarrow> (gw, reply 202 (Inl e))
      | Inr raws \<Rightarrow>
          (case append_loop E session_id gw [] raws of
             (gw', Inl e) \<Rightarrow> (gw', reply 202 (Inl e))
           | (gw', Inr results) \<Rightarrow>
               (gw', reply 202 (Inr (JObj
                  [(''accepted'', JInt (int (length (filter (\<lambda>r. \<not> fst r) results)))),
                   (''duplicates'', JInt (int (length (filter fst results)))),
                   (''events'', JArr (map snd results))])))))"

text \<open>The body is optional for closing and finalizing; \<open>None\<close> is a request without one.\<close>

definition optional_body :: "string option \<Rightarrow> json res" where
  "optional_body text = (case text of None \<Rightarrow> Inr (JObj []) | Some t \<Rightarrow> load_json t)"

definition close_session_handler :: "gateway \<Rightarrow> string \<Rightarrow> string option \<Rightarrow> int \<Rightarrow> gateway \<times> response" where
  "close_session_handler gw session_id text now =
     with_db gw 200
       (bindE (optional_body text) (\<lambda>body.
        bindE (jget_or body ''closed_at'' (JInt now)) (\<lambda>at.
        close_session (gw_db gw) session_id (JStr (py_str at)))))"

definition get_session_handler :: "gateway \<Rightarrow> string \<Rightarrow> response" where
  "get_session_handler gw session_id = reply 200 (get_session (gw_db gw) session_id)"

definition int_query :: "string \<Rightarrow> int res" where
  "int_query s = py_int (JStr s)"

definition get_events_handler :: "gateway \<Rightarrow> string \<Rightarrow> string option \<Rightarrow> response" where
  "get_events_handler gw session_id after =
     reply 200
       (bindE (int_query (case after of None \<Rightarrow> ''0'' | Some a \<Rightarrow> a)) (\<lambda>i.
        bindE (list_events (gw_db gw) session_id i) (\<lambda>evs. Inr (JObj [(''events'', JArr evs)]))))"

definition get_evidence_handler :: "gateway \<Rightarrow> string \<Rightarrow> response" where
  "get_evidence_handler gw session_id = reply 200 (get_bundle (gw_db gw) session_id None)"

definition finalize_evidence_handler :: "ext \<Rightarrow> gateway \<Rightarrow> string \<Rightarrow> string option \<Rightarrow> gateway \<times> response" where
  "finalize_evidence_handler E gw session_id text =
     with_db gw 200
       (bindE (optional_body text) (\<lambda>body.
        bindE (get_session (gw_db gw) session_id) (\<lambda>session.
        bindE (jget_or body ''revision'' (JStr ''1'')) (\<lambda>revision.
        bindE (jitem session ''closed_at'') (\<lambda>closed_at.
        bindE (jget_or body ''finalized_at'' closed_at) (\<lambda>finalized_at.
        finalize_evidence_bundle E (gw_db gw) (gw_files gw) session_id (py_str revision) (py_str finalized_at)))))))"

definition get_artifact_handler :: "ext \<Rightarrow> gateway \<Rightarrow> string \<Rightarrow> response" where
  "get_artifact_handler E gw digest =
     error_middleware (bindE (artifact_get E (gw_files gw) digest) (\<lambda>data. Inr (BytesResponse data)))"

definition dashboard_sessions_handler :: "gateway \<Rightarrow> response" where
  "dashboard_sessions_handler gw =
     reply 200 (bindE (list_sessions (gw_db gw)) (\<lambda>vs. Inr (JObj [(''sessions'', JArr vs)])))"

definition bundle_integrity :: "ext \<Rightarrow> artifact_fs \<Rightarrow> json \<Rightarrow> bool res" where
  "bundle_integrity E files evidence =
     bindE (jitem evidence ''events'') (\<lambda>evs. bindE (jlist evs) (\<lambda>items.
     foldE (\<lambda>b item. if \<not> b then Inr False
        else bindE (jitem item ''artifact_hash'') (\<lambda>h. bindE (jstr h) (\<lambda>digest.
             Inr (artifact_exists E files digest)))) True items))"

text \<open>A \<open>LoveEngineError\<close> from the bundle or its artifacts leaves both fields \<open>null\<close>.\<close>

definition dashboard_session_handler :: "ext \<Rightarrow> gateway \<Rightarrow> string \<Rightarrow> response" where
  "dashboard_session_handler E gw session_id =
     reply 200
       (bindE (get_session (gw_db gw) session_id) (\<lambda>session.
        bindE (list_events (gw_db gw) session_id 0) (\<lambda>evs.
        bindE (catchE
            (bindE (get_bundle (gw_db gw) session_id None) (\<lambda>evidence.
             bindE (bundle_integrity E (gw_files gw) evidence) (\<lambda>ok. Inr (evidence, JBool ok))))
            is_LoveEngineError (\<lambda>_. Inr (JNull, JNull))) (\<lambda>(evidence, integrity).
        Inr (JObj [(''session'', session), (''events'', JArr evs), (''evidence'', evidence),
          (''artifact_integrity'', integrity)])))))"

definition dashboard_dispute_handler :: "gateway \<Rightarrow> string \<Rightarrow> response" where
  "dashboard_dispute_handler gw dispute_id =
     reply 200
       (bindE (get_dispute (gw_db gw) dispute_id) (\<lambda>dispute.
        bindE (list_reviews (gw_db gw) dispute_id) (\<lambda>reviews.
        Inr (JObj [(''dispute'', dispute), (''reviews'', JArr reviews)]))))"

section \<open>The event stream\<close>

text \<open>\<open>json.dumps(event, ensure_ascii=False, sort_keys=True)\<close>, with the default separators.\<close>

definition dumps_sorted :: "json \<Rightarrow> string" where
  "dumps_sorted v = json_text '' '' v"

text \<open>
  The polling loop. Each round reads the session state and then the events again; other requests
  may run in between, so a round has the database that each of the two reads sees. The deadline
  passes in the last round of the list.
\<close>

fun stream_loop :: "string \<Rightarrow> int \<Rightarrow> (live_db \<times> live_db) list \<Rightarrow> json list res" where
  "stream_loop session_id after [] = Inr []"
| "stream_loop session_id after ((db_state, db_events) # rounds) =
     bindE (get_session db_state session_id) (\<lambda>session.
     bindE (jitem session ''status'') (\<lambda>status.
     if status = JStr ''closed'' then list_events db_events session_id after
     else if rounds = [] then Inr []
     else bindE (list_events db_events session_id after) (\<lambda>evs.
       if evs \<noteq> [] then Inr evs else stream_loop session_id after rounds)))"

definition stream_poll :: "string \<Rightarrow> int \<Rightarrow> live_db \<Rightarrow> (live_db \<times> live_db) list \<Rightarrow> json list res" where
  "stream_poll session_id after db rounds =
     bindE (list_events db session_id after) (\<lambda>evs.
     if evs \<noteq> [] then Inr evs else stream_loop session_id after rounds)"

definition sse_frame :: "json \<Rightarrow> string res" where
  "sse_frame event =
     bindE (jitem event ''sequence'') (\<lambda>seq.
     Inr (''id: '' @ py_str seq @ [CHR 0x0A] @ ''event: live_event'' @ [CHR 0x0A] @ ''data: ''
        @ dumps_sorted event @ [CHR 0x0A, CHR 0x0A]))"

definition stream_events_handler :: "string \<Rightarrow> string option \<Rightarrow> string option \<Rightarrow> live_db \<Rightarrow> (live_db \<times> live_db) list \<Rightarrow> response" where
  "stream_events_handler session_id after last_event_id db rounds =
     error_middleware
       (bindE (int_query (case after of Some a \<Rightarrow> a | None \<Rightarrow> (case last_event_id of Some a \<Rightarrow> a | None \<Rightarrow> ''0''))) (\<lambda>i.
        bindE (stream_poll session_id i db rounds) (\<lambda>evs.
        bindE (mapE sse_frame evs) (\<lambda>frames.
        Inr (BytesResponse (if frames = [] then '': keepalive'' @ [CHR 0x0A, CHR 0x0A] else concat frames))))))"

section \<open>What a gateway accepts can be finalized\<close>

text \<open>Every stored event can be read back with its artifact.\<close>

definition gateway_inv :: "ext \<Rightarrow> gateway \<Rightarrow> bool" where
  "gateway_inv E gw \<longleftrightarrow> live_inv E (gw_db gw) \<and>
     (\<forall>r \<in> set (events (gw_db gw)). \<exists>v. load_json (er_value r) = Inr v \<and> event_ready E (gw_files gw) v)"

lemma artifact_get_put:
  assumes "artifact_put E files data = Inr (digest, files')"
  shows "artifact_get E files' digest = Inr data"
    and "artifact_get E files d = Inr x \<Longrightarrow> artifact_get E files' d = Inr x"
proof -
  from assms obtain path where p: "digest = sha256_prefixed E data" "path_for digest = Inr path"
    "files path = None \<or> files path = Some data" "files' = files(path \<mapsto> data)"
    by (auto simp: artifact_put_Inr_iff)
  from p show "artifact_get E files' digest = Inr data" by (auto simp: artifact_get_Inr_iff)
  show "artifact_get E files' d = Inr x" if "artifact_get E files d = Inr x"
    using that p path_for_inject by (auto simp: artifact_get_Inr_iff)
qed

lemma event_ready_put:
  assumes "artifact_put E files data = Inr (digest, files')" "event_ready E files v"
  shows "event_ready E files' v"
  using assms(2) artifact_get_put(2) [OF assms(1)] unfolding event_ready_def by blast

lemma build_live_event_ready:
  assumes "build_live_event E a = Inr v" "wf_json v" "a_content a = JStr c"
    and "a_artifact_hash a = JStr (sha256_prefixed E c)" "artifact_get E files (sha256_prefixed E c) = Inr data"
  shows "event_ready E files (jnorm v)"
proof -
  from assms(1,3,4) obtain d where d: "v = JObj d" "map_of d ''content'' = Some (JStr c)"
    "map_of d ''artifact_hash'' = Some (JStr (sha256_prefixed E c))" "map_of d ''category'' = Some (a_category a)"
    "a_category a \<in> JStr ` set CATEGORIES" "\<exists>i. map_of d ''event_id'' = Some i"
    by (auto simp: build_live_event_def bindE_Inr_iff Let_def jset_Inr_iff split: if_splits)
  with assms(2,5) show ?thesis
    by (auto simp: event_ready_def jnorm_JObj map_of_sorted_dict simp del: wf_json.simps jnorm.simps)
qed

lemma build_live_event_wf:
  assumes "build_live_event E a = Inr v"
    and "wf_json (a_event_id a)" "wf_json (a_session_id a)" "wf_json (a_category a)" "wf_json (a_source_type a)"
      "wf_json (a_artifact_hash a)" "wf_json (a_source_uri a)" "wf_json (a_media_url a)" "wf_json (a_media_hash a)"
  shows "wf_json v"
  using assms by (auto simp: build_live_event_def bindE_Inr_iff Let_def split: if_splits)

lemma jget_or_wf: "jget_or v k x = Inr y \<Longrightarrow> wf_json v \<Longrightarrow> wf_json x \<Longrightarrow> wf_json y"
  by (cases v) (auto simp: jget_or_def simp del: wf_json.simps split: option.splits intro: wf_map_of)

lemma jget_wf: "jget v k = Inr y \<Longrightarrow> wf_json v \<Longrightarrow> wf_json y"
  by (auto simp: jget_def intro: jget_or_wf)

lemma ingest_event_Inr:
  assumes "ingest_event E sid db raw ah = Inr ((dup, event), db')"
  obtains (same) row where "dup" "db' = db" "text_item raw ''event_id'' = Inr (er_id row)"
      "row \<in> set (events db)" "load_json (er_value row) = Inr event" "same_fields event raw = Inr True"
  | (append) session src sequence at previous event_id category content uri url mh where "get_session db sid = Inr session"
      "jitem raw ''event_id'' = Inr event_id" "jitem raw ''category'' = Inr category"
      "jitem session ''source_type'' = Inr src" "jitem raw ''content'' = Inr content"
      "jget raw ''source_uri'' = Inr uri" "jget raw ''media_url'' = Inr url" "jget raw ''media_hash'' = Inr mh"
      "\<exists>st. jget_or raw ''source_type'' src = Inr st \<and>
       build_live_event E \<lparr>a_event_id = event_id, a_session_id = JStr sid, a_sequence = sequence,
           a_occurred_at = at, a_category = category, a_source_type = st,
           a_content = content, a_artifact_hash = JStr ah, a_previous_event_hash = previous,
           a_source_uri = uri, a_media_url = url, a_media_hash = mh\<rparr> = Inr event"
      "append_event E db event = Inr (dup, db')"
proof -
  from assms obtain eid existing same where 1: "text_item raw ''event_id'' = Inr eid"
    "get_event db eid = Inr existing" "(case existing of None \<Rightarrow> Inr False | Some x \<Rightarrow> same_fields x raw) = Inr same"
    unfolding ingest_event_def by (elim run_elims)
  show ?thesis
  proof (cases same)
    case True
    with 1 obtain x where x: "existing = Some x" "same_fields x raw = Inr True"
      by (cases existing) auto
    with 1 obtain row where row: "find_event db eid = Some row" "load_json (er_value row) = Inr x"
      by (auto simp: get_event_def bindE_Inr_iff split: option.splits)
    from assms 1 True x have "dup" "event = x" "db' = db" by (auto simp: ingest_event_def)
    with row x 1(1) find_event_Some [OF row(1)] show ?thesis by (intro that(1) [of row]) auto
  next
    case False
    from assms obtain session event_id nxt sequence at category src st content head previous uri url mh ev r where
      2: "get_session db sid = Inr session" "jitem raw ''event_id'' = Inr event_id"
      "jitem session ''next_sequence'' = Inr nxt" "jget_or raw ''sequence'' nxt = Inr sequence"
      "jitem raw ''occurred_at'' = Inr at" "jitem raw ''category'' = Inr category"
      "jitem session ''source_type'' = Inr src" "jget_or raw ''source_type'' src = Inr st"
      "jitem raw ''content'' = Inr content" "jitem session ''head_event_hash'' = Inr head"
      "jget_or raw ''previous_event_hash'' head = Inr previous" "jget raw ''source_uri'' = Inr uri"
      "jget raw ''media_url'' = Inr url" "jget raw ''media_hash'' = Inr mh"
      "build_live_event E \<lparr>a_event_id = event_id, a_session_id = JStr sid, a_sequence = sequence,
           a_occurred_at = at, a_category = category, a_source_type = st,
           a_content = content, a_artifact_hash = JStr ah, a_previous_event_hash = previous,
           a_source_uri = uri, a_media_url = url, a_media_hash = mh\<rparr> = Inr ev"
      "append_event E db ev = Inr r" "(case r of (duplicate, db'') \<Rightarrow> Inr ((duplicate, ev), db'')) = (Inr ((dup, event), db') :: ((bool \<times> json) \<times> live_db) res)"
      unfolding ingest_event_def 1 bindE_simps by (simp only: False if_False) (elim run_elims)
    then have "append_event E db event = Inr (dup, db')" "event = ev" by (auto split: prod.splits)
    with 2 show ?thesis by (intro that(2)) auto
  qed
qed

lemma ingest_event_inv:
  assumes inv: "gateway_inv E gw" and w: "wf_json raw" and c: "jitem raw ''content'' = Inr (JStr c)"
    and ah: "ah = sha256_prefixed E c" and art: "artifact_get E (gw_files gw) ah = Inr data"
    and i: "ingest_event E sid (gw_db gw) raw ah = Inr ((dup, event), db')"
  shows "gateway_inv E (gw\<lparr>gw_db := db'\<rparr>)"
  using i
proof (cases rule: ingest_event_Inr)
  case same
  with inv show ?thesis by simp
next
  case (append session src sequence at previous event_id category content uri url mh)
  from inv have li: "live_inv E (gw_db gw)" by (simp add: gateway_inv_def)
  have "wf_json session" using get_session_Inr [OF li append(1)] by metis
  then have ws: "wf_json src" using append(4) by (auto intro: wf_jitem)
  from append(9) obtain st where st: "jget_or raw ''source_type'' src = Inr st"
    "build_live_event E \<lparr>a_event_id = event_id, a_session_id = JStr sid, a_sequence = sequence,
           a_occurred_at = at, a_category = category, a_source_type = st,
           a_content = content, a_artifact_hash = JStr ah, a_previous_event_hash = previous,
           a_source_uri = uri, a_media_url = url, a_media_hash = mh\<rparr> = Inr event" by blast
  have we: "wf_json event"
    by (rule build_live_event_wf [OF st(2)])
      (use append(2-8) w ws st(1) in \<open>auto intro: wf_jitem jget_wf jget_or_wf\<close>)
  have ready: "event_ready E (gw_files gw) (jnorm event)"
    by (rule build_live_event_ready [OF st(2) we, where c = c and data = data]) (use append(5) c ah art in simp_all)
  have "live_inv E db'" by (rule append_event_inv [OF li we append(10)])
  moreover have "\<exists>v. load_json (er_value r) = Inr v \<and> event_ready E (gw_files gw) v"
    if r: "r \<in> set (events db')" for r
    using li append(10)
  proof (cases rule: append_event_cases)
    case duplicate
    with r inv show ?thesis by (simp add: gateway_inv_def)
  next
    case (new d sid' eid n h hash sd)
    with r consider "r \<in> set (events (gw_db gw))" | "er_value r = canonical_json_bytes event"
      by (auto simp: update_session_def)
    then show ?thesis
      by cases (use inv we ready in \<open>auto simp: gateway_inv_def\<close>)
  qed
  ultimately show ?thesis by (simp add: gateway_inv_def)
qed

lemma append_round_inv:
  assumes inv: "gateway_inv E gw" and w: "wf_json raw" and a: "append_round E sid gw raw = (gw', r)"
  shows "gateway_inv E gw'"
proof (cases "bindE (jitem raw ''content'') (\<lambda>c. bindE (jstr c) (\<lambda>content.
           let artifact_hash = sha256_prefixed E content in
           bindE (jget raw ''artifact_hash'') (\<lambda>claimed.
           bindE (ensure (claimed = JNull \<or> claimed = JStr artifact_hash) ''artifact_hash_mismatch'' []) (\<lambda>_.
           bindE (artifact_put E (gw_files gw) content) (\<lambda>(stored_hash, files).
           bindE (ensure (stored_hash = artifact_hash) ''artifact_hash_mismatch'' []) (\<lambda>_.
           Inr (artifact_hash, files)))))))")
  case (Inl e)
  with a inv show ?thesis by (simp add: append_round_def)
next
  case (Inr p)
  then obtain c files where c: "jitem raw ''content'' = Inr (JStr c)"
    "artifact_put E (gw_files gw) c = Inr (sha256_prefixed E c, files)" "p = (sha256_prefixed E c, files)"
    by (auto simp: bindE_Inr_iff Let_def jstr_Inr_iff ensure_Inr_iff split: prod.splits)
  let ?gw = "gw\<lparr>gw_files := files\<rparr>"
  have inv1: "gateway_inv E ?gw"
    using inv event_ready_put [OF c(2)] unfolding gateway_inv_def by fastforce
  show ?thesis
  proof (cases "ingest_event E sid (gw_db gw) raw (sha256_prefixed E c)")
    case (Inl e)
    with a Inr c(3) inv1 show ?thesis by (simp add: append_round_def)
  next
    case (Inr q)
    then obtain dup event db' where q: "ingest_event E sid (gw_db ?gw) raw (sha256_prefixed E c) = Inr ((dup, event), db')"
      "q = ((dup, event), db')" by (cases q) auto
    have "gateway_inv E (?gw\<lparr>gw_db := db'\<rparr>)"
      by (rule ingest_event_inv [OF inv1 w c(1) refl _ q(1)]) (use artifact_get_put(1) [OF c(2)] in simp)
    moreover have "gw' = ?gw\<lparr>gw_db := db'\<rparr>"
      using a Inr q(2) \<open>_ = Inr p\<close> c(3) by (simp add: append_round_def)
    ultimately show ?thesis by simp
  qed
qed

lemma append_loop_inv:
  "gateway_inv E gw \<Longrightarrow> list_all wf_json raws \<Longrightarrow> append_loop E sid gw results raws = (gw', r) \<Longrightarrow> gateway_inv E gw'"
proof (induction E sid gw results raws rule: append_loop.induct)
  case (2 E sid gw results raw raws)
  obtain g q where g: "append_round E sid gw raw = (g, q)" by fastforce
  with 2 have "gateway_inv E g" by (auto intro: append_round_inv)
  with 2 g show ?case by (cases q) auto
qed simp

section \<open>Requests\<close>

datatype request =
    PostSession string
  | PostEvents string string string
  | PostClose string "string option" int
  | PostFinalize string "string option"

fun gateway_step :: "ext \<Rightarrow> gateway \<Rightarrow> request \<Rightarrow> gateway \<times> response" where
  "gateway_step E gw (PostSession text) = create_session_handler gw text"
| "gateway_step E gw (PostEvents sid ct text) = append_events_handler E gw sid ct text"
| "gateway_step E gw (PostClose sid text now) = close_session_handler gw sid text now"
| "gateway_step E gw (PostFinalize sid text) = finalize_evidence_handler E gw sid text"

definition empty_gateway :: gateway where
  "empty_gateway = \<lparr>gw_db = empty_db, gw_files = Map.empty\<rparr>"

inductive gateway_reachable :: "ext \<Rightarrow> gateway \<Rightarrow> bool" for E where
  start: "gateway_reachable E empty_gateway"
| request: "gateway_reachable E gw \<Longrightarrow> gateway_step E gw req = (gw', resp) \<Longrightarrow> gateway_reachable E gw'"

lemma load_json_wf: "load_json t = Inr v \<Longrightarrow> wf_json v"
  by (auto simp: load_json_def split: option.splits intro: json_loads_wf)

lemma input_events_wf:
  assumes "input_events ct text = Inr raws"
  shows "list_all wf_json raws"
proof (cases "ct \<in> set NDJSON_TYPES")
  case True
  with assms have "list_all2 (\<lambda>l v. load_json l = Inr v) (filter (\<lambda>l. py_strip l \<noteq> []) (py_splitlines text)) raws"
    by (simp add: input_events_def mapE_Inr_iff)
  then show ?thesis
    by (auto simp: list_all_iff dest!: list_all2_set2 intro: load_json_wf)
next
  case False
  with assms obtain body where "load_json text = Inr body" "raws = (case body of JArr vs \<Rightarrow> vs | v \<Rightarrow> [v])"
    by (auto simp: input_events_def bindE_Inr_iff)
  moreover from this(1) have "wf_json body" by (rule load_json_wf)
  ultimately show ?thesis by (cases body) (simp_all add: list_all_iff)
qed

text \<open>Session and bundle requests change neither the events nor the artifacts.\<close>

lemma gateway_inv_db:
  "gateway_inv E gw \<Longrightarrow> live_inv E db' \<Longrightarrow> events db' = events (gw_db gw) \<Longrightarrow> gateway_inv E (gw\<lparr>gw_db := db'\<rparr>)"
  by (simp add: gateway_inv_def)

lemma with_db_inv:
  assumes "gateway_inv E gw" "with_db gw n r = (gw', resp)"
    and "\<And>v db'. r = Inr (v, db') \<Longrightarrow> live_inv E db' \<and> events db' = events (gw_db gw)"
  shows "gateway_inv E gw'"
  using assms by (cases r) (auto simp: with_db_def intro: gateway_inv_db)

lemma create_session_events: "create_session db v = Inr (w, db') \<Longrightarrow> events db' = events db"
  by (auto simp: create_session_def bindE_Inr_iff split: if_splits)

lemma close_session_events: "close_session db sid at = Inr (w, db') \<Longrightarrow> events db' = events db"
  by (auto simp: close_session_def bindE_Inr_iff update_session_def split: if_splits)

lemma finalize_events:
  "finalize_evidence_bundle E db files sid revision at = Inr (w, db') \<Longrightarrow> sessions db' = sessions db \<and> events db' = events db"
  unfolding finalize_evidence_bundle_def Let_def by (elim run_elims save_bundle_tables)

lemma gateway_step_inv:
  assumes inv: "gateway_inv E gw" and st: "gateway_step E gw req = (gw', resp)"
  shows "gateway_inv E gw'"
proof (cases req)
  case (PostSession body_text)
  show ?thesis
  proof (rule with_db_inv [OF inv st [unfolded PostSession gateway_step.simps create_session_handler_def]])
    fix v db'
    assume "bindE (load_json body_text) (\<lambda>body.
        bindE (jitem body ''session_id'') (\<lambda>sid.
        bindE (jget_or body ''source_type'' (JStr ''http_push'')) (\<lambda>src.
        bindE (jitem body ''created_at'') (\<lambda>at.
        bindE (build_live_session sid src at) (\<lambda>v.
        create_session (gw_db gw) v))))) = Inr (v, db')"
    then obtain body sid src at w where w: "load_json body_text = Inr body" "jitem body ''session_id'' = Inr sid"
      "jget_or body ''source_type'' (JStr ''http_push'') = Inr src" "build_live_session sid src at = Inr w"
      "create_session (gw_db gw) w = Inr (v, db')" by (elim run_elims)
    then have "wf_json sid" "wf_json src"
      using load_json_wf [OF w(1)] by (auto intro: wf_jitem jget_or_wf)
    then have "wf_json w" using build_live_session_wf w(4) by blast
    with inv w show "live_inv E db' \<and> events db' = events (gw_db gw)"
      by (auto simp: gateway_inv_def intro: create_session_inv create_session_events)
  qed
next
  case (PostEvents sid ct body_text)
  show ?thesis
  proof (cases "input_events ct body_text")
    case (Inl e)
    with PostEvents st inv show ?thesis by (simp add: append_events_handler_def)
  next
    case (Inr raws)
    obtain g q where "append_loop E sid gw [] raws = (g, q)" by fastforce
    with PostEvents Inr st append_loop_inv [OF inv input_events_wf [OF Inr]] show ?thesis
      by (cases q) (auto simp: append_events_handler_def)
  qed
next
  case (PostClose sid body_text now)
  show ?thesis
    by (rule with_db_inv [OF inv st [unfolded PostClose gateway_step.simps close_session_handler_def]])
      (use inv in \<open>auto simp: gateway_inv_def bindE_Inr_iff intro: close_session_inv close_session_events\<close>)
next
  case (PostFinalize sid body_text)
  show ?thesis
    by (rule with_db_inv [OF inv st [unfolded PostFinalize gateway_step.simps finalize_evidence_handler_def]])
      (use inv in \<open>auto simp: gateway_inv_def bindE_Inr_iff dest!: finalize_events intro: live_inv_cong\<close>)
qed

lemma gateway_reachable_inv: "gateway_reachable E gw \<Longrightarrow> gateway_inv E gw"
proof (induction rule: gateway_reachable.induct)
  case start
  show ?case by (simp add: gateway_inv_def empty_gateway_def live_inv_empty) (simp add: empty_db_def)
next
  case (request gw req gw' resp)
  then show ?case by (auto intro: gateway_step_inv)
qed

lemma references_exist:
  assumes "event_chain E n h vs h'" "\<And>v. v \<in> set vs \<Longrightarrow> event_ready E files v"
  shows "\<exists>rs. mapE event_reference vs = Inr rs"
  using assms
proof (induction vs arbitrary: n h)
  case (Cons v vs)
  from Cons.prems(1) obtain g where "event_chain E (n + 1) g vs h'" by auto
  with Cons obtain rs where "mapE event_reference vs = Inr rs" by fastforce
  moreover obtain r where "event_reference v = Inr r"
    using ready_reference [OF _ Cons.prems(1)] Cons.prems(2) by auto
  ultimately show ?case by simp
qed simp

text \<open>A closed session of a gateway can always be finalized.\<close>

lemma gateway_finalizes:
  assumes inv: "gateway_inv E gw" and s: "get_session (gw_db gw) sid = Inr s" "jitem s ''status'' = Inr (JStr ''closed'')"
    and rev: "py_int (JStr revision) = Inr i" "find_bundle (gw_db gw) sid i = None"
  shows "\<exists>v db'. finalize_evidence_bundle E (gw_db gw) (gw_files gw) sid revision at = Inr (v, db')"
proof -
  from inv have li: "live_inv E (gw_db gw)" by (simp add: gateway_inv_def)
  from session_events [OF li s(1)] obtain vs h where vs: "list_events (gw_db gw) sid 0 = Inr vs"
    "event_chain E 1 ZERO_HASH vs h" "jitem s ''head_event_hash'' = Inr (JStr h)" by metis
  have "event_ready E (gw_files gw) v" if v: "v \<in> set vs" for v
  proof -
    have "list_all2 (\<lambda>r v. load_json (er_value r) = Inr v) (rows_of (gw_db gw) sid) vs"
      using vs(1) list_events_rows [OF li s(1)] by (simp add: mapE_Inr_iff)
    then obtain r where "r \<in> set (rows_of (gw_db gw) sid)" "load_json (er_value r) = Inr v"
      using v by (auto dest!: list_all2_set2)
    with inv show ?thesis by (auto simp: gateway_inv_def rows_of_def)
  qed
  moreover from this vs(2) obtain rs where "mapE event_reference vs = Inr rs" using references_exist by blast
  moreover have "\<exists>r. save_bundle (gw_db gw) (session_bundle E sid revision at vs rs (JStr h)) = Inr r" for rs
    using rev by (auto simp: save_bundle_def session_bundle_def bundle_value_def text_item_def int_item_def Let_def)
  ultimately show ?thesis
    using finalize_Inr_iff [OF li s(1) vs(1), of "gw_files gw" revision at] s(2) vs(3) by (metis surj_pair)
qed

text \<open>A stream answer that observes the close misses nothing that was committed.\<close>

lemma stream_closed:
  assumes "live_reachable E a" "get_session a sid = Inr s" "jitem s ''status'' = Inr (JStr ''closed'')"
    and "list_all op_ok ops" "list_all op_ok ops'"
  shows "stream_loop sid after ((a, live_run E a ops) # rounds) = list_events (live_run E (live_run E a ops) ops') sid after"
proof -
  have 1: "get_session (live_run E a ops) sid = Inr s" "list_events (live_run E a ops) sid = list_events a sid"
    using closed_run [OF assms(1-4)] by auto
  have "list_events (live_run E (live_run E a ops) ops') sid = list_events (live_run E a ops) sid"
    using closed_run [OF live_run_reachable [OF assms(1,4)] 1(1) assms(3,5)] by simp
  with 1 assms(2,3) show ?thesis by simp
qed

end
