(* ===== verification/Dispute.thy ===== *)
theory Dispute
  imports TypedData Stored
begin

text \<open>
  \<^verbatim>\<open>dispute.py\<close>: disputes, reviews, the aggregation of the reviews of a dispute by three expected
  nodes, and the read-only gate in front of a proposal. The theorems characterise the aggregated
  status by the set of reviewing nodes and the number of verdicts, and the gate by what its
  documents must say; together, a critical dispute passes the gate only on two of three votes.
\<close>

definition VERDICTS :: "string list" where
  "VERDICTS = [''uphold'', ''dismiss'', ''unable_to_determine'']"

definition build_dispute :: "json \<Rightarrow> json \<Rightarrow> string \<Rightarrow> json \<Rightarrow> json \<Rightarrow> json res" where
  "build_dispute dispute_id bundle_hash severity reason_hash deadline =
     (if severity \<notin> {''critical'', ''noncritical''} then le_error ''invalid_severity'' severity
      else Inr (JObj [(''schema_version'', JStr ''loveengine.dispute-case/1''),
        (''dispute_id'', dispute_id), (''bundle_hash'', bundle_hash), (''severity'', JStr severity),
        (''reason_hash'', reason_hash), (''deadline'', JStr (py_str deadline)),
        (''status'', JStr ''open'')]))"

definition build_review ::
    "ext \<Rightarrow> json \<Rightarrow> json \<Rightarrow> json \<Rightarrow> string \<Rightarrow> json \<Rightarrow> json \<Rightarrow> json \<Rightarrow> json res" where
  "build_review E review_id dispute node verdict reason_hash completed_at signature =
     (if verdict \<notin> set VERDICTS then le_error ''invalid_verdict'' verdict
      else
        bindE (jitem dispute ''dispute_id'') (\<lambda>dispute_id.
        bindE (jitem dispute ''bundle_hash'') (\<lambda>bundle_hash.
        bindE (to_checksum_address E node) (\<lambda>n.
        Inr (JObj [(''schema_version'', JStr ''loveengine.dispute-review/1''),
          (''review_id'', review_id), (''dispute_id'', dispute_id), (''bundle_hash'', bundle_hash),
          (''node'', JStr n), (''verdict'', JStr verdict), (''reason_hash'', reason_hash),
          (''completed_at'', JStr (py_str completed_at)), (''signature'', signature)])))))"

section \<open>Aggregation\<close>

text \<open>One review of the loop: the nodes seen so far come in and go out.\<close>

definition review_step :: "ext \<Rightarrow> json \<Rightarrow> string list \<Rightarrow> string list \<Rightarrow> json \<Rightarrow> string list res" where
  "review_step E dispute expected nodes review =
     bindE (addr_item E review ''node'') (\<lambda>node.
     bindE (ensure (node \<in> set expected) ''unexpected_review_node'' node) (\<lambda>_.
     bindE (ensure (node \<notin> set nodes) ''duplicate_review_node'' node) (\<lambda>_.
     bindE (jitem review ''dispute_id'') (\<lambda>rd. bindE (jitem dispute ''dispute_id'') (\<lambda>dd.
     bindE (if py_eq rd dd then Inr ()
            else bindE (jitem review ''review_id'') (\<lambda>i. le_error ''wrong_dispute'' (py_str i))) (\<lambda>_.
     bindE (jitem review ''bundle_hash'') (\<lambda>rb. bindE (jitem dispute ''bundle_hash'') (\<lambda>db.
     bindE (if py_eq rb db then Inr ()
            else bindE (jitem review ''review_id'') (\<lambda>i. le_error ''wrong_bundle'' (py_str i))) (\<lambda>_.
     Inr (nodes @ [node]))))))))))"

text \<open>\<open>Counter(...)\<close> hashes the verdicts, which a list or a dictionary does not allow.\<close>

definition count_verdicts :: "json list \<Rightarrow> string \<Rightarrow> nat" where
  "count_verdicts verdicts k = length (filter (\<lambda>v. v = JStr k) verdicts)"

definition hashable :: "json \<Rightarrow> unit res" where
  "hashable v = (case v of JArr _ \<Rightarrow> Inl TypeError | JObj _ \<Rightarrow> Inl TypeError | _ \<Rightarrow> Inr ())"

definition verdict_status :: "json list \<Rightarrow> string" where
  "verdict_status verdicts =
     (if 2 \<le> count_verdicts verdicts ''uphold'' then ''upheld''
      else if 2 \<le> count_verdicts verdicts ''dismiss'' then ''dismissed''
      else ''unresolved'')"

definition aggregate_reviews :: "ext \<Rightarrow> json \<Rightarrow> json list \<Rightarrow> json list \<Rightarrow> json res" where
  "aggregate_reviews E dispute reviews expected_nodes =
     bindE (mapE (to_checksum_address E) expected_nodes) (\<lambda>expected.
     bindE (foldE (review_step E dispute expected) [] reviews) (\<lambda>nodes.
     bindE (if card (set expected) = 3 \<and> set nodes = set expected
            then bindE (mapE (\<lambda>r. bindE (jitem r ''verdict'') (\<lambda>v. bindE (hashable v) (\<lambda>_. Inr v))) reviews)
                   (\<lambda>verdicts. Inr (verdict_status verdicts))
            else Inr ''unresolved'') (\<lambda>status.
     bindE (jset dispute ''status'' (JStr status)) (\<lambda>v1.
     bindE (jset v1 ''valid_review_count'' (JStr (dec_nat (length nodes)))) (\<lambda>v2.
     bindE (mapE (\<lambda>r. jitem r ''review_id'') reviews) (\<lambda>ids.
     jset v2 ''review_ids'' (JArr ids)))))))"

section \<open>ProposalGate\<close>

text \<open>\<open>sorted\<close> of a list of values: strings by code point, numbers by value.\<close>

definition py_sorted :: "json list \<Rightarrow> json list res" where
  "py_sorted vs =
     (if length vs \<le> 1 then Inr vs
      else if list_all (\<lambda>v. case v of JStr _ \<Rightarrow> True | _ \<Rightarrow> False) vs then Inr (sort_key (\<lambda>v. case v of JStr s \<Rightarrow> s | _ \<Rightarrow> []) vs)
      else if list_all (\<lambda>v. case v of JInt _ \<Rightarrow> True | JBool _ \<Rightarrow> True | _ \<Rightarrow> False) vs
      then Inr (sort_key (\<lambda>v. case v of JInt i \<Rightarrow> i | JBool b \<Rightarrow> (if b then 1 else 0) | _ \<Rightarrow> 0) vs)
      else Inl TypeError)"

text \<open>\<open>item.get(a) is not None and item.get(a) != x\<close>, and \<open>any\<close> over the disputes.\<close>

fun any_bundle_mismatch :: "json \<Rightarrow> json list \<Rightarrow> bool res" where
  "any_bundle_mismatch bundle [] = Inr False"
| "any_bundle_mismatch bundle (item # items) =
     bindE (jget item ''bundle_hash'') (\<lambda>h.
     if h = JNull then any_bundle_mismatch bundle items
     else bindE (jget bundle ''bundle_hash'') (\<lambda>b.
       if py_eq h b then any_bundle_mismatch bundle items else Inr True))"

definition is_critical :: "json \<Rightarrow> bool res" where
  "is_critical item = bindE (jget item ''severity'') (\<lambda>s. Inr (s = JStr ''critical''))"

definition is_blocking :: "json \<Rightarrow> bool res" where
  "is_blocking item =
     bindE (is_critical item) (\<lambda>c.
     if \<not> c then Inr False
     else bindE (jget item ''status'') (\<lambda>s. Inr (s \<noteq> JStr ''dismissed'')))"

fun select_ids :: "(json \<Rightarrow> bool res) \<Rightarrow> json list \<Rightarrow> json list res" where
  "select_ids p [] = Inr []"
| "select_ids p (item # items) =
     bindE (p item) (\<lambda>b.
     if b then bindE (jitem item ''dispute_id'') (\<lambda>i. bindE (select_ids p items) (\<lambda>is. Inr (i # is)))
     else select_ids p items)"

definition gate_reasons :: "json \<Rightarrow> json \<Rightarrow> json list \<Rightarrow> string list res" where
  "gate_reasons session bundle disputes =
     bindE (jget session ''status'') (\<lambda>ss.
     bindE (jget bundle ''status'') (\<lambda>bs.
     bindE (jget bundle ''session_id'') (\<lambda>bi.
     bindE (jget session ''session_id'') (\<lambda>si.
     bindE (any_bundle_mismatch bundle disputes) (\<lambda>mismatch.
     bindE (select_ids is_blocking disputes) (\<lambda>blocked.
     bindE (if blocked = [] then Inr []
            else bindE (py_sorted blocked) (\<lambda>sorted_ids.
                 bindE (mapE (\<lambda>v. case v of JStr s \<Rightarrow> Inr s | _ \<Rightarrow> Inl TypeError) sorted_ids) (\<lambda>ids.
                 Inr [''critical_dispute_blocked:'' @ join '','' ids]))) (\<lambda>last.
     Inr ((if ss \<noteq> JStr ''closed'' then [''session_not_closed''] else [])
        @ (if bs \<noteq> JStr ''finalized'' then [''bundle_not_finalized''] else [])
        @ (if \<not> py_eq bi si then [''bundle_session_mismatch''] else [])
        @ (if mismatch then [''dispute_bundle_mismatch''] else [])
        @ last))))))))"

definition build_proposal_plan :: "ext \<Rightarrow> json \<Rightarrow> json \<Rightarrow> json list \<Rightarrow> json \<Rightarrow> json res" where
  "build_proposal_plan E session bundle disputes proposal =
     bindE (gate_reasons session bundle disputes) (\<lambda>reasons.
     bindE (ensure (reasons = []) ''proposal_gate_blocked'' (join '';'' reasons)) (\<lambda>_.
     bindE (jitem session ''session_id'') (\<lambda>session_id.
     bindE (jitem bundle ''bundle_hash'') (\<lambda>bundle_hash.
     bindE (select_ids is_critical disputes) (\<lambda>critical.
     bindE (py_sorted critical) (\<lambda>critical_disputes.
     let plan = [(''schema_version'', JStr ''loveengine.proposal-plan/1''), (''ready'', JBool True),
           (''session_id'', session_id), (''bundle_hash'', bundle_hash), (''proposal'', proposal),
           (''critical_disputes'', JArr critical_disputes)]
     in Inr (JObj (plan @ [(''proposal_hash'', JStr (keccak256_hex E (canonical_json_bytes (JObj plan))))]))))))))"

section \<open>Facts about the aggregation\<close>

text \<open>Review \<open>r\<close> is by node \<open>n\<close>, one of the expected ones, on the dispute and its bundle.\<close>

definition review_of :: "ext \<Rightarrow> json \<Rightarrow> string list \<Rightarrow> json \<Rightarrow> string \<Rightarrow> bool" where
  "review_of E dispute expected r n \<longleftrightarrow> addr_item E r ''node'' = Inr n \<and> n \<in> set expected \<and>
     (\<exists>x y. jitem r ''dispute_id'' = Inr x \<and> jitem dispute ''dispute_id'' = Inr y \<and> py_eq x y) \<and>
     (\<exists>x y. jitem r ''bundle_hash'' = Inr x \<and> jitem dispute ''bundle_hash'' = Inr y \<and> py_eq x y)"

lemma ok_or_raise_Inr_iff: "(if b then Inr () else bindE m (\<lambda>i. Inl (f i))) = Inr u \<longleftrightarrow> b"
  by (auto simp: bindE_def split: sum.splits)

lemma review_step_Inr_iff:
  "review_step E dispute expected nodes r = Inr nodes' \<longleftrightarrow>
     (\<exists>n. review_of E dispute expected r n \<and> n \<notin> set nodes \<and> nodes' = nodes @ [n])"
  unfolding review_step_def review_of_def bindE_Inr_iff ensure_Inr_iff ok_or_raise_Inr_iff by blast

lemma review_fold_Inr_iff:
  assumes "distinct nodes"
  shows "foldE (review_step E dispute expected) nodes reviews = Inr nodes' \<longleftrightarrow>
    (\<exists>ns. list_all2 (review_of E dispute expected) reviews ns \<and> distinct (nodes @ ns) \<and> nodes' = nodes @ ns)"
  using assms
proof (induction reviews arbitrary: nodes)
  case (Cons r reviews)
  have IH: "foldE (review_step E dispute expected) (nodes @ [n]) reviews = Inr nodes' \<longleftrightarrow>
      (\<exists>ns. list_all2 (review_of E dispute expected) reviews ns \<and> distinct ((nodes @ [n]) @ ns) \<and> nodes' = (nodes @ [n]) @ ns)"
    if "n \<notin> set nodes" for n
    by (subst Cons.IH) (use Cons.prems that in auto)
  show ?case
  proof
    assume "foldE (review_step E dispute expected) nodes (r # reviews) = Inr nodes'"
    then obtain n where n: "review_of E dispute expected r n" "n \<notin> set nodes"
      "foldE (review_step E dispute expected) (nodes @ [n]) reviews = Inr nodes'"
      by (auto simp: bindE_Inr_iff review_step_Inr_iff)
    with IH [OF n(2)] obtain ns where "list_all2 (review_of E dispute expected) reviews ns"
      "distinct ((nodes @ [n]) @ ns)" "nodes' = (nodes @ [n]) @ ns" by blast
    with n(1) show "\<exists>ns. list_all2 (review_of E dispute expected) (r # reviews) ns \<and> distinct (nodes @ ns) \<and> nodes' = nodes @ ns"
      by (intro exI [of _ "n # ns"]) auto
  next
    assume "\<exists>ns. list_all2 (review_of E dispute expected) (r # reviews) ns \<and> distinct (nodes @ ns) \<and> nodes' = nodes @ ns"
    then obtain n ns where n: "review_of E dispute expected r n" "list_all2 (review_of E dispute expected) reviews ns"
      "distinct (nodes @ n # ns)" "nodes' = nodes @ n # ns" by (auto simp: list_all2_Cons1)
    then have "foldE (review_step E dispute expected) (nodes @ [n]) reviews = Inr nodes'" by (subst IH) auto
    with n show "foldE (review_step E dispute expected) nodes (r # reviews) = Inr nodes'"
      by (auto simp: bindE_Inr_iff review_step_Inr_iff)
  qed
qed auto

definition verdict_of :: "json \<Rightarrow> string" where
  "verdict_of r = (case jitem r ''verdict'' of Inr (JStr s) \<Rightarrow> s | _ \<Rightarrow> [])"

definition votes :: "json list \<Rightarrow> string \<Rightarrow> nat" where
  "votes reviews k = length (filter (\<lambda>r. verdict_of r = k) reviews)"

lemma votes_disjoint: "k \<noteq> l \<Longrightarrow> votes reviews k + votes reviews l \<le> length reviews"
  by (induction reviews) (auto simp: votes_def)

lemma count_verdicts_votes:
  assumes "mapE (\<lambda>r. bindE (jitem r ''verdict'') (\<lambda>v. bindE (hashable v) (\<lambda>_. Inr v))) reviews = Inr verdicts"
    and "k \<noteq> []"
  shows "count_verdicts verdicts k = votes reviews k"
proof -
  from assms(1) have "list_all2 (\<lambda>r v. jitem r ''verdict'' = Inr v) reviews verdicts"
    unfolding mapE_Inr_iff by (rule list_all2_mono) (auto simp: bindE_Inr_iff)
  then show ?thesis
  proof (induction rule: list_all2_induct)
    case (Cons r rs v vs)
    then have "verdict_of r = k \<longleftrightarrow> v = JStr k"
      using assms(2) by (cases v) (auto simp: verdict_of_def)
    with Cons.IH show ?case by (simp add: count_verdicts_def votes_def)
  qed (simp add: count_verdicts_def votes_def)
qed

text \<open>The status that the code decides on, from the reviewing nodes and the votes.\<close>

definition quorum_status :: "string list \<Rightarrow> string list \<Rightarrow> json list \<Rightarrow> string" where
  "quorum_status expected nodes reviews =
     (if card (set expected) = 3 \<and> set nodes = set expected then
        (if 2 \<le> votes reviews ''uphold'' then ''upheld''
         else if 2 \<le> votes reviews ''dismiss'' then ''dismissed'' else ''unresolved'')
      else ''unresolved'')"

lemma aggregate_reviews_Inr:
  assumes "aggregate_reviews E dispute reviews expected_nodes = Inr v"
  obtains d expected nodes ids where "dispute = JObj d" "mapE (to_checksum_address E) expected_nodes = Inr expected"
    "list_all2 (review_of E dispute expected) reviews nodes" "distinct nodes"
    "mapE (\<lambda>r. jitem r ''review_id'') reviews = Inr ids"
    "v = JObj (AList.update ''review_ids'' (JArr ids) (AList.update ''valid_review_count'' (JStr (dec_nat (length nodes)))
           (AList.update ''status'' (JStr (quorum_status expected nodes reviews)) d)))"
proof -
  from assms obtain expected nodes status v1 v2 ids where 1:
    "mapE (to_checksum_address E) expected_nodes = Inr expected"
    "foldE (review_step E dispute expected) [] reviews = Inr nodes"
    "(if card (set expected) = 3 \<and> set nodes = set expected
            then bindE (mapE (\<lambda>r. bindE (jitem r ''verdict'') (\<lambda>v. bindE (hashable v) (\<lambda>_. Inr v))) reviews)
                   (\<lambda>verdicts. Inr (verdict_status verdicts))
            else Inr ''unresolved'') = Inr status"
    "jset dispute ''status'' (JStr status) = Inr v1"
    "jset v1 ''valid_review_count'' (JStr (dec_nat (length nodes))) = Inr v2"
    "mapE (\<lambda>r. jitem r ''review_id'') reviews = Inr ids" "jset v2 ''review_ids'' (JArr ids) = Inr v"
    unfolding aggregate_reviews_def by (elim run_elims)
  have "status = quorum_status expected nodes reviews"
    using 1(3) by (auto simp: quorum_status_def verdict_status_def bindE_Inr_iff count_verdicts_votes split: if_splits)
  moreover from 1(2) have "list_all2 (review_of E dispute expected) reviews nodes" "distinct nodes"
    by (simp_all add: review_fold_Inr_iff)
  ultimately show ?thesis using 1 that by (auto simp: jset_Inr_iff)
qed

section \<open>Facts about the gate\<close>

lemma any_bundle_mismatch_False:
  "any_bundle_mismatch bundle items = Inr False \<Longrightarrow> item \<in> set items \<Longrightarrow>
   \<exists>x. jget item ''bundle_hash'' = Inr x \<and>
     (x = JNull \<or> (\<exists>y. jget bundle ''bundle_hash'' = Inr y \<and> py_eq x y))"
proof (induction items)
  case (Cons i items)
  from Cons.prems(1) obtain h where h: "jget i ''bundle_hash'' = Inr h"
    by (auto simp: bindE_Inr_iff)
  show ?case
  proof (cases "h = JNull")
    case False
    with h Cons.prems(1) obtain y where "jget bundle ''bundle_hash'' = Inr y" "py_eq h y"
      "any_bundle_mismatch bundle items = Inr False" by (auto simp: bindE_Inr_iff split: if_splits)
    with h Cons show ?thesis by auto
  qed (use h Cons in auto)
qed simp

lemma select_ids_Nil: "select_ids p items = Inr [] \<Longrightarrow> item \<in> set items \<Longrightarrow> p item = Inr False"
  by (induction items) (auto simp: bindE_Inr_iff split: if_splits)

lemma build_proposal_plan_Inr:
  assumes "build_proposal_plan E session bundle disputes proposal = Inr plan"
  shows "jget session ''status'' = Inr (JStr ''closed'')"
    and "jget bundle ''status'' = Inr (JStr ''finalized'')"
    and "\<exists>x y. jget bundle ''session_id'' = Inr x \<and> jget session ''session_id'' = Inr y \<and> py_eq x y"
    and "any_bundle_mismatch bundle disputes = Inr False"
    and "\<And>item. item \<in> set disputes \<Longrightarrow> is_blocking item = Inr False"
proof -
  from assms have "gate_reasons session bundle disputes = Inr []"
    unfolding build_proposal_plan_def by (elim run_elims) simp
  then obtain ss bs bi si mismatch blocked last where 1: "jget session ''status'' = Inr ss"
    "jget bundle ''status'' = Inr bs" "jget bundle ''session_id'' = Inr bi" "jget session ''session_id'' = Inr si"
    "any_bundle_mismatch bundle disputes = Inr mismatch" "select_ids is_blocking disputes = Inr blocked"
    "(if blocked = [] then Inr []
            else bindE (py_sorted blocked) (\<lambda>sorted_ids.
                 bindE (mapE (\<lambda>v. case v of JStr s \<Rightarrow> Inr s | _ \<Rightarrow> Inl TypeError) sorted_ids) (\<lambda>ids.
                 Inr [''critical_dispute_blocked:'' @ join '','' ids]))) = (Inr last :: string list res)"
    "Inr ((if ss \<noteq> JStr ''closed'' then [''session_not_closed''] else [])
        @ (if bs \<noteq> JStr ''finalized'' then [''bundle_not_finalized''] else [])
        @ (if \<not> py_eq bi si then [''bundle_session_mismatch''] else [])
        @ (if mismatch then [''dispute_bundle_mismatch''] else [])
        @ last) = (Inr [] :: string list res)"
    unfolding gate_reasons_def by (elim run_elims)
  then have "ss = JStr ''closed''" "bs = JStr ''finalized''" "py_eq bi si" "\<not> mismatch" "last = []"
    by (auto split: if_splits)
  moreover from this 1(7) have "blocked = []" by (auto simp: bindE_Inr_iff split: if_splits)
  ultimately show "jget session ''status'' = Inr (JStr ''closed'')"
    "jget bundle ''status'' = Inr (JStr ''finalized'')"
    "\<exists>x y. jget bundle ''session_id'' = Inr x \<and> jget session ''session_id'' = Inr y \<and> py_eq x y"
    "any_bundle_mismatch bundle disputes = Inr False"
    "\<And>item. item \<in> set disputes \<Longrightarrow> is_blocking item = Inr False"
    using 1 select_ids_Nil by auto
qed

end
