(* ===== verification/Examples.thy ===== *)
theory Examples
  imports LiveGateway Dispute
begin

text \<open>
  Concrete data for the instances of the theorems: external functions that are easy to evaluate
  (constant digests, addresses and signatures that stand for themselves), a session with one event.
\<close>

definition demo_digest :: string where
  "demo_digest = replicate 64 CHR ''a''"

definition demo_ext :: ext where
  "demo_ext = \<lparr>sha256_hex = (\<lambda>_. demo_digest), keccak_hex = (\<lambda>_. demo_digest),
     checksum_address = (\<lambda>v. case v of JStr s \<Rightarrow> Inr s | _ \<Rightarrow> Inl ValueError),
     recover_typed = (\<lambda>t v. case v of JStr s \<Rightarrow> Inr s | _ \<Rightarrow> Inl ValueError),
     recover_text = (\<lambda>t v. case v of JStr s \<Rightarrow> Inr s | _ \<Rightarrow> Inl ValueError),
     recover_vrs = (\<lambda>_ _ r _. Inr [char_of (nat r)]),
     schema_error = (\<lambda>_ _. None), netloc_error = (\<lambda>_. True)\<rparr>"

lemma demo_ext_simps [simp]:
  "sha256_prefixed demo_ext s = ''sha256:'' @ demo_digest"
  "keccak256_hex demo_ext s = ''0x'' @ demo_digest"
  "checksum_address demo_ext (JStr a) = Inr a"
  "recover_typed demo_ext t (JStr a) = Inr a"
  "recover_text demo_ext u (JStr a) = Inr a"
  "schema_error demo_ext n v = None"
  by (simp_all add: demo_ext_def sha256_prefixed_def keccak256_hex_def)

definition demo_event :: json where
  "demo_event = JObj [(''event_id'', JStr ''e''), (''session_id'', JStr ''s''), (''sequence'', JStr ''1''),
     (''category'', JStr ''source''), (''content'', JStr ''x''), (''content_hash'', JStr (''sha256:'' @ demo_digest)),
     (''artifact_hash'', JStr (''sha256:'' @ demo_digest)), (''previous_event_hash'', JStr ZERO_HASH),
     (''event_hash'', JStr (''0x'' @ demo_digest))]"

lemma demo_event_ok: "verify_live_event demo_ext demo_event = Inr True"
proof -
  have "secret_free demo_event" by code_simp
  then show ?thesis by (simp add: verify_live_event_iff event_ok_def demo_event_def)
qed

lemma demo_event_wf: "wf_json demo_event"
  by (simp add: demo_event_def)

definition demo_session :: "string \<Rightarrow> string \<Rightarrow> string \<Rightarrow> json" where
  "demo_session status next head = JObj [(''schema_version'', JStr ''loveengine.live-session/1''),
           (''session_id'', JStr ''s''), (''source_type'', JStr ''http_push''), (''status'', JStr status),
           (''created_at'', JStr ''0''), (''closed_at'', JNull),
           (''next_sequence'', JStr next), (''head_event_hash'', JStr head)]"

lemma demo_build: "build_live_session (JStr ''s'') (JStr ''http_push'') (JStr ''0'') = Inr (demo_session ''live'' ''1'' ZERO_HASH)"
proof -
  have "secret_free (demo_session ''live'' ''1'' ZERO_HASH)" by code_simp
  then have "check_secrets (demo_session ''live'' ''1'' ZERO_HASH) = Inr ()" by (simp only: check_secrets_Inr_iff)
  then show ?thesis by (simp add: build_live_session_def py_str_def demo_session_def)
qed

lemma demo_create: "live_op demo_ext empty_db (CreateSession (JStr ''s'') (JStr ''http_push'') (JStr ''0''))
    = Inr (empty_db\<lparr>sessions := [(''s'', canonical_json_bytes (demo_session ''live'' ''1'' ZERO_HASH))]\<rparr>)"
  using demo_build by (simp add: create_session_def text_item_def empty_db_def demo_session_def)

definition demo_ops :: "live_cmd list" where
  "demo_ops = [CreateSession (JStr ''s'') (JStr ''http_push'') (JStr ''0''), AppendEvent demo_event]"

definition demo_db :: live_db where
  "demo_db = live_run demo_ext empty_db demo_ops"

definition demo_closed_db :: live_db where
  "demo_closed_db = live_run demo_ext demo_db [CloseSession ''s'' (JStr ''9'')]"

lemma demo_ops_ok: "list_all op_ok demo_ops"
  by (simp add: demo_ops_def demo_event_wf)

lemma demo_reachable: "live_reachable demo_ext demo_db" "live_reachable demo_ext demo_closed_db"
proof -
  show "live_reachable demo_ext demo_db"
    unfolding demo_db_def using demo_ops_ok by (intro live_run_reachable live_reachable.init)
  then show "live_reachable demo_ext demo_closed_db"
    unfolding demo_closed_db_def by (intro live_run_reachable) simp_all
qed

lemma get_canonical:
  "map_of (sessions db) sid = Some (canonical_json_bytes (JObj d)) \<Longrightarrow> wf_json (JObj d) \<Longrightarrow>
   get_session db sid = Inr (JObj (sorted_dict d))"
  by (simp add: get_session_def jnorm_JObj del: wf_json.simps jnorm.simps)

lemma demo_sessions:
  obtains d where "get_session demo_db ''s'' = Inr (JObj d)" "map_of d ''status'' = Some (JStr ''live'')"
    "map_of d ''next_sequence'' = Some (JStr ''2'')" "map_of d ''head_event_hash'' = Some (JStr (''0x'' @ demo_digest))"
    "events demo_db = [\<lparr>er_id = ''e'', er_session = ''s'', er_sequence = 1, er_hash = ''0x'' @ demo_digest,
       er_value = canonical_json_bytes demo_event\<rparr>]" "map fst (sessions demo_db) = [''s'']" "bundles demo_db = []"
proof -
  let ?db1 = "empty_db\<lparr>sessions := [(''s'', canonical_json_bytes (demo_session ''live'' ''1'' ZERO_HASH))]\<rparr>"
  obtain sd where sd: "demo_session ''live'' ''1'' ZERO_HASH = JObj sd" "wf_json (JObj sd)"
    "map_of sd ''status'' = Some (JStr ''live'')" "map_of sd ''next_sequence'' = Some (JStr ''1'')"
    "map_of sd ''head_event_hash'' = Some (JStr ZERO_HASH)" by (simp add: demo_session_def)
  have s: "get_session ?db1 ''s'' = Inr (JObj (sorted_dict sd))"
    using sd by (intro get_canonical) simp_all
  define d where d_def: "d = AList.update ''head_event_hash'' (JStr (''0x'' @ demo_digest))
      (AList.update ''next_sequence'' (JStr ''2'') (sorted_dict sd))"
  have "wf_json (JObj (sorted_dict sd))" using wf_jnorm [OF sd(2)] by (simp only: jnorm_JObj)
  then have "wf_json (JObj d)" unfolding d_def by (intro wf_update) simp_all
  note d = d_def this
  have int: "py_str_int 2 = ''2''" "py_int (JStr ''1'') = Inr 1" by code_simp+
  let ?row = "\<lparr>er_id = ''e'', er_session = ''s'', er_sequence = 1, er_hash = ''0x'' @ demo_digest,
       er_value = canonical_json_bytes demo_event\<rparr>"
  have "append_event demo_ext ?db1 demo_event = Inr (False, update_session (?db1\<lparr>events := [?row]\<rparr>) ''s'' (JObj d))"
    using s sd demo_event_ok d(1) int
    by (simp add: append_event_def demo_event_def text_item_def int_item_def map_of_sorted_dict find_event_def
        empty_db_def insert_event_def del: wf_json.simps)
  then have "live_call demo_ext ?db1 (AppendEvent demo_event) = update_session (?db1\<lparr>events := [?row]\<rparr>) ''s'' (JObj d)"
    by (simp add: live_call_def)
  moreover have "live_call demo_ext empty_db (CreateSession (JStr ''s'') (JStr ''http_push'') (JStr ''0'')) = ?db1"
    unfolding live_call_def demo_create by simp
  ultimately have db: "demo_db = update_session (?db1\<lparr>events := [?row]\<rparr>) ''s'' (JObj d)"
    by (simp add: demo_db_def live_run_def demo_ops_def)
  have "get_session demo_db ''s'' = Inr (JObj (sorted_dict d))"
    using d(2) by (intro get_canonical) (simp_all add: db update_session_def)
  with d sd show ?thesis
    by (intro that [of "sorted_dict d"]) (simp_all add: db update_session_def map_of_sorted_dict empty_db_def del: wf_json.simps)
qed

lemma demo_other_session: "sid \<noteq> ''s'' \<Longrightarrow> get_session demo_db sid = le_error ''session_not_found'' sid"
proof -
  have "map fst (sessions demo_db) = [''s'']" by (rule demo_sessions)
  then obtain t where "sessions demo_db = [(''s'', t)]" by auto
  then show "sid \<noteq> ''s'' \<Longrightarrow> get_session demo_db sid = le_error ''session_not_found'' sid" by (simp add: get_session_def)
qed

lemma demo_closed:
  obtains d where "get_session demo_closed_db ''s'' = Inr (JObj d)" "map_of d ''status'' = Some (JStr ''closed'')"
    "map_of d ''head_event_hash'' = Some (JStr (''0x'' @ demo_digest))" "events demo_closed_db = events demo_db"
    "bundles demo_closed_db = []"
proof -
  obtain d where d: "get_session demo_db ''s'' = Inr (JObj d)" "map_of d ''status'' = Some (JStr ''live'')"
    "map_of d ''head_event_hash'' = Some (JStr (''0x'' @ demo_digest))" "bundles demo_db = []"
    by (rule demo_sessions)
  then obtain t where t: "map_of (sessions demo_db) ''s'' = Some t" "load_json t = Inr (JObj d)"
    by (auto simp: get_session_def split: option.splits)
  have wf: "wf_json (JObj d)" using t(2) load_json_wf by blast
  let ?d = "AList.update ''closed_at'' (JStr ''9'') (AList.update ''status'' (JStr ''closed'') d)"
  have wfd: "wf_json (JObj ?d)" using wf by (intro wf_update) simp_all
  have db: "demo_closed_db = update_session demo_db ''s'' (JObj ?d)"
    using d by (simp add: demo_closed_db_def live_run_def live_call_def close_session_def py_str_def)
  have "map_of (map (\<lambda>r. if fst r = sid then (sid, t) else r) xs) sid = map_option (\<lambda>_. t) (map_of xs sid)"
    for t sid and xs :: "(string \<times> string) list"
    by (induction xs) auto
  then have "get_session demo_closed_db ''s'' = Inr (JObj (sorted_dict ?d))"
    using t wfd by (intro get_canonical) (simp_all add: db update_session_def)
  with wfd d(3,4) show ?thesis
    by (intro that [of "sorted_dict ?d"]) (simp_all add: db update_session_def map_of_sorted_dict del: wf_json.simps)
qed

lemma demo_fresh:
  obtains d where "get_session (live_run demo_ext empty_db [CreateSession (JStr ''s'') (JStr ''http_push'') (JStr ''0'')]) ''s'' = Inr (JObj d)"
    "map_of d ''status'' = Some (JStr ''live'')" "map_of d ''next_sequence'' = Some (JStr ''1'')"
    "map_of d ''head_event_hash'' = Some (JStr ZERO_HASH)"
    "find_event (live_run demo_ext empty_db [CreateSession (JStr ''s'') (JStr ''http_push'') (JStr ''0'')]) ''e'' = None"
proof -
  let ?db1 = "empty_db\<lparr>sessions := [(''s'', canonical_json_bytes (demo_session ''live'' ''1'' ZERO_HASH))]\<rparr>"
  have db: "live_run demo_ext empty_db [CreateSession (JStr ''s'') (JStr ''http_push'') (JStr ''0'')] = ?db1"
    unfolding live_run_def live_call_def by (simp add: demo_create del: live_op.simps)
  obtain sd where sd: "demo_session ''live'' ''1'' ZERO_HASH = JObj sd" "wf_json (JObj sd)"
    "map_of sd ''status'' = Some (JStr ''live'')" "map_of sd ''next_sequence'' = Some (JStr ''1'')"
    "map_of sd ''head_event_hash'' = Some (JStr ZERO_HASH)" by (simp add: demo_session_def)
  have "get_session ?db1 ''s'' = Inr (JObj (sorted_dict sd))"
    using sd by (intro get_canonical) simp_all
  with sd show ?thesis
    by (intro that [of "sorted_dict sd"], unfold db) (simp_all add: map_of_sorted_dict find_event_def empty_db_def del: wf_json.simps)
qed

lemma demo_duplicate: "append_event demo_ext demo_db demo_event = Inr (True, demo_db)"
proof -
  obtain d where d: "get_session demo_db ''s'' = Inr (JObj d)" "map_of d ''status'' = Some (JStr ''live'')"
    and e: "events demo_db = [\<lparr>er_id = ''e'', er_session = ''s'', er_sequence = 1, er_hash = ''0x'' @ demo_digest,
       er_value = canonical_json_bytes demo_event\<rparr>]" by (rule demo_sessions)
  have "text_item demo_event ''session_id'' = Inr ''s''" "text_item demo_event ''event_id'' = Inr ''e''"
    by (simp_all add: demo_event_def text_item_def)
  with d e show ?thesis
    by (simp add: append_event_def find_event_def demo_event_wf)
qed

lemma demo_listed:
  "list_events demo_db ''s'' 0 = Inr [jnorm demo_event]" "list_events demo_closed_db ''s'' 0 = Inr [jnorm demo_event]"
proof -
  have e: "events demo_db = [\<lparr>er_id = ''e'', er_session = ''s'', er_sequence = 1, er_hash = ''0x'' @ demo_digest,
       er_value = canonical_json_bytes demo_event\<rparr>]" by (rule demo_sessions)
  have "events demo_closed_db = events demo_db" by (rule demo_closed)
  with e show "list_events demo_db ''s'' 0 = Inr [jnorm demo_event]" "list_events demo_closed_db ''s'' 0 = Inr [jnorm demo_event]"
    by (simp_all add: list_events_def demo_event_wf)
qed

lemma demo_digest_not_zero [simp]: "ZERO_HASH \<noteq> CHR ''0'' # CHR ''x'' # demo_digest"
  by code_simp

section \<open>A gateway with a closed session\<close>

definition demo_open_gateway :: gateway where
  "demo_open_gateway = fst (gateway_step demo_ext empty_gateway
     (PostSession (canonical_json_bytes (JObj [(''session_id'', JStr ''s''), (''created_at'', JStr ''0'')]))))"

definition demo_gateway :: gateway where
  "demo_gateway = fst (gateway_step demo_ext demo_open_gateway (PostClose ''s'' None 9))"

lemma demo_gateway_reachable: "gateway_reachable demo_ext demo_open_gateway" "gateway_reachable demo_ext demo_gateway"
proof -
  show 1: "gateway_reachable demo_ext demo_open_gateway"
    unfolding demo_open_gateway_def
    by (rule gateway_reachable.request [OF gateway_reachable.start]) (rule prod.collapse [symmetric])
  show "gateway_reachable demo_ext demo_gateway"
    unfolding demo_gateway_def by (rule gateway_reachable.request [OF 1]) (rule prod.collapse [symmetric])
qed

lemma demo_open_gateway_db:
  "gw_db demo_open_gateway = empty_db\<lparr>sessions := [(''s'', canonical_json_bytes (demo_session ''live'' ''1'' ZERO_HASH))]\<rparr>"
proof -
  have "bindE (build_live_session (JStr ''s'') (JStr ''http_push'') (JStr ''0'')) (\<lambda>v. create_session empty_db v)
      = Inr (demo_session ''live'' ''1'' ZERO_HASH, empty_db\<lparr>sessions := [(''s'', canonical_json_bytes (demo_session ''live'' ''1'' ZERO_HASH))]\<rparr>)"
    using demo_build by (simp add: demo_session_def create_session_def text_item_def empty_db_def)
  moreover have "load_json (canonical_json_bytes (JObj [(''session_id'', JStr ''s''), (''created_at'', JStr ''0'')]))
      = Inr (JObj (sorted_dict [(''session_id'', JStr ''s''), (''created_at'', JStr ''0'')]))"
    by (simp add: jnorm_JObj del: jnorm.simps)
  ultimately show ?thesis
    by (simp add: demo_open_gateway_def create_session_handler_def with_db_def empty_gateway_def map_of_sorted_dict)
qed

lemma demo_gateway_closed:
  obtains d where "get_session (gw_db demo_gateway) ''s'' = Inr (JObj d)" "map_of d ''status'' = Some (JStr ''closed'')"
    "bundles (gw_db demo_gateway) = []"
proof -
  obtain sd where sd: "demo_session ''live'' ''1'' ZERO_HASH = JObj sd" "wf_json (JObj sd)"
    "map_of sd ''status'' = Some (JStr ''live'')" by (simp add: demo_session_def)
  have s: "get_session (gw_db demo_open_gateway) ''s'' = Inr (JObj (sorted_dict sd))"
    unfolding demo_open_gateway_db using sd by (intro get_canonical) simp_all
  have wfs: "wf_json (JObj (sorted_dict sd))" using wf_jnorm [OF sd(2)] by (simp only: jnorm_JObj)
  have at: "\<exists>t. py_str (JInt 9) = t" by blast
  then obtain t where t: "py_str (JInt 9) = t" by blast
  let ?d = "AList.update ''closed_at'' (JStr t) (AList.update ''status'' (JStr ''closed'') (sorted_dict sd))"
  have wfd: "wf_json (JObj ?d)" using wfs by (intro wf_update) simp_all
  have "close_session (gw_db demo_open_gateway) ''s'' (JStr t) = Inr (JObj ?d, update_session (gw_db demo_open_gateway) ''s'' (JObj ?d))"
    using s sd by (simp add: close_session_def map_of_sorted_dict py_str_def del: wf_json.simps)
  then have db: "gw_db demo_gateway = update_session (gw_db demo_open_gateway) ''s'' (JObj ?d)"
    using t by (simp add: demo_gateway_def close_session_handler_def with_db_def optional_body_def)
  have "get_session (gw_db demo_gateway) ''s'' = Inr (JObj (sorted_dict ?d))"
    using wfd by (intro get_canonical) (simp_all add: db update_session_def demo_open_gateway_db)
  with wfd show ?thesis
    by (intro that [of "sorted_dict ?d"]) (simp_all add: db update_session_def demo_open_gateway_db empty_db_def map_of_sorted_dict del: wf_json.simps)
qed

section \<open>A dispute that three nodes dismiss\<close>

definition demo_dispute :: json where
  "demo_dispute = JObj [(''dispute_id'', JStr ''d''), (''bundle_hash'', JStr ''0xb''), (''severity'', JStr ''critical''),
     (''status'', JStr ''open'')]"

definition demo_review :: "string \<Rightarrow> string \<Rightarrow> json" where
  "demo_review n verdict = JObj [(''review_id'', JStr n), (''dispute_id'', JStr ''d''), (''bundle_hash'', JStr ''0xb''),
     (''node'', JStr n), (''verdict'', JStr verdict)]"

definition demo_reviews :: "json list" where
  "demo_reviews = [demo_review ''n1'' ''dismiss'', demo_review ''n2'' ''uphold'', demo_review ''n3'' ''dismiss'']"

definition demo_nodes :: "json list" where
  "demo_nodes = [JStr ''n1'', JStr ''n2'', JStr ''n3'']"

definition demo_verdict :: json where
  "demo_verdict = JObj [(''dispute_id'', JStr ''d''), (''bundle_hash'', JStr ''0xb''), (''severity'', JStr ''critical''),
     (''status'', JStr ''dismissed''), (''valid_review_count'', JStr ''3''), (''review_ids'', JArr demo_nodes)]"

lemma demo_aggregate: "aggregate_reviews demo_ext demo_dispute demo_reviews demo_nodes = Inr demo_verdict"
  by code_simp

definition demo_bundle :: json where
  "demo_bundle = JObj [(''session_id'', JStr ''s''), (''status'', JStr ''finalized''), (''bundle_hash'', JStr ''0xb'')]"

lemma demo_plan: "\<exists>plan. build_proposal_plan demo_ext (demo_session ''closed'' ''1'' ZERO_HASH) demo_bundle [demo_verdict] JNull = Inr plan"
  by (simp add: build_proposal_plan_def gate_reasons_def demo_session_def demo_bundle_def demo_verdict_def is_blocking_def
      is_critical_def py_sorted_def Let_def)

end
