(* ===== verification/NetworkProtocol.thy ===== *)
theory NetworkProtocol
  imports TypedData
begin

text \<open>
  \<^verbatim>\<open>network_protocol.py\<close>: building and verifying the signed V1 messages (node profiles, the
  bootstrap directory, tasks, receipts), and the task bindings that both versions share. The
  clock is an argument, the value of \<open>_now(now)\<close>. The checks that V1 and V2 have in common
  are stated once, over the schema name and the typed-data builder.
\<close>

definition TASK_TYPES :: "string list" where
  "TASK_TYPES = [''propagate_skill'', ''observe_broadcast'']"

definition recover_signer :: "ext \<Rightarrow> json \<Rightarrow> json \<Rightarrow> string res" where
  "recover_signer E typed_data signature =
     catchE (recover_typed E typed_data signature)
       (\<lambda>e. e = BadSignature \<or> e = TypeError \<or> e = ValueError)
       (\<lambda>e. Inl (LoveEngineError ''invalid_signature'' [] 2))"

lemma recover_signer_Inr_iff [res_simps]:
  "recover_signer E t s = Inr a \<longleftrightarrow> recover_typed E t s = Inr a"
  by (simp add: recover_signer_def catchE_raise_Inr_iff)

text \<open>\<open>sorted(set(capabilities))\<close>.\<close>

definition sorted_set :: "string list \<Rightarrow> json" where
  "sorted_set cs = JArr (map JStr (sort (remdups cs)))"

definition build_node_profile ::
    "ext \<Rightarrow> json \<Rightarrow> string list \<Rightarrow> json \<Rightarrow> json \<Rightarrow> json res" where
  "build_node_profile E node capabilities sequence valid_until =
     bindE (to_checksum_address E node) (\<lambda>a.
     let profile = JObj [(''node'', JStr a), (''capabilities'', sorted_set capabilities),
           (''sequence'', JStr (py_str sequence)), (''valid_until'', JStr (py_str valid_until))]
     in bindE (check_secrets profile) (\<lambda>_. Inr profile))"

section \<open>Profiles\<close>

definition verify_profile_with ::
    "string \<Rightarrow> (json \<Rightarrow> json \<Rightarrow> json \<Rightarrow> json res) \<Rightarrow> ext \<Rightarrow> json \<Rightarrow> int \<Rightarrow> json option \<Rightarrow> json option \<Rightarrow> string res" where
  "verify_profile_with schema_name builder E signed_profile now expected_chain_id expected_registry =
     bindE (check_secrets signed_profile) (\<lambda>_.
     bindE (validate_schema E signed_profile schema_name) (\<lambda>_.
     bindE (when_some expected_chain_id (\<lambda>c.
        bindE (jitem signed_profile ''chain_id'') (\<lambda>chain.
        ensure (chain = JStr (py_str c)) ''wrong_chain_id'' []))) (\<lambda>_.
     bindE (when_some expected_registry (\<lambda>r.
        bindE (jitem signed_profile ''registry'') (\<lambda>registry.
        bindE (same_address E registry r) (\<lambda>same. ensure same ''wrong_registry'' [])))) (\<lambda>_.
     bindE (jitem2 signed_profile ''profile'' ''valid_until'') (\<lambda>u. bindE (py_int u) (\<lambda>valid_until.
     bindE (ensure (\<not> valid_until < now) ''profile_expired'' []) (\<lambda>_.
     bindE (jitem signed_profile ''chain_id'') (\<lambda>chain.
     bindE (jitem signed_profile ''registry'') (\<lambda>registry.
     bindE (jitem signed_profile ''profile'') (\<lambda>profile.
     bindE (builder chain registry profile) (\<lambda>typed.
     bindE (jitem signed_profile ''signature'') (\<lambda>signature.
     bindE (recover_signer E typed signature) (\<lambda>signer.
     bindE (addr_item E profile ''node'') (\<lambda>expected.
     bindE (ensure (signer = expected) ''invalid_signature'' []) (\<lambda>_.
     Inr signer)))))))))))))))"

definition verify_node_profile ::
    "ext \<Rightarrow> json \<Rightarrow> int \<Rightarrow> json option \<Rightarrow> json option \<Rightarrow> string res" where
  "verify_node_profile E =
     verify_profile_with ''signed-agent-node-profile-v1.schema.json'' (build_node_profile_typed_data E) E"

section \<open>Bootstrap directory\<close>

definition build_bootstrap ::
    "ext \<Rightarrow> json \<Rightarrow> json list \<Rightarrow> json \<Rightarrow> json \<Rightarrow> json res" where
  "build_bootstrap E publisher nodes sequence valid_until =
     (case nodes of
        [] \<Rightarrow> le_error ''empty_bootstrap'' []
      | first # _ \<Rightarrow>
          bindE (jitem first ''chain_id'') (\<lambda>chain_id.
          bindE (jitem first ''registry'') (\<lambda>registry.
          bindE (to_checksum_address E publisher) (\<lambda>p.
          let v = JObj [(''schema_version'', JStr ''loveengine.bootstrap-bundle/1''),
                (''chain_id'', chain_id), (''registry'', registry), (''publisher'', JStr p),
                (''directory'', JArr nodes), (''directory_hash'', JStr (payload_hash E (JArr nodes))),
                (''sequence'', JStr (py_str sequence)), (''valid_until'', JStr (py_str valid_until)),
                (''signature'', JStr ''0x'')]
          in bindE (check_secrets v) (\<lambda>_. Inr v)))))"

text \<open>The loop over the directory, with the addresses seen so far.\<close>

definition directory_step ::
    "(json \<Rightarrow> string res) \<Rightarrow> string list \<Rightarrow> json \<Rightarrow> string list res" where
  "directory_step verify nodes signed_profile =
     bindE (verify signed_profile) (\<lambda>node.
     if node \<in> set nodes then le_error ''duplicate_directory_node'' node
     else Inr (nodes @ [node]))"

definition verify_bootstrap_with ::
    "string \<Rightarrow> (json \<Rightarrow> int \<Rightarrow> json option \<Rightarrow> json option \<Rightarrow> string res) \<Rightarrow> (json \<Rightarrow> json res) \<Rightarrow>
     ext \<Rightarrow> json \<Rightarrow> json \<Rightarrow> json \<Rightarrow> int \<Rightarrow> bool res" where
  "verify_bootstrap_with schema_name verify builder E bootstrap expected_chain_id expected_registry now =
     bindE (check_secrets bootstrap) (\<lambda>_.
     bindE (validate_schema E bootstrap schema_name) (\<lambda>_.
     bindE (jitem bootstrap ''chain_id'') (\<lambda>chain_id.
     bindE (ensure (chain_id = JStr (py_str expected_chain_id)) ''wrong_chain_id'' []) (\<lambda>_.
     bindE (jitem bootstrap ''registry'') (\<lambda>registry.
     bindE (same_address E registry expected_registry) (\<lambda>same.
     bindE (ensure same ''wrong_registry'' []) (\<lambda>_.
     bindE (int_item bootstrap ''valid_until'') (\<lambda>valid_until.
     bindE (ensure (\<not> valid_until < now) ''bootstrap_expired'' []) (\<lambda>_.
     bindE (jitem bootstrap ''directory_hash'') (\<lambda>dh.
     bindE (jitem bootstrap ''directory'') (\<lambda>directory.
     bindE (ensure (dh = JStr (payload_hash E directory)) ''directory_hash_mismatch'' []) (\<lambda>_.
     bindE (jlist directory) (\<lambda>profiles.
     bindE (foldE (directory_step (\<lambda>p. verify p now (Some chain_id) (Some registry))) [] profiles) (\<lambda>_.
     bindE (builder bootstrap) (\<lambda>typed.
     bindE (jitem bootstrap ''signature'') (\<lambda>signature.
     bindE (recover_signer E typed signature) (\<lambda>signer.
     bindE (addr_item E bootstrap ''publisher'') (\<lambda>publisher.
     bindE (ensure (signer = publisher) ''invalid_signature'' []) (\<lambda>_.
     Inr True)))))))))))))))))))"

definition bootstrap_typed_v1 :: "ext \<Rightarrow> json \<Rightarrow> json res" where
  "bootstrap_typed_v1 E bootstrap =
     bindE (jitem bootstrap ''chain_id'') (\<lambda>chain_id.
     bindE (jitem bootstrap ''registry'') (\<lambda>registry.
     build_bootstrap_typed_data E chain_id registry bootstrap))"

definition verify_bootstrap :: "ext \<Rightarrow> json \<Rightarrow> json \<Rightarrow> json \<Rightarrow> int \<Rightarrow> bool res" where
  "verify_bootstrap E =
     verify_bootstrap_with ''bootstrap-bundle-v1.schema.json'' (verify_node_profile E)
       (bootstrap_typed_v1 E) E"

section \<open>Tasks\<close>

definition task_value ::
    "ext \<Rightarrow> string \<Rightarrow> json \<Rightarrow> json \<Rightarrow> json \<Rightarrow> string \<Rightarrow> json \<Rightarrow> json \<Rightarrow> json \<Rightarrow> json \<Rightarrow> json \<Rightarrow> json \<Rightarrow> json res" where
  "task_value E version chain_id registry task_id task_type issuer recipient manifest_hash payload nonce deadline =
     bindE (to_checksum_address E registry) (\<lambda>reg.
     bindE (to_checksum_address E issuer) (\<lambda>iss.
     bindE (to_checksum_address E recipient) (\<lambda>rec.
     bindE (jlower manifest_hash) (\<lambda>manifest.
     let v = JObj [(''schema_version'', JStr version), (''chain_id'', JStr (py_str chain_id)),
           (''registry'', JStr reg), (''task_id'', task_id), (''task_type'', JStr task_type),
           (''issuer'', JStr iss), (''recipient'', JStr rec), (''manifest_hash'', JStr manifest),
           (''payload'', payload), (''payload_hash'', JStr (payload_hash E payload)),
           (''nonce'', JStr (py_str nonce)), (''deadline'', JStr (py_str deadline)),
           (''signature'', JStr ''0x'')]
     in bindE (check_secrets v) (\<lambda>_. Inr v)))))"

definition build_task ::
    "ext \<Rightarrow> json \<Rightarrow> json \<Rightarrow> json \<Rightarrow> string \<Rightarrow> json \<Rightarrow> json \<Rightarrow> json \<Rightarrow> json \<Rightarrow> json \<Rightarrow> json \<Rightarrow> json res" where
  "build_task E chain_id registry task_id task_type issuer recipient manifest_hash payload nonce deadline =
     (if task_type \<notin> set TASK_TYPES then le_error ''unsupported_task_type'' task_type
      else task_value E ''loveengine.network-task/1'' chain_id registry task_id task_type issuer
             recipient manifest_hash payload nonce deadline)"

definition verify_task_binding ::
    "ext \<Rightarrow> json \<Rightarrow> json \<Rightarrow> json \<Rightarrow> json \<Rightarrow> json option \<Rightarrow> json option \<Rightarrow> int \<Rightarrow> unit res" where
  "verify_task_binding E task expected_chain_id expected_registry expected_recipient
      expected_issuer expected_manifest_hash now =
     bindE (jitem task ''chain_id'') (\<lambda>chain_id.
     bindE (ensure (chain_id = JStr (py_str expected_chain_id)) ''wrong_chain_id'' []) (\<lambda>_.
     bindE (jitem task ''registry'') (\<lambda>registry.
     bindE (same_address E registry expected_registry) (\<lambda>same.
     bindE (ensure same ''wrong_registry'' []) (\<lambda>_.
     bindE (jitem task ''recipient'') (\<lambda>recipient.
     bindE (same_address E recipient expected_recipient) (\<lambda>same.
     bindE (ensure same ''wrong_recipient'' []) (\<lambda>_.
     bindE (when_some expected_issuer (\<lambda>i.
        bindE (jitem task ''issuer'') (\<lambda>issuer.
        bindE (same_address E issuer i) (\<lambda>same. ensure same ''wrong_issuer'' [])))) (\<lambda>_.
     bindE (when_some expected_manifest_hash (\<lambda>m.
        bindE (jitem task ''manifest_hash'') (\<lambda>h. bindE (jlower h) (\<lambda>l. bindE (jlower m) (\<lambda>r.
        ensure (l = r) ''wrong_manifest_hash'' []))))) (\<lambda>_.
     bindE (int_item task ''deadline'') (\<lambda>deadline.
     bindE (ensure (\<not> deadline < now) ''task_expired'' []) (\<lambda>_.
     bindE (jitem task ''payload_hash'') (\<lambda>ph.
     bindE (jitem task ''payload'') (\<lambda>payload.
     ensure (ph = JStr (payload_hash E payload)) ''payload_hash_mismatch'' []))))))))))))))"

text \<open>The signature check that ends the verification of a task or receipt.\<close>

definition verify_signed_by ::
    "ext \<Rightarrow> (json \<Rightarrow> json res) \<Rightarrow> json \<Rightarrow> string \<Rightarrow> string res" where
  "verify_signed_by E builder m signer_key =
     bindE (builder m) (\<lambda>typed.
     bindE (jitem m ''signature'') (\<lambda>signature.
     bindE (recover_signer E typed signature) (\<lambda>signer.
     bindE (addr_item E m signer_key) (\<lambda>expected.
     bindE (ensure (signer = expected) ''invalid_signature'' []) (\<lambda>_. Inr signer)))))"

text \<open>\<open>if task["task_type"] not in types: raise\<close>.\<close>

definition require_task_type :: "string list \<Rightarrow> json \<Rightarrow> unit res" where
  "require_task_type types task =
     bindE (jitem task ''task_type'') (\<lambda>t.
     ensure (t \<in> JStr ` set types) ''unsupported_task_type'' (py_str t))"

definition verify_task ::
    "ext \<Rightarrow> json \<Rightarrow> json \<Rightarrow> json \<Rightarrow> json \<Rightarrow> json option \<Rightarrow> json option \<Rightarrow> int \<Rightarrow> string res" where
  "verify_task E task expected_chain_id expected_registry expected_recipient expected_issuer
      expected_manifest_hash now =
     bindE (check_secrets task) (\<lambda>_.
     bindE (validate_schema E task ''network-task-v1.schema.json'') (\<lambda>_.
     bindE (require_task_type TASK_TYPES task) (\<lambda>_.
     bindE (verify_task_binding E task expected_chain_id expected_registry expected_recipient
              expected_issuer expected_manifest_hash now) (\<lambda>_.
     verify_signed_by E (build_task_typed_data E) task ''issuer''))))"

section \<open>Receipts\<close>

definition receipt_value ::
    "ext \<Rightarrow> string \<Rightarrow> json \<Rightarrow> json \<Rightarrow> json \<Rightarrow> json \<Rightarrow> string \<Rightarrow> json \<Rightarrow> json \<Rightarrow> json \<Rightarrow> json res" where
  "receipt_value E version chain_id registry task_id node status result nonce completed_at =
     bindE (to_checksum_address E registry) (\<lambda>reg.
     bindE (to_checksum_address E node) (\<lambda>n.
     Inr (JObj [(''schema_version'', JStr version), (''chain_id'', JStr (py_str chain_id)),
           (''registry'', JStr reg), (''task_id'', task_id), (''node'', JStr n),
           (''status'', JStr status), (''result'', result),
           (''result_hash'', JStr (payload_hash E result)), (''nonce'', JStr (py_str nonce)),
           (''completed_at'', JStr (py_str completed_at)), (''signature'', JStr ''0x'')])))"

definition build_receipt ::
    "ext \<Rightarrow> json \<Rightarrow> json \<Rightarrow> json \<Rightarrow> json \<Rightarrow> string \<Rightarrow> json \<Rightarrow> json \<Rightarrow> json \<Rightarrow> json res" where
  "build_receipt E chain_id registry task_id node status result nonce completed_at =
     bindE (receipt_value E ''loveengine.task-receipt/1'' chain_id registry task_id node status
              result nonce completed_at) (\<lambda>v.
     bindE (check_secrets v) (\<lambda>_. Inr v))"

definition verify_receipt_with ::
    "string \<Rightarrow> (json \<Rightarrow> json res) \<Rightarrow> ext \<Rightarrow> json \<Rightarrow> json \<Rightarrow> json \<Rightarrow> string res" where
  "verify_receipt_with schema_name builder E receipt expected_chain_id expected_registry =
     bindE (check_secrets receipt) (\<lambda>_.
     bindE (validate_schema E receipt schema_name) (\<lambda>_.
     bindE (jitem receipt ''chain_id'') (\<lambda>chain_id.
     bindE (ensure (chain_id = JStr (py_str expected_chain_id)) ''wrong_chain_id'' []) (\<lambda>_.
     bindE (jitem receipt ''registry'') (\<lambda>registry.
     bindE (same_address E registry expected_registry) (\<lambda>same.
     bindE (ensure same ''wrong_registry'' []) (\<lambda>_.
     bindE (jitem receipt ''result_hash'') (\<lambda>rh.
     bindE (jitem receipt ''result'') (\<lambda>result.
     bindE (ensure (rh = JStr (payload_hash E result)) ''result_hash_mismatch'' []) (\<lambda>_.
     verify_signed_by E builder receipt ''node''))))))))))"

definition verify_receipt :: "ext \<Rightarrow> json \<Rightarrow> json \<Rightarrow> json \<Rightarrow> string res" where
  "verify_receipt E =
     verify_receipt_with ''task-receipt-v1.schema.json'' (build_receipt_typed_data E) E"

section \<open>What acceptance means\<close>

lemma directory_step_Inr_iff:
  "directory_step verify nodes p = Inr t \<longleftrightarrow> (\<exists>n. verify p = Inr n \<and> n \<notin> set nodes \<and> t = nodes @ [n])"
  by (auto simp: directory_step_def res_simps)

text \<open>An accepted directory lists distinct addresses, in the order of the profiles.\<close>

lemma directory_fold:
  assumes "foldE (directory_step verify) acc ps = Inr nodes" and "distinct acc"
  shows "distinct nodes \<and> (\<exists>ns. nodes = acc @ ns \<and> list_all2 (\<lambda>p n. verify p = Inr n) ps ns)"
  using assms
proof (induction ps arbitrary: acc)
  case (Cons p ps)
  then obtain n where n: "verify p = Inr n" "n \<notin> set acc"
    and r: "foldE (directory_step verify) (acc @ [n]) ps = Inr nodes"
    by (auto simp: directory_step_Inr_iff bindE_Inr_iff)
  have "distinct (acc @ [n])" using n(2) Cons.prems(2) by simp
  from Cons.IH [OF r this] obtain ns where "distinct nodes" "nodes = acc @ n # ns"
    "list_all2 (\<lambda>p n. verify p = Inr n) ps ns" by auto
  with n(1) show ?case by (intro conjI exI [of _ "n # ns"]) auto
qed auto

lemma directory_fold_ok:
  assumes "list_all2 (\<lambda>p n. verify p = Inr n) ps ns" and "distinct (acc @ ns)"
  shows "foldE (directory_step verify) acc ps = Inr (acc @ ns)"
  using assms
proof (induction ps ns arbitrary: acc rule: list_all2_induct)
  case (Cons p ps n ns)
  then have "foldE (directory_step verify) (acc @ [n]) ps = Inr ((acc @ [n]) @ ns)"
    by (intro Cons.IH) auto
  with Cons show ?case by (simp add: directory_step_def)
qed simp

lemma verify_signed_by_Inr_iff [res_simps]:
  "verify_signed_by E builder m k = Inr a \<longleftrightarrow>
     (\<exists>typed d s v. builder m = Inr typed \<and> m = JObj d \<and> map_of d ''signature'' = Some s \<and>
        recover_typed E typed s = Inr a \<and> map_of d k = Some v \<and> checksum_address E v = Inr a)"
  by (auto simp: verify_signed_by_def res_simps)

end
