(* ===== verification/M4Network.thy ===== *)
theory M4Network
  imports NetworkProtocol
begin

text \<open>
  \<^verbatim>\<open>m4_network.py\<close>: the V2 messages (observe and review tasks), and \<^verbatim>\<open>event_bridge.py\<close>, which
  turns chain events into V1 tasks at most once per event.
\<close>

definition TASK_TYPES_V2 :: "string list" where
  "TASK_TYPES_V2 = [''observe_live_text'', ''review_dispute'']"

text \<open>The least unsupported capability is reported.\<close>

definition build_node_profile_v2 ::
    "ext \<Rightarrow> json \<Rightarrow> string list \<Rightarrow> json \<Rightarrow> json \<Rightarrow> json res" where
  "build_node_profile_v2 E node capabilities sequence valid_until =
     (case sort (remdups (filter (\<lambda>c. c \<notin> set TASK_TYPES_V2) capabilities)) of
        c # _ \<Rightarrow> le_error ''unsupported_capability'' c
      | [] \<Rightarrow>
          bindE (to_checksum_address E node) (\<lambda>a.
          Inr (JObj [(''node'', JStr a), (''capabilities'', sorted_set capabilities),
            (''sequence'', JStr (py_str sequence)), (''valid_until'', JStr (py_str valid_until))])))"

definition verify_node_profile_v2 ::
    "ext \<Rightarrow> json \<Rightarrow> int \<Rightarrow> json option \<Rightarrow> json option \<Rightarrow> string res" where
  "verify_node_profile_v2 E =
     verify_profile_with ''signed-agent-node-profile-v2.schema.json'' (build_node_profile_v2_typed_data E) E"

definition build_bootstrap_v2 ::
    "ext \<Rightarrow> json \<Rightarrow> json \<Rightarrow> json \<Rightarrow> json list \<Rightarrow> json \<Rightarrow> json \<Rightarrow> json res" where
  "build_bootstrap_v2 E chain_id registry publisher nodes sequence valid_until =
     (if nodes = [] then le_error ''empty_bootstrap'' []
      else
        bindE (to_checksum_address E registry) (\<lambda>reg.
        bindE (to_checksum_address E publisher) (\<lambda>p.
        Inr (JObj [(''schema_version'', JStr ''loveengine.bootstrap-bundle/2''),
              (''chain_id'', JStr (py_str chain_id)), (''registry'', JStr reg), (''publisher'', JStr p),
              (''directory'', JArr nodes), (''directory_hash'', JStr (payload_hash E (JArr nodes))),
              (''sequence'', JStr (py_str sequence)), (''valid_until'', JStr (py_str valid_until)),
              (''signature'', JStr ''0x'')]))))"

definition verify_bootstrap_v2 :: "ext \<Rightarrow> json \<Rightarrow> json \<Rightarrow> json \<Rightarrow> int \<Rightarrow> bool res" where
  "verify_bootstrap_v2 E =
     verify_bootstrap_with ''bootstrap-bundle-v2.schema.json'' (verify_node_profile_v2 E)
       (build_bootstrap_v2_typed_data E) E"

definition build_task_v2 ::
    "ext \<Rightarrow> json \<Rightarrow> json \<Rightarrow> json \<Rightarrow> string \<Rightarrow> json \<Rightarrow> json \<Rightarrow> json \<Rightarrow> json \<Rightarrow> json \<Rightarrow> json \<Rightarrow> json res" where
  "build_task_v2 E chain_id registry task_id task_type issuer recipient manifest_hash payload nonce deadline =
     (if task_type \<notin> set TASK_TYPES_V2 then le_error ''unsupported_task_type'' task_type
      else task_value E ''loveengine.network-task/2'' chain_id registry task_id task_type issuer
             recipient manifest_hash payload nonce deadline)"

text \<open>A non-empty string under a key of the payload.\<close>

definition nonempty_str_item :: "json \<Rightarrow> string \<Rightarrow> bool res" where
  "nonempty_str_item payload k =
     bindE (jitem payload k) (\<lambda>v. Inr (case v of JStr s \<Rightarrow> s \<noteq> [] | _ \<Rightarrow> False))"

definition check_observe_payload :: "ext \<Rightarrow> json \<Rightarrow> unit res" where
  "check_observe_payload E payload =
     bindE (jin payload ''schema_version'') (\<lambda>versioned.
     if versioned then validate_schema E payload ''observe-live-text-payload-v1.schema.json''
     else
       bindE (jkeys payload) (\<lambda>keys.
       if set keys \<noteq> {''session_id''} then le_error ''invalid_legacy_observation_payload'' []
       else bindE (nonempty_str_item payload ''session_id'') (\<lambda>ok.
         ensure ok ''invalid_legacy_observation_payload'' [])))"

definition check_review_payload :: "ext \<Rightarrow> json \<Rightarrow> unit res" where
  "check_review_payload E payload =
     bindE (jin payload ''schema_version'') (\<lambda>versioned.
     if versioned then validate_schema E payload ''review-dispute-payload-v1.schema.json''
     else
       bindE (jkeys payload) (\<lambda>keys.
       if set keys \<noteq> {''dispute_id'', ''bundle_hash''} then le_error ''invalid_legacy_review_payload'' []
       else bindE (nonempty_str_item payload ''dispute_id'') (\<lambda>ok.
         if \<not> ok then le_error ''invalid_legacy_review_payload'' []
         else bindE (jitem payload ''bundle_hash'') (\<lambda>h.
           ensure (case h of JStr s \<Rightarrow> is_bytes32 s | _ \<Rightarrow> False) ''invalid_legacy_review_payload'' []))))"

definition verify_task_v2 ::
    "ext \<Rightarrow> json \<Rightarrow> json \<Rightarrow> json \<Rightarrow> json \<Rightarrow> json option \<Rightarrow> json option \<Rightarrow> int \<Rightarrow> string res" where
  "verify_task_v2 E task expected_chain_id expected_registry expected_recipient expected_issuer
      expected_manifest_hash now =
     bindE (check_secrets task) (\<lambda>_.
     bindE (validate_schema E task ''network-task-v2.schema.json'') (\<lambda>_.
     bindE (require_task_type TASK_TYPES_V2 task) (\<lambda>_.
     bindE (jitem task ''task_type'') (\<lambda>task_type.
     bindE (jitem task ''payload'') (\<lambda>payload.
     bindE (if task_type = JStr ''observe_live_text'' then check_observe_payload E payload
            else check_review_payload E payload) (\<lambda>_.
     bindE (verify_task_binding E task expected_chain_id expected_registry expected_recipient
              expected_issuer expected_manifest_hash now) (\<lambda>_.
     verify_signed_by E (build_task_v2_typed_data E) task ''issuer'')))))))"

definition build_receipt_v2 ::
    "ext \<Rightarrow> json \<Rightarrow> json \<Rightarrow> json \<Rightarrow> json \<Rightarrow> string \<Rightarrow> json \<Rightarrow> json \<Rightarrow> json \<Rightarrow> json res" where
  "build_receipt_v2 E chain_id registry task_id node status result nonce completed_at =
     receipt_value E ''loveengine.task-receipt/2'' chain_id registry task_id node status result nonce completed_at"

definition verify_receipt_v2 :: "ext \<Rightarrow> json \<Rightarrow> json \<Rightarrow> json \<Rightarrow> string res" where
  "verify_receipt_v2 E =
     verify_receipt_with ''task-receipt-v2.schema.json'' (build_receipt_v2_typed_data E) E"

section \<open>Acceptance of a task\<close>

text \<open>
  What the parties agree on when a task is accepted: the domain (chain and registry), the
  recipient, the issuer and the release it names, an open deadline, a payload that is the
  hashed one, and a signature of the issuer over the whole message.
\<close>

definition task_bound ::
    "ext \<Rightarrow> json \<Rightarrow> json \<Rightarrow> json \<Rightarrow> json \<Rightarrow> json option \<Rightarrow> json option \<Rightarrow> int \<Rightarrow> bool" where
  "task_bound E task chain_id registry recipient issuer manifest now \<longleftrightarrow>
     jitem task ''chain_id'' = Inr (JStr (py_str chain_id)) \<and>
     (\<exists>a. addr_item E task ''registry'' = Inr a \<and> checksum_address E registry = Inr a) \<and>
     (\<exists>a. addr_item E task ''recipient'' = Inr a \<and> checksum_address E recipient = Inr a) \<and>
     (\<forall>i. issuer = Some i \<longrightarrow> (\<exists>a. addr_item E task ''issuer'' = Inr a \<and> checksum_address E i = Inr a)) \<and>
     (\<forall>m. manifest = Some m \<longrightarrow> (\<exists>h. bindE (jitem task ''manifest_hash'') jlower = Inr h \<and> jlower m = Inr h)) \<and>
     (\<exists>d. int_item task ''deadline'' = Inr d \<and> now \<le> d) \<and>
     (\<exists>p. jitem task ''payload'' = Inr p \<and> jitem task ''payload_hash'' = Inr (JStr (payload_hash E p)))"

lemma verify_task_binding_Inr_iff [res_simps]:
  "verify_task_binding E task chain_id registry recipient issuer manifest now = Inr u \<longleftrightarrow>
     task_bound E task chain_id registry recipient issuer manifest now"
  by (cases task)
     (auto simp: verify_task_binding_def task_bound_def res_simps addr_item_def to_checksum_address_def
       jitem_def when_some_def not_less split: option.splits)

definition signed_by :: "ext \<Rightarrow> json \<Rightarrow> json \<Rightarrow> string \<Rightarrow> string \<Rightarrow> bool" where
  "signed_by E typed m signer_key signer \<longleftrightarrow>
     (\<exists>s. jitem m ''signature'' = Inr s \<and> recover_typed E typed s = Inr signer) \<and>
     addr_item E m signer_key = Inr signer"

lemma verify_signed_by_iff:
  "verify_signed_by E builder m k = Inr a \<longleftrightarrow> (\<exists>typed. builder m = Inr typed \<and> signed_by E typed m k a)"
  by (auto simp: verify_signed_by_Inr_iff signed_by_def addr_item_def to_checksum_address_def res_simps)

definition payload_ok :: "ext \<Rightarrow> json \<Rightarrow> json \<Rightarrow> bool" where
  "payload_ok E task_type payload \<longleftrightarrow>
     (if task_type = JStr ''observe_live_text'' then check_observe_payload E payload
      else check_review_payload E payload) = Inr ()"

lemma verify_task_v2_iff:
  "verify_task_v2 E task chain_id registry recipient issuer manifest now = Inr signer \<longleftrightarrow>
     secret_free task \<and> schema_error E ''network-task-v2.schema.json'' task = None \<and>
     (\<exists>t p. jitem task ''task_type'' = Inr t \<and> t \<in> JStr ` set TASK_TYPES_V2 \<and>
        jitem task ''payload'' = Inr p \<and> payload_ok E t p) \<and>
     task_bound E task chain_id registry recipient issuer manifest now \<and>
     (\<exists>typed. build_task_v2_typed_data E task = Inr typed \<and> signed_by E typed task ''issuer'' signer)"
  unfolding verify_task_v2_def bindE_Inr_iff require_task_type_def payload_ok_def verify_signed_by_iff
    check_secrets_Inr_iff validate_schema_Inr_iff ensure_Inr_iff verify_task_binding_Inr_iff
  by auto

text \<open>What an accepted bootstrap bundle is.\<close>

lemma verify_bootstrap_Inr:
  assumes "verify_bootstrap_with name verify builder E bootstrap chain_id registry now = Inr r"
  obtains chain reg ps ns typed publisher d where "jitem bootstrap ''chain_id'' = Inr chain"
    "jitem bootstrap ''registry'' = Inr reg" "jitem bootstrap ''directory'' = Inr (JArr ps)" "distinct ns"
    "list_all2 (\<lambda>p n. verify p now (Some chain) (Some reg) = Inr n) ps ns"
    "jitem bootstrap ''directory_hash'' = Inr (JStr (payload_hash E (JArr ps)))"
    "int_item bootstrap ''valid_until'' = Inr d" "now \<le> d"
    "builder bootstrap = Inr typed" "signed_by E typed bootstrap ''publisher'' publisher"
proof -
  from assms obtain chain reg d dh directory ps ns typed s signer where 1:
    "jitem bootstrap ''chain_id'' = Inr chain" "jitem bootstrap ''registry'' = Inr reg"
    "int_item bootstrap ''valid_until'' = Inr d" "\<not> d < now" "jitem bootstrap ''directory_hash'' = Inr dh"
    "jitem bootstrap ''directory'' = Inr directory" "dh = JStr (payload_hash E directory)" "jlist directory = Inr ps"
    "foldE (directory_step (\<lambda>p. verify p now (Some chain) (Some reg))) [] ps = Inr ns"
    "builder bootstrap = Inr typed" "jitem bootstrap ''signature'' = Inr s" "recover_signer E typed s = Inr signer"
    "addr_item E bootstrap ''publisher'' = Inr signer"
    unfolding verify_bootstrap_with_def by (elim run_elims) auto
  from directory_fold [OF 1(9)] have "distinct ns" "list_all2 (\<lambda>p n. verify p now (Some chain) (Some reg) = Inr n) ps ns" by auto
  moreover have "directory = JArr ps" using 1(8) by (auto simp: jlist_def split: json.splits)
  ultimately show ?thesis using 1
    by (intro that [of chain reg ps ns d typed signer]) (auto simp: signed_by_def recover_signer_Inr_iff)
qed

text \<open>The fields of a task value that the checks read.\<close>

lemma task_value_Inr_iff:
  "task_value E ver c r tid tt i rc m p n d = Inr t \<longleftrightarrow>
     (\<exists>reg iss rec manifest. checksum_address E r = Inr reg \<and> checksum_address E i = Inr iss \<and>
        checksum_address E rc = Inr rec \<and> jlower m = Inr manifest \<and>
        t = JObj [(''schema_version'', JStr ver), (''chain_id'', JStr (py_str c)),
           (''registry'', JStr reg), (''task_id'', tid), (''task_type'', JStr tt),
           (''issuer'', JStr iss), (''recipient'', JStr rec), (''manifest_hash'', JStr manifest),
           (''payload'', p), (''payload_hash'', JStr (payload_hash E p)),
           (''nonce'', JStr (py_str n)), (''deadline'', JStr (py_str d)),
           (''signature'', JStr ''0x'')] \<and> secret_free t)"
  by (auto simp: task_value_def res_simps to_checksum_address_def Let_def)

text \<open>A task that was built and signed by its issuer is accepted.\<close>

lemma item_cong:
  assumes "jitem m k = jitem m' k"
  shows "addr_item E m k = addr_item E m' k" "int_item m k = int_item m' k" "bytes32_item m k = bytes32_item m' k"
    "id_item E m k = id_item E m' k"
  using assms by (simp_all add: addr_item_def int_item_def bytes32_item_def id_item_def)

lemma typed_data_cong:
  assumes "\<And>k. k \<noteq> ''signature'' \<Longrightarrow> jitem m k = jitem m' k"
  shows "build_task_v2_typed_data E m = build_task_v2_typed_data E m'"
  unfolding build_task_v2_typed_data_def v2_domain_of_def task_message_def
  by (simp add: assms item_cong [OF assms] del: wf_json.simps)

lemma built_task_v2_verifies:
  assumes t: "build_task_v2 E chain registry tid tt issuer recipient manifest payload nonce (JInt d) = Inr t"
    and signed_task: "jset t ''signature'' (JStr s) = Inr signed"
    and ok: "payload_ok E (JStr tt) payload" "secret_free signed" "schema_error E ''network-task-v2.schema.json'' signed = None"
    and sum: "\<And>v a. checksum_address E v = Inr a \<Longrightarrow> checksum_address E (JStr a) = Inr a"
    and due: "now \<le> d"
    and signed: "build_task_v2_typed_data E t = Inr typed" "recover_typed E typed (JStr s) = Inr signer"
      "checksum_address E issuer = Inr signer"
  shows "verify_task_v2 E signed chain registry recipient (Some issuer) (Some manifest) now = Inr signer"
proof -
  from t obtain reg rec mf where 1: "tt \<in> set TASK_TYPES_V2" "checksum_address E registry = Inr reg"
    "checksum_address E recipient = Inr rec" "jlower manifest = Inr mf"
    and t1: "t = JObj [(''schema_version'', JStr ''loveengine.network-task/2''), (''chain_id'', JStr (py_str chain)),
           (''registry'', JStr reg), (''task_id'', tid), (''task_type'', JStr tt),
           (''issuer'', JStr signer), (''recipient'', JStr rec), (''manifest_hash'', JStr mf),
           (''payload'', payload), (''payload_hash'', JStr (payload_hash E payload)),
           (''nonce'', JStr (py_str nonce)), (''deadline'', JStr (py_str (JInt d))),
           (''signature'', JStr ''0x'')]"
    using signed(3) by (auto simp: build_task_v2_def task_value_Inr_iff split: if_splits)
  from signed_task have t2: "signed = JObj [(''schema_version'', JStr ''loveengine.network-task/2''), (''chain_id'', JStr (py_str chain)),
           (''registry'', JStr reg), (''task_id'', tid), (''task_type'', JStr tt),
           (''issuer'', JStr signer), (''recipient'', JStr rec), (''manifest_hash'', JStr mf),
           (''payload'', payload), (''payload_hash'', JStr (payload_hash E payload)),
           (''nonce'', JStr (py_str nonce)), (''deadline'', JStr (py_str (JInt d))),
           (''signature'', JStr s)]" by (simp add: t1)
  have typed: "build_task_v2_typed_data E signed = Inr typed"
    using typed_data_cong [of signed t E] signed(1) by (simp add: t1 t2)
  have mf: "py_lower mf = mf" using 1(4) by (auto simp: jlower_Inr_iff)
  have bound: "task_bound E signed chain registry recipient (Some issuer) (Some manifest) now"
    using 1 due sum signed(3) mf
    by (auto simp: task_bound_def t2 addr_item_def int_item_def to_checksum_address_def py_str_def)
  have "signed_by E typed signed ''issuer'' signer"
    using signed sum by (simp add: signed_by_def t2 addr_item_def to_checksum_address_def)
  with ok typed bound 1(1) show ?thesis unfolding verify_task_v2_iff by (simp add: t2)
qed
text \<open>What a signature over a task covers, besides itself and the schema version.\<close>

lemma typed_data_inject:
  assumes "build_task_v2_typed_data E t = Inr typed" "build_task_v2_typed_data E t' = Inr typed"
  shows "\<exists>m. task_message E t = Inr m \<and> task_message E t' = Inr m"
    and "int_item t ''chain_id'' = int_item t' ''chain_id''" "addr_item E t ''registry'' = addr_item E t' ''registry''"
  using assms by (auto simp: build_task_v2_typed_data_def v2_domain_of_def bindE_Inr_iff int_item_def addr_item_def)

section \<open>event\_bridge.py\<close>

definition EVENT_TASK_TYPES :: "(string \<times> string) list" where
  "EVENT_TASK_TYPES = [(''ReleasePublished'', ''propagate_skill''), (''BroadcastScheduled'', ''observe_broadcast'')]"

definition event_key :: "ext \<Rightarrow> json \<Rightarrow> json \<Rightarrow> json \<Rightarrow> string res" where
  "event_key E chain_id tx_hash log_index =
     bindE (jlower tx_hash) (\<lambda>h.
     Inr (keccak256_hex E (py_str chain_id @ '':'' @ h @ '':'' @ py_str log_index)))"

text \<open>The key of an event and the task type it asks for.\<close>

definition event_plan :: "ext \<Rightarrow> json \<Rightarrow> (string \<times> string) res" where
  "event_plan E event =
     bindE (jitem event ''event'') (\<lambda>event_type.
     case event_type of
       JStr s \<Rightarrow>
         (case map_of EVENT_TASK_TYPES s of
            None \<Rightarrow> le_error ''unsupported_chain_event'' s
          | Some task_type \<Rightarrow>
              bindE (jitem event ''chain_id'') (\<lambda>c.
              bindE (jitem event ''tx_hash'') (\<lambda>t.
              bindE (jitem event ''log_index'') (\<lambda>l.
              bindE (event_key E c t l) (\<lambda>key. Inr (key, task_type))))))
     | JArr _ \<Rightarrow> Inl TypeError
     | JObj _ \<Rightarrow> Inl TypeError
     | v \<Rightarrow> le_error ''unsupported_chain_event'' (py_str v))"

definition event_task ::
    "ext \<Rightarrow> json \<Rightarrow> string \<Rightarrow> string \<Rightarrow> json \<Rightarrow> json \<Rightarrow> json \<Rightarrow> int \<Rightarrow> json \<Rightarrow> nat \<times> json \<Rightarrow> json res" where
  "event_task E event key task_type registry issuer manifest_hash nonce_start deadline ir =
     bindE (jitem event ''chain_id'') (\<lambda>c.
     build_task E c registry (JStr (key @ '':'' @ dec_nat (fst ir))) task_type issuer (snd ir)
       manifest_hash event (JInt (nonce_start + int (fst ir))) deadline)"

text \<open>
  \<open>EventTaskBridge.build_tasks\<close>: the result and the new set of seen keys. The key is recorded
  before the tasks are built, so it stays recorded when building one of them raises.
\<close>

definition build_tasks ::
    "ext \<Rightarrow> string list \<Rightarrow> json \<Rightarrow> json \<Rightarrow> json \<Rightarrow> json list \<Rightarrow> json \<Rightarrow> int \<Rightarrow> json \<Rightarrow> json list res \<times> string list" where
  "build_tasks E seen event registry issuer recipients manifest_hash nonce_start deadline =
     (case event_plan E event of
        Inl e \<Rightarrow> (Inl e, seen)
      | Inr (key, task_type) \<Rightarrow>
          if key \<in> set seen then (Inr [], seen)
          else (mapE (event_task E event key task_type registry issuer manifest_hash nonce_start deadline)
                  (enumerate 0 recipients), key # seen))"

lemma build_tasks_again:
  assumes "event_plan E event = Inr (key, task_type)"
  shows "build_tasks E (snd (build_tasks E seen event r i rs m n d)) event r' i' rs' m' n' d'
    = (Inr [], snd (build_tasks E seen event r i rs m n d))"
  using assms by (simp add: build_tasks_def)

lemma build_tasks_seen_mono: "set seen \<subseteq> set (snd (build_tasks E seen ev r i rs m n d))"
  by (auto simp: build_tasks_def split: sum.splits prod.splits)

end
