(* ===== verification/Challenge.thy ===== *)
theory Challenge
  imports TypedData Stored
begin

text \<open>
  The relay challenge of \<^verbatim>\<open>agent_session.py\<close>: the message a relay sends to a connecting node, its
  verification before a signer may see it, and the text that is signed. The text names the chain,
  the registry, the node and the nonce, and no two challenges share a text.
\<close>

definition RELAY_CHALLENGE_SCHEMA :: string where
  "RELAY_CHALLENGE_SCHEMA = ''loveengine.relay-challenge/1''"

definition RELAY_CHALLENGE_KEYS :: "string list" where
  "RELAY_CHALLENGE_KEYS = [''type'', ''schema_version'', ''chain_id'', ''registry'', ''nonce'']"

definition is_lower_hex :: "char \<Rightarrow> bool" where
  "is_lower_hex c \<longleftrightarrow> is_digit c \<or> 97 \<le> ord_char c \<and> ord_char c \<le> 102"

definition is_relay_nonce :: "string \<Rightarrow> bool" where
  "is_relay_nonce s \<longleftrightarrow> length s = 64 \<and> list_all is_lower_hex s"

definition is_type_or_value_error :: "exc \<Rightarrow> bool" where
  "is_type_or_value_error e \<longleftrightarrow> e = TypeError \<or> e = ValueError"

definition verify_relay_challenge :: "ext \<Rightarrow> json \<Rightarrow> json \<Rightarrow> json \<Rightarrow> unit res" where
  "verify_relay_challenge E v expected_chain_id expected_registry =
     bindE (case v of JObj d \<Rightarrow> ensure (set (map fst d) = set RELAY_CHALLENGE_KEYS) ''invalid_relay_challenge'' []
                    | _ \<Rightarrow> le_error ''invalid_relay_challenge'' []) (\<lambda>_.
     bindE (jget v ''type'') (\<lambda>ty. bindE (jget v ''schema_version'') (\<lambda>sv. bindE (jget v ''chain_id'') (\<lambda>ch.
     bindE (ensure (ty = JStr ''challenge'' \<and> sv = JStr RELAY_CHALLENGE_SCHEMA \<and> ch = JStr (py_str expected_chain_id))
              ''invalid_relay_challenge'' []) (\<lambda>_.
     bindE (catchE
        (bindE (jget v ''registry'') (\<lambda>r. bindE (to_checksum_address E r) (\<lambda>registry.
         bindE (to_checksum_address E expected_registry) (\<lambda>expected. Inr (registry, expected)))))
        is_type_or_value_error (\<lambda>_. le_error ''invalid_relay_challenge'' [])) (\<lambda>(registry, expected).
     bindE (jget_or v ''nonce'' (JStr [])) (\<lambda>nonce.
     ensure (registry = expected \<and> is_relay_nonce (py_str nonce)) ''invalid_relay_challenge'' [])))))))"

definition build_relay_challenge :: "ext \<Rightarrow> json \<Rightarrow> json \<Rightarrow> string \<Rightarrow> json res" where
  "build_relay_challenge E chain_id registry nonce =
     bindE (to_checksum_address E registry) (\<lambda>r.
     let v = JObj [(''type'', JStr ''challenge''), (''schema_version'', JStr RELAY_CHALLENGE_SCHEMA),
           (''chain_id'', JStr (py_str chain_id)), (''registry'', JStr r), (''nonce'', JStr nonce)]
     in bindE (verify_relay_challenge E v chain_id registry) (\<lambda>_. Inr v))"

definition challenge_text :: "string \<Rightarrow> string \<Rightarrow> string \<Rightarrow> string \<Rightarrow> string" where
  "challenge_text chain_id registry node nonce =
     join [CHR 0x0A] [''LoveEngine Relay Authentication'', ''schema='' @ RELAY_CHALLENGE_SCHEMA,
       ''chain_id='' @ chain_id, ''registry='' @ registry, ''node='' @ node, ''nonce='' @ nonce]"

definition relay_challenge_signing_text :: "ext \<Rightarrow> json \<Rightarrow> json \<Rightarrow> string res" where
  "relay_challenge_signing_text E v node =
     bindE (jget v ''chain_id'') (\<lambda>c. bindE (jget v ''registry'') (\<lambda>r.
     bindE (verify_relay_challenge E v c r) (\<lambda>_.
     bindE (jitem v ''chain_id'') (\<lambda>chain_id.
     bindE (addr_item E v ''registry'') (\<lambda>registry.
     bindE (to_checksum_address E node) (\<lambda>n.
     bindE (jitem v ''nonce'') (\<lambda>nonce.
     Inr (challenge_text (py_str chain_id) registry n (py_str nonce)))))))))"

section \<open>What a verified challenge is\<close>

lemma verify_relay_challenge_Inr:
  assumes "verify_relay_challenge E v c r = Inr ()"
  obtains d registry reg nonce where "v = JObj d" "set (map fst d) = set RELAY_CHALLENGE_KEYS"
    "map_of d ''type'' = Some (JStr ''challenge'')" "map_of d ''schema_version'' = Some (JStr RELAY_CHALLENGE_SCHEMA)"
    "map_of d ''chain_id'' = Some (JStr (py_str c))" "map_of d ''registry'' = Some registry"
    "checksum_address E registry = Inr reg" "checksum_address E r = Inr reg"
    "map_of d ''nonce'' = Some nonce" "is_relay_nonce (py_str nonce)"
proof -
  from assms obtain ty sv ch regs nonce where 1:
    "(case v of JObj d \<Rightarrow> ensure (set (map fst d) = set RELAY_CHALLENGE_KEYS) ''invalid_relay_challenge'' []
                    | _ \<Rightarrow> le_error ''invalid_relay_challenge'' []) = Inr ()"
    "jget v ''type'' = Inr ty" "jget v ''schema_version'' = Inr sv" "jget v ''chain_id'' = Inr ch"
    "ty = JStr ''challenge'' \<and> sv = JStr RELAY_CHALLENGE_SCHEMA \<and> ch = JStr (py_str c)"
    "bindE (jget v ''registry'') (\<lambda>r'. bindE (to_checksum_address E r') (\<lambda>registry.
         bindE (to_checksum_address E r) (\<lambda>expected. Inr (registry, expected)))) = Inr regs"
    "jget_or v ''nonce'' (JStr []) = Inr nonce" "fst regs = snd regs \<and> is_relay_nonce (py_str nonce)"
    unfolding verify_relay_challenge_def by (elim run_elims) (auto simp: catchE_raise_Inr_iff ensure_Inr_iff split: prod.splits elim: run_elims)
  then obtain d where d: "v = JObj d" "set (map fst d) = set RELAY_CHALLENGE_KEYS"
    by (auto simp: ensure_Inr_iff split: json.splits)
  have keys: "map_of d k \<noteq> None" if "k \<in> set RELAY_CHALLENGE_KEYS" for k
    using d(2) that by (simp add: map_of_eq_None_iff)
  obtain a b c' e f where f: "map_of d ''type'' = Some a" "map_of d ''schema_version'' = Some b"
    "map_of d ''chain_id'' = Some c'" "map_of d ''registry'' = Some e" "map_of d ''nonce'' = Some f"
    using keys [of "''type''"] keys [of "''schema_version''"] keys [of "''chain_id''"] keys [of "''registry''"]
      keys [of "''nonce''"] by (auto simp: RELAY_CHALLENGE_KEYS_def)
  with 1 d show ?thesis
    by (intro that [of d e "fst regs" f]) (auto simp: bindE_Inr_iff to_checksum_address_def)
qed

lemma signing_text_Inr:
  assumes "relay_challenge_signing_text E v node = Inr t"
  obtains d c registry reg n nonce where "v = JObj d" "map_of d ''chain_id'' = Some (JStr c)"
    "map_of d ''registry'' = Some registry" "checksum_address E registry = Inr reg" "checksum_address E node = Inr n"
    "map_of d ''nonce'' = Some nonce" "is_relay_nonce (py_str nonce)" "t = challenge_text c reg n (py_str nonce)"
proof -
  from assms obtain c r chain_id registry n nonce where 1: "verify_relay_challenge E v c r = Inr ()"
    "jitem v ''chain_id'' = Inr chain_id" "addr_item E v ''registry'' = Inr registry" "to_checksum_address E node = Inr n"
    "jitem v ''nonce'' = Inr nonce" "Inr (challenge_text (py_str chain_id) registry n (py_str nonce)) = (Inr t :: string res)"
    unfolding relay_challenge_signing_text_def by (elim run_elims) simp
  from 1(1) obtain d e reg f where "v = JObj d" "map_of d ''chain_id'' = Some (JStr (py_str c))"
    "map_of d ''registry'' = Some e" "checksum_address E e = Inr reg" "map_of d ''nonce'' = Some f" "is_relay_nonce (py_str f)"
    by (rule verify_relay_challenge_Inr)
  with 1 show ?thesis
    by (intro that [of d "py_str c" e registry n f]) (auto simp: addr_item_def to_checksum_address_def)
qed

lemma newline_split:
  "CHR 0x0A \<notin> set a \<Longrightarrow> CHR 0x0A \<notin> set b \<Longrightarrow> a @ CHR 0x0A # x = b @ CHR 0x0A # y \<longleftrightarrow> a = b \<and> x = y"
proof (induction a arbitrary: b)
  case Nil
  then show ?case by (cases b) auto
next
  case (Cons c a)
  then show ?case by (cases b) auto
qed

lemma challenge_text_inject:
  assumes "challenge_text c r n k = challenge_text c' r' n' k'"
    and "CHR 0x0A \<notin> set c" "CHR 0x0A \<notin> set r" "CHR 0x0A \<notin> set n"
    and "CHR 0x0A \<notin> set c'" "CHR 0x0A \<notin> set r'" "CHR 0x0A \<notin> set n'"
  shows "c = c' \<and> r = r' \<and> n = n' \<and> k = k'"
  using assms by (simp add: challenge_text_def newline_split)

end
