(* ===== verification/RelayStore.thy ===== *)
theory RelayStore
  imports Prelude
begin

text \<open>
  \<^verbatim>\<open>relay.py\<close>: the queue of the relay hub, one SQLite table whose rows are kept in insertion
  order (\<open>rowid\<close>). \<open>NULL\<close> is \<open>None\<close>; a \<open>UNIQUE\<close> group with a \<open>NULL\<close> in it never conflicts. A row
  goes through the phases queued, accepted, acknowledged and confirmed; the theorems say that no
  operation skips a phase or goes back, that a receipt never changes, and what the metrics count.
\<close>

record relay_row =
  m_recipient :: string
  m_task_id :: string
  m_issuer :: "string option"
  m_nonce :: "string option"
  m_payload :: string
  m_attempts :: nat
  m_accepted :: bool
  m_acked :: bool
  m_confirmed :: bool
  m_receipt :: "string option"

type_synonym relay_store = "relay_row list"

record relay_message =
  rm_recipient :: string
  rm_task_id :: string
  rm_payload :: string
  rm_attempts :: nat

definition non_empty :: "string \<Rightarrow> string option" where
  "non_empty s = (if s = [] then None else Some s)"

definition row_conflict :: "relay_row \<Rightarrow> relay_row \<Rightarrow> bool" where
  "row_conflict a b \<longleftrightarrow> m_recipient a = m_recipient b \<and>
     (m_task_id a = m_task_id b \<or>
      m_issuer a \<noteq> None \<and> m_nonce a \<noteq> None \<and> m_issuer a = m_issuer b \<and> m_nonce a = m_nonce b)"

definition new_row :: "string \<Rightarrow> string \<Rightarrow> string \<Rightarrow> string \<Rightarrow> string \<Rightarrow> relay_row" where
  "new_row recipient task_id payload issuer nonce =
     \<lparr>m_recipient = recipient, m_task_id = task_id, m_issuer = non_empty issuer, m_nonce = non_empty nonce,
      m_payload = payload, m_attempts = 0, m_accepted = False, m_acked = False, m_confirmed = False,
      m_receipt = None\<rparr>"

definition enqueue :: "relay_store \<Rightarrow> string \<Rightarrow> string \<Rightarrow> string \<Rightarrow> string \<Rightarrow> string \<Rightarrow> bool \<times> relay_store" where
  "enqueue db recipient task_id payload issuer nonce =
     (let row = new_row recipient task_id payload issuer nonce in
      if \<exists>r \<in> set db. row_conflict r row then (False, db) else (True, db @ [row]))"

text \<open>\<open>UPDATE messages SET ... WHERE recipient = ? AND task_id = ? AND p\<close>, with \<open>rowcount == 1\<close>.\<close>

definition at_key :: "string \<Rightarrow> string \<Rightarrow> relay_row \<Rightarrow> bool" where
  "at_key recipient task_id r \<longleftrightarrow> m_recipient r = recipient \<and> m_task_id r = task_id"

definition update_where :: "(relay_row \<Rightarrow> bool) \<Rightarrow> (relay_row \<Rightarrow> relay_row) \<Rightarrow> relay_store \<Rightarrow> bool \<times> relay_store" where
  "update_where p f db = (length (filter p db) = 1, map (\<lambda>r. if p r then f r else r) db)"

definition pending_rows :: "relay_store \<Rightarrow> string \<Rightarrow> string list \<Rightarrow> relay_row list" where
  "pending_rows db recipient exclude =
     filter (\<lambda>r. m_recipient r = recipient \<and> \<not> m_acked r \<and> m_task_id r \<notin> set exclude) db"

definition pending :: "relay_store \<Rightarrow> string \<Rightarrow> string list \<Rightarrow> relay_message list \<times> relay_store" where
  "pending db recipient exclude =
     (let rows = pending_rows db recipient exclude in
      (map (\<lambda>r. \<lparr>rm_recipient = recipient, rm_task_id = m_task_id r, rm_payload = m_payload r,
                 rm_attempts = m_attempts r + 1\<rparr>) rows,
       map (\<lambda>r. if m_recipient r = recipient \<and> \<not> m_acked r \<and> m_task_id r \<notin> set exclude
                then r\<lparr>m_attempts := m_attempts r + 1\<rparr> else r) db))"

definition ack :: "relay_store \<Rightarrow> string \<Rightarrow> string \<Rightarrow> string \<Rightarrow> bool \<times> relay_store" where
  "ack db recipient task_id receipt =
     update_where (\<lambda>r. at_key recipient task_id r \<and> m_accepted r \<and> \<not> m_acked r \<and> m_receipt r = None)
       (\<lambda>r. r\<lparr>m_acked := True, m_receipt := Some receipt\<rparr>) db"

definition accept :: "relay_store \<Rightarrow> string \<Rightarrow> string \<Rightarrow> bool \<times> relay_store" where
  "accept db recipient task_id =
     update_where (\<lambda>r. at_key recipient task_id r \<and> \<not> m_accepted r) (\<lambda>r. r\<lparr>m_accepted := True\<rparr>) db"

definition confirm_receipt :: "relay_store \<Rightarrow> string \<Rightarrow> string \<Rightarrow> bool \<times> relay_store" where
  "confirm_receipt db recipient task_id =
     update_where (\<lambda>r. at_key recipient task_id r \<and> m_receipt r \<noteq> None \<and> \<not> m_confirmed r)
       (\<lambda>r. r\<lparr>m_confirmed := True\<rparr>) db"

definition task_state :: "relay_store \<Rightarrow> string \<Rightarrow> string \<Rightarrow> relay_row option" where
  "task_state db recipient task_id = find (at_key recipient task_id) db"

definition stored_receipt :: "relay_store \<Rightarrow> string \<Rightarrow> string \<Rightarrow> string option" where
  "stored_receipt db recipient task_id = Option.bind (task_state db recipient task_id) m_receipt"

definition stored_receipts :: "relay_store \<Rightarrow> string \<Rightarrow> string list" where
  "stored_receipts db recipient =
     map (\<lambda>r. the (m_receipt r)) (filter (\<lambda>r. m_recipient r = recipient \<and> m_receipt r \<noteq> None \<and> \<not> m_confirmed r) db)"

record relay_metrics =
  mt_accepted :: nat
  mt_acked :: nat
  mt_confirmed :: nat
  mt_delivered :: nat
  mt_queued :: nat

definition relay_metrics :: "relay_store \<Rightarrow> relay_metrics" where
  "relay_metrics db = \<lparr>mt_accepted = length (filter m_accepted db), mt_acked = length (filter m_acked db),
     mt_confirmed = length (filter m_confirmed db), mt_delivered = sum_list (map m_attempts db),
     mt_queued = length db\<rparr>"

section \<open>Invariant\<close>

definition row_inv :: "relay_row \<Rightarrow> bool" where
  "row_inv r \<longleftrightarrow> (m_acked r \<longleftrightarrow> m_receipt r \<noteq> None) \<and> (m_acked r \<longrightarrow> m_accepted r) \<and>
     (m_confirmed r \<longrightarrow> m_acked r)"

definition relay_inv :: "relay_store \<Rightarrow> bool" where
  "relay_inv db \<longleftrightarrow> list_all row_inv db \<and> sorted_wrt (\<lambda>a b. \<not> row_conflict a b) db"

text \<open>One call of the store.\<close>

datatype relay_cmd =
    Enqueue string string string string string
  | Pending string "string list"
  | Accept string string
  | Ack string string string
  | Confirm string string

fun relay_op :: "relay_store \<Rightarrow> relay_cmd \<Rightarrow> relay_store" where
  "relay_op db (Enqueue r t p i n) = snd (enqueue db r t p i n)"
| "relay_op db (Pending r ex) = snd (pending db r ex)"
| "relay_op db (Accept r t) = snd (accept db r t)"
| "relay_op db (Ack r t receipt) = snd (ack db r t receipt)"
| "relay_op db (Confirm r t) = snd (confirm_receipt db r t)"

text \<open>An update in place keeps the identity of every row.\<close>

definition same_identity :: "relay_row \<Rightarrow> relay_row \<Rightarrow> bool" where
  "same_identity a b \<longleftrightarrow> m_recipient a = m_recipient b \<and> m_task_id a = m_task_id b \<and>
     m_issuer a = m_issuer b \<and> m_nonce a = m_nonce b \<and> m_payload a = m_payload b"

lemma row_conflict_cong:
  "same_identity a a' \<Longrightarrow> same_identity b b' \<Longrightarrow> row_conflict a b \<longleftrightarrow> row_conflict a' b'"
  by (auto simp: same_identity_def row_conflict_def)

lemma row_conflict_sym: "row_conflict a b \<Longrightarrow> row_conflict b a"
  by (auto simp: row_conflict_def)

lemma sorted_wrt_map_identity:
  "(\<And>r. r \<in> set db \<Longrightarrow> same_identity r (f r)) \<Longrightarrow>
   sorted_wrt (\<lambda>a b. \<not> row_conflict a b) (map f db) \<longleftrightarrow> sorted_wrt (\<lambda>a b. \<not> row_conflict a b) db"
proof (induction db)
  case (Cons a db)
  then have "row_conflict (f a) (f x) \<longleftrightarrow> row_conflict a x" if "x \<in> set db" for x
    using that row_conflict_cong [of a "f a" x "f x"] by simp
  with Cons show ?case by simp
qed simp

lemma relay_inv_map:
  assumes "relay_inv db" "\<And>r. r \<in> set db \<Longrightarrow> same_identity r (f r) \<and> (row_inv r \<longrightarrow> row_inv (f r))"
  shows "relay_inv (map f db)"
  using assms by (auto simp: relay_inv_def sorted_wrt_map_identity list_all_iff)

text \<open>Every operation but \<open>enqueue\<close> works on the rows one by one.\<close>

fun row_op :: "relay_cmd \<Rightarrow> relay_row \<Rightarrow> relay_row" where
  "row_op (Enqueue _ _ _ _ _) r = r"
| "row_op (Pending rc ex) r =
     (if m_recipient r = rc \<and> \<not> m_acked r \<and> m_task_id r \<notin> set ex then r\<lparr>m_attempts := m_attempts r + 1\<rparr> else r)"
| "row_op (Accept rc t) r = (if at_key rc t r \<and> \<not> m_accepted r then r\<lparr>m_accepted := True\<rparr> else r)"
| "row_op (Ack rc t receipt) r =
     (if at_key rc t r \<and> m_accepted r \<and> \<not> m_acked r \<and> m_receipt r = None
      then r\<lparr>m_acked := True, m_receipt := Some receipt\<rparr> else r)"
| "row_op (Confirm rc t) r =
     (if at_key rc t r \<and> m_receipt r \<noteq> None \<and> \<not> m_confirmed r then r\<lparr>m_confirmed := True\<rparr> else r)"

lemma map_row_op_Enqueue [simp]: "map (row_op (Enqueue r t p i n)) db = db"
  by (simp add: map_idI)

lemma relay_op_rows:
  "relay_op db c = map (row_op c) db \<or>
   (\<exists>r t p i n. c = Enqueue r t p i n \<and> (\<forall>x \<in> set db. \<not> row_conflict x (new_row r t p i n)) \<and>
      relay_op db c = db @ [new_row r t p i n])"
  by (cases c) (auto simp: enqueue_def pending_def accept_def ack_def confirm_receipt_def update_where_def Let_def)

lemma row_op_identity: "same_identity r (row_op c r)"
  by (cases c) (auto simp: same_identity_def)

lemma row_op_inv: "row_inv r \<Longrightarrow> row_inv (row_op c r)"
  by (cases c) (auto simp: row_inv_def)

lemma row_inv_new: "row_inv (new_row r t p i n)"
  by (simp add: row_inv_def new_row_def)

lemma relay_op_inv:
  assumes "relay_inv db"
  shows "relay_inv (relay_op db c)"
  using relay_op_rows [of db c]
proof
  assume "relay_op db c = map (row_op c) db"
  with assms show ?thesis by (auto intro: relay_inv_map row_op_identity row_op_inv)
next
  assume "\<exists>r t p i n. c = Enqueue r t p i n \<and> (\<forall>x \<in> set db. \<not> row_conflict x (new_row r t p i n)) \<and>
      relay_op db c = db @ [new_row r t p i n]"
  with assms show ?thesis by (auto simp: relay_inv_def row_inv_new sorted_wrt_append)
qed

section \<open>Phases\<close>

datatype phase = Queued | Accepted | Acknowledged | Confirmed

definition phase_of :: "relay_row \<Rightarrow> phase" where
  "phase_of r = (if m_confirmed r then Confirmed else if m_acked r then Acknowledged
     else if m_accepted r then Accepted else Queued)"

inductive phase_step :: "phase \<Rightarrow> phase \<Rightarrow> bool" where
  stay: "phase_step p p"
| accepted: "phase_step Queued Accepted"
| acknowledged: "phase_step Accepted Acknowledged"
| confirmed: "phase_step Acknowledged Confirmed"

inductive_simps phase_step_simps [simp]:
  "phase_step Queued p" "phase_step Accepted p" "phase_step Acknowledged p" "phase_step Confirmed p"

text \<open>The rows refine the four-phase machine.\<close>

lemma row_op_phase: "row_inv r \<Longrightarrow> phase_step (phase_of r) (phase_of (row_op c r))"
  by (cases c) (auto simp: row_inv_def phase_of_def at_key_def intro: phase_step.intros)

text \<open>A row after an operation has the same index.\<close>

lemma relay_op_nth:
  assumes "i < length db"
  shows "i < length (relay_op db c)" "relay_op db c ! i = row_op c (db ! i)"
proof -
  have "relay_op db c = map (row_op c) db \<or> (\<exists>x. relay_op db c = map (row_op c) db @ [x])"
    using relay_op_rows [of db c] by (auto simp: map_idI)
  with assms show "i < length (relay_op db c)" "relay_op db c ! i = row_op c (db ! i)"
    by (auto simp: nth_append)
qed

lemma row_op_receipt: "m_receipt r = Some x \<Longrightarrow> m_receipt (row_op c r) = Some x"
  by (cases c) auto

definition relay_run :: "relay_store \<Rightarrow> relay_cmd list \<Rightarrow> relay_store" where
  "relay_run db cs = foldl relay_op db cs"

lemma relay_run_inv: "relay_inv db \<Longrightarrow> relay_inv (relay_run db cs)"
  by (induction cs arbitrary: db) (auto simp: relay_run_def relay_op_inv)

lemma relay_run_nth:
  "i < length db \<Longrightarrow> i < length (relay_run db cs) \<and>
     same_identity (db ! i) (relay_run db cs ! i) \<and>
     (m_receipt (db ! i) = Some x \<longrightarrow> m_receipt (relay_run db cs ! i) = Some x)"
proof (induction cs arbitrary: db)
  case (Cons c cs)
  from Cons.IH [of "relay_op db c"] relay_op_nth [OF Cons.prems, of c] row_op_identity [of "db ! i" c]
    row_op_receipt [of "db ! i" x c]
  show ?case by (auto simp: relay_run_def same_identity_def)
qed (simp add: relay_run_def same_identity_def)

lemma relay_op_length: "length (relay_op db c) \<le> Suc (length db)"
  using relay_op_rows [of db c] by auto

lemma relay_run_length: "length (relay_run db cs) \<le> length db + length cs"
proof (induction cs arbitrary: db)
  case (Cons c cs)
  from Cons.IH [of "relay_op db c"] relay_op_length [of db c] show ?case by (simp add: relay_run_def)
qed (simp add: relay_run_def)

text \<open>Under the invariant the key of a row identifies it.\<close>

lemma relay_inv_key:
  assumes "relay_inv db" "r \<in> set db" "at_key rc t r"
  shows "task_state db rc t = Some r"
  using assms
proof (induction db)
  case (Cons x db)
  show ?case
  proof (cases "at_key rc t x")
    case True
    with Cons.prems have "r = x"
      by (auto simp: relay_inv_def at_key_def row_conflict_def)
    with True show ?thesis by (simp add: task_state_def)
  next
    case False
    with Cons show ?thesis by (auto simp: task_state_def relay_inv_def)
  qed
qed simp

lemma task_state_Some: "task_state db rc t = Some r \<Longrightarrow> r \<in> set db \<and> at_key rc t r"
  by (auto simp: task_state_def find_Some_iff)

lemma filter_key_length:
  "relay_inv db \<Longrightarrow> length (filter (at_key rc t) db) \<le> 1"
proof (induction db)
  case (Cons x db)
  show ?case
  proof (cases "at_key rc t x")
    case True
    with Cons.prems have "filter (at_key rc t) db = []"
      by (auto simp: filter_empty_conv relay_inv_def at_key_def row_conflict_def)
    with True show ?thesis by simp
  next
    case False
    with Cons show ?thesis by (simp add: relay_inv_def)
  qed
qed simp

lemma update_where_key:
  assumes inv: "relay_inv db"
  shows "fst (update_where (\<lambda>r. at_key rc t r \<and> P r) f db) \<longleftrightarrow> (\<exists>r. task_state db rc t = Some r \<and> P r)"
proof
  assume "fst (update_where (\<lambda>r. at_key rc t r \<and> P r) f db)"
  then have "filter (\<lambda>r. at_key rc t r \<and> P r) db \<noteq> []" by (auto simp: update_where_def)
  then obtain r where "r \<in> set db" "at_key rc t r" "P r" by (auto simp: filter_empty_conv)
  with relay_inv_key [OF inv] show "\<exists>r. task_state db rc t = Some r \<and> P r" by blast
next
  assume "\<exists>r. task_state db rc t = Some r \<and> P r"
  then obtain r where r: "r \<in> set db" "at_key rc t r" "P r" using task_state_Some by blast
  then have "0 < length (filter (\<lambda>r. at_key rc t r \<and> P r) db)" by (auto simp: filter_empty_conv)
  moreover have "length (filter (\<lambda>r. at_key rc t r \<and> P r) db) \<le> length (filter (at_key rc t) db)"
    by (induction db) auto
  ultimately show "fst (update_where (\<lambda>r. at_key rc t r \<and> P r) f db)"
    using filter_key_length [OF inv, of rc t] unfolding update_where_def fst_conv by linarith
qed

text \<open>\<open>ack\<close> succeeds exactly on an accepted task without receipt, and records the receipt.\<close>

lemma ack_iff:
  "relay_inv db \<Longrightarrow> fst (ack db rc t receipt) \<longleftrightarrow>
     (\<exists>r. task_state db rc t = Some r \<and> m_accepted r \<and> m_receipt r = None)"
proof -
  assume inv: "relay_inv db"
  have "\<not> m_acked r \<longleftrightarrow> m_receipt r = None" if "task_state db rc t = Some r" for r
    using task_state_Some [OF that] inv by (auto simp: relay_inv_def row_inv_def list_all_iff)
  then show ?thesis unfolding ack_def update_where_key [OF inv] by blast
qed

lemma task_state_map:
  "(\<And>r. same_identity r (f r)) \<Longrightarrow> task_state (map f db) rc t = map_option f (task_state db rc t)"
  by (induction db) (auto simp: task_state_def at_key_def same_identity_def)

lemma ack_receipt:
  assumes inv: "relay_inv db" and a: "ack db rc t receipt = (True, db')"
  shows "stored_receipt db' rc t = Some receipt"
proof -
  from a ack_iff [OF inv] obtain r where r: "task_state db rc t = Some r" "m_accepted r" "m_receipt r = None"
    by (metis fst_conv)
  have "db' = map (row_op (Ack rc t receipt)) db" using a by (auto simp: ack_def update_where_def)
  moreover have "\<not> m_acked r" "at_key rc t r"
    using task_state_Some [OF r(1)] inv r(3) by (auto simp: relay_inv_def row_inv_def list_all_iff)
  ultimately show ?thesis
    using r by (simp add: stored_receipt_def task_state_map row_op_identity del: row_op.simps) simp
qed

lemma metrics_bounds:
  assumes "relay_inv db"
  shows "mt_confirmed (relay_metrics db) \<le> mt_acked (relay_metrics db)"
    "mt_acked (relay_metrics db) \<le> mt_accepted (relay_metrics db)"
    "mt_accepted (relay_metrics db) \<le> mt_queued (relay_metrics db)"
proof -
  have le: "length (filter P db) \<le> length (filter Q db)" if "\<And>r. r \<in> set db \<Longrightarrow> P r \<Longrightarrow> Q r" for P Q
    using that by (induction db) auto
  from assms have "\<And>r. r \<in> set db \<Longrightarrow> row_inv r" by (auto simp: relay_inv_def list_all_iff)
  then show "mt_confirmed (relay_metrics db) \<le> mt_acked (relay_metrics db)"
    "mt_acked (relay_metrics db) \<le> mt_accepted (relay_metrics db)"
    "mt_accepted (relay_metrics db) \<le> mt_queued (relay_metrics db)"
    by (auto simp: relay_metrics_def row_inv_def intro!: le)
qed

end
