(* ===== verification/RelayServer.thy ===== *)
theory RelayServer
  imports M4Network Challenge RelayStore
begin

text \<open>
  \<^verbatim>\<open>relay_server.py\<close>: the checks the hub and the nodes share (bootstrap, profile binding, tasks,
  receipts), authentication of a connection and the handling of one message of an authenticated
  node. A connection keeps its node and the tasks that were delivered over it; the hub keeps the
  store, the accepted receipts and the counters. Latencies and sockets are not modelled. The
  theorems say what a receipt must satisfy to be recorded.
\<close>

section \<open>Shared checks\<close>

definition parse_client_message :: "string \<Rightarrow> json res" where
  "parse_client_message t =
     (case json_loads t of
        Some (JObj d) \<Rightarrow> Inr (JObj d)
      | _ \<Rightarrow> le_error ''malformed_message'' [])"

fun any_equal :: "string \<Rightarrow> json list \<Rightarrow> bool" where
  "any_equal encoded [] \<longleftrightarrow> False"
| "any_equal encoded (m # ms) \<longleftrightarrow> canonical_json_bytes m = encoded \<or> any_equal encoded ms"

definition verify_relay_profile_binding :: "ext \<Rightarrow> json \<Rightarrow> json \<Rightarrow> unit res" where
  "verify_relay_profile_binding E signed_profile bootstrap =
     bindE (jget signed_profile ''chain_id'') (\<lambda>pc. bindE (jget bootstrap ''chain_id'') (\<lambda>bc.
     bindE (ensure (py_eq pc bc) ''wrong_chain_id'' []) (\<lambda>_.
     bindE (addr_item E signed_profile ''registry'') (\<lambda>pr. bindE (addr_item E bootstrap ''registry'') (\<lambda>br.
     bindE (ensure (pr = br) ''wrong_registry'' []) (\<lambda>_.
     bindE (jget_or bootstrap ''directory'' (JArr [])) (\<lambda>directory. bindE (jlist directory) (\<lambda>members.
     ensure (any_equal (canonical_json_bytes signed_profile) members) ''profile_not_in_directory'' []))))))))"

text \<open>A lookup in a dictionary of verifiers by schema version: an unhashable version raises, an
  unknown one gives \<open>None\<close>.\<close>

definition by_schema :: "json \<Rightarrow> (string \<times> 'a) list \<Rightarrow> 'a option res" where
  "by_schema schema_version table =
     (case schema_version of
        JStr s \<Rightarrow> Inr (map_of table s)
      | JArr _ \<Rightarrow> Inl TypeError
      | JObj _ \<Rightarrow> Inl TypeError
      | _ \<Rightarrow> Inr None)"

definition verify_relay_bootstrap :: "ext \<Rightarrow> json \<Rightarrow> int \<Rightarrow> bool res" where
  "verify_relay_bootstrap E bootstrap now =
     bindE (jget bootstrap ''schema_version'') (\<lambda>sv.
     bindE (by_schema sv [(''loveengine.bootstrap-bundle/1'', verify_bootstrap E),
                          (''loveengine.bootstrap-bundle/2'', verify_bootstrap_v2 E)]) (\<lambda>verifier.
     case verifier of
       None \<Rightarrow> le_error ''unsupported_bootstrap_schema'' (py_str sv)
     | Some verify \<Rightarrow>
         bindE (jget bootstrap ''chain_id'') (\<lambda>c. bindE (jget bootstrap ''registry'') (\<lambda>r.
         verify bootstrap c r now))))"

definition PROFILE_TASK_SCHEMAS :: "(string \<times> string) list" where
  "PROFILE_TASK_SCHEMAS =
     [(''loveengine.signed-agent-node-profile/1'', ''loveengine.network-task/1''),
      (''loveengine.signed-agent-node-profile/2'', ''loveengine.network-task/2'')]"

text \<open>\<open>x in v\<close> for a value \<open>x\<close> of the message.\<close>

definition member_of :: "json \<Rightarrow> json \<Rightarrow> bool res" where
  "member_of x v = (case v of
       JArr vs \<Rightarrow> Inr (list_ex (py_eq x) vs)
     | JStr s \<Rightarrow> (case x of JStr k \<Rightarrow> Inr (py_contains s k) | _ \<Rightarrow> Inl TypeError)
     | JObj d \<Rightarrow> (case x of JStr k \<Rightarrow> Inr (map_of d k \<noteq> None) | JArr _ \<Rightarrow> Inl TypeError
                     | JObj _ \<Rightarrow> Inl TypeError | _ \<Rightarrow> Inr False)
     | _ \<Rightarrow> Inl TypeError)"

definition issuer_allowed :: "ext \<Rightarrow> json list option \<Rightarrow> string \<Rightarrow> unit res" where
  "issuer_allowed E allowed_issuers signer =
     (case allowed_issuers of
        None \<Rightarrow> Inr ()
      | Some issuers \<Rightarrow>
          bindE (mapE (\<lambda>i. bindE (to_checksum_address E i) (\<lambda>a. Inr (py_lower a))) issuers) (\<lambda>allowed.
          ensure (py_lower signer \<in> set allowed) ''wrong_issuer'' []))"

definition verify_task_for_node ::
    "ext \<Rightarrow> json \<Rightarrow> json \<Rightarrow> json option \<Rightarrow> json list option \<Rightarrow> json \<Rightarrow> int \<Rightarrow> string res" where
  "verify_task_for_node E task signed_profile expected_issuer allowed_issuers expected_manifest_hash now =
     bindE (jget task ''schema_version'') (\<lambda>sv.
     bindE (by_schema sv [(''loveengine.network-task/1'', verify_task E),
                          (''loveengine.network-task/2'', verify_task_v2 E)]) (\<lambda>verifier.
     case verifier of
       None \<Rightarrow> le_error ''unsupported_schema_version'' (py_str sv)
     | Some verify \<Rightarrow>
         bindE (jget signed_profile ''schema_version'') (\<lambda>psv.
         bindE (by_schema psv PROFILE_TASK_SCHEMAS) (\<lambda>expected_schema.
         bindE (ensure (case expected_schema of Some s \<Rightarrow> sv = JStr s | None \<Rightarrow> False)
                  ''task_profile_schema_mismatch'' []) (\<lambda>_.
         bindE (jitem signed_profile ''chain_id'') (\<lambda>chain_id.
         bindE (jitem signed_profile ''registry'') (\<lambda>registry.
         bindE (jitem2 signed_profile ''profile'' ''node'') (\<lambda>node.
         bindE (verify task chain_id registry node expected_issuer (Some expected_manifest_hash) now) (\<lambda>signer.
         bindE (issuer_allowed E allowed_issuers signer) (\<lambda>_.
         bindE (jitem task ''task_type'') (\<lambda>task_type.
         bindE (jitem2 signed_profile ''profile'' ''capabilities'') (\<lambda>capabilities.
         bindE (member_of task_type capabilities) (\<lambda>declared.
         bindE (ensure declared ''capability_not_declared'' (py_str task_type)) (\<lambda>_.
         Inr signer))))))))))))))"

definition verify_profile :: "ext \<Rightarrow> json \<Rightarrow> int \<Rightarrow> string res" where
  "verify_profile E signed_profile now =
     bindE (jget signed_profile ''schema_version'') (\<lambda>sv.
     if sv = JStr ''loveengine.signed-agent-node-profile/2'' then verify_node_profile_v2 E signed_profile now None None
     else if sv = JStr ''loveengine.signed-agent-node-profile/1'' then verify_node_profile E signed_profile now None None
     else le_error ''unsupported_schema_version'' (py_str sv))"

definition verify_relay_receipt :: "ext \<Rightarrow> json \<Rightarrow> json \<Rightarrow> json \<Rightarrow> json option \<Rightarrow> string res" where
  "verify_relay_receipt E receipt chain_id registry expected_node =
     bindE (jget receipt ''schema_version'') (\<lambda>sv.
     bindE (if sv = JStr ''loveengine.task-receipt/2'' then verify_receipt_v2 E receipt chain_id registry
            else if sv = JStr ''loveengine.task-receipt/1'' then verify_receipt E receipt chain_id registry
            else le_error ''unsupported_schema_version'' (py_str sv)) (\<lambda>signer.
     bindE (when_some expected_node (\<lambda>n. bindE (to_checksum_address E n) (\<lambda>a.
        ensure (signer = a) ''wrong_receipt_node'' []))) (\<lambda>_.
     Inr signer)))"

section \<open>JSON text with ASCII escapes\<close>

text \<open>\<open>json.dumps(v, sort_keys=True)\<close>: the default separators, and every character outside
  printable ASCII as \<open>\uXXXX\<close>. A byte that does not start a UTF-8 sequence stands for itself; Python
  strings have none.\<close>

fun code_points :: "string \<Rightarrow> nat list" where
  "code_points (a # b # c # d # s) =
     (if 240 \<le> ord_char a then ((ord_char a - 240) * 262144 + (ord_char b - 128) * 4096 + (ord_char c - 128) * 64
          + (ord_char d - 128)) # code_points s
      else if 224 \<le> ord_char a then ((ord_char a - 224) * 4096 + (ord_char b - 128) * 64 + (ord_char c - 128)) # code_points (d # s)
      else if 192 \<le> ord_char a then ((ord_char a - 192) * 64 + (ord_char b - 128)) # code_points (c # d # s)
      else ord_char a # code_points (b # c # d # s))"
| "code_points [a, b, c] =
     (if 224 \<le> ord_char a then [(ord_char a - 224) * 4096 + (ord_char b - 128) * 64 + (ord_char c - 128)]
      else if 192 \<le> ord_char a then ((ord_char a - 192) * 64 + (ord_char b - 128)) # code_points [c]
      else ord_char a # code_points [b, c])"
| "code_points [a, b] =
     (if 192 \<le> ord_char a then [(ord_char a - 192) * 64 + (ord_char b - 128)] else ord_char a # code_points [b])"
| "code_points [a] = [ord_char a]"
| "code_points [] = []"

definition u_escape :: "nat \<Rightarrow> string" where
  "u_escape n = [CHR 0x5C, CHR ''u'', hex_digit (n div 4096 mod 16), hex_digit (n div 256 mod 16),
     hex_digit (n div 16 mod 16), hex_digit (n mod 16)]"

definition ascii_escape :: "nat \<Rightarrow> string" where
  "ascii_escape n =
     (if n < 127 then esc_char (char_of n)
      else if n < 65536 then u_escape n
      else u_escape (55296 + (n - 65536) div 1024) @ u_escape (56320 + (n - 65536) mod 1024))"

definition quote_ascii :: "string \<Rightarrow> string" where
  "quote_ascii s = CHR 0x22 # concat (map ascii_escape (code_points s)) @ [CHR 0x22]"

fun dumps_ascii :: "json \<Rightarrow> string" where
  "dumps_ascii (JStr s) = quote_ascii s"
| "dumps_ascii (JArr vs) = ''['' @ join '', '' (map dumps_ascii vs) @ '']''"
| "dumps_ascii (JObj d) =
     ''{'' @ join '', '' (map (\<lambda>kv. quote_ascii (fst kv) @ '': '' @ snd kv)
        (sort_key fst (map (\<lambda>kv. (fst kv, dumps_ascii (snd kv))) d))) @ ''}''"
| "dumps_ascii v = canonical_json_bytes v"

section \<open>The hub\<close>

record hub =
  h_store :: relay_store
  h_bootstrap :: json
  h_connected :: "string list"
  h_receipts :: "json list"
  h_rejected :: nat
  h_drop :: "string list"
  h_drops :: "string list"

record connection =
  c_node :: string
  c_starts :: "string list"

definition reject :: "hub \<Rightarrow> hub" where
  "reject h = h\<lparr>h_rejected := h_rejected h + 1\<rparr>"

text \<open>Error replies; the message of the exception is left out.\<close>

definition error_reply :: "string \<Rightarrow> json" where
  "error_reply code = JObj [(''type'', JStr ''error''), (''code'', JStr code)]"

text \<open>The authentication of a connection after the challenge was sent: any exception is a failure.\<close>

definition authenticate :: "ext \<Rightarrow> json \<Rightarrow> int \<Rightarrow> json \<Rightarrow> json \<Rightarrow> string res" where
  "authenticate E bootstrap now challenge auth =
     bindE (jitem auth ''profile'') (\<lambda>profile.
     bindE (verify_relay_profile_binding E profile bootstrap) (\<lambda>_.
     bindE (verify_profile E profile now) (\<lambda>node.
     bindE (relay_challenge_signing_text E challenge (JStr node)) (\<lambda>t.
     bindE (jitem auth ''challenge_signature'') (\<lambda>signature.
     bindE (recover_text E t signature) (\<lambda>recovered.
     if recovered \<noteq> node then Inl ValueError else Inr node))))))"

definition hub_authenticate :: "ext \<Rightarrow> int \<Rightarrow> hub \<Rightarrow> json \<Rightarrow> json \<Rightarrow> hub \<times> (json + connection) res" where
  "hub_authenticate E now h challenge auth =
     (case jget auth ''type'' of
        Inl e \<Rightarrow> (h, Inl e)
      | Inr ty \<Rightarrow>
          if ty \<noteq> JStr ''authenticate'' then (reject h, Inr (Inl (error_reply ''authentication_required'')))
          else (case authenticate E (h_bootstrap h) now challenge auth of
              Inl e \<Rightarrow> (reject h, Inr (Inl (error_reply ''authentication_failed'')))
            | Inr node \<Rightarrow> (h\<lparr>h_connected := List.insert node (h_connected h)\<rparr>,
                           Inr (Inr \<lparr>c_node = node, c_starts = []\<rparr>))))"

text \<open>One pass of the delivery loop over the pending messages: each is marked as started before it
  is sent, and a payload that does not decode ends the loop.\<close>

fun deliver_messages :: "relay_message list \<Rightarrow> string list \<Rightarrow> json list \<Rightarrow> string list \<times> json list res" where
  "deliver_messages [] starts sent = (starts, Inr sent)"
| "deliver_messages (m # ms) starts sent =
     (case load_json (rm_payload m) of
        Inl e \<Rightarrow> (rm_task_id m # starts, Inl e)
      | Inr task \<Rightarrow>
          deliver_messages ms (rm_task_id m # starts)
            (sent @ [JObj [(''type'', JStr ''task''), (''attempt'', JInt (int (rm_attempts m))), (''task'', task)]]))"

definition deliver_pending :: "hub \<Rightarrow> connection \<Rightarrow> (hub \<times> connection) \<times> json list res" where
  "deliver_pending h c =
     (case pending (h_store h) (c_node c) (c_starts c) of
        (ms, store) \<Rightarrow>
          (case deliver_messages ms (c_starts c) [] of
             (starts, r) \<Rightarrow> ((h\<lparr>h_store := store\<rparr>, c\<lparr>c_starts := starts\<rparr>), r)))"

definition RECEIPT_SCHEMAS :: "(string \<times> string) list" where
  "RECEIPT_SCHEMAS =
     [(''loveengine.network-task/1'', ''loveengine.task-receipt/1''),
      (''loveengine.network-task/2'', ''loveengine.task-receipt/2'')]"

text \<open>\<open>receipt.get("schema_version") != {...}.get(queued_task.get("schema_version"))\<close>.\<close>

definition receipt_schema_matches :: "json \<Rightarrow> json \<Rightarrow> bool res" where
  "receipt_schema_matches receipt queued_task =
     bindE (jget queued_task ''schema_version'') (\<lambda>tsv.
     bindE (by_schema tsv RECEIPT_SCHEMAS) (\<lambda>expected.
     bindE (jget receipt ''schema_version'') (\<lambda>rsv.
     Inr (case expected of Some s \<Rightarrow> rsv = JStr s | None \<Rightarrow> rsv = JNull))))"

text \<open>The checks on a receipt message, in the order of the code; the result is the receipt and its
  task identifier.\<close>

definition check_receipt :: "ext \<Rightarrow> hub \<Rightarrow> connection \<Rightarrow> json \<Rightarrow> (json \<times> string) res" where
  "check_receipt E h c value =
     bindE (jitem value ''receipt'') (\<lambda>receipt.
     bindE (jget receipt ''task_id'') (\<lambda>tid.
     bindE (case tid of JStr t \<Rightarrow> if t \<in> set (c_starts c) then Inr t else le_error ''unassigned_receipt'' []
                      | _ \<Rightarrow> le_error ''unassigned_receipt'' []) (\<lambda>task_id.
     bindE (case task_state (h_store h) (c_node c) task_id of
               Some r \<Rightarrow> Inr r | None \<Rightarrow> le_error ''unassigned_receipt'' []) (\<lambda>state.
     bindE (ensure (\<not> (m_acked state \<or> m_receipt state \<noteq> None)) ''duplicate_receipt'' []) (\<lambda>_.
     bindE (ensure (m_accepted state) ''task_not_accepted'' []) (\<lambda>_.
     bindE (load_json (m_payload state)) (\<lambda>queued_task.
     bindE (jget queued_task ''task_id'') (\<lambda>qid.
     bindE (ensure (qid = JStr task_id) ''queued_task_mismatch'' []) (\<lambda>_.
     bindE (jget queued_task ''chain_id'') (\<lambda>qc. bindE (jitem (h_bootstrap h) ''chain_id'') (\<lambda>chain_id.
     bindE (ensure (py_eq qc chain_id) ''wrong_chain_id'' []) (\<lambda>_.
     bindE (addr_item E queued_task ''registry'') (\<lambda>qr.
     bindE (jitem (h_bootstrap h) ''registry'') (\<lambda>registry. bindE (to_checksum_address E registry) (\<lambda>br.
     bindE (ensure (qr = br) ''wrong_registry'' []) (\<lambda>_.
     bindE (addr_item E queued_task ''recipient'') (\<lambda>recipient.
     bindE (to_checksum_address E (JStr (c_node c))) (\<lambda>node.
     bindE (ensure (recipient = node) ''wrong_recipient'' []) (\<lambda>_.
     bindE (receipt_schema_matches receipt queued_task) (\<lambda>matches.
     bindE (ensure matches ''receipt_schema_mismatch'' []) (\<lambda>_.
     bindE (verify_relay_receipt E receipt chain_id registry (Some (JStr (c_node c)))) (\<lambda>_.
     bindE (jitem receipt ''nonce'') (\<lambda>rn. bindE (jitem queued_task ''nonce'') (\<lambda>qn.
     bindE (ensure (py_eq rn qn) ''receipt_nonce_mismatch'' []) (\<lambda>_.
     bindE (int_item receipt ''completed_at'') (\<lambda>completed_at.
     bindE (int_item queued_task ''deadline'') (\<lambda>deadline.
     bindE (ensure (completed_at \<le> deadline) ''receipt_after_deadline'' []) (\<lambda>_.
     Inr (receipt, task_id)))))))))))))))))))))))))))))"

definition error_code :: "string \<Rightarrow> exc \<Rightarrow> string" where
  "error_code default_code e = (case e of LoveEngineError c d n \<Rightarrow> c | _ \<Rightarrow> default_code)"

text \<open>A receipt message: the new hub, the replies, and whether the connection goes on.\<close>

definition handle_receipt :: "ext \<Rightarrow> hub \<Rightarrow> connection \<Rightarrow> json \<Rightarrow> hub \<times> json list \<times> bool" where
  "handle_receipt E h c value =
     (case check_receipt E h c value of
        Inl e \<Rightarrow> (reject h, [error_reply (error_code ''invalid_receipt'' e)], True)
      | Inr (receipt, task_id) \<Rightarrow>
          (case ack (h_store h) (c_node c) task_id (dumps_ascii receipt) of
             (False, store) \<Rightarrow> (reject (h\<lparr>h_store := store\<rparr>), [error_reply ''duplicate_receipt''], True)
           | (True, store) \<Rightarrow>
               (let h1 = h\<lparr>h_store := store, h_receipts := h_receipts h @ [receipt]\<rparr> in
                if task_id \<in> set (h_drop h1)
                then (h1\<lparr>h_drop := removeAll task_id (h_drop h1), h_drops := h_drops h1 @ [task_id]\<rparr>, [], False)
                else (h1, [JObj [(''type'', JStr ''ack''), (''task_id'', JStr task_id)]], True))))"

text \<open>One text message of an authenticated connection.\<close>

definition hub_message :: "ext \<Rightarrow> hub \<Rightarrow> connection \<Rightarrow> string \<Rightarrow> hub \<times> json list \<times> bool" where
  "hub_message E h c text =
     (case parse_client_message text of
        Inl e \<Rightarrow> (reject h, [error_reply (error_code [] e)], True)
      | Inr value \<Rightarrow>
          (let get = (\<lambda>k. case jget value k of Inr x \<Rightarrow> x | Inl _ \<Rightarrow> JNull); ty = get ''type'' in
           if ty = JStr ''heartbeat'' then (h, [JObj [(''type'', JStr ''heartbeat'')]], True)
           else if ty = JStr ''receipt_ack'' then
             (case get ''task_id'' of
                JStr task_id \<Rightarrow>
                  (case confirm_receipt (h_store h) (c_node c) task_id of
                     (True, store) \<Rightarrow> (h\<lparr>h_store := store\<rparr>, [JObj [(''type'', JStr ''ack''),
                        (''status'', JStr ''receipt_confirmed''), (''task_id'', JStr task_id)]], True)
                   | (False, store) \<Rightarrow> (reject (h\<lparr>h_store := store\<rparr>), [error_reply ''invalid_receipt_ack''], True))
              | _ \<Rightarrow> (reject h, [error_reply ''invalid_receipt_ack''], True))
           else if ty = JStr ''ack'' then
             (case get ''task_id'' of
                JStr task_id \<Rightarrow>
                  (if get ''status'' \<noteq> JStr ''accepted'' \<or> task_id \<notin> set (c_starts c)
                   then (reject h, [error_reply ''invalid_task_ack''], True)
                   else (h\<lparr>h_store := snd (accept (h_store h) (c_node c) task_id)\<rparr>, [], True))
              | _ \<Rightarrow> (reject h, [error_reply ''invalid_task_ack''], True))
           else if ty \<noteq> JStr ''receipt'' then (reject h, [error_reply ''unsupported_message''], True)
           else handle_receipt E h c value))"

definition queue_depth :: "hub \<Rightarrow> nat" where
  "queue_depth h = mt_queued (relay_metrics (h_store h)) - mt_acked (relay_metrics (h_store h))"

end
