(* ===== verification/RelayHub.thy ===== *)
theory RelayHub
  imports RelayServer
begin

text \<open>
  Runs of the hub of \<^verbatim>\<open>relay_server.py\<close>: tasks are queued, nodes connect and authenticate, the
  delivery loop of a connection sends its pending tasks and each connection's messages are
  handled one by one, in any interleaving. In the code a delivery pass counts the attempts of all
  its messages first and then sends them; here the pass is one step. The invariant relates the
  store, the receipts that the hub keeps and the connections.
\<close>

section \<open>Receipts in the store\<close>

definition receipts_of :: "relay_store \<Rightarrow> string multiset" where
  "receipts_of db = mset (map (\<lambda>r. the (m_receipt r)) (filter (\<lambda>r. m_receipt r \<noteq> None) db))"

lemma receipts_of_simps [simp]:
  "receipts_of [] = {#}"
  "receipts_of (r # db) = (case m_receipt r of None \<Rightarrow> receipts_of db | Some x \<Rightarrow> add_mset x (receipts_of db))"
  "receipts_of (db @ db') = receipts_of db + receipts_of db'"
  by (auto simp: receipts_of_def split: option.splits)

lemma receipts_of_map: "(\<And>r. r \<in> set db \<Longrightarrow> m_receipt (f r) = m_receipt r) \<Longrightarrow> receipts_of (map f db) = receipts_of db"
  by (induction db) (auto split: option.splits)

lemma receipts_of_update:
  assumes "\<And>r. r \<in> set db \<Longrightarrow> p r \<Longrightarrow> m_receipt r = None" "\<And>r. m_receipt (f r) = Some x"
  shows "receipts_of (map (\<lambda>r. if p r then f r else r) db)
    = receipts_of db + replicate_mset (length (filter p db)) x"
  using assms by (induction db) (auto split: option.splits)

lemma receipts_of_ack:
  "ack db rc t x = (True, db') \<Longrightarrow> receipts_of db' = add_mset x (receipts_of db)"
  unfolding ack_def update_where_def by (clarsimp, subst receipts_of_update [where x = x]) auto

lemma receipts_of_row_op:
  "(\<And>a b d. c \<noteq> Ack a b d) \<Longrightarrow> receipts_of (relay_op db c) = receipts_of db"
  using relay_op_rows [of db c]
proof
  assume "\<And>a b d. c \<noteq> Ack a b d" "relay_op db c = map (row_op c) db"
  then show ?thesis by (cases c) (auto intro!: receipts_of_map)
qed (auto simp: new_row_def)

lemma receipts_of_size: "relay_inv db \<Longrightarrow> size (receipts_of db) = mt_acked (relay_metrics db)"
proof -
  assume "relay_inv db"
  then have "filter (\<lambda>r. m_receipt r \<noteq> None) db = filter m_acked db"
    by (intro filter_cong) (auto simp: relay_inv_def row_inv_def list_all_iff)
  then show ?thesis by (simp add: receipts_of_def relay_metrics_def del: mset_filter not_None_eq)
qed

section \<open>Steps\<close>

type_synonym hub_state = "hub \<times> connection list"

inductive hub_step :: "ext \<Rightarrow> hub_state \<Rightarrow> hub_state \<Rightarrow> bool" for E where
  queue: "enqueue (h_store h) r t p i n = (b, store) \<Longrightarrow> hub_step E (h, cs) (h\<lparr>h_store := store\<rparr>, cs)"
| connect: "hub_authenticate E now h challenge auth = (h', Inr (Inr c)) \<Longrightarrow> hub_step E (h, cs) (h', c # cs)"
| refuse: "hub_authenticate E now h challenge auth = (h', r) \<Longrightarrow> (\<And>c. r \<noteq> Inr (Inr c)) \<Longrightarrow> hub_step E (h, cs) (h', cs)"
| deliver: "deliver_pending h c = ((h', c'), r) \<Longrightarrow> hub_step E (h, cs @ c # ds) (h', cs @ c' # ds)"
| message: "hub_message E h c m = (h', out, alive) \<Longrightarrow>
    hub_step E (h, cs @ c # ds) (h', cs @ (if alive then [c] else []) @ ds)"
| close: "hub_step E (h, cs @ c # ds) (h\<lparr>h_connected := removeAll (c_node c) (h_connected h)\<rparr>, cs @ ds)"

definition start_hub :: "json \<Rightarrow> string list \<Rightarrow> hub" where
  "start_hub bootstrap drop_once = \<lparr>h_store = [], h_bootstrap = bootstrap, h_connected = [], h_receipts = [],
     h_rejected = 0, h_drop = drop_once, h_drops = []\<rparr>"

inductive hub_reachable :: "ext \<Rightarrow> hub_state \<Rightarrow> bool" for E where
  start: "hub_reachable E (start_hub bootstrap drop_once, [])"
| step: "hub_reachable E s \<Longrightarrow> hub_step E s s' \<Longrightarrow> hub_reachable E s'"

section \<open>Invariant\<close>

definition delivered :: "relay_store \<Rightarrow> string \<Rightarrow> string \<Rightarrow> bool" where
  "delivered db rc t \<longleftrightarrow> (\<exists>r \<in> set db. at_key rc t r \<and> 0 < m_attempts r)"

definition store_ok :: "relay_store \<Rightarrow> bool" where
  "store_ok db \<longleftrightarrow> relay_inv db \<and> (\<forall>r \<in> set db. m_accepted r \<longrightarrow> 0 < m_attempts r)"

definition hub_inv :: "hub_state \<Rightarrow> bool" where
  "hub_inv s \<longleftrightarrow> (case s of (h, cs) \<Rightarrow> store_ok (h_store h) \<and>
     mset (map dumps_ascii (h_receipts h)) = receipts_of (h_store h) \<and>
     (\<forall>c \<in> set cs. \<forall>t \<in> set (c_starts c). delivered (h_store h) (c_node c) t))"

lemma relay_op_mem:
  assumes "r \<in> set db"
  shows "row_op c r \<in> set (relay_op db c)"
proof -
  from assms obtain i where i: "i < length db" "db ! i = r" by (auto simp: in_set_conv_nth)
  from relay_op_nth [OF i(1), of c] i(2) show ?thesis by (metis nth_mem)
qed

lemma row_op_attempts: "m_attempts r \<le> m_attempts (row_op c r)"
  by (cases c) auto

lemma delivered_mono: "delivered db rc t \<Longrightarrow> delivered (relay_op db c) rc t"
proof -
  assume "delivered db rc t"
  then obtain r where r: "r \<in> set db" "at_key rc t r" "0 < m_attempts r" by (auto simp: delivered_def)
  moreover have "at_key rc t (row_op c r)" using r(2) row_op_identity [of r c] by (simp add: at_key_def same_identity_def)
  moreover have "0 < m_attempts (row_op c r)" using r(3) row_op_attempts [of r c] by linarith
  ultimately show ?thesis using relay_op_mem [OF r(1), of c] by (auto simp: delivered_def)
qed

lemma store_ok_op:
  assumes ok: "store_ok db" and acc: "\<And>rc t. c = Accept rc t \<Longrightarrow> delivered db rc t"
  shows "store_ok (relay_op db c)"
proof -
  have inv: "relay_inv db" using ok by (simp add: store_ok_def)
  have row: "m_accepted (row_op c r) \<longrightarrow> 0 < m_attempts (row_op c r)" if r: "r \<in> set db" for r
  proof (cases c)
    case (Accept rc t)
    show ?thesis
    proof (cases "at_key rc t r")
      case True
      from acc [OF Accept] obtain r' where "r' \<in> set db" "at_key rc t r'" "0 < m_attempts r'"
        by (auto simp: delivered_def)
      with relay_inv_key [OF inv r True] relay_inv_key [OF inv, of r' rc t] have "0 < m_attempts r" by simp
      with Accept show ?thesis by simp
    next
      case False
      with Accept r ok show ?thesis by (simp add: store_ok_def)
    qed
  qed (use r ok in \<open>auto simp: store_ok_def\<close>)
  from relay_op_rows [of db c] show ?thesis
  proof
    assume "relay_op db c = map (row_op c) db"
    with row relay_op_inv [OF inv, of c] show ?thesis by (auto simp: store_ok_def)
  next
    assume "\<exists>r t p i n. c = Enqueue r t p i n \<and> (\<forall>x \<in> set db. \<not> row_conflict x (new_row r t p i n)) \<and>
      relay_op db c = db @ [new_row r t p i n]"
    with ok relay_op_inv [OF inv, of c] show ?thesis by (auto simp: store_ok_def new_row_def)
  qed
qed

lemma hub_inv_op:
  assumes "hub_inv (h, cs)" "\<And>a b d. c \<noteq> Ack a b d" "\<And>rc t. c = Accept rc t \<Longrightarrow> delivered (h_store h) rc t"
    and "h_store h' = relay_op (h_store h) c" "h_receipts h' = h_receipts h" "set cs' \<subseteq> set cs"
  shows "hub_inv (h', cs')"
  using assms store_ok_op [of "h_store h" c] receipts_of_row_op [of c "h_store h"] delivered_mono [of "h_store h" _ _ c]
  by (fastforce simp: hub_inv_def)

lemma hub_inv_same:
  "hub_inv (h, cs) \<Longrightarrow> h_store h' = h_store h \<Longrightarrow> h_receipts h' = h_receipts h \<Longrightarrow> set cs' \<subseteq> set cs \<Longrightarrow> hub_inv (h', cs')"
  by (auto simp: hub_inv_def)

lemma ack_False: "ack db rc t x = (False, db') \<Longrightarrow> relay_inv db \<Longrightarrow> db' = db"
proof -
  assume a: "ack db rc t x = (False, db')" and inv: "relay_inv db"
  then have "\<not> (\<exists>r. task_state db rc t = Some r \<and> m_accepted r \<and> m_receipt r = None)"
    using ack_iff [OF inv, of rc t x] by simp
  then have "\<not> (at_key rc t r \<and> m_accepted r \<and> \<not> m_acked r \<and> m_receipt r = None)" if "r \<in> set db" for r
    using relay_inv_key [OF inv that] by auto
  with a show ?thesis by (auto simp: ack_def update_where_def intro!: map_idI)
qed

lemma handle_receipt_inv:
  assumes inv: "hub_inv (h, cs)" and m: "handle_receipt E h c value = (h', out, alive)" and cs: "set cs' \<subseteq> set cs"
  shows "hub_inv (h', cs')"
proof (cases "check_receipt E h c value")
  case (Inl e)
  with m have "h' = reject h" by (simp add: handle_receipt_def)
  with inv cs show ?thesis by (auto intro: hub_inv_same simp: reject_def)
next
  case (Inr p)
  obtain receipt task_id where p: "p = (receipt, task_id)" by fastforce
  obtain b store where a: "ack (h_store h) (c_node c) task_id (dumps_ascii receipt) = (b, store)" by fastforce
  have ri: "relay_inv (h_store h)" using inv by (simp add: hub_inv_def store_ok_def)
  show ?thesis
  proof (cases b)
    case False
    with a have "store = h_store h" by (intro ack_False [OF _ ri]) simp
    with m Inr p a False have "h' = reject h" by (simp add: handle_receipt_def reject_def)
    with inv cs show ?thesis by (auto intro: hub_inv_same simp: reject_def)
  next
    case True
    with m Inr p a have h': "h_store h' = store" "h_receipts h' = h_receipts h @ [receipt]"
      by (auto simp: handle_receipt_def Let_def split: if_splits)
    have s: "store = relay_op (h_store h) (Ack (c_node c) task_id (dumps_ascii receipt))" using a by simp
    have "store_ok store"
      unfolding s by (rule store_ok_op) (use inv in \<open>simp_all add: hub_inv_def\<close>)
    moreover have "receipts_of store = add_mset (dumps_ascii receipt) (receipts_of (h_store h))"
      using a True by (intro receipts_of_ack) simp
    moreover have "delivered store (c_node d) t" if "d \<in> set cs'" "t \<in> set (c_starts d)" for d t
      using inv that cs delivered_mono unfolding s by (fastforce simp: hub_inv_def)
    ultimately show ?thesis using inv h' by (auto simp: hub_inv_def)
  qed
qed

lemma hub_message_inv:
  assumes inv: "hub_inv (h, cs)" and c: "c \<in> set cs" and m: "hub_message E h c text = (h', out, alive)"
    and cs: "set cs' \<subseteq> set cs"
  shows "hub_inv (h', cs')"
proof -
  consider "h_store h' = h_store h \<and> h_receipts h' = h_receipts h"
    | t b where "confirm_receipt (h_store h) (c_node c) t = (b, h_store h')" "h_receipts h' = h_receipts h"
    | t where "t \<in> set (c_starts c)" "h_store h' = relay_op (h_store h) (Accept (c_node c) t)" "h_receipts h' = h_receipts h"
    | v where "handle_receipt E h c v = (h', out, alive)"
    using m by (auto simp: hub_message_def Let_def reject_def split: sum.splits if_splits json.splits prod.splits bool.splits)
  then show ?thesis
  proof cases
    case 1
    with inv cs show ?thesis by (auto intro: hub_inv_same)
  next
    case (2 t b)
    then have "h_store h' = relay_op (h_store h) (Confirm (c_node c) t)" by simp
    then show ?thesis by (intro hub_inv_op [OF inv _ _ _ 2(2) cs]) auto
  next
    case (3 t)
    have "delivered (h_store h) (c_node c) t" using inv c 3(1) by (auto simp: hub_inv_def)
    then show ?thesis by (intro hub_inv_op [OF inv _ _ 3(2) 3(3) cs]) auto
  next
    case 4
    with inv cs show ?thesis by (auto intro: handle_receipt_inv)
  qed
qed

lemma deliver_messages_starts:
  "deliver_messages ms starts sent = (starts', r) \<Longrightarrow> set starts' \<subseteq> set starts \<union> rm_task_id ` set ms"
  by (induction ms starts sent rule: deliver_messages.induct) (auto split: sum.splits)

lemma deliver_inv:
  assumes inv: "hub_inv (h, cs @ c # ds)" and d: "deliver_pending h c = ((h', c'), r)"
  shows "hub_inv (h', cs @ c' # ds)"
proof -
  obtain ms store where p: "pending (h_store h) (c_node c) (c_starts c) = (ms, store)" by fastforce
  obtain starts r' where s: "deliver_messages ms (c_starts c) [] = (starts, r')" by fastforce
  from d p s have h': "h' = h\<lparr>h_store := store\<rparr>" "c' = c\<lparr>c_starts := starts\<rparr>" by (auto simp: deliver_pending_def)
  have st: "store = relay_op (h_store h) (Pending (c_node c) (c_starts c))" using p by simp
  have "hub_inv (h', cs @ c # ds)"
    by (rule hub_inv_op [OF inv, of "Pending (c_node c) (c_starts c)"]) (use h' st in auto)
  moreover have "delivered store (c_node c) t" if "t \<in> rm_task_id ` set ms" for t
  proof -
    from that p obtain row where row: "row \<in> set (h_store h)" "m_recipient row = c_node c" "\<not> m_acked row"
      "m_task_id row \<notin> set (c_starts c)" "t = m_task_id row"
      by (auto simp: pending_def Let_def pending_rows_def)
    with relay_op_mem [OF row(1), of "Pending (c_node c) (c_starts c)"] show ?thesis
      unfolding st delivered_def by (intro bexI) (auto simp: at_key_def)
  qed
  ultimately show ?thesis
    using deliver_messages_starts [OF s] h' by (auto simp: hub_inv_def)
qed

lemma hub_step_inv: "hub_step E s s' \<Longrightarrow> hub_inv s \<Longrightarrow> hub_inv s'"
proof (induction rule: hub_step.induct)
  case (queue h r t p i n b store cs)
  then show ?case by (intro hub_inv_op [OF queue.prems, of "Enqueue r t p i n"]) auto
next
  case (connect now h challenge auth h' c cs)
  then have "h_store h' = h_store h" "h_receipts h' = h_receipts h" "c_starts c = []"
    by (auto simp: hub_authenticate_def split: sum.splits if_splits)
  with connect.prems show ?case by (auto simp: hub_inv_def)
next
  case (refuse now h challenge auth h' r cs)
  then have "h_store h' = h_store h" "h_receipts h' = h_receipts h"
    by (auto simp: hub_authenticate_def reject_def split: sum.splits if_splits)
  with refuse.prems show ?case by (auto simp: hub_inv_def)
next
  case (deliver h c h' c' r cs ds)
  then show ?case by (blast intro: deliver_inv)
next
  case (message h c m h' out alive cs ds)
  then show ?case by (intro hub_message_inv [OF message.prems _ message.hyps]) auto
next
  case (close h cs c ds)
  then show ?case by (auto intro: hub_inv_same)
qed

lemma hub_reachable_inv: "hub_reachable E s \<Longrightarrow> hub_inv s"
proof (induction rule: hub_reachable.induct)
  case (start bootstrap drop_once)
  show ?case by (simp add: hub_inv_def start_hub_def store_ok_def relay_inv_def)
qed (blast intro: hub_step_inv)

section \<open>What a recorded receipt is\<close>

lemma check_receipt_Inr:
  assumes "check_receipt E h c value = Inr (receipt, task_id)"
  obtains state task chain registry signer where
    "jitem value ''receipt'' = Inr receipt" "jget receipt ''task_id'' = Inr (JStr task_id)" "task_id \<in> set (c_starts c)"
    "task_state (h_store h) (c_node c) task_id = Some state" "m_accepted state" "m_receipt state = None"
    "load_json (m_payload state) = Inr task" "jget task ''task_id'' = Inr (JStr task_id)"
    "jitem (h_bootstrap h) ''chain_id'' = Inr chain" "jitem (h_bootstrap h) ''registry'' = Inr registry"
    "verify_relay_receipt E receipt chain registry (Some (JStr (c_node c))) = Inr signer"
    "\<exists>x y. jitem receipt ''nonce'' = Inr x \<and> jitem task ''nonce'' = Inr y \<and> py_eq x y"
    "\<exists>a b. int_item receipt ''completed_at'' = Inr a \<and> int_item task ''deadline'' = Inr b \<and> a \<le> b"
    "receipt_schema_matches receipt task = Inr True"
    "\<exists>a. addr_item E task ''recipient'' = Inr a \<and> checksum_address E (JStr (c_node c)) = Inr a"
proof -
  from assms obtain r tid t state queued qid qc chain qr registry br recipient node matches signer rn qn ca dl where 1:
    "jitem value ''receipt'' = Inr r" "jget r ''task_id'' = Inr tid"
    "(case tid of JStr t \<Rightarrow> if t \<in> set (c_starts c) then Inr t else le_error ''unassigned_receipt'' []
                      | _ \<Rightarrow> le_error ''unassigned_receipt'' []) = Inr t"
    "(case task_state (h_store h) (c_node c) t of Some r \<Rightarrow> Inr r | None \<Rightarrow> le_error ''unassigned_receipt'' []) = Inr state"
    "\<not> (m_acked state \<or> m_receipt state \<noteq> None)" "m_accepted state" "load_json (m_payload state) = Inr queued"
    "jget queued ''task_id'' = Inr qid" "qid = JStr t" "jget queued ''chain_id'' = Inr qc"
    "jitem (h_bootstrap h) ''chain_id'' = Inr chain" "py_eq qc chain" "addr_item E queued ''registry'' = Inr qr"
    "jitem (h_bootstrap h) ''registry'' = Inr registry" "to_checksum_address E registry = Inr br" "qr = br"
    "addr_item E queued ''recipient'' = Inr recipient" "to_checksum_address E (JStr (c_node c)) = Inr node" "recipient = node"
    "receipt_schema_matches r queued = Inr matches" "matches"
    "verify_relay_receipt E r chain registry (Some (JStr (c_node c))) = Inr signer"
    "jitem r ''nonce'' = Inr rn" "jitem queued ''nonce'' = Inr qn" "py_eq rn qn"
    "int_item r ''completed_at'' = Inr ca" "int_item queued ''deadline'' = Inr dl" "ca \<le> dl"
    "Inr (r, t) = (Inr (receipt, task_id) :: (json \<times> string) res)"
    unfolding check_receipt_def by (elim run_elims)
  then have "tid = JStr t" "t \<in> set (c_starts c)" by (auto split: json.splits if_splits)
  moreover have "task_state (h_store h) (c_node c) t = Some state" using 1(4) by (auto split: option.splits)
  ultimately show ?thesis
    using 1 by (intro that [of state queued chain registry signer]) (auto simp: to_checksum_address_def)
qed

section \<open>Every receipt that the hub keeps was checked\<close>

text \<open>The receipt is stored with the row of the task it answers: it is signed by the recipient of that
  task on the hub's chain and registry, carries the task's nonce and was completed in time.\<close>

definition receipt_answers :: "ext \<Rightarrow> json \<Rightarrow> json \<Rightarrow> json \<Rightarrow> string \<Rightarrow> bool" where
  "receipt_answers E bootstrap receipt task node \<longleftrightarrow>
     (\<exists>chain registry signer. jitem bootstrap ''chain_id'' = Inr chain \<and> jitem bootstrap ''registry'' = Inr registry \<and>
        verify_relay_receipt E receipt chain registry (Some (JStr node)) = Inr signer) \<and>
     (\<exists>t. jget receipt ''task_id'' = Inr t \<and> jget task ''task_id'' = Inr t) \<and>
     (\<exists>x y. jitem receipt ''nonce'' = Inr x \<and> jitem task ''nonce'' = Inr y \<and> py_eq x y) \<and>
     (\<exists>a b. int_item receipt ''completed_at'' = Inr a \<and> int_item task ''deadline'' = Inr b \<and> a \<le> b)"

definition receipt_sound :: "ext \<Rightarrow> json \<Rightarrow> relay_store \<Rightarrow> json \<Rightarrow> bool" where
  "receipt_sound E bootstrap db receipt \<longleftrightarrow>
     (\<exists>row \<in> set db. m_receipt row = Some (dumps_ascii receipt) \<and>
        (\<exists>task. load_json (m_payload row) = Inr task \<and> receipt_answers E bootstrap receipt task (m_recipient row)))"

definition hub_sound :: "ext \<Rightarrow> hub \<Rightarrow> bool" where
  "hub_sound E h \<longleftrightarrow> (\<forall>r \<in> set (h_receipts h). receipt_sound E (h_bootstrap h) (h_store h) r)"

lemma receipt_sound_op: "receipt_sound E b db r \<Longrightarrow> receipt_sound E b (relay_op db c) r"
proof -
  assume "receipt_sound E b db r"
  then obtain row where row: "row \<in> set db" "m_receipt row = Some (dumps_ascii r)"
    "\<exists>task. load_json (m_payload row) = Inr task \<and> receipt_answers E b r task (m_recipient row)"
    by (auto simp: receipt_sound_def)
  with relay_op_mem [OF row(1), of c] row_op_receipt [OF row(2), of c] row_op_identity [of row c]
  show ?thesis unfolding receipt_sound_def by (intro bexI [of _ "row_op c row"]) (auto simp: same_identity_def)
qed

lemma hub_sound_op:
  "hub_sound E h \<Longrightarrow> h_store h' = relay_op (h_store h) c \<Longrightarrow> h_receipts h' = h_receipts h \<Longrightarrow>
   h_bootstrap h' = h_bootstrap h \<Longrightarrow> hub_sound E h'"
  by (auto simp: hub_sound_def receipt_sound_op simp del: relay_op.simps)

lemma hub_sound_same:
  "hub_sound E h \<Longrightarrow> h_store h' = h_store h \<Longrightarrow> h_receipts h' = h_receipts h \<Longrightarrow>
   h_bootstrap h' = h_bootstrap h \<Longrightarrow> hub_sound E h'"
  by (auto simp: hub_sound_def)

lemma check_receipt_answers:
  assumes "check_receipt E h c value = Inr (receipt, task_id)"
  obtains state task where "task_state (h_store h) (c_node c) task_id = Some state" "load_json (m_payload state) = Inr task"
    "receipt_answers E (h_bootstrap h) receipt task (c_node c)"
proof (rule check_receipt_Inr [OF assms])
  fix state task chain registry signer
  assume 1: "task_state (h_store h) (c_node c) task_id = Some state" "load_json (m_payload state) = Inr task"
    "jget receipt ''task_id'' = Inr (JStr task_id)" "jget task ''task_id'' = Inr (JStr task_id)"
    "jitem (h_bootstrap h) ''chain_id'' = Inr chain" "jitem (h_bootstrap h) ''registry'' = Inr registry"
    "verify_relay_receipt E receipt chain registry (Some (JStr (c_node c))) = Inr signer"
    "\<exists>x y. jitem receipt ''nonce'' = Inr x \<and> jitem task ''nonce'' = Inr y \<and> py_eq x y"
    "\<exists>a b. int_item receipt ''completed_at'' = Inr a \<and> int_item task ''deadline'' = Inr b \<and> a \<le> b"
  show thesis
    by (rule that [OF 1(1,2)]) (use 1 in \<open>simp add: receipt_answers_def\<close>)
qed

lemma handle_receipt_sound:
  assumes sound: "hub_sound E h" and inv: "relay_inv (h_store h)" and m: "handle_receipt E h c value = (h', out, alive)"
  shows "hub_sound E h'"
proof (cases "check_receipt E h c value")
  case (Inl e)
  with m have "h' = reject h" by (simp add: handle_receipt_def)
  with sound show ?thesis by (auto intro: hub_sound_same simp: reject_def)
next
  case (Inr p)
  obtain receipt task_id where p: "p = (receipt, task_id)" by fastforce
  obtain b store where a: "ack (h_store h) (c_node c) task_id (dumps_ascii receipt) = (b, store)" by fastforce
  show ?thesis
  proof (cases b)
    case False
    with a have "store = h_store h" by (intro ack_False [OF _ inv]) simp
    with m Inr p a False have "h' = reject h" by (simp add: handle_receipt_def reject_def)
    with sound show ?thesis by (auto intro: hub_sound_same simp: reject_def)
  next
    case True
    with m Inr p a have h': "h_store h' = store" "h_receipts h' = h_receipts h @ [receipt]" "h_bootstrap h' = h_bootstrap h"
      by (auto simp: handle_receipt_def Let_def split: if_splits)
    have s: "store = relay_op (h_store h) (Ack (c_node c) task_id (dumps_ascii receipt))" using a by simp
    obtain state task where st: "task_state (h_store h) (c_node c) task_id = Some state"
        "load_json (m_payload state) = Inr task" "receipt_answers E (h_bootstrap h) receipt task (c_node c)"
      by (rule check_receipt_answers [OF Inr [unfolded p]])
    have "stored_receipt store (c_node c) task_id = Some (dumps_ascii receipt)"
      using a True by (intro ack_receipt [OF inv]) simp
    then obtain row where row: "task_state store (c_node c) task_id = Some row" "m_receipt row = Some (dumps_ascii receipt)"
      by (auto simp: stored_receipt_def bind_eq_Some_conv)
    have "store = map (row_op (Ack (c_node c) task_id (dumps_ascii receipt))) (h_store h)"
      using a by (auto simp: ack_def update_where_def)
    with row(1) st(1) have "same_identity state row"
      by (simp add: task_state_map row_op_identity del: row_op.simps) (metis row_op_identity)
    moreover have "row \<in> set store" "m_recipient row = c_node c"
      using task_state_Some [OF row(1)] by (auto simp: at_key_def)
    ultimately have "receipt_sound E (h_bootstrap h) store receipt"
      using row(2) st(2,3) by (auto simp: receipt_sound_def same_identity_def)
    moreover have "receipt_sound E (h_bootstrap h) store r" if "r \<in> set (h_receipts h)" for r
      using sound that unfolding s hub_sound_def by (intro receipt_sound_op) simp
    ultimately show ?thesis using h' by (auto simp: hub_sound_def)
  qed
qed

lemma hub_message_sound:
  assumes sound: "hub_sound E h" and inv: "relay_inv (h_store h)" and m: "hub_message E h c text = (h', out, alive)"
  shows "hub_sound E h'"
proof -
  have b: "h_bootstrap h' = h_bootstrap h \<or> (\<exists>v. handle_receipt E h c v = (h', out, alive))"
    using m by (auto simp: hub_message_def Let_def reject_def split: sum.splits if_splits json.splits prod.splits bool.splits)
  consider "h_store h' = h_store h \<and> h_receipts h' = h_receipts h"
    | t b where "confirm_receipt (h_store h) (c_node c) t = (b, h_store h')" "h_receipts h' = h_receipts h"
    | t where "t \<in> set (c_starts c)" "h_store h' = relay_op (h_store h) (Accept (c_node c) t)" "h_receipts h' = h_receipts h"
    | v where "handle_receipt E h c v = (h', out, alive)"
    using m by (auto simp: hub_message_def Let_def reject_def split: sum.splits if_splits json.splits prod.splits bool.splits)
  then show ?thesis
  proof cases
    case 1
    with b sound inv show ?thesis by (blast intro: hub_sound_same handle_receipt_sound)
  next
    case (2 t b')
    then have "h_store h' = relay_op (h_store h) (Confirm (c_node c) t)" by simp
    with 2(2) b sound inv show ?thesis by (blast intro: hub_sound_op handle_receipt_sound)
  next
    case (3 t)
    with b sound inv show ?thesis by (blast intro: hub_sound_op handle_receipt_sound)
  next
    case 4
    with sound inv show ?thesis by (blast intro: handle_receipt_sound)
  qed
qed

lemma hub_step_sound: "hub_step E s s' \<Longrightarrow> hub_inv s \<Longrightarrow> hub_sound E (fst s) \<Longrightarrow> hub_sound E (fst s')"
proof (induction rule: hub_step.induct)
  case (queue h r t p i n b store cs)
  then show ?case by (auto intro!: hub_sound_op [of E h _ "Enqueue r t p i n"])
next
  case (connect now h challenge auth h' c cs)
  then show ?case by (auto intro!: hub_sound_same [of E h] simp: hub_authenticate_def split: sum.splits if_splits)
next
  case (refuse now h challenge auth h' r cs)
  then show ?case by (auto intro!: hub_sound_same [of E h] simp: hub_authenticate_def reject_def split: sum.splits if_splits)
next
  case (deliver h c h' c' r cs ds)
  then show ?case
    by (auto intro!: hub_sound_op [of E h _ "Pending (c_node c) (c_starts c)"] simp: deliver_pending_def split: prod.splits)
next
  case (message h c m h' out alive cs ds)
  then show ?case by (auto intro: hub_message_sound simp: hub_inv_def store_ok_def)
next
  case (close h cs c ds)
  then show ?case by (auto intro: hub_sound_same)
qed

lemma hub_reachable_sound: "hub_reachable E s \<Longrightarrow> hub_sound E (fst s)"
proof (induction rule: hub_reachable.induct)
  case (start bootstrap drop_once)
  show ?case by (simp add: hub_sound_def start_hub_def)
qed (blast intro: hub_step_sound hub_reachable_inv)

end
