(* ===== verification/RelayExamples.thy ===== *)
theory RelayExamples
  imports Examples RelayHub
begin

text \<open>
  A run of the hub for the instances of the theorems: a task for one node is queued, the node
  connects and authenticates, gets the task, accepts it and sends a receipt that is recorded.
\<close>

section \<open>The messages\<close>

definition demo_profile :: json where
  "demo_profile = JObj [(''schema_version'', JStr ''loveengine.signed-agent-node-profile/2''), (''chain_id'', JStr ''1''),
     (''registry'', JStr ''r''), (''profile'', JObj [(''node'', JStr ''n''), (''capabilities'', JArr [JStr ''review_dispute'']),
       (''sequence'', JStr ''1''), (''valid_until'', JStr ''9'')]), (''signature'', JStr ''n'')]"

definition demo_bootstrap :: json where
  "demo_bootstrap = JObj [(''chain_id'', JStr ''1''), (''registry'', JStr ''r''), (''directory'', JArr [demo_profile])]"

definition demo_signed_bootstrap :: json where
  "demo_signed_bootstrap = JObj [(''schema_version'', JStr ''loveengine.bootstrap-bundle/2''), (''chain_id'', JStr ''1''),
     (''registry'', JStr ''r''), (''publisher'', JStr ''p''), (''directory'', JArr [demo_profile]),
     (''directory_hash'', JStr (''0x'' @ demo_digest)), (''sequence'', JStr ''1''), (''valid_until'', JStr ''9''),
     (''signature'', JStr ''p'')]"

definition demo_chain_event :: json where
  "demo_chain_event = JObj [(''event'', JStr ''ReleasePublished''), (''chain_id'', JInt 1), (''tx_hash'', JStr ''0xA''),
     (''log_index'', JInt 0)]"

definition demo_relay_cmds :: "relay_cmd list" where
  "demo_relay_cmds = [Enqueue ''n'' ''t'' ''p'' ''i'' ''1'', Pending ''n'' [], Accept ''n'' ''t'']"

definition demo_challenge :: json where
  "demo_challenge = JObj [(''type'', JStr ''challenge''), (''schema_version'', JStr RELAY_CHALLENGE_SCHEMA),
    (''chain_id'', JStr ''1''), (''registry'', JStr ''r''), (''nonce'', JStr (replicate 64 CHR ''0''))]"

definition demo_auth :: json where
  "demo_auth = JObj [(''type'', JStr ''authenticate''), (''profile'', demo_profile), (''challenge_signature'', JStr ''n'')]"

lemma demo_authenticate: "authenticate demo_ext demo_bootstrap 5 demo_challenge demo_auth = Inr ''n''"
  by code_simp

definition demo_payload :: json where
  "demo_payload = JObj [(''dispute_id'', JStr ''d''), (''bundle_hash'', JStr (''0x'' @ demo_digest))]"

definition demo_task :: json where
  "demo_task = JObj [(''schema_version'', JStr ''loveengine.network-task/2''), (''chain_id'', JStr ''1''),
     (''registry'', JStr ''r''), (''task_id'', JStr ''t''), (''task_type'', JStr ''review_dispute''),
     (''issuer'', JStr ''i''), (''recipient'', JStr ''n''), (''manifest_hash'', JStr (''0x'' @ demo_digest)),
     (''payload'', demo_payload), (''payload_hash'', JStr (''0x'' @ demo_digest)),
     (''nonce'', JStr ''1''), (''deadline'', JStr ''9''), (''signature'', JStr ''i'')]"

text \<open>The task before it is signed, its typed data, and external functions with an injective hash and
  with addresses that hold no line break.\<close>

definition demo_unsigned :: json where
  "demo_unsigned = JObj [(''schema_version'', JStr ''loveengine.network-task/2''), (''chain_id'', JStr ''1''),
     (''registry'', JStr ''r''), (''task_id'', JStr ''t''), (''task_type'', JStr ''review_dispute''),
     (''issuer'', JStr ''i''), (''recipient'', JStr ''n''), (''manifest_hash'', JStr (''0x'' @ demo_digest)),
     (''payload'', demo_payload), (''payload_hash'', JStr (''0x'' @ demo_digest)),
     (''nonce'', JStr ''1''), (''deadline'', JStr ''9''), (''signature'', JStr ''0x'')]"

definition demo_typed :: json where
  "demo_typed = (case build_task_v2_typed_data demo_ext demo_task of Inr d \<Rightarrow> d | Inl _ \<Rightarrow> JNull)"

definition demo_id_ext :: ext where
  "demo_id_ext = demo_ext\<lparr>keccak_hex := (\<lambda>s. s)\<rparr>"

definition demo_plain_ext :: ext where
  "demo_plain_ext = demo_ext\<lparr>checksum_address := (\<lambda>v. case v of
     JStr s \<Rightarrow> if CHR 0x0A \<in> set s then Inl ValueError else Inr s | _ \<Rightarrow> Inl ValueError)\<rparr>"

definition demo_receipt :: json where
  "demo_receipt = JObj [(''schema_version'', JStr ''loveengine.task-receipt/2''), (''chain_id'', JStr ''1''),
     (''registry'', JStr ''r''), (''task_id'', JStr ''t''), (''node'', JStr ''n''),
     (''status'', JStr ''completed''), (''result'', JObj []),
     (''result_hash'', JStr (''0x'' @ demo_digest)), (''nonce'', JStr ''1''),
     (''completed_at'', JStr ''8''), (''signature'', JStr ''n'')]"

definition demo_ack_text :: string where
  "demo_ack_text = canonical_json_bytes (JObj [(''type'', JStr ''ack''), (''status'', JStr ''accepted''), (''task_id'', JStr ''t'')])"

definition demo_receipt_text :: string where
  "demo_receipt_text = canonical_json_bytes (JObj [(''type'', JStr ''receipt''), (''receipt'', demo_receipt)])"

section \<open>The states of the hub\<close>

definition demo_row :: "nat \<Rightarrow> bool \<Rightarrow> string option \<Rightarrow> relay_row" where
  "demo_row n acc r = \<lparr>m_recipient = ''n'', m_task_id = ''t'', m_issuer = Some ''i'', m_nonce = Some ''1'',
     m_payload = canonical_json_bytes demo_task, m_attempts = n, m_accepted = acc, m_acked = r \<noteq> None,
     m_confirmed = False, m_receipt = r\<rparr>"

definition demo_conn :: "string list \<Rightarrow> connection" where
  "demo_conn ts = \<lparr>c_node = ''n'', c_starts = ts\<rparr>"

definition demo_hub :: "relay_row list \<Rightarrow> json list \<Rightarrow> hub" where
  "demo_hub rows rs = \<lparr>h_store = rows, h_bootstrap = demo_bootstrap, h_connected = [''n''], h_receipts = rs,
     h_rejected = 0, h_drop = [], h_drops = []\<rparr>"

lemma demo_connect: "hub_authenticate demo_ext 5 (start_hub demo_bootstrap []) demo_challenge demo_auth
    = (demo_hub [] [], Inr (Inr (demo_conn [])))"
  using demo_authenticate by (simp add: hub_authenticate_def start_hub_def demo_hub_def demo_conn_def demo_auth_def)

lemma demo_enqueue: "enqueue [] ''n'' ''t'' (canonical_json_bytes demo_task) ''i'' ''1'' = (True, [demo_row 0 False None])"
  by (simp add: enqueue_def new_row_def demo_row_def non_empty_def)

lemma demo_deliver: "fst (deliver_pending (demo_hub [demo_row 0 False None] []) (demo_conn []))
    = (demo_hub [demo_row 1 False None] [], demo_conn [''t''])"
  by code_simp

lemma demo_accept: "hub_message demo_ext (demo_hub [demo_row 1 False None] []) (demo_conn [''t'']) demo_ack_text
    = (demo_hub [demo_row 1 True None] [], [], True)"
  by code_simp

lemma demo_receipt_check:
  "check_receipt demo_ext (demo_hub [demo_row 1 True None] []) (demo_conn [''t''])
     (JObj [(''receipt'', jnorm demo_receipt), (''type'', JStr ''receipt'')]) = Inr (jnorm demo_receipt, ''t'')"
  by code_simp

definition demo_acked :: hub where
  "demo_acked = demo_hub [demo_row 1 True (Some (dumps_ascii (jnorm demo_receipt)))] [jnorm demo_receipt]"

lemma demo_record: "hub_message demo_ext (demo_hub [demo_row 1 True None] []) (demo_conn [''t'']) demo_receipt_text
   = (demo_acked, [JObj [(''type'', JStr ''ack''), (''task_id'', JStr ''t'')]], True)"
proof -
  let ?v = "JObj [(''receipt'', jnorm demo_receipt), (''type'', JStr ''receipt'')]"
  have "json_loads demo_receipt_text = Some (jnorm (JObj [(''type'', JStr ''receipt''), (''receipt'', demo_receipt)]))"
    unfolding demo_receipt_text_def by (rule json_loads_canonical) (simp add: demo_receipt_def)
  moreover have "jnorm (JObj [(''type'', JStr ''receipt''), (''receipt'', demo_receipt)]) = ?v" by code_simp
  ultimately have p: "parse_client_message demo_receipt_text = Inr ?v" by (simp add: parse_client_message_def)
  have "handle_receipt demo_ext (demo_hub [demo_row 1 True None] []) (demo_conn [''t'']) ?v
    = (demo_acked, [JObj [(''type'', JStr ''ack''), (''task_id'', JStr ''t'')]], True)"
    unfolding handle_receipt_def demo_receipt_check
    by (simp add: ack_def update_where_def demo_hub_def demo_row_def demo_conn_def at_key_def demo_acked_def)
  then show ?thesis unfolding hub_message_def p by (simp del: jnorm.simps)
qed

lemma demo_hub_reachable:
  "hub_reachable demo_ext (demo_hub [demo_row 1 True None] [], [demo_conn [''t'']])"
  "hub_reachable demo_ext (demo_acked, [demo_conn [''t'']])"
proof -
  have "hub_reachable demo_ext (demo_hub [] [], [demo_conn []])"
    by (rule hub_reachable.step [OF hub_reachable.start hub_step.connect [OF demo_connect]])
  moreover have "hub_step demo_ext (demo_hub [] [], [demo_conn []]) (demo_hub [demo_row 0 False None] [], [demo_conn []])"
    using hub_step.queue [of "demo_hub [] []" "''n''" "''t''" "canonical_json_bytes demo_task" "''i''" "''1''"] demo_enqueue
    by (simp add: demo_hub_def)
  ultimately have "hub_reachable demo_ext (demo_hub [demo_row 0 False None] [], [demo_conn []])"
    by (rule hub_reachable.step)
  moreover have "hub_step demo_ext (demo_hub [demo_row 0 False None] [], [demo_conn []])
      (demo_hub [demo_row 1 False None] [], [demo_conn [''t'']])"
    using hub_step.deliver [of _ _ _ _ _ _ "[]" "[]"] demo_deliver by (metis append_Nil prod.collapse)
  ultimately have "hub_reachable demo_ext (demo_hub [demo_row 1 False None] [], [demo_conn [''t'']])"
    by (rule hub_reachable.step)
  from hub_reachable.step [OF this, of "(demo_hub [demo_row 1 True None] [], [demo_conn [''t'']])"]
  show 1: "hub_reachable demo_ext (demo_hub [demo_row 1 True None] [], [demo_conn [''t'']])"
    using hub_step.message [OF demo_accept, of "[]" "[]"] by simp
  from hub_reachable.step [OF this, of "(demo_acked, [demo_conn [''t'']])"]
  show "hub_reachable demo_ext (demo_acked, [demo_conn [''t'']])"
    using hub_step.message [OF demo_record, of "[]" "[]"] by simp
qed

end
