(* ===== verification/AgentJournal.thy ===== *)
theory AgentJournal
  imports TypedData Stored PutOnce
begin

text \<open>
  \<open>AgentTaskJournal\<close> of \<^verbatim>\<open>agent_session.py\<close>: the replay protection of a node, in memory or in a
  SQLite table. The interface \<open>agent_journal\<close> is a journal of task texts with their receipts and
  the owners of nonces, given as a specification; both variants of the class refine it, and the
  session relies only on it.
\<close>

section \<open>Keys\<close>

definition task_id_of :: "json \<Rightarrow> string res" where
  "task_id_of task = bindE (jitem task ''task_id'') (\<lambda>t. Inr (py_str t))"

definition nonce_key :: "ext \<Rightarrow> json \<Rightarrow> (string \<times> string) res" where
  "nonce_key E task =
     bindE (addr_item E task ''issuer'') (\<lambda>a.
     bindE (jitem task ''nonce'') (\<lambda>n. Inr (py_lower a, py_str n)))"

section \<open>Specification\<close>

record journal =
  jn_tasks :: "string \<rightharpoonup> string \<times> string option"
  jn_nonces :: "string \<times> string \<rightharpoonup> string"

definition spec_claim :: "ext \<Rightarrow> journal \<Rightarrow> json \<Rightarrow> (string option \<times> journal) res" where
  "spec_claim E j task =
     bindE (task_id_of task) (\<lambda>task_id.
     bindE (nonce_key E task) (\<lambda>nk.
     case jn_tasks j task_id of
       Some (serialized, receipt) \<Rightarrow>
         if serialized \<noteq> canonical_json_bytes task then le_error ''task_replay_conflict'' []
         else Inr (receipt, j)
     | None \<Rightarrow>
         (case jn_nonces j nk of
            Some owner \<Rightarrow> le_error ''task_nonce_replay'' owner
          | None \<Rightarrow> Inr (None, j\<lparr>jn_tasks := (jn_tasks j)(task_id \<mapsto> (canonical_json_bytes task, None)),
                                 jn_nonces := (jn_nonces j)(nk \<mapsto> task_id)\<rparr>))))"

lemma spec_claim_Inr:
  assumes "spec_claim E j t = Inr (r, j')"
  obtains (replay) i where "task_id_of t = Inr i" "jn_tasks j i = Some (canonical_json_bytes t, r)" "j' = j"
  | (fresh) i nk where "task_id_of t = Inr i" "nonce_key E t = Inr nk" "jn_tasks j i = None" "jn_nonces j nk = None"
      "r = None" "jn_tasks j' = (jn_tasks j)(i \<mapsto> (canonical_json_bytes t, None))"
      "jn_nonces j' = (jn_nonces j)(nk \<mapsto> i)"
proof -
  from assms obtain i nk where k: "task_id_of t = Inr i" "nonce_key E t = Inr nk"
    by (auto simp: spec_claim_def bindE_Inr_iff)
  show ?thesis
  proof (cases "jn_tasks j i")
    case None
    with assms k show ?thesis by (intro fresh [of i nk]) (auto simp: spec_claim_def split: option.splits)
  next
    case (Some p)
    with assms k show ?thesis by (intro replay [of i]) (auto simp: spec_claim_def split: if_splits prod.splits)
  qed
qed

definition spec_save :: "journal \<Rightarrow> string \<Rightarrow> json \<Rightarrow> journal" where
  "spec_save j task_id receipt =
     (case jn_tasks j task_id of
        Some (serialized, _) \<Rightarrow> j\<lparr>jn_tasks := (jn_tasks j)(task_id \<mapsto> (serialized, Some (canonical_json_bytes receipt)))\<rparr>
      | None \<Rightarrow> j)"

definition spec_confirm :: "journal \<Rightarrow> json \<Rightarrow> unit res" where
  "spec_confirm j receipt =
     bindE (jget_or receipt ''task_id'' (JStr [])) (\<lambda>t.
     ensure (case jn_tasks j (py_str t) of
               Some (_, Some r) \<Rightarrow> r = canonical_json_bytes receipt | _ \<Rightarrow> False) ''receipt_state_conflict'' [])"

text \<open>A journal implementation: its operations behave as the specification on its abstraction.\<close>

locale agent_journal =
  fixes E :: ext
    and claim :: "'s \<Rightarrow> json \<Rightarrow> (json option \<times> 's) res"
    and save :: "'s \<Rightarrow> string \<Rightarrow> json \<Rightarrow> 's res"
    and confirm :: "'s \<Rightarrow> json \<Rightarrow> 's res"
    and abs :: "'s \<Rightarrow> journal"
    and inv :: "'s \<Rightarrow> bool"
  assumes claim_spec: "inv s \<Longrightarrow>
      (case claim s t of Inl e \<Rightarrow> spec_claim E (abs s) t = Inl e
       | Inr (r, s') \<Rightarrow> inv s' \<and> spec_claim E (abs s) t = Inr (map_option canonical_json_bytes r, abs s') \<and>
           (\<forall>v. r = Some v \<longrightarrow> wf_json v))"
    and save_spec: "inv s \<Longrightarrow> wf_json v \<Longrightarrow> jn_tasks (abs s) i \<noteq> None \<Longrightarrow>
      \<exists>s'. save s i v = Inr s' \<and> inv s' \<and> abs s' = spec_save (abs s) i v"
    and save_missing: "inv s \<Longrightarrow> jn_tasks (abs s) i = None \<Longrightarrow> \<exists>e. save s i v = Inl e"
    and confirm_spec: "inv s \<Longrightarrow>
      (case confirm s v of Inl e \<Rightarrow> spec_confirm (abs s) v = Inl e
       | Inr s' \<Rightarrow> inv s' \<and> abs s' = abs s \<and> spec_confirm (abs s) v = Inr ())"
begin

lemma claim_Inr:
  assumes "inv s" "claim s t = Inr (r, s')"
  shows "inv s'" "spec_claim E (abs s) t = Inr (map_option canonical_json_bytes r, abs s')"
    "r = Some v \<Longrightarrow> wf_json v"
  using claim_spec [OF assms(1), of t] assms(2) by simp_all

text \<open>A first claim is recorded without a receipt.\<close>

lemma claim_new:
  assumes "inv s" "claim s t = Inr (r, s')" "task_id_of t = Inr i" "jn_tasks (abs s) i = None"
  shows "r = None" "jn_tasks (abs s') i = Some (canonical_json_bytes t, None)"
  using assms(3,4) by (cases rule: spec_claim_Inr [OF claim_Inr(2) [OF assms(1,2)]]; simp)+

text \<open>A repeated claim returns the receipt that was saved in between, for the same text only.\<close>

lemma claim_replay:
  assumes "inv s" "task_id_of t = Inr i" "nonce_key E t = Inr nk" "jn_tasks (abs s) i = Some (x, y)"
  shows "if x = canonical_json_bytes t then \<exists>r s'. claim s t = Inr (r, s') \<and> map_option canonical_json_bytes r = y \<and> abs s' = abs s
         else claim s t = le_error ''task_replay_conflict'' []"
  using claim_spec [OF assms(1), of t] assms(2-) by (auto simp: spec_claim_def split: sum.splits if_splits)

lemma save_then_claim:
  assumes "inv s" "claim s t = Inr (r, s1)" "task_id_of t = Inr i" "nonce_key E t = Inr nk" "wf_json v"
    and "save s1 i v = Inr s2"
  shows "\<exists>r' s3. claim s2 t = Inr (r', s3) \<and> map_option canonical_json_bytes r' = Some (canonical_json_bytes v)"
proof -
  note c = claim_Inr [OF assms(1,2)]
  have "\<exists>y. jn_tasks (abs s1) i = Some (canonical_json_bytes t, y)"
    using c(2) assms(3) by (cases rule: spec_claim_Inr) auto
  then obtain y where y: "jn_tasks (abs s1) i = Some (canonical_json_bytes t, y)" by blast
  from save_spec [OF c(1) assms(5), of i] y assms(6) have s2: "inv s2" "abs s2 = spec_save (abs s1) i v" by auto
  then have "jn_tasks (abs s2) i = Some (canonical_json_bytes t, Some (canonical_json_bytes v))"
    using y by (simp add: spec_save_def)
  from claim_replay [OF s2(1) assms(3,4) this] show ?thesis by auto
qed

text \<open>One nonce of an issuer never serves two tasks.\<close>

lemma claim_nonce:
  assumes "inv s" "nonce_key E t = Inr nk" "jn_nonces (abs s) nk = Some owner"
    and "task_id_of t = Inr i" "jn_tasks (abs s) i = None"
  shows "claim s t = le_error ''task_nonce_replay'' owner"
  using claim_spec [OF assms(1), of t] assms(2-) by (auto simp: spec_claim_def split: sum.splits)

end

text \<open>So a journal is a write-once store of task texts.\<close>

sublocale agent_journal \<subseteq> journal_store: put_once claim "\<lambda>t. case task_id_of t of Inr i \<Rightarrow> i | Inl _ \<Rightarrow> []"
    canonical_json_bytes "\<lambda>s i. map_option fst (jn_tasks (abs s) i)" inv "\<lambda>_. True"
proof (unfold_locales, goal_cases)
  case (1 s v r s')
  from claim_Inr(2) [OF 1(1,3)] show ?case
    by (cases rule: spec_claim_Inr) (auto simp: fun_eq_iff)
next
  case (2 s v r s' c)
  from claim_Inr(2) [OF 2(1,3)] 2(4) show ?case
    by (cases rule: spec_claim_Inr) auto
next
  case (3 s v r s')
  then show ?case using claim_Inr(1) by blast
qed

section \<open>The journal in memory\<close>

record memory_journal =
  mj_tasks :: "(string \<times> string \<times> json option) list"
  mj_nonces :: "((string \<times> string) \<times> string) list"

definition mem_claim :: "ext \<Rightarrow> memory_journal \<Rightarrow> json \<Rightarrow> (json option \<times> memory_journal) res" where
  "mem_claim E j task =
     bindE (task_id_of task) (\<lambda>task_id.
     bindE (nonce_key E task) (\<lambda>nk.
     let serialized = canonical_json_bytes task in
     case map_of (mj_tasks j) task_id of
       Some existing \<Rightarrow>
         if fst existing \<noteq> serialized then le_error ''task_replay_conflict'' []
         else Inr (snd existing, j)
     | None \<Rightarrow>
         (case map_of (mj_nonces j) nk of
            Some existing_task_id \<Rightarrow> le_error ''task_nonce_replay'' existing_task_id
          | None \<Rightarrow> Inr (None, \<lparr>mj_tasks = AList.update task_id (serialized, None) (mj_tasks j),
                               mj_nonces = AList.update nk task_id (mj_nonces j)\<rparr>))))"

definition mem_save_receipt :: "memory_journal \<Rightarrow> string \<Rightarrow> json \<Rightarrow> memory_journal res" where
  "mem_save_receipt j task_id receipt =
     (case map_of (mj_tasks j) task_id of
        None \<Rightarrow> Inl KeyError
      | Some (serialized, _) \<Rightarrow> Inr (j\<lparr>mj_tasks := AList.update task_id (serialized, Some receipt) (mj_tasks j)\<rparr>))"

definition mem_confirm :: "memory_journal \<Rightarrow> json \<Rightarrow> memory_journal res" where
  "mem_confirm j receipt =
     bindE (jget_or receipt ''task_id'' (JStr [])) (\<lambda>t.
     bindE (ensure (case map_of (mj_tasks j) (py_str t) of
               Some (_, Some r) \<Rightarrow> canonical_json_bytes r = canonical_json_bytes receipt
             | _ \<Rightarrow> False) ''receipt_state_conflict'' []) (\<lambda>_. Inr j))"

definition mem_abs :: "memory_journal \<Rightarrow> journal" where
  "mem_abs j = \<lparr>jn_tasks = (\<lambda>i. map_option (\<lambda>(t, r). (t, map_option canonical_json_bytes r)) (map_of (mj_tasks j) i)),
     jn_nonces = map_of (mj_nonces j)\<rparr>"

definition mem_inv :: "memory_journal \<Rightarrow> bool" where
  "mem_inv j \<longleftrightarrow> (\<forall>i t v. map_of (mj_tasks j) i = Some (t, Some v) \<longrightarrow> wf_json v)"

interpretation memory_journal: agent_journal E "mem_claim E" mem_save_receipt mem_confirm mem_abs mem_inv for E
proof (unfold_locales, goal_cases)
  case (1 s t)
  have "spec_claim E (mem_abs s) t = (case mem_claim E s t of Inl e \<Rightarrow> Inl e
      | Inr (r, s') \<Rightarrow> Inr (map_option canonical_json_bytes r, mem_abs s'))"
    by (auto simp: mem_claim_def spec_claim_def mem_abs_def bindE_def Let_def fun_eq_iff split: sum.splits option.splits)
  moreover have "mem_inv s' \<and> (\<forall>v. r = Some v \<longrightarrow> wf_json v)" if "mem_claim E s t = Inr (r, s')" for r s'
  proof -
    from that obtain i nk where k: "task_id_of t = Inr i" "nonce_key E t = Inr nk"
      by (auto simp: mem_claim_def bindE_Inr_iff)
    show ?thesis
    proof (cases "map_of (mj_tasks s) i")
      case None
      with that k 1 show ?thesis by (auto simp: mem_claim_def mem_inv_def split: option.splits if_splits)
    next
      case (Some p)
      with that k 1 show ?thesis by (cases p) (auto simp: mem_claim_def mem_inv_def Let_def split: if_splits)
    qed
  qed
  ultimately show ?case by (auto split: sum.splits)
next
  case (2 s v i)
  then show ?case
    by (auto simp: mem_save_receipt_def spec_save_def mem_abs_def mem_inv_def fun_eq_iff)
next
  case (3 s i v)
  then show ?case by (auto simp: mem_save_receipt_def mem_abs_def)
next
  case (4 s v)
  then show ?case
    by (auto simp: mem_confirm_def spec_confirm_def mem_abs_def bindE_def ensure_def split: sum.splits option.splits if_splits)
qed

section \<open>The journal in SQLite\<close>

record sql_task =
  st_task_id :: string
  st_issuer :: string
  st_nonce :: string
  st_task :: string
  st_receipt :: "string option"
  st_acked :: bool

type_synonym sql_journal = "sql_task list"

definition sql_find :: "sql_journal \<Rightarrow> string \<Rightarrow> sql_task option" where
  "sql_find rows task_id = find (\<lambda>r. st_task_id r = task_id) rows"

definition sql_owner :: "sql_journal \<Rightarrow> string \<times> string \<Rightarrow> sql_task option" where
  "sql_owner rows nk = find (\<lambda>r. (st_issuer r, st_nonce r) = nk) rows"

definition sql_claim :: "ext \<Rightarrow> sql_journal \<Rightarrow> json \<Rightarrow> (json option \<times> sql_journal) res" where
  "sql_claim E rows task =
     bindE (task_id_of task) (\<lambda>task_id.
     bindE (nonce_key E task) (\<lambda>nk.
     let serialized = canonical_json_bytes task in
     case sql_find rows task_id of
       Some existing \<Rightarrow>
         if st_task existing \<noteq> serialized then le_error ''task_replay_conflict'' []
         else (case st_receipt existing of
             None \<Rightarrow> Inr (None, rows)
           | Some t \<Rightarrow> if t = [] then Inr (None, rows)
               else bindE (load_json t) (\<lambda>r. Inr (Some r, rows)))
     | None \<Rightarrow>
         (case sql_owner rows nk of
            Some owner \<Rightarrow> le_error ''task_nonce_replay'' (st_task_id owner)
          | None \<Rightarrow> Inr (None, rows @ [\<lparr>st_task_id = task_id, st_issuer = fst nk, st_nonce = snd nk,
              st_task = serialized, st_receipt = None, st_acked = False\<rparr>]))))"

definition sql_update :: "sql_journal \<Rightarrow> string \<Rightarrow> (sql_task \<Rightarrow> sql_task) \<Rightarrow> sql_journal" where
  "sql_update rows task_id f = map (\<lambda>r. if st_task_id r = task_id then f r else r) rows"

definition sql_save_receipt :: "sql_journal \<Rightarrow> string \<Rightarrow> json \<Rightarrow> sql_journal res" where
  "sql_save_receipt rows task_id receipt =
     (if length (filter (\<lambda>r. st_task_id r = task_id) rows) \<noteq> 1 then le_error ''task_journal_missing'' task_id
      else Inr (sql_update rows task_id (\<lambda>r. r\<lparr>st_receipt := Some (canonical_json_bytes receipt)\<rparr>)))"

definition sql_mark_acked :: "sql_journal \<Rightarrow> string \<Rightarrow> sql_journal" where
  "sql_mark_acked rows task_id = sql_update rows task_id (\<lambda>r. r\<lparr>st_acked := True\<rparr>)"

definition sql_confirm :: "sql_journal \<Rightarrow> json \<Rightarrow> sql_journal res" where
  "sql_confirm rows receipt =
     bindE (jget_or receipt ''task_id'' (JStr [])) (\<lambda>t.
     bindE (ensure (case sql_find rows (py_str t) of
               Some r \<Rightarrow> st_receipt r = Some (canonical_json_bytes receipt)
             | None \<Rightarrow> False) ''receipt_state_conflict'' []) (\<lambda>_.
     Inr (sql_mark_acked rows (py_str t))))"

definition sql_abs :: "sql_journal \<Rightarrow> journal" where
  "sql_abs rows = \<lparr>jn_tasks = (\<lambda>i. map_option (\<lambda>r. (st_task r, st_receipt r)) (sql_find rows i)),
     jn_nonces = (\<lambda>nk. map_option st_task_id (sql_owner rows nk))\<rparr>"

text \<open>Receipts in the table are texts of values; task identifiers are distinct.\<close>

definition sql_inv :: "sql_journal \<Rightarrow> bool" where
  "sql_inv rows \<longleftrightarrow> distinct (map st_task_id rows) \<and>
     (\<forall>r \<in> set rows. \<forall>t. st_receipt r = Some t \<longrightarrow> (\<exists>v. t \<noteq> [] \<and> stored t v))"

lemma sql_find_Some: "sql_find rows i = Some r \<Longrightarrow> r \<in> set rows \<and> st_task_id r = i"
  by (auto simp: sql_find_def find_Some_iff)

lemma sql_find_update:
  assumes "\<And>r. st_task_id (f r) = st_task_id r"
  shows "sql_find (sql_update rows i f) j = (if j = i then map_option f (sql_find rows j) else sql_find rows j)"
  using assms by (induction rows) (auto simp: sql_find_def sql_update_def)

lemma sql_owner_update:
  assumes "\<And>r. st_issuer (f r) = st_issuer r" "\<And>r. st_nonce (f r) = st_nonce r" "\<And>r. st_task_id (f r) = st_task_id r"
  shows "map_option st_task_id (sql_owner (sql_update rows i f) nk) = map_option st_task_id (sql_owner rows nk)"
  using assms by (induction rows) (auto simp: sql_owner_def sql_update_def)

lemma sql_find_filter: "distinct (map st_task_id rows) \<Longrightarrow>
    length (filter (\<lambda>r. st_task_id r = i) rows) = (if sql_find rows i = None then 0 else 1)"
  by (induction rows) (auto simp: sql_find_def filter_empty_conv find_None_iff)

lemma canonical_nonempty: "canonical_json_bytes v \<noteq> []"
  using canonical.canonical_head [of "jnorm v"] by (auto simp: canonical_json_text json_text_plain)

lemma sql_inv_update:
  assumes "sql_inv rows" "\<And>r. st_task_id (f r) = st_task_id r"
    "\<And>r t. st_receipt (f r) = Some t \<Longrightarrow> st_receipt r = Some t \<or> (\<exists>v. t \<noteq> [] \<and> stored t v)"
  shows "sql_inv (sql_update rows i f)"
proof -
  have "map st_task_id (sql_update rows i f) = map st_task_id rows"
    using assms(2) by (simp add: sql_update_def comp_def)
  then have "distinct (map st_task_id (sql_update rows i f))" using assms(1) by (simp add: sql_inv_def)
  moreover have "\<exists>v. t \<noteq> [] \<and> stored t v" if r: "r \<in> set (sql_update rows i f)" "st_receipt r = Some t" for r t
  proof -
    from r(1) obtain r' where r': "r' \<in> set rows" "r = (if st_task_id r' = i then f r' else r')"
      by (auto simp: sql_update_def)
    with r(2) assms(3) [of r' t] have "st_receipt r' = Some t \<or> (\<exists>v. t \<noteq> [] \<and> stored t v)" by (auto split: if_splits)
    with r'(1) assms(1) show ?thesis by (auto simp: sql_inv_def)
  qed
  ultimately show ?thesis by (auto simp: sql_inv_def)
qed

interpretation sqlite_journal: agent_journal E "sql_claim E" sql_save_receipt sql_confirm sql_abs sql_inv for E
proof (unfold_locales, goal_cases)
  case (1 s t)
  show ?case
  proof (cases "bindE (task_id_of t) (\<lambda>i. bindE (nonce_key E t) (\<lambda>nk. Inr (i, nk)))")
    case (Inl e)
    then show ?thesis by (auto simp: sql_claim_def spec_claim_def bindE_def split: sum.splits)
  next
    case (Inr p)
    then obtain i nk where k: "task_id_of t = Inr i" "nonce_key E t = Inr nk" by (auto simp: bindE_Inr_iff)
    show ?thesis
    proof (cases "sql_find s i")
      case (Some row)
      with 1 have "\<forall>x. st_receipt row = Some x \<longrightarrow> (\<exists>v. x \<noteq> [] \<and> stored x v)"
        by (auto simp: sql_inv_def dest!: sql_find_Some)
      with Some k 1 show ?thesis
        by (cases "st_receipt row") (auto simp: sql_claim_def spec_claim_def sql_abs_def stored_def)
    next
      case None
      then have new: "i \<notin> st_task_id ` set s" by (auto simp: sql_find_def find_None_iff)
      show ?thesis
      proof (cases "sql_owner s nk")
        case (Some r)
        with None k show ?thesis by (simp add: sql_claim_def spec_claim_def sql_abs_def)
      next
        case owner: None
        let ?row = "\<lparr>st_task_id = i, st_issuer = fst nk, st_nonce = snd nk, st_task = canonical_json_bytes t,
          st_receipt = None, st_acked = False\<rparr>"
        have "sql_inv (s @ [?row])" using 1 new by (auto simp: sql_inv_def)
        moreover have "sql_find (s @ [?row]) j = (if j = i then Some ?row else sql_find s j)" for j
          using None by (induction s) (auto simp: sql_find_def)
        moreover have "sql_owner (s @ [?row]) n = (if n = nk then Some ?row else sql_owner s n)" for n
          using owner by (induction s) (auto simp: sql_owner_def)
        ultimately show ?thesis
          using None owner k by (auto simp: sql_claim_def spec_claim_def sql_abs_def fun_eq_iff)
      qed
    qed
  qed
next
  case (2 s v i)
  let ?f = "\<lambda>r. r\<lparr>st_receipt := Some (canonical_json_bytes v)\<rparr>"
  from 2 have "sql_find s i \<noteq> None" by (auto simp: sql_abs_def)
  with 2(1) have "sql_save_receipt s i v = Inr (sql_update s i ?f)"
    by (simp add: sql_save_receipt_def sql_find_filter sql_inv_def)
  moreover have "sql_inv (sql_update s i ?f)"
    using 2(1,2) by (intro sql_inv_update) (auto intro: stored_canonical simp: canonical_nonempty)
  moreover have "sql_abs (sql_update s i ?f) = spec_save (sql_abs s) i v"
    using \<open>sql_find s i \<noteq> None\<close>
    by (auto simp: sql_abs_def spec_save_def sql_find_update sql_owner_update fun_eq_iff)
  ultimately show ?case by blast
next
  case (3 s i v)
  then show ?case by (auto simp: sql_save_receipt_def sql_abs_def sql_find_filter sql_inv_def)
next
  case (4 s v)
  have "sql_inv (sql_mark_acked s i)" for i
    using 4 unfolding sql_mark_acked_def by (intro sql_inv_update) auto
  moreover have "sql_abs (sql_mark_acked s i) = sql_abs s" for i
    by (auto simp: sql_abs_def sql_mark_acked_def sql_find_update sql_owner_update fun_eq_iff option.map_comp comp_def
        split: option.splits)
  ultimately show ?case
    by (auto simp: sql_confirm_def spec_confirm_def bindE_def ensure_def sql_abs_def split: sum.splits option.splits if_splits)
qed

section \<open>The journal of a session\<close>

text \<open>\<open>AgentTaskJournal(path)\<close>: in memory when there is no path.\<close>

datatype task_journal = InMemory memory_journal | InSqlite sql_journal

definition new_journal :: "bool \<Rightarrow> task_journal" where
  "new_journal durable = (if durable then InSqlite [] else InMemory \<lparr>mj_tasks = [], mj_nonces = []\<rparr>)"

fun journal_claim :: "ext \<Rightarrow> task_journal \<Rightarrow> json \<Rightarrow> (json option \<times> task_journal) res" where
  "journal_claim E (InMemory j) task = bindE (mem_claim E j task) (\<lambda>(r, j'). Inr (r, InMemory j'))"
| "journal_claim E (InSqlite j) task = bindE (sql_claim E j task) (\<lambda>(r, j'). Inr (r, InSqlite j'))"

fun journal_save_receipt :: "task_journal \<Rightarrow> string \<Rightarrow> json \<Rightarrow> task_journal res" where
  "journal_save_receipt (InMemory j) i v = bindE (mem_save_receipt j i v) (\<lambda>j'. Inr (InMemory j'))"
| "journal_save_receipt (InSqlite j) i v = bindE (sql_save_receipt j i v) (\<lambda>j'. Inr (InSqlite j'))"

fun journal_mark_acked :: "task_journal \<Rightarrow> string \<Rightarrow> task_journal" where
  "journal_mark_acked (InMemory j) i = InMemory j"
| "journal_mark_acked (InSqlite j) i = InSqlite (sql_mark_acked j i)"

fun journal_confirm :: "task_journal \<Rightarrow> json \<Rightarrow> task_journal res" where
  "journal_confirm (InMemory j) v = bindE (mem_confirm j v) (\<lambda>j'. Inr (InMemory j'))"
| "journal_confirm (InSqlite j) v = bindE (sql_confirm j v) (\<lambda>j'. Inr (InSqlite j'))"

fun journal_abs :: "task_journal \<Rightarrow> journal" where
  "journal_abs (InMemory j) = mem_abs j"
| "journal_abs (InSqlite j) = sql_abs j"

fun journal_inv :: "task_journal \<Rightarrow> bool" where
  "journal_inv (InMemory j) \<longleftrightarrow> mem_inv j"
| "journal_inv (InSqlite j) \<longleftrightarrow> sql_inv j"

interpretation task_journal: agent_journal E "journal_claim E" journal_save_receipt journal_confirm journal_abs journal_inv for E
proof (unfold_locales, goal_cases)
  case (1 s t)
  then show ?case
  proof (cases s)
    case (InMemory j)
    then show ?thesis using memory_journal.claim_spec [where E = E and s = j and t = t] 1 by (auto simp: bindE_def split: sum.splits)
  next
    case (InSqlite j)
    then show ?thesis using sqlite_journal.claim_spec [where E = E and s = j and t = t] 1 by (auto simp: bindE_def split: sum.splits)
  qed
next
  case (2 s v i)
  then show ?case
  proof (cases s)
    case (InMemory j)
    then show ?thesis using memory_journal.save_spec [where s = j and v = v and i = i] 2 by (auto simp: bindE_Inr_iff)
  next
    case (InSqlite j)
    then show ?thesis using sqlite_journal.save_spec [where s = j and v = v and i = i] 2 by (auto simp: bindE_Inr_iff)
  qed
next
  case (3 s i v)
  then show ?case
  proof (cases s)
    case (InMemory j)
    then show ?thesis using memory_journal.save_missing [where s = j and v = v and i = i] 3 by auto
  next
    case (InSqlite j)
    then show ?thesis using sqlite_journal.save_missing [where s = j and v = v and i = i] 3 by auto
  qed
next
  case (4 s v)
  then show ?case
  proof (cases s)
    case (InMemory j)
    then show ?thesis using memory_journal.confirm_spec [where s = j and v = v] 4 by (auto simp: bindE_def split: sum.splits)
  next
    case (InSqlite j)
    then show ?thesis using sqlite_journal.confirm_spec [where s = j and v = v] 4 by (auto simp: bindE_def split: sum.splits)
  qed
qed

lemma sql_abs_mark_acked [simp]: "sql_abs (sql_mark_acked j i) = sql_abs j"
  by (auto simp: sql_abs_def sql_mark_acked_def sql_find_update sql_owner_update fun_eq_iff option.map_comp comp_def
      split: option.splits)

lemma journal_mark_acked_abs [simp]:
  "journal_abs (journal_mark_acked j i) = journal_abs j"
  by (cases j) auto

lemma journal_mark_acked_inv: "journal_inv j \<Longrightarrow> journal_inv (journal_mark_acked j i)"
  by (cases j) (auto simp: sql_mark_acked_def intro: sql_inv_update)

lemma new_journal_props: "journal_inv (new_journal d)" "jn_tasks (journal_abs (new_journal d)) = Map.empty"
  by (auto simp: new_journal_def sql_inv_def sql_abs_def mem_abs_def mem_inv_def sql_find_def)

end
