(* ===== verification/AgentSession.thy ===== *)
theory AgentSession
  imports RelayServer AgentJournal
begin

text \<open>
  The session engine of \<^verbatim>\<open>agent_session.py\<close>: a node answers the challenge, confirms the receipts
  the relay still holds, and executes tasks until it has the expected number of receipts. What
  the socket delivers is a list of frames, what the node sends is recorded. A session step threads
  the state also through an exception, because the journal and the receipts outlive the session.
  Signing, observing and reviewing are arguments (\<open>agent_env\<close>); the last two are modelled in their
  own theories.
\<close>

section \<open>Frames\<close>

datatype frame = TextFrame string | CloseFrame | OtherFrame int | Silence

text \<open>\<open>_receive_json\<close> on one frame; \<open>Silence\<close> is a wait that times out.\<close>

definition decode_frame :: "frame \<Rightarrow> json res" where
  "decode_frame f = (case f of
       TextFrame t \<Rightarrow> (case json_loads t of
           Some (JObj d) \<Rightarrow> Inr (JObj d)
         | _ \<Rightarrow> le_error ''invalid_relay_json'' [])
     | CloseFrame \<Rightarrow> Inl SocketClosed
     | OtherFrame n \<Rightarrow> le_error ''invalid_relay_message_type'' (py_str_int n)
     | Silence \<Rightarrow> Inl TimeoutError)"

section \<open>Session state\<close>

record agent_env =
  env_ext :: ext
  env_now :: int
  env_node :: string
  env_profile :: json
  env_expected_tasks :: nat
  env_expected_issuer :: "json option"
  env_allowed_issuers :: "json list option"
  env_manifest_hash :: json
  env_sign_challenge :: "json \<Rightarrow> json res"
  env_sign_typed_data :: "json \<Rightarrow> json res"
  env_has_cursors :: bool
  env_has_origin :: bool
  env_operate :: "json \<Rightarrow> nat \<times> json res"

record sess =
  ss_in :: "frame list"
  ss_out :: "json list"
  ss_pending :: "json list"
  ss_journal :: task_journal
  ss_receipts :: "json list"
  ss_rejected :: nat

type_synonym 'a act = "sess \<Rightarrow> 'a res \<times> sess"

definition bindS :: "'a act \<Rightarrow> ('a \<Rightarrow> 'b act) \<Rightarrow> 'b act" where
  "bindS m f = (\<lambda>s. case m s of (Inl e, s') \<Rightarrow> (Inl e, s') | (Inr x, s') \<Rightarrow> f x s')"

definition lift :: "'a res \<Rightarrow> 'a act" where
  "lift r = (\<lambda>s. (r, s))"

definition send :: "json \<Rightarrow> unit act" where
  "send m = (\<lambda>s. (Inr (), s\<lparr>ss_out := ss_out s @ [m]\<rparr>))"

definition recv :: "json act" where
  "recv = (\<lambda>s. case ss_in s of [] \<Rightarrow> (Inl TimeoutError, s) | f # fs \<Rightarrow> (decode_frame f, s\<lparr>ss_in := fs\<rparr>))"

text \<open>\<open>pending.pop(0) if pending else await _receive_json(...)\<close>.\<close>

definition pop_or_recv :: "json act" where
  "pop_or_recv = (\<lambda>s. case ss_pending s of m # ms \<Rightarrow> (Inr m, s\<lparr>ss_pending := ms\<rparr>) | [] \<Rightarrow> recv s)"

definition with_journal :: "(task_journal \<Rightarrow> ('a \<times> task_journal) res) \<Rightarrow> 'a act" where
  "with_journal f = (\<lambda>s. case f (ss_journal s) of Inl e \<Rightarrow> (Inl e, s) | Inr (x, j) \<Rightarrow> (Inr x, s\<lparr>ss_journal := j\<rparr>))"

definition msg_get :: "json \<Rightarrow> string \<Rightarrow> json" where
  "msg_get m k = (case jget m k of Inr v \<Rightarrow> v | Inl _ \<Rightarrow> JNull)"

section \<open>Receipts\<close>

text \<open>\<open>_record_receipt\<close>: the number of newly recorded rejections and the new list.\<close>

fun record_receipt :: "json list \<Rightarrow> json \<Rightarrow> json list \<Rightarrow> (nat \<times> json list) res" where
  "record_receipt done receipt [] =
     bindE (jitem receipt ''status'') (\<lambda>st.
     Inr (if st = JStr ''rejected'' then 1 else 0, done @ [receipt]))"
| "record_receipt done receipt (existing # rest) =
     bindE (jitem existing ''task_id'') (\<lambda>a. bindE (jitem receipt ''task_id'') (\<lambda>b.
     if \<not> py_eq a b then record_receipt (done @ [existing]) receipt rest
     else if canonical_json_bytes existing \<noteq> canonical_json_bytes receipt
       then le_error ''receipt_state_conflict'' []
       else Inr (0, done @ existing # rest)))"

definition record_act :: "json \<Rightarrow> unit act" where
  "record_act receipt = (\<lambda>s. case record_receipt [] receipt (ss_receipts s) of
       Inl e \<Rightarrow> (Inl e, s)
     | Inr (n, rs) \<Rightarrow> (Inr (), s\<lparr>ss_receipts := rs, ss_rejected := ss_rejected s + n\<rparr>))"

definition build_signed_receipt :: "agent_env \<Rightarrow> json \<Rightarrow> json \<Rightarrow> string \<Rightarrow> json res" where
  "build_signed_receipt env task result status =
     (let E = env_ext env in
      bindE (jitem task ''schema_version'') (\<lambda>sv.
      bindE (jitem task ''chain_id'') (\<lambda>chain_id.
      bindE (jitem task ''registry'') (\<lambda>registry.
      bindE (jitem task ''task_id'') (\<lambda>task_id.
      bindE (jitem task ''nonce'') (\<lambda>nonce.
      bindE (int_item task ''deadline'') (\<lambda>deadline.
      if sv = JStr ''loveengine.network-task/1'' then
        bindE (build_receipt E chain_id registry task_id (JStr (env_node env)) status result nonce (JInt (deadline - 1))) (\<lambda>receipt.
        bindE (build_receipt_typed_data E receipt) (\<lambda>typed.
        bindE (env_sign_typed_data env typed) (\<lambda>sig. jset receipt ''signature'' sig)))
      else
        bindE (build_receipt_v2 E chain_id registry task_id (JStr (env_node env)) status result nonce
                 (JInt (min (env_now env) (deadline - 1)))) (\<lambda>receipt.
        bindE (build_receipt_v2_typed_data E receipt) (\<lambda>typed.
        bindE (env_sign_typed_data env typed) (\<lambda>sig. jset receipt ''signature'' sig))))))))))"

section \<open>Waiting\<close>

text \<open>\<open>_confirm_relay_receipt\<close>: after the acknowledgement was sent, messages for later are kept
  until the relay confirms.\<close>

fun confirm_loop :: "json \<Rightarrow> frame list \<Rightarrow> json list \<Rightarrow> unit res \<times> frame list \<times> json list" where
  "confirm_loop task_id [] waiting = (Inl TimeoutError, [], waiting)"
| "confirm_loop task_id (f # fs) waiting =
     (case decode_frame f of
        Inl e \<Rightarrow> (Inl e, fs, waiting)
      | Inr response \<Rightarrow>
          (if msg_get response ''type'' = JStr ''ack'' \<and> msg_get response ''status'' = JStr ''receipt_confirmed''
              \<and> py_eq (msg_get response ''task_id'') task_id then (Inr (), fs, waiting)
           else if msg_get response ''type'' \<in> {JStr ''task'', JStr ''receipt_state''}
             then confirm_loop task_id fs (waiting @ [response])
           else if msg_get response ''type'' = JStr ''heartbeat'' then confirm_loop task_id fs waiting
           else (le_error ''relay_receipt_confirmation_failed'' (dumps_ascii response), fs, waiting)))"

definition confirm_relay_receipt :: "json \<Rightarrow> unit act" where
  "confirm_relay_receipt receipt =
     bindS (lift (jitem receipt ''task_id'')) (\<lambda>task_id.
     bindS (send (JObj [(''type'', JStr ''receipt_ack''), (''task_id'', task_id)])) (\<lambda>_ s.
     case confirm_loop task_id (ss_in s) (ss_pending s) of
       (r, fs, ps) \<Rightarrow> (r, s\<lparr>ss_in := fs, ss_pending := ps\<rparr>)))"

text \<open>A receipt state: checked against the journal, recorded and confirmed.\<close>

definition take_receipt_state :: "json \<Rightarrow> unit act" where
  "take_receipt_state receipt =
     bindS (with_journal (\<lambda>j. bindE (journal_confirm j receipt) (\<lambda>j'. Inr ((), j')))) (\<lambda>_.
     bindS (record_act receipt) (\<lambda>_.
     confirm_relay_receipt receipt))"

text \<open>The message must carry a receipt for the task it names.\<close>

definition state_receipt :: "json \<Rightarrow> json res" where
  "state_receipt m =
     (case msg_get m ''receipt'' of
        JObj d \<Rightarrow> (if py_eq (msg_get (JObj d) ''task_id'') (msg_get m ''task_id'') then Inr (JObj d)
                   else le_error ''invalid_receipt_state'' [])
      | _ \<Rightarrow> le_error ''invalid_receipt_state'' [])"

text \<open>\<open>run_with_keepalive\<close>: \<open>n\<close> waits pass before the operation is done; a wait without message
  sends a heartbeat.\<close>

fun keepalive :: "nat \<Rightarrow> unit act" where
  "keepalive 0 s = (Inr (), s)"
| "keepalive (Suc n) s =
     (case recv s of
        (Inl TimeoutError, s') \<Rightarrow> keepalive n (s'\<lparr>ss_out := ss_out s' @ [JObj [(''type'', JStr ''heartbeat'')]]\<rparr>)
      | (Inl e, s') \<Rightarrow> (Inl e, s')
      | (Inr m, s') \<Rightarrow> keepalive n (if msg_get m ''type'' = JStr ''task''
                                    then s'\<lparr>ss_pending := ss_pending s' @ [m]\<rparr> else s'))"

section \<open>Executing a task\<close>

definition v1_result :: "json \<Rightarrow> json res" where
  "v1_result task =
     bindE (jitem task ''task_type'') (\<lambda>t. bindE (jitem task ''payload_hash'') (\<lambda>h.
     Inr (JObj [(''accepted_task_type'', t), (''payload_hash'', h)])))"

definition operate :: "agent_env \<Rightarrow> json \<Rightarrow> json act" where
  "operate env task = (case env_operate env task of (n, r) \<Rightarrow> bindS (keepalive n) (\<lambda>_. lift r))"

definition require_env :: "bool \<Rightarrow> string \<Rightarrow> json \<Rightarrow> unit res" where
  "require_env b code task = (if b then Inr () else bindE (jitem task ''task_id'') (\<lambda>i. le_error code (py_str i)))"

definition task_result :: "agent_env \<Rightarrow> json \<Rightarrow> json act" where
  "task_result env task =
     bindS (lift (jitem task ''schema_version'')) (\<lambda>sv.
     if sv = JStr ''loveengine.network-task/1'' then lift (v1_result task)
     else bindS (lift (jitem task ''task_type'')) (\<lambda>tt.
       if tt = JStr ''observe_live_text'' then
         bindS (lift (require_env (env_has_cursors env) ''observation_cursor_required'' task)) (\<lambda>_.
         bindS (lift (require_env (env_has_origin env) ''observation_origin_required'' task)) (\<lambda>_.
         operate env task))
       else if tt = JStr ''review_dispute'' then
         bindS (lift (require_env (env_has_origin env) ''review_origin_required'' task)) (\<lambda>_.
         operate env task)
       else lift (le_error ''unsupported_task_type'' (py_str tt))))"

text \<open>The receipt of a claimed task: completed, or rejected with the code of the error.\<close>

definition execute_task :: "agent_env \<Rightarrow> json \<Rightarrow> json act" where
  "execute_task env task = (\<lambda>s.
     case bindS (task_result env task) (\<lambda>result. lift (build_signed_receipt env task result ''completed'')) s of
       (Inr receipt, s') \<Rightarrow> (Inr receipt, s')
     | (Inl (LoveEngineError code d n), s') \<Rightarrow>
         (bindE (jitem task ''task_type'') (\<lambda>tt.
          build_signed_receipt env task (JObj [(''error_code'', JStr code), (''task_type'', tt)]) ''rejected''), s')
     | (Inl e, s') \<Rightarrow> (Inl e, s'))"

section \<open>Lengths, for termination\<close>

definition backlog :: "sess \<Rightarrow> nat" where
  "backlog s = 2 * length (ss_in s) + length (ss_pending s)"

lemma confirm_loop_backlog:
  "confirm_loop t fs ps = (r, fs', ps') \<Longrightarrow> length fs' \<le> length fs \<and> 2 * length fs' + length ps' \<le> 2 * length fs + length ps"
proof (induction t fs ps rule: confirm_loop.induct)
  case (2 t f fs ps)
  then show ?case by (auto split: sum.splits if_splits)
qed auto

definition shrinks :: "'a act \<Rightarrow> bool" where
  "shrinks m \<longleftrightarrow> (\<forall>s r s'. m s = (r, s') \<longrightarrow> length (ss_in s') \<le> length (ss_in s) \<and> backlog s' \<le> backlog s)"

named_theorems shrink_intros

lemma shrinks_bindS [shrink_intros]: "shrinks m \<Longrightarrow> (\<And>x. shrinks (f x)) \<Longrightarrow> shrinks (bindS m f)"
  unfolding shrinks_def bindS_def by (fastforce split: prod.splits sum.splits intro: order_trans)

lemma shrinks_basic [shrink_intros]:
  "shrinks (lift r)" "shrinks (send m)" "shrinks (with_journal f)" "shrinks (record_act v)"
  by (auto simp: shrinks_def lift_def send_def with_journal_def record_act_def backlog_def split: sum.splits)

lemma recv_shrinks: "recv s = (r, s') \<Longrightarrow> length (ss_in s') \<le> length (ss_in s) \<and> backlog s' \<le> backlog s \<and>
    (ss_in s \<noteq> [] \<longrightarrow> length (ss_in s') < length (ss_in s) \<and> backlog s' + 2 \<le> backlog s) \<and> (\<forall>m. r = Inr m \<longrightarrow> ss_in s \<noteq> [])"
  by (auto simp: recv_def backlog_def split: list.splits)

lemma confirm_relay_receipt_shrinks [shrink_intros]: "shrinks (confirm_relay_receipt receipt)"
  unfolding confirm_relay_receipt_def
  by (intro shrink_intros) (auto simp: shrinks_def backlog_def split: prod.splits dest!: confirm_loop_backlog)

lemma take_receipt_state_shrinks [shrink_intros]: "shrinks (take_receipt_state receipt)"
  unfolding take_receipt_state_def by (intro shrink_intros)

lemma keepalive_shrinks [shrink_intros]: "shrinks (keepalive n)"
proof -
  have "length (ss_in s') \<le> length (ss_in s) \<and> backlog s' \<le> backlog s" if "keepalive n s = (r, s')" for s r s'
    using that
  proof (induction n arbitrary: s)
    case (Suc n)
    obtain q t where q: "recv s = (q, t)" by fastforce
    note sh = recv_shrinks [OF q]
    show ?case
    proof (cases q)
      case (Inl e)
      show ?thesis
      proof (cases "e = TimeoutError")
        case True
        with Suc.prems q Inl Suc.IH [of "t\<lparr>ss_out := ss_out t @ [JObj [(''type'', JStr ''heartbeat'')]]\<rparr>"] sh
        show ?thesis by (simp add: backlog_def)
      next
        case False
        with Suc.prems q Inl sh show ?thesis by (cases e) auto
      qed
    next
      case (Inr m)
      let ?t = "if msg_get m ''type'' = JStr ''task'' then t\<lparr>ss_pending := ss_pending t @ [m]\<rparr> else t"
      have "backlog ?t \<le> backlog t + 1" "ss_in ?t = ss_in t" by (simp_all add: backlog_def)
      with Suc.prems q Inr Suc.IH [of ?t] sh show ?thesis by fastforce
    qed
  qed auto
  then show ?thesis by (simp add: shrinks_def)
qed

lemma task_result_shrinks [shrink_intros]: "shrinks (task_result env task)"
  unfolding task_result_def operate_def
  by (auto intro!: shrink_intros split: prod.splits)

lemma execute_task_shrinks [shrink_intros]: "shrinks (execute_task env task)"
proof -
  have "shrinks (bindS (task_result env task) (\<lambda>result. lift (build_signed_receipt env task result ''completed'')))"
    by (intro shrink_intros)
  then show ?thesis
    unfolding execute_task_def shrinks_def by (fastforce split: prod.splits sum.splits exc.splits)
qed

section \<open>The loops of a session\<close>

definition is_ack_for :: "json \<Rightarrow> json \<Rightarrow> bool res" where
  "is_ack_for response receipt =
     (if msg_get response ''type'' = JStr ''ack''
      then bindE (jitem receipt ''task_id'') (\<lambda>t. Inr (py_eq (msg_get response ''task_id'') t))
      else Inr False)"

definition acknowledged_act :: "json \<Rightarrow> json \<Rightarrow> unit act" where
  "acknowledged_act task receipt =
     bindS (with_journal (\<lambda>j. Inr ((), journal_mark_acked j (py_str (msg_get task ''task_id''))))) (\<lambda>_.
     bindS (record_act receipt) (\<lambda>_.
     confirm_relay_receipt receipt))"

lemma acknowledged_shrinks [shrink_intros]: "shrinks (acknowledged_act task receipt)"
  unfolding acknowledged_act_def by (intro shrink_intros)

lemma recv_Inr_less: "(Inr m, s') = recv s \<Longrightarrow> length (ss_in s') < length (ss_in s)"
  using recv_shrinks [of s "Inr m" s'] by auto

lemma take_receipt_state_le: "(x, s') = take_receipt_state r s \<Longrightarrow> length (ss_in s') \<le> length (ss_in s)"
  using take_receipt_state_shrinks [of r] unfolding shrinks_def by metis

text \<open>The wait for the acknowledgement of a receipt that was sent.\<close>

function ack_loop :: "json \<Rightarrow> json \<Rightarrow> unit act" where
  "ack_loop task receipt s =
     (case recv s of
        (Inl e, s1) \<Rightarrow> (Inl e, s1)
      | (Inr response, s1) \<Rightarrow>
          (case is_ack_for response receipt of
             Inl e \<Rightarrow> (Inl e, s1)
           | Inr True \<Rightarrow> acknowledged_act task receipt s1
           | Inr False \<Rightarrow>
               (if msg_get response ''type'' = JStr ''receipt_state'' then
                  (case msg_get response ''receipt'' of
                     JObj d \<Rightarrow>
                       (case take_receipt_state (JObj d) s1 of
                          (Inl e, s2) \<Rightarrow> (Inl e, s2)
                        | (Inr _, s2) \<Rightarrow> ack_loop task receipt s2)
                   | _ \<Rightarrow> (le_error ''invalid_receipt_state'' [], s1))
                else if msg_get response ''type'' = JStr ''task'' then
                  ack_loop task receipt (s1\<lparr>ss_pending := ss_pending s1 @ [response]\<rparr>)
                else if msg_get response ''type'' = JStr ''heartbeat'' then ack_loop task receipt s1
                else (le_error ''relay_receipt_not_acknowledged'' (dumps_ascii response), s1))))"
  by pat_completeness auto

termination
  by (relation "measure (\<lambda>(task, receipt, s). length (ss_in s))")
    (auto dest!: recv_Inr_less take_receipt_state_le)

declare ack_loop.simps [simp del]

definition env_verify :: "agent_env \<Rightarrow> json \<Rightarrow> string res" where
  "env_verify env task =
     verify_task_for_node (env_ext env) task (env_profile env) (env_expected_issuer env) (env_allowed_issuers env)
       (env_manifest_hash env) (env_now env)"

text \<open>One task message: verified, claimed, acknowledged, executed or replayed, saved, sent.\<close>

definition handle_task :: "agent_env \<Rightarrow> json \<Rightarrow> unit act" where
  "handle_task env task =
     bindS (lift (env_verify env task)) (\<lambda>_.
     bindS (with_journal (\<lambda>j. journal_claim (env_ext env) j task)) (\<lambda>stored_receipt.
     bindS (lift (jitem task ''task_id'')) (\<lambda>task_id.
     bindS (send (JObj [(''type'', JStr ''ack''), (''task_id'', task_id), (''status'', JStr ''accepted'')])) (\<lambda>_.
     bindS (case stored_receipt of Some r \<Rightarrow> lift (Inr r) | None \<Rightarrow> execute_task env task) (\<lambda>receipt.
     bindS (with_journal (\<lambda>j. bindE (journal_save_receipt j (py_str task_id) receipt) (\<lambda>j'. Inr ((), j')))) (\<lambda>_.
     bindS (send (JObj [(''type'', JStr ''receipt''), (''receipt'', receipt)])) (\<lambda>_.
     ack_loop task receipt)))))))"

definition session_iter :: "agent_env \<Rightarrow> unit act" where
  "session_iter env =
     bindS pop_or_recv (\<lambda>message.
     if msg_get message ''type'' = JStr ''receipt_state''
       then bindS (lift (state_receipt message)) take_receipt_state
     else if msg_get message ''type'' \<noteq> JStr ''task'' then lift (Inr ())
     else bindS (lift (jitem message ''task'')) (handle_task env))"

lemma ack_loop_shrinks [shrink_intros]: "shrinks (ack_loop task receipt)"
proof -
  have "length (ss_in s') \<le> length (ss_in s) \<and> backlog s' \<le> backlog s" if "ack_loop task receipt s = (r, s')" for s r s'
    using that
  proof (induction task receipt s rule: ack_loop.induct)
    case (1 task receipt s)
    obtain q s1 where q: "recv s = (q, s1)" by fastforce
    note sh = recv_shrinks [OF q]
    show ?case
    proof (cases q)
      case (Inl e)
      with 1(4) q sh show ?thesis by (simp add: ack_loop.simps [of task receipt s])
    next
      case (Inr m)
      then have le: "length (ss_in s1) \<le> length (ss_in s)" "backlog s1 + 2 \<le> backlog s" using sh by auto
      show ?thesis
      proof (cases "is_ack_for m receipt")
        case (Inl e)
        with 1(4) q Inr le show ?thesis by (auto simp: ack_loop.simps [of task receipt s])
      next
        case ia: (Inr b)
        show ?thesis
        proof (cases b)
          case True
          with 1(4) q Inr ia have "acknowledged_act task receipt s1 = (r, s')" by (simp add: ack_loop.simps [of task receipt s])
          with acknowledged_shrinks [of task receipt] le show ?thesis unfolding shrinks_def by fastforce
        next
          case False
          then have b: "b = False" by simp
          show ?thesis
          proof (cases "msg_get m ''type'' = JStr ''receipt_state''")
            case True
            show ?thesis
            proof (cases "msg_get m ''receipt''")
              case (JObj d)
              obtain t s2 where t: "take_receipt_state (JObj d) s1 = (t, s2)" by fastforce
              with take_receipt_state_shrinks [of "JObj d"] have le2: "length (ss_in s2) \<le> length (ss_in s1)" "backlog s2 \<le> backlog s1"
                unfolding shrinks_def by blast+
              show ?thesis
              proof (cases t)
                case (Inl e)
                with 1(4) q Inr ia b True JObj t le le2 show ?thesis by (simp add: ack_loop.simps [of task receipt s])
              next
                case t2: (Inr u)
                with 1(4) q Inr ia b True JObj t have "ack_loop task receipt s2 = (r, s')"
                  by (simp add: ack_loop.simps [of task receipt s])
                with 1(1) [OF q [symmetric] Inr ia b True JObj t [symmetric] t2] le le2 show ?thesis by simp
              qed
            qed (use 1(4) q Inr ia b True le in \<open>simp_all add: ack_loop.simps [of task receipt s]\<close>)
          next
            case ns: False
            show ?thesis
            proof (cases "msg_get m ''type'' = JStr ''task''")
              case True
              with 1(4) q Inr ia b ns have "ack_loop task receipt (s1\<lparr>ss_pending := ss_pending s1 @ [m]\<rparr>) = (r, s')"
                by (simp add: ack_loop.simps [of task receipt s])
              with 1(2) [OF q [symmetric] Inr ia b ns True] le show ?thesis by (simp add: backlog_def)
            next
              case nt: False
              show ?thesis
              proof (cases "msg_get m ''type'' = JStr ''heartbeat''")
                case True
                with 1(4) q Inr ia b ns nt have "ack_loop task receipt s1 = (r, s')"
                  by (simp add: ack_loop.simps [of task receipt s])
                with 1(3) [OF q [symmetric] Inr ia b ns nt True] le show ?thesis by simp
              next
                case False
                with 1(4) q Inr ia b ns nt le show ?thesis by (simp add: ack_loop.simps [of task receipt s])
              qed
            qed
          qed
        qed
      qed
    qed
  qed
  then show ?thesis by (simp add: shrinks_def)
qed

lemma handle_task_shrinks [shrink_intros]: "shrinks (handle_task env task)"
  unfolding handle_task_def by (intro shrink_intros) (simp split: option.splits, intro conjI allI impI shrink_intros)

text \<open>Every turn that does not raise takes a message.\<close>

lemma session_iter_decreases:
  assumes "(Inr u, s') = session_iter env s"
  shows "backlog s' < backlog s"
proof -
  let ?rest = "\<lambda>message. if msg_get message ''type'' = JStr ''receipt_state''
       then bindS (lift (state_receipt message)) take_receipt_state
     else if msg_get message ''type'' \<noteq> JStr ''task'' then lift (Inr ())
     else bindS (lift (jitem message ''task'')) (handle_task env)"
  have rest: "shrinks (?rest m)" for m by (auto intro!: shrink_intros)
  obtain q s1 where q: "pop_or_recv s = (q, s1)" by fastforce
  with assms obtain m where m: "q = Inr m" and r: "?rest m s1 = (Inr u, s')"
    by (cases q) (auto simp: session_iter_def bindS_def)
  from q m have "backlog s1 < backlog s"
    by (auto simp: pop_or_recv_def backlog_def split: list.splits dest!: recv_shrinks)
  moreover from rest [of m] r have "backlog s' \<le> backlog s1" unfolding shrinks_def by blast
  ultimately show ?thesis by simp
qed

function session_loop :: "agent_env \<Rightarrow> unit act" where
  "session_loop env s =
     (if length (ss_receipts s) < env_expected_tasks env then
        (case session_iter env s of
           (Inl e, s') \<Rightarrow> (Inl e, s')
         | (Inr _, s') \<Rightarrow> session_loop env s')
      else (Inr (), s))"
  by pat_completeness auto

termination
  by (relation "measure (\<lambda>(env, s). backlog s)") (auto dest: session_iter_decreases)

declare session_loop.simps [simp del]

section \<open>A session\<close>

fun take_states :: "nat \<Rightarrow> unit act" where
  "take_states 0 = lift (Inr ())"
| "take_states (Suc n) =
     bindS pop_or_recv (\<lambda>message.
     bindS (lift (ensure (msg_get message ''type'' = JStr ''receipt_state'') ''invalid_receipt_state'' [])) (\<lambda>_.
     bindS (lift (state_receipt message)) (\<lambda>receipt.
     bindS (take_receipt_state receipt) (\<lambda>_. take_states n))))"

text \<open>\<open>receipt_state_count\<close>: an integer of at most a thousand, zero when it is missing.\<close>

definition state_count :: "json \<Rightarrow> nat res" where
  "state_count authenticated =
     bindE (jget_or authenticated ''receipt_state_count'' (JInt 0)) (\<lambda>v.
     case v of
       JInt n \<Rightarrow> if n < 0 \<or> n > 1000 then le_error ''invalid_receipt_state_count'' (py_str v) else Inr (nat n)
     | _ \<Rightarrow> le_error ''invalid_receipt_state_count'' (py_str v))"

definition authenticate_session :: "agent_env \<Rightarrow> json \<Rightarrow> unit act" where
  "authenticate_session env challenge =
     bindS (lift (jitem (env_profile env) ''chain_id'')) (\<lambda>chain_id.
     bindS (lift (jitem (env_profile env) ''registry'')) (\<lambda>registry.
     bindS (lift (verify_relay_challenge (env_ext env) challenge chain_id registry)) (\<lambda>_.
     bindS (lift (env_sign_challenge env challenge)) (\<lambda>signature.
     send (JObj [(''type'', JStr ''authenticate''), (''profile'', env_profile env),
       (''challenge_signature'', signature)])))))"

definition run_authenticated :: "agent_env \<Rightarrow> unit act" where
  "run_authenticated env =
     bindS recv (\<lambda>challenge.
     bindS (authenticate_session env challenge) (\<lambda>_.
     bindS recv (\<lambda>authenticated.
     bindS (lift (ensure (msg_get authenticated ''status'' = JStr ''authenticated'')
        ''relay_authentication_failed'' (dumps_ascii authenticated))) (\<lambda>_.
     bindS (lift (state_count authenticated)) (\<lambda>n.
     bindS (take_states n) (\<lambda>_.
     session_loop env))))))"

section \<open>Reconnecting\<close>

text \<open>
  What the world does at one connection attempt: the check before connecting, and the frames of
  the connection or the exception that connecting raises. Receipts and journal survive, the
  waiting messages and the count of rejections start afresh.
\<close>

record attempt =
  at_before :: "unit res"
  at_frames :: "frame list res"

definition connect_session :: "agent_env \<Rightarrow> attempt \<Rightarrow> unit act" where
  "connect_session env a s =
     (case bindE (at_before a) (\<lambda>_. at_frames a) of
        Inl e \<Rightarrow> (Inl e, s)
      | Inr frames \<Rightarrow> run_authenticated env (s\<lparr>ss_in := frames, ss_pending := [], ss_rejected := 0\<rparr>))"

definition exc_name :: "exc \<Rightarrow> string" where
  "exc_name e = (case e of ClientError \<Rightarrow> ''ClientError'' | TimeoutError \<Rightarrow> ''TimeoutError'' | OSError \<Rightarrow> ''OSError''
     | SocketClosed \<Rightarrow> ''_RetryableWebSocketClosed'' | _ \<Rightarrow> [])"

definition is_connection_error :: "exc \<Rightarrow> bool" where
  "is_connection_error e \<longleftrightarrow> e = ClientError \<or> e = TimeoutError \<or> e = OSError \<or> e = SocketClosed"

text \<open>What follows a failed attempt: the exception to raise, or another attempt.\<close>

definition after_failure :: "exc \<Rightarrow> nat \<Rightarrow> nat \<Rightarrow> exc option" where
  "after_failure e n limit =
     (if is_connection_error e then
        (if n > limit then Some (LoveEngineError ''relay_session_unavailable'' (exc_name e) 4) else None)
      else case e of
        LoveEngineError code _ _ \<Rightarrow>
          if code \<notin> {''rpc_unavailable'', ''registry_query_failed''} \<or> n > limit then Some e else None
      | _ \<Rightarrow> Some e)"

lemma after_failure_None: "after_failure e n limit = None \<Longrightarrow> n \<le> limit"
  by (auto simp: after_failure_def split: exc.splits if_splits)

function run_sessions :: "agent_env \<Rightarrow> (nat \<Rightarrow> attempt) \<Rightarrow> nat \<Rightarrow> nat \<Rightarrow> nat act" where
  "run_sessions env attempts limit n s =
     (case connect_session env (attempts (Suc n)) s of
        (Inr _, s') \<Rightarrow> (Inr (Suc n), s')
      | (Inl e, s') \<Rightarrow>
          (case after_failure e (Suc n) limit of
             Some e' \<Rightarrow> (Inl e', s')
           | None \<Rightarrow> run_sessions env attempts limit (Suc n) s'))"
  by pat_completeness auto

termination
  by (relation "measure (\<lambda>(env, attempts, limit, n, s). limit + 1 - n)") (auto dest: after_failure_None)

declare run_sessions.simps [simp del]

definition run_agent_session ::
    "agent_env \<Rightarrow> json \<Rightarrow> int \<Rightarrow> int \<Rightarrow> (nat \<Rightarrow> attempt) \<Rightarrow> task_journal \<Rightarrow> json res \<times> sess" where
  "run_agent_session env node_address reconnect_attempts idle_timeout attempts j =
     (let s0 = \<lparr>ss_in = [], ss_out = [], ss_pending = [], ss_journal = j, ss_receipts = [], ss_rejected = 0\<rparr> in
      if reconnect_attempts < 0 \<or> reconnect_attempts > 10 then
        (le_error ''invalid_reconnect_attempts'' (py_str_int reconnect_attempts), s0)
      else if idle_timeout < 1 \<or> idle_timeout > 900 then
        (le_error ''invalid_idle_timeout'' (py_str_int idle_timeout), s0)
      else case to_checksum_address (env_ext env) node_address of
        Inl e \<Rightarrow> (Inl e, s0)
      | Inr node \<Rightarrow>
          (case run_sessions (env\<lparr>env_node := node\<rparr>) attempts (nat reconnect_attempts) 0 s0 of
             (Inl e, s) \<Rightarrow> (Inl e, s)
           | (Inr n, s) \<Rightarrow>
               (Inr (JObj [(''node'', JStr node), (''receipts'', JArr (ss_receipts s)),
                  (''rejected'', JInt (int (ss_rejected s))), (''connection_attempts'', JInt (int n)),
                  (''reconnects'', JInt (int n - 1))]), s)))"

end
