(* ===== verification/AgentSessionInv.thy ===== *)
theory AgentSessionInv
  imports AgentSession
begin

text \<open>
  What holds after every session of \<^verbatim>\<open>agent_session.py\<close>, however the relay behaves and wherever it
  stops: the journal records only verified tasks, a receipt that was sent or is reported is the one
  the journal keeps for its task, so no task ever has two receipts; reported receipts belong to
  distinct tasks.
\<close>

section \<open>The invariant\<close>

text \<open>\<open>V\<close> is the set of tasks the node may accept, \<open>X\<close> a set of receipts sent before.\<close>

definition saved :: "journal \<Rightarrow> json \<Rightarrow> bool" where
  "saved j r \<longleftrightarrow> wf_json r \<and>
     (\<exists>i t. jitem r ''task_id'' = Inr (JStr i) \<and> jn_tasks j i = Some (t, Some (canonical_json_bytes r)))"

definition entry_ok :: "(json \<Rightarrow> bool) \<Rightarrow> string \<Rightarrow> string \<Rightarrow> string option \<Rightarrow> bool" where
  "entry_ok V i t x \<longleftrightarrow>
     (\<exists>task. t = canonical_json_bytes task \<and> V task \<and> jitem task ''task_id'' = Inr (JStr i)) \<and>
     (\<forall>y. x = Some y \<longrightarrow> (\<exists>v. wf_json v \<and> y = canonical_json_bytes v \<and> jitem v ''task_id'' = Inr (JStr i)))"

definition journal_ok :: "(json \<Rightarrow> bool) \<Rightarrow> journal \<Rightarrow> bool" where
  "journal_ok V j \<longleftrightarrow> (\<forall>i t x. jn_tasks j i = Some (t, x) \<longrightarrow> entry_ok V i t x)"

definition is_receipt_message :: "json \<Rightarrow> bool" where
  "is_receipt_message m \<longleftrightarrow> msg_get m ''type'' = JStr ''receipt''"

definition rid :: "json \<Rightarrow> string" where
  "rid r = str_of r ''task_id''"

definition sess_inv :: "(json \<Rightarrow> bool) \<Rightarrow> json set \<Rightarrow> sess \<Rightarrow> bool" where
  "sess_inv V X s \<longleftrightarrow>
     journal_inv (ss_journal s) \<and> journal_ok V (journal_abs (ss_journal s)) \<and>
     (\<forall>m \<in> set (ss_pending s). wf_json m) \<and>
     (\<forall>m \<in> set (ss_out s). is_receipt_message m \<longrightarrow> saved (journal_abs (ss_journal s)) (msg_get m ''receipt'')) \<and>
     (\<forall>r \<in> X \<union> set (ss_receipts s). saved (journal_abs (ss_journal s)) r) \<and>
     distinct (map rid (ss_receipts s))"

lemma jitem_str: "jitem r k = Inr (JStr i) \<Longrightarrow> str_of r k = i"
  by (cases r) (auto simp: jitem_def split: option.splits)

text \<open>Two texts of one value name the same task.\<close>

lemma task_id_same:
  assumes "wf_json v" "wf_json w" "canonical_json_bytes v = canonical_json_bytes w"
    and "jitem v k = Inr (JStr i)"
  shows "jitem w k = Inr (JStr i)"
proof -
  from assms have n: "jnorm v = jnorm w" by (simp add: canonical_inject)
  obtain d where d: "v = JObj d" using assms(4) by (cases v) (auto simp: jitem_def)
  then obtain e where e: "w = JObj e" using n by (cases w) auto
  have "sorted_dict d = sorted_dict e" using n unfolding d e jnorm_JObj by simp
  then have "map_option jnorm (map_of d k) = map_option jnorm (map_of e k)"
    using map_of_sorted_dict [of d k] map_of_sorted_dict [of e k] assms(1,2) d e by metis
  moreover have "map_of d k = Some (JStr i)" using assms(4) d by (auto simp: jitem_def split: option.splits)
  ultimately obtain y where "map_of e k = Some y" "jnorm y = JStr i" by (cases "map_of e k") (auto simp del: jnorm_eq_JStr)
  then show ?thesis by (simp add: e jitem_def)
qed

text \<open>A journal that keeps the receipts it has.\<close>

definition keeps_receipts :: "journal \<Rightarrow> journal \<Rightarrow> bool" where
  "keeps_receipts j j' \<longleftrightarrow> (\<forall>i t x. jn_tasks j i = Some (t, Some x) \<longrightarrow> jn_tasks j' i = Some (t, Some x))"

lemma saved_mono: "keeps_receipts j j' \<Longrightarrow> saved j r \<Longrightarrow> saved j' r"
  by (auto simp: keeps_receipts_def saved_def)

section \<open>Steps that leave journal and receipts alone\<close>

definition quiet_step :: "sess \<Rightarrow> sess \<Rightarrow> bool" where
  "quiet_step s s' \<longleftrightarrow> ss_journal s' = ss_journal s \<and> ss_receipts s' = ss_receipts s \<and>
     ((\<forall>x \<in> set (ss_pending s). wf_json x) \<longrightarrow> (\<forall>x \<in> set (ss_pending s'). wf_json x)) \<and>
     (\<forall>x \<in> set (ss_out s'). is_receipt_message x \<longrightarrow> x \<in> set (ss_out s))"

definition quiet :: "'a act \<Rightarrow> bool" where
  "quiet m \<longleftrightarrow> (\<forall>s r s'. m s = (r, s') \<longrightarrow> quiet_step s s')"

lemma quiet_step_refl [simp]: "quiet_step s s"
  by (simp add: quiet_step_def)

lemma quiet_step_trans: "quiet_step s t \<Longrightarrow> quiet_step t u \<Longrightarrow> quiet_step s u"
  unfolding quiet_step_def by metis

lemma quietD: "quiet m \<Longrightarrow> m s = (r, s') \<Longrightarrow> quiet_step s s'"
  unfolding quiet_def by blast

named_theorems quiet_intros

lemma quiet_bindS [quiet_intros]: "quiet m \<Longrightarrow> (\<And>x. quiet (f x)) \<Longrightarrow> quiet (bindS m f)"
  unfolding quiet_def bindS_def by (fastforce split: prod.splits sum.splits intro: quiet_step_trans)

lemma quiet_lift [quiet_intros]: "quiet (lift r)"
  by (simp add: quiet_def lift_def)

lemma quiet_send [quiet_intros]: "\<not> is_receipt_message m \<Longrightarrow> quiet (send m)"
  by (auto simp: quiet_def quiet_step_def send_def)

lemma decode_wf: "decode_frame f = Inr m \<Longrightarrow> wf_json m"
  by (auto simp: decode_frame_def split: frame.splits option.splits json.splits dest: json_loads_wf)

lemma quiet_recv [quiet_intros]: "quiet recv"
  by (auto simp: quiet_def quiet_step_def recv_def split: list.splits)

lemma recv_wf: "recv s = (Inr m, s') \<Longrightarrow> wf_json m"
  by (auto simp: recv_def split: list.splits dest: decode_wf)

lemma quiet_pop [quiet_intros]: "quiet pop_or_recv"
  using quiet_recv by (auto simp: quiet_def quiet_step_def pop_or_recv_def split: list.splits)

lemma heartbeat_step: "quiet_step s (s\<lparr>ss_out := ss_out s @ [JObj [(''type'', JStr ''heartbeat'')]]\<rparr>)"
  by (simp add: quiet_step_def is_receipt_message_def msg_get_def)

lemma pend_step: "wf_json m \<Longrightarrow> quiet_step s (s\<lparr>ss_pending := ss_pending s @ [m]\<rparr>)"
  by (simp add: quiet_step_def)

lemma quiet_keepalive [quiet_intros]: "quiet (keepalive n)"
proof -
  have "quiet_step s s'" if "keepalive n s = (r, s')" for s r s'
    using that
  proof (induction n arbitrary: s)
    case (Suc n)
    obtain q t where q: "recv s = (q, t)" by fastforce
    note qr = quietD [OF quiet_recv q]
    show ?case
    proof (cases q)
      case (Inl e)
      show ?thesis
      proof (cases "e = TimeoutError")
        case True
        from Suc.prems q Inl True have "keepalive n (t\<lparr>ss_out := ss_out t @ [JObj [(''type'', JStr ''heartbeat'')]]\<rparr>) = (r, s')"
          by simp
        from quiet_step_trans [OF qr quiet_step_trans [OF heartbeat_step Suc.IH [OF this]]] show ?thesis .
      next
        case False
        with Suc.prems q Inl have "s' = t" by (cases e) auto
        with qr show ?thesis by simp
      qed
    next
      case (Inr m)
      let ?t = "if msg_get m ''type'' = JStr ''task'' then t\<lparr>ss_pending := ss_pending t @ [m]\<rparr> else t"
      from Suc.prems q Inr have "keepalive n ?t = (r, s')" by simp
      moreover have "quiet_step t ?t" using recv_wf [of s m t] q Inr by (simp add: pend_step)
      ultimately show ?thesis using qr Suc.IH quiet_step_trans by blast
    qed
  qed simp
  then show ?thesis unfolding quiet_def by blast
qed

lemma confirm_loop_wf:
  assumes "confirm_loop t fs ps = (r, fs', ps')" "\<forall>m \<in> set ps. wf_json m"
  shows "\<forall>m \<in> set ps'. wf_json m"
  using assms
proof (induction t fs ps rule: confirm_loop.induct)
  case (2 t f fs ps)
  then show ?case
    by (cases "decode_frame f") (auto split: if_splits dest: decode_wf)
qed simp

lemma quiet_confirm [quiet_intros]: "quiet (confirm_relay_receipt receipt)"
proof -
  have "quiet (\<lambda>s. case confirm_loop i (ss_in s) (ss_pending s) of
       (r, fs, ps) \<Rightarrow> (r, s\<lparr>ss_in := fs, ss_pending := ps\<rparr>))" for i
    unfolding quiet_def quiet_step_def by (auto split: prod.splits dest: confirm_loop_wf)
  then show ?thesis
    unfolding confirm_relay_receipt_def
    by (intro quiet_intros) (auto simp: is_receipt_message_def msg_get_def)
qed

lemma quiet_task_result [quiet_intros]: "quiet (task_result env task)"
  unfolding task_result_def operate_def by (auto intro!: quiet_intros split: prod.splits)

lemma quiet_execute [quiet_intros]: "quiet (execute_task env task)"
proof -
  have "quiet (bindS (task_result env task) (\<lambda>result. lift (build_signed_receipt env task result ''completed'')))"
    by (intro quiet_intros)
  then show ?thesis
    unfolding execute_task_def quiet_def by (fastforce split: prod.splits sum.splits exc.splits)
qed

lemma quiet_step_inv: "quiet_step s s' \<Longrightarrow> sess_inv V X s \<Longrightarrow> sess_inv V X s'"
  unfolding sess_inv_def quiet_step_def by auto


section \<open>Pre- and postconditions over the invariant\<close>

definition hoare :: "(json \<Rightarrow> bool) \<Rightarrow> json set \<Rightarrow> (sess \<Rightarrow> bool) \<Rightarrow> 'a act \<Rightarrow> ('a \<Rightarrow> sess \<Rightarrow> bool) \<Rightarrow> bool" where
  "hoare V X P m Q \<longleftrightarrow> (\<forall>s r s'. sess_inv V X s \<longrightarrow> P s \<longrightarrow> m s = (r, s') \<longrightarrow>
     sess_inv V X s' \<and> (\<forall>x. r = Inr x \<longrightarrow> Q x s'))"

lemma hoareI:
  assumes "\<And>s r s'. sess_inv V X s \<Longrightarrow> P s \<Longrightarrow> m s = (r, s') \<Longrightarrow> sess_inv V X s' \<and> (\<forall>x. r = Inr x \<longrightarrow> Q x s')"
  shows "hoare V X P m Q"
  using assms by (simp add: hoare_def)

lemma hoareD:
  assumes "hoare V X P m Q" "sess_inv V X s" "P s" "m s = (r, s')"
  shows "sess_inv V X s'" "r = Inr x \<Longrightarrow> Q x s'"
  using assms unfolding hoare_def by blast+

lemma hoare_bindS:
  assumes "hoare V X P m Q" "\<And>x. hoare V X (Q x) (f x) R"
  shows "hoare V X P (bindS m f) R"
proof (rule hoareI)
  fix s r s' assume s: "sess_inv V X s" "P s" "bindS m f s = (r, s')"
  obtain q t where q: "m s = (q, t)" by fastforce
  note h = hoareD [OF assms(1) s(1,2) q]
  show "sess_inv V X s' \<and> (\<forall>x. r = Inr x \<longrightarrow> R x s')"
  proof (cases q)
    case (Inl e)
    with s(3) q h(1) show ?thesis by (auto simp: bindS_def)
  next
    case (Inr x)
    with s(3) q have "f x t = (r, s')" by (simp add: bindS_def)
    from hoareD [OF assms(2) h(1) h(2) [OF Inr] this] show ?thesis by blast
  qed
qed

lemma bindS_lift: "bindS (lift (Inr x)) f = f x"
  by (simp add: bindS_def lift_def)

lemma bindS_raise: "bindS (lift (Inl e)) f = lift (Inl e)"
  by (simp add: bindS_def lift_def)

lemma hoare_weaken:
  assumes "hoare V X P m Q" "\<And>s. P' s \<Longrightarrow> P s" "\<And>x s. Q x s \<Longrightarrow> Q' x s"
  shows "hoare V X P' m Q'"
  using assms unfolding hoare_def by blast

lemma hoare_quiet:
  assumes "quiet m" "\<And>s s' x. P s \<Longrightarrow> ss_journal s' = ss_journal s \<Longrightarrow> Q x s'"
  shows "hoare V X P m Q"
  using assms by (auto intro!: hoareI dest!: quietD intro: quiet_step_inv simp: quiet_step_def)

lemma hoare_lift: "(\<And>x s. P s \<Longrightarrow> r = Inr x \<Longrightarrow> Q x s) \<Longrightarrow> hoare V X P (lift r) Q"
  by (auto intro!: hoareI simp: lift_def)

lemma hoare_recv: "hoare V X P recv (\<lambda>m _. wf_json m)"
  by (auto intro!: hoareI dest: recv_wf intro: quiet_step_inv [OF quietD [OF quiet_recv]])

lemma hoare_pop: "hoare V X P pop_or_recv (\<lambda>m _. wf_json m)"
proof (rule hoareI)
  fix s r s' assume s: "sess_inv V X s" "pop_or_recv s = (r, s')"
  show "sess_inv V X s' \<and> (\<forall>x. r = Inr x \<longrightarrow> wf_json x)"
  proof (cases "ss_pending s")
    case Nil
    with s(2) have "recv s = (r, s')" by (simp add: pop_or_recv_def)
    with s(1) show ?thesis using recv_wf quiet_step_inv [OF quietD [OF quiet_recv]] by blast
  next
    case (Cons m ms)
    with s show ?thesis by (auto simp: pop_or_recv_def sess_inv_def)
  qed
qed

section \<open>Receipts\<close>

abbreviation saved_in :: "sess \<Rightarrow> json \<Rightarrow> bool" where
  "saved_in s r \<equiv> saved (journal_abs (ss_journal s)) r"

lemma saved_id: "saved j r \<Longrightarrow> jitem r ''task_id'' = Inr (JStr (rid r))"
  by (auto simp: saved_def rid_def dest: jitem_str)

lemma record_receipt_distinct:
  assumes "record_receipt acc r rest = Inr (n, rs)" "\<forall>x \<in> set (r # acc @ rest). saved j x"
    and "distinct (map rid (acc @ rest))" "rid r \<notin> rid ` set acc"
  shows "distinct (map rid rs) \<and> set rs \<subseteq> insert r (set (acc @ rest))"
  using assms
proof (induction acc r rest rule: record_receipt.induct)
  case (1 acc r)
  then show ?case by (auto simp: bindE_Inr_iff)
next
  case (2 acc r x rest)
  have ids: "jitem x ''task_id'' = Inr (JStr (rid x))" "jitem r ''task_id'' = Inr (JStr (rid r))"
    using 2(3) by (auto intro: saved_id)
  show ?case
  proof (cases "rid x = rid r")
    case True
    with 2(2,4) ids show ?thesis by (auto simp: guard_Inr_iff)
  next
    case False
    with 2(2) ids have "record_receipt (acc @ [x]) r rest = Inr (n, rs)" by simp
    from 2(1) [OF ids _ this] 2(3-) ids False show ?thesis by auto
  qed
qed

lemma hoare_record: "hoare V X (\<lambda>s. saved_in s r) (record_act r) (\<lambda>_ _. True)"
proof (rule hoareI, intro conjI allI impI TrueI)
  fix s q s' assume s: "sess_inv V X s" "saved_in s r" "record_act r s = (q, s')"
  show "sess_inv V X s'"
  proof (cases "record_receipt [] r (ss_receipts s)")
    case (Inl e)
    with s show ?thesis by (auto simp: record_act_def)
  next
    case (Inr p)
    obtain n rs where p: "record_receipt [] r (ss_receipts s) = Inr (n, rs)" using Inr by (cases p) auto
    have "distinct (map rid rs) \<and> set rs \<subseteq> insert r (set (ss_receipts s))"
      using record_receipt_distinct [OF p, of "journal_abs (ss_journal s)"] s(1,2) by (auto simp: sess_inv_def)
    moreover have "s' = s\<lparr>ss_receipts := rs, ss_rejected := ss_rejected s + n\<rparr>" using s(3) p by (simp add: record_act_def)
    ultimately show ?thesis using s(1,2) by (auto simp: sess_inv_def)
  qed
qed


lemma confirm_saved:
  assumes "journal_inv j" "journal_ok V (journal_abs j)" "wf_json v" "journal_confirm j v = Inr j'"
  shows "journal_inv j'" "journal_abs j' = journal_abs j" "saved (journal_abs j) v"
proof -
  from task_journal.confirm_spec [OF assms(1), of v] assms(4)
  have c: "journal_inv j'" "journal_abs j' = journal_abs j" "spec_confirm (journal_abs j) v = Inr ()" by auto
  then obtain t where "case jn_tasks (journal_abs j) (py_str t) of
      Some (_, Some r) \<Rightarrow> r = canonical_json_bytes v | _ \<Rightarrow> False"
    unfolding spec_confirm_def by (elim run_elims) (simp only: ensure_Inr_iff)
  then obtain x where t: "jn_tasks (journal_abs j) (py_str t) = Some (x, Some (canonical_json_bytes v))"
    by (auto split: option.split_asm prod.split_asm)
  with assms(2) have "entry_ok V (py_str t) x (Some (canonical_json_bytes v))"
    unfolding journal_ok_def by blast
  then obtain w where "wf_json w" "canonical_json_bytes v = canonical_json_bytes w" "jitem w ''task_id'' = Inr (JStr (py_str t))"
    unfolding entry_ok_def by blast
  then have "jitem v ''task_id'' = Inr (JStr (py_str t))" using task_id_same [of w v] assms(3) by simp
  with c t assms(3) show "journal_inv j'" "journal_abs j' = journal_abs j" "saved (journal_abs j) v"
    by (auto simp: saved_def)
qed

lemma hoare_confirm_journal:
  assumes "wf_json v"
  shows "hoare V X P (with_journal (\<lambda>j. bindE (journal_confirm j v) (\<lambda>j'. Inr ((), j')))) (\<lambda>_ s. saved_in s v)"
proof (rule hoareI)
  fix s r s' assume s: "sess_inv V X s" "with_journal (\<lambda>j. bindE (journal_confirm j v) (\<lambda>j'. Inr ((), j'))) s = (r, s')"
  show "sess_inv V X s' \<and> (\<forall>x. r = Inr x \<longrightarrow> saved_in s' v)"
  proof (cases "journal_confirm (ss_journal s) v")
    case (Inl e)
    with s show ?thesis by (auto simp: with_journal_def)
  next
    case (Inr j)
    from s(1) have "journal_inv (ss_journal s)" "journal_ok V (journal_abs (ss_journal s))" by (auto simp: sess_inv_def)
    note c = confirm_saved [OF this assms Inr]
    have "s' = s\<lparr>ss_journal := j\<rparr>" using s(2) Inr by (simp add: with_journal_def)
    with c s(1) show ?thesis by (simp add: sess_inv_def)
  qed
qed

lemma hoare_confirm: "hoare V X P (confirm_relay_receipt r) (\<lambda>_ _. True)"
  by (rule hoare_quiet [OF quiet_confirm]) simp

lemma hoare_take_state: "wf_json v \<Longrightarrow> hoare V X P (take_receipt_state v) (\<lambda>_ _. True)"
  unfolding take_receipt_state_def
  by (rule hoare_bindS [OF hoare_confirm_journal] hoare_bindS [OF hoare_record] hoare_confirm | assumption)+

lemma record_act_journal: "record_act v s = (q, s') \<Longrightarrow> ss_journal s' = ss_journal s"
  by (auto simp: record_act_def split: sum.splits)

lemma take_state_journal:
  assumes "take_receipt_state v s = (q, s')" "sess_inv V X s" "wf_json v"
  shows "journal_abs (ss_journal s') = journal_abs (ss_journal s)"
proof (cases "journal_confirm (ss_journal s) v")
  case (Inl e)
  with assms(1) show ?thesis by (auto simp: take_receipt_state_def bindS_def with_journal_def)
next
  case (Inr j)
  let ?s = "s\<lparr>ss_journal := j\<rparr>"
  have j: "journal_abs j = journal_abs (ss_journal s)"
    using confirm_saved(2) [OF _ _ assms(3) Inr] assms(2) by (auto simp: sess_inv_def)
  obtain p t where p: "record_act v ?s = (p, t)" by fastforce
  have t: "ss_journal t = j" using record_act_journal [OF p] by simp
  show ?thesis
  proof (cases p)
    case (Inl e)
    with assms(1) Inr p t j show ?thesis by (simp add: take_receipt_state_def bindS_def with_journal_def)
  next
    case q: (Inr u)
    with assms(1) Inr p have "confirm_relay_receipt v t = (q, s')"
      by (simp add: take_receipt_state_def bindS_def with_journal_def)
    with quietD [OF quiet_confirm this] t j show ?thesis by (simp add: quiet_step_def)
  qed
qed

lemma hoare_acknowledged: "hoare V X (\<lambda>s. saved_in s r) (acknowledged_act task r) (\<lambda>_ _. True)"
proof -
  have "hoare V X (\<lambda>s. saved_in s r) (with_journal (\<lambda>j. Inr ((), journal_mark_acked j i))) (\<lambda>_ s. saved_in s r)" for i
    by (rule hoareI) (auto simp: with_journal_def sess_inv_def journal_mark_acked_inv)
  then show ?thesis
    unfolding acknowledged_act_def
    by (rule hoare_bindS) (rule hoare_bindS [OF hoare_record] hoare_confirm)+
qed

lemma msg_get_wf: "wf_json m \<Longrightarrow> msg_get m k = JObj d \<Longrightarrow> wf_json (JObj d)"
  by (cases m) (auto simp: msg_get_def jget_def jget_or_def split: option.splits dest: wf_map_of simp del: wf_json.simps)

text \<open>While it waits for an acknowledgement, only that receipt and confirmed ones are recorded.\<close>

lemma hoare_ack_loop: "hoare V X (\<lambda>s. saved_in s r) (ack_loop task r) (\<lambda>_ _. True)"
proof -
  have "sess_inv V X s'" if "ack_loop task r s = (q, s')" "sess_inv V X s" "saved_in s r" for s q s'
    using that
  proof (induction task r s rule: ack_loop.induct)
    case (1 task r s)
    obtain p s1 where p: "recv s = (p, s1)" by fastforce
    note qs = quietD [OF quiet_recv p]
    have inv1: "sess_inv V X s1" using quiet_step_inv [OF qs 1(5)] .
    have saved1: "saved_in s1 r" using qs 1(6) by (simp add: quiet_step_def)
    note eq = 1(4) [unfolded ack_loop.simps [of task r s] p]
    show ?case
    proof (cases p)
      case (Inl e)
      with eq inv1 show ?thesis by simp
    next
      case (Inr m)
      have wf: "wf_json m" using recv_wf p Inr by blast
      show ?thesis
      proof (cases "is_ack_for m r")
        case (Inl e)
        with eq \<open>p = Inr m\<close> inv1 show ?thesis by simp
      next
        case ia: (Inr b)
        show ?thesis
        proof (cases b)
          case True
          with eq Inr ia have "acknowledged_act task r s1 = (q, s')" by simp
          from hoareD(1) [OF hoare_acknowledged inv1 saved1 this] show ?thesis .
        next
          case False
          then have b: "b = False" by simp
          show ?thesis
          proof (cases "msg_get m ''type'' = JStr ''receipt_state''")
            case rs: True
            show ?thesis
            proof (cases "\<exists>d. msg_get m ''receipt'' = JObj d")
              case True
              then obtain d where d: "msg_get m ''receipt'' = JObj d" by blast
              have wd: "wf_json (JObj d)" using msg_get_wf [OF wf d] .
              obtain t s2 where t: "take_receipt_state (JObj d) s1 = (t, s2)" by fastforce
              have inv2: "sess_inv V X s2" using hoareD(1) [OF hoare_take_state [OF wd] inv1 TrueI t] .
              show ?thesis
              proof (cases t)
                case (Inl e)
                with eq Inr \<open>p = Inr m\<close> ia b rs d t inv2 show ?thesis by simp
              next
                case t2: (Inr u)
                with eq Inr ia b rs d t have "ack_loop task r s2 = (q, s')" by simp
                moreover have "saved_in s2 r" using take_state_journal [OF t inv1 wd] saved1 by simp
                ultimately show ?thesis using 1(1) [OF p [symmetric] Inr ia b rs d t [symmetric] t2] inv2 by blast
              qed
            next
              case False
              with eq Inr ia b rs inv1 show ?thesis by (cases "msg_get m ''receipt''") auto
            qed
          next
            case ns: False
            show ?thesis
            proof (cases "msg_get m ''type'' = JStr ''task''")
              case True
              with eq Inr ia b ns have "ack_loop task r (s1\<lparr>ss_pending := ss_pending s1 @ [m]\<rparr>) = (q, s')" by simp
              with 1(2) [OF p [symmetric] Inr ia b ns True] quiet_step_inv [OF pend_step [OF wf] inv1] saved1 show ?thesis
                by simp
            next
              case nt: False
              with eq Inr ia b ns inv1 1(3) [OF p [symmetric] Inr ia b ns nt] saved1 show ?thesis
                by (auto split: if_splits)
            qed
          qed
        qed
      qed
    qed
  qed
  then show ?thesis by (auto intro!: hoareI)
qed


section \<open>One task\<close>

lemma task_typed_id:
  assumes "build_task_typed_data E task = Inr x \<or> build_task_v2_typed_data E task = Inr x"
  shows "\<exists>i. jitem task ''task_id'' = Inr (JStr i)"
proof -
  from assms obtain m where "task_message E task = Inr m"
    unfolding build_task_typed_data_def build_task_v2_typed_data_def by (elim disjE run_elims) auto
  then obtain h where "id_item E task ''task_id'' = Inr h" unfolding task_message_def by (elim run_elims)
  then show ?thesis by (auto simp: item_Inr_iffs)
qed

lemma verified_id:
  assumes "env_verify env task = Inr a"
  shows "\<exists>i. jitem task ''task_id'' = Inr (JStr i)"
proof -
  let ?E = "env_ext env"
  from assms obtain sv verifier where v: "by_schema sv [(''loveengine.network-task/1'', verify_task ?E),
      (''loveengine.network-task/2'', verify_task_v2 ?E)] = Inr verifier"
    "(case verifier of None \<Rightarrow> le_error ''unsupported_schema_version'' (py_str sv) | Some verify \<Rightarrow>
       bindE (jget (env_profile env) ''schema_version'') (\<lambda>psv.
       bindE (by_schema psv PROFILE_TASK_SCHEMAS) (\<lambda>expected_schema.
       bindE (ensure (case expected_schema of Some s \<Rightarrow> sv = JStr s | None \<Rightarrow> False)
                ''task_profile_schema_mismatch'' []) (\<lambda>_.
       bindE (jitem (env_profile env) ''chain_id'') (\<lambda>chain_id.
       bindE (jitem (env_profile env) ''registry'') (\<lambda>registry.
       bindE (jitem2 (env_profile env) ''profile'' ''node'') (\<lambda>node.
       bindE (verify task chain_id registry node (env_expected_issuer env) (Some (env_manifest_hash env)) (env_now env)) (\<lambda>signer.
       bindE (issuer_allowed ?E (env_allowed_issuers env) signer) (\<lambda>_.
       bindE (jitem task ''task_type'') (\<lambda>task_type.
       bindE (jitem2 (env_profile env) ''profile'' ''capabilities'') (\<lambda>capabilities.
       bindE (member_of task_type capabilities) (\<lambda>declared.
       bindE (ensure declared ''capability_not_declared'' (py_str task_type)) (\<lambda>_.
       Inr signer))))))))))))) = Inr a"
    unfolding env_verify_def verify_task_for_node_def by (elim bindE_InrE)
  then obtain verify where w: "verifier = Some verify" by (cases verifier) auto
  with v(2) obtain c rg n e where r: "verify task c rg n e (Some (env_manifest_hash env)) (env_now env) = Inr a"
    by (simp only: option.simps) (elim bindE_InrE, simp)
  from v(1) w have "verify = verify_task ?E \<or> verify = verify_task_v2 ?E"
    by (auto simp: by_schema_def split: json.splits if_splits)
  then obtain typed where "build_task_typed_data ?E task = Inr typed \<or> build_task_v2_typed_data ?E task = Inr typed"
    using r by (elim disjE) (auto simp: verify_task_def verify_task_v2_iff verify_signed_by_iff bindE_Inr_iff)
  then show ?thesis by (rule task_typed_id)
qed

text \<open>The receipt that is built names the task.\<close>

definition env_ok :: "agent_env \<Rightarrow> bool" where
  "env_ok env \<longleftrightarrow> (\<forall>t v. env_sign_typed_data env t = Inr v \<longrightarrow> wf_json v) \<and>
     (\<forall>t n v. env_operate env t = (n, Inr v) \<longrightarrow> wf_json v)"

lemma receipt_value_props:
  assumes "receipt_value E ver c rg tid n st res nonce at = Inr v" "wf_json tid" "wf_json res"
  shows "wf_json v" "jitem v ''task_id'' = Inr tid"
  using assms by (auto simp: receipt_value_def bindE_Inr_iff)

lemma built_receipt:
  assumes "build_signed_receipt env task result st = Inr r" "wf_json task" "wf_json result" "env_ok env"
  shows "wf_json r" "jitem r ''task_id'' = jitem task ''task_id''"
proof -
  from assms(1) obtain ver c rg tid n nonce at v typed sig where
    v: "jitem task ''task_id'' = Inr tid" "receipt_value (env_ext env) ver c rg tid n st result nonce at = Inr v"
    and sig: "env_sign_typed_data env typed = Inr sig" "jset v ''signature'' sig = Inr r"
    unfolding build_signed_receipt_def Let_def build_receipt_def build_receipt_v2_def
    by (elim bindE_InrE) (auto simp: bindE_Inr_iff split: if_splits)
  note p = receipt_value_props [OF v(2) wf_jitem [OF assms(2) v(1)] assms(3)]
  have "wf_json sig" using assms(4) sig(1) by (auto simp: env_ok_def)
  with p sig(2) show "wf_json r" by (auto intro: wf_jset)
  show "jitem r ''task_id'' = jitem task ''task_id''" using jitem_jset [OF sig(2), of "''task_id''"] p(2) v(1) by simp
qed

text \<open>Computations whose result is a value with distinct keys.\<close>

definition yields_wf :: "json act \<Rightarrow> bool" where
  "yields_wf m \<longleftrightarrow> (\<forall>s v s'. m s = (Inr v, s') \<longrightarrow> wf_json v)"

lemma yields_wf_bindS: "(\<And>x. yields_wf (f x)) \<Longrightarrow> yields_wf (bindS m f)"
  unfolding yields_wf_def bindS_def by (auto split: prod.splits sum.splits)

lemma yields_wf_lift: "(\<And>v. r = Inr v \<Longrightarrow> wf_json v) \<Longrightarrow> yields_wf (lift r)"
  by (simp add: yields_wf_def lift_def)

lemma task_result_wf:
  assumes "wf_json task" "env_ok env"
  shows "yields_wf (task_result env task)"
proof -
  have "wf_json v" if "v1_result task = Inr v" for v
    using that assms(1) by (auto simp: v1_result_def bindE_Inr_iff intro: wf_jitem)
  then have "yields_wf (lift (v1_result task))" by (rule yields_wf_lift)
  moreover have "yields_wf (operate env task)"
  proof -
    obtain n r where r: "env_operate env task = (n, r)" by fastforce
    with assms(2) have "wf_json v" if "r = Inr v" for v using that by (auto simp: env_ok_def)
    then show ?thesis unfolding operate_def r by (auto intro!: yields_wf_bindS yields_wf_lift)
  qed
  moreover have "yields_wf (lift (le_error c d))" for c d by (rule yields_wf_lift) simp
  ultimately show ?thesis unfolding task_result_def by (auto intro!: yields_wf_bindS)
qed

lemma executed_receipt:
  assumes "execute_task env task s = (Inr r, s')" "wf_json task" "env_ok env"
  shows "wf_json r \<and> jitem r ''task_id'' = jitem task ''task_id''"
proof -
  let ?run = "bindS (task_result env task) (\<lambda>result. lift (build_signed_receipt env task result ''completed''))"
  obtain q t where q: "?run s = (q, t)" by fastforce
  show ?thesis
  proof (cases q)
    case (Inr r')
    with assms(1) q have "r' = r" by (simp add: execute_task_def)
    with q Inr obtain result where "\<exists>s1. task_result env task s = (Inr result, s1)" "build_signed_receipt env task result ''completed'' = Inr r"
      by (auto simp: bindS_def lift_def split: prod.splits sum.splits)
    with task_result_wf [OF assms(2,3)] built_receipt [OF _ assms(2) _ assms(3)] show ?thesis
      unfolding yields_wf_def by blast
  next
    case (Inl e)
    with assms(1) q obtain code tt where "jitem task ''task_type'' = Inr tt"
      "build_signed_receipt env task (JObj [(''error_code'', JStr code), (''task_type'', tt)]) ''rejected'' = Inr r"
      by (cases e) (auto simp: execute_task_def bindE_Inr_iff)
    with built_receipt [OF this(2) assms(2) _ assms(3)] wf_jitem [OF assms(2)] show ?thesis by auto
  qed
qed


definition receipt_pending :: "string \<Rightarrow> json \<Rightarrow> sess \<Rightarrow> bool" where
  "receipt_pending i r s \<longleftrightarrow> wf_json r \<and> jitem r ''task_id'' = Inr (JStr i) \<and>
     (\<exists>t x. jn_tasks (journal_abs (ss_journal s)) i = Some (t, x) \<and> (x = None \<or> x = Some (canonical_json_bytes r)))"

definition claimed :: "string \<Rightarrow> json option \<Rightarrow> sess \<Rightarrow> bool" where
  "claimed i ro s \<longleftrightarrow> (case ro of
       Some r \<Rightarrow> receipt_pending i r s
     | None \<Rightarrow> (\<exists>t. jn_tasks (journal_abs (ss_journal s)) i = Some (t, None)))"

lemma journal_change_inv:
  assumes "sess_inv V X s" "journal_inv j" "journal_ok V (journal_abs j)"
    and "keeps_receipts (journal_abs (ss_journal s)) (journal_abs j)"
  shows "sess_inv V X (s\<lparr>ss_journal := j\<rparr>)"
  using assms saved_mono [OF assms(4)] by (simp add: sess_inv_def)

definition accepts :: "(json \<Rightarrow> bool) \<Rightarrow> agent_env \<Rightarrow> bool" where
  "accepts V env \<longleftrightarrow> (\<forall>task a. env_verify env task = Inr a \<longrightarrow> V task)"

lemma hoare_claim:
  assumes "V task" "jitem task ''task_id'' = Inr (JStr i)"
  shows "hoare V X P (with_journal (\<lambda>j. journal_claim (env_ext env) j task)) (claimed i)"
proof (rule hoareI)
  fix s r s' assume s: "sess_inv V X s" "with_journal (\<lambda>j. journal_claim (env_ext env) j task) s = (r, s')"
  let ?j = "journal_abs (ss_journal s)"
  have inv: "journal_inv (ss_journal s)" "journal_ok V ?j" using s(1) by (auto simp: sess_inv_def)
  have id: "task_id_of task = Inr i" using assms(2) by (simp add: task_id_of_def py_str_def)
  show "sess_inv V X s' \<and> (\<forall>x. r = Inr x \<longrightarrow> claimed i x s')"
  proof (cases "journal_claim (env_ext env) (ss_journal s) task")
    case (Inl e)
    with s show ?thesis by (auto simp: with_journal_def)
  next
    case (Inr p)
    obtain ro j where p: "journal_claim (env_ext env) (ss_journal s) task = Inr (ro, j)" using Inr by (cases p) auto
    have s': "s' = s\<lparr>ss_journal := j\<rparr>" "r = Inr ro" using s(2) p by (simp_all add: with_journal_def)
    note c = task_journal.claim_Inr [OF inv(1) p]
    from c(2) show ?thesis
    proof (cases rule: spec_claim_Inr)
      case (replay i')
      then have i': "i' = i" using id by simp
      have "sess_inv V X s'"
        unfolding s' using s(1) c(1) inv(2) replay(3) by (intro journal_change_inv) (auto simp: keeps_receipts_def)
      moreover have "claimed i ro s'"
      proof (cases ro)
        case None
        with replay i' show ?thesis by (auto simp: claimed_def s')
      next
        case (Some v)
        have "entry_ok V i (canonical_json_bytes task) (Some (canonical_json_bytes v))"
          using inv(2) replay(2) i' Some unfolding journal_ok_def by auto
        then obtain w where w: "wf_json w" "canonical_json_bytes w = canonical_json_bytes v" "jitem w ''task_id'' = Inr (JStr i)"
          unfolding entry_ok_def by metis
        have "wf_json v" using c(3) Some by simp
        with task_id_same [OF w(1) this w(2,3)] replay i' Some show ?thesis
          by (simp add: claimed_def receipt_pending_def s')
      qed
      ultimately show ?thesis by (simp add: s'(2))
    next
      case (fresh i' nk)
      then have i': "i' = i" using id by simp
      have ok: "entry_ok V i (canonical_json_bytes task) None" using assms by (auto simp: entry_ok_def)
      have "sess_inv V X s'"
        unfolding s' using s(1) c(1) inv(2) fresh(3,6) ok i'
        by (intro journal_change_inv) (auto simp: keeps_receipts_def journal_ok_def)
      moreover have "claimed i ro s'" using fresh(5,6) i' by (auto simp: claimed_def s')
      ultimately show ?thesis by (simp add: s'(2))
    qed
  qed
qed

lemma hoare_receipt:
  assumes "wf_json task" "env_ok env" "jitem task ''task_id'' = Inr (JStr i)"
  shows "hoare V X (claimed i ro) (case ro of Some r \<Rightarrow> lift (Inr r) | None \<Rightarrow> execute_task env task) (receipt_pending i)"
proof (cases ro)
  case None
  show ?thesis
  proof (rule hoareI)
    fix s r s' assume s: "sess_inv V X s" "claimed i ro s"
      "(case ro of Some r \<Rightarrow> lift (Inr r) | None \<Rightarrow> execute_task env task) s = (r, s')"
    then have e: "execute_task env task s = (r, s')" using None by simp
    note q = quietD [OF quiet_execute e]
    have "receipt_pending i x s'" if "r = Inr x" for x
      using executed_receipt [of env task s x s'] e that assms q s(2) None
      by (auto simp: receipt_pending_def claimed_def quiet_step_def)
    with quiet_step_inv [OF q s(1)] show "sess_inv V X s' \<and> (\<forall>x. r = Inr x \<longrightarrow> receipt_pending i x s')" by blast
  qed
next
  case (Some r)
  then show ?thesis by (auto intro!: hoare_lift simp: claimed_def)
qed

lemma hoare_save:
  "hoare V X (receipt_pending i r) (with_journal (\<lambda>j. bindE (journal_save_receipt j i r) (\<lambda>j'. Inr ((), j'))))
     (\<lambda>_ s. saved_in s r)"
proof (rule hoareI)
  fix s q s' assume s: "sess_inv V X s" "receipt_pending i r s"
    "with_journal (\<lambda>j. bindE (journal_save_receipt j i r) (\<lambda>j'. Inr ((), j'))) s = (q, s')"
  let ?j = "journal_abs (ss_journal s)"
  have inv: "journal_inv (ss_journal s)" "journal_ok V ?j" using s(1) by (auto simp: sess_inv_def)
  from s(2) obtain t x where t: "jn_tasks ?j i = Some (t, x)" "x = None \<or> x = Some (canonical_json_bytes r)"
    and r: "wf_json r" "jitem r ''task_id'' = Inr (JStr i)" by (auto simp: receipt_pending_def)
  from task_journal.save_spec [OF inv(1) r(1)] t(1) obtain j where
    j: "journal_save_receipt (ss_journal s) i r = Inr j" "journal_inv j" "journal_abs j = spec_save ?j i r" by fastforce
  have abs: "jn_tasks (journal_abs j) = (jn_tasks ?j)(i \<mapsto> (t, Some (canonical_json_bytes r)))"
    using j(3) t(1) by (simp add: spec_save_def)
  have "entry_ok V i t x" using inv(2) t(1) unfolding journal_ok_def by blast
  then have "entry_ok V i t (Some (canonical_json_bytes r))" using r by (auto simp: entry_ok_def)
  then have ok: "journal_ok V (journal_abs j)" using inv(2) by (simp add: journal_ok_def abs)
  have keep: "keeps_receipts ?j (journal_abs j)" using t by (auto simp: keeps_receipts_def abs)
  have s': "s' = s\<lparr>ss_journal := j\<rparr>" using s(3) j(1) by (simp add: with_journal_def)
  from journal_change_inv [OF s(1) j(2) ok keep] r abs show "sess_inv V X s' \<and> (\<forall>x. q = Inr x \<longrightarrow> saved_in s' r)"
    by (auto simp: s' saved_def)
qed

lemma hoare_send_receipt:
  "hoare V X (\<lambda>s. saved_in s r) (send (JObj [(''type'', JStr ''receipt''), (''receipt'', r)])) (\<lambda>_ s. saved_in s r)"
  by (rule hoareI) (auto simp: send_def sess_inv_def is_receipt_message_def msg_get_def)

lemma hoare_handle_task:
  assumes "wf_json task" "env_ok env" "accepts V env"
  shows "hoare V X P (handle_task env task) (\<lambda>_ _. True)"
proof (cases "env_verify env task")
  case (Inl e)
  then show ?thesis unfolding handle_task_def by (auto intro!: hoareI simp: bindS_def lift_def)
next
  case (Inr a)
  have V: "V task" using Inr assms(3) by (auto simp: accepts_def)
  from verified_id [OF Inr] obtain i where i: "jitem task ''task_id'' = Inr (JStr i)" by blast
  have ack: "hoare V X (claimed i ro) (send (JObj [(''type'', JStr ''ack''), (''task_id'', t), (''status'', JStr ''accepted'')]))
      (\<lambda>_. claimed i ro)" for ro t
    by (rule hoare_quiet) (auto intro!: quiet_intros simp: is_receipt_message_def msg_get_def claimed_def receipt_pending_def
        split: option.splits)
  have p: "py_str (JStr i) = i" by (simp add: py_str_def)
  show ?thesis
    unfolding handle_task_def Inr i bindS_lift p
    by (rule hoare_bindS [OF hoare_claim [where V = V, OF V i]] hoare_bindS [OF ack] hoare_bindS [OF hoare_receipt [OF assms(1,2) i]]
      hoare_bindS [OF hoare_save] hoare_bindS [OF hoare_send_receipt] hoare_ack_loop)+
qed

section \<open>A whole session\<close>

lemma state_receipt_wf:
  assumes "state_receipt m = Inr r" "wf_json m"
  shows "wf_json r"
proof (cases "\<exists>d. msg_get m ''receipt'' = JObj d")
  case True
  then obtain d where d: "msg_get m ''receipt'' = JObj d" by blast
  with assms(1) have "r = JObj d" by (simp add: state_receipt_def split: if_splits)
  with msg_get_wf [OF assms(2) d] show ?thesis by simp
next
  case False
  with assms(1) show ?thesis by (cases "msg_get m ''receipt''") (auto simp: state_receipt_def)
qed

lemma hoare_state_message: "wf_json m \<Longrightarrow> hoare V X P (bindS (lift (state_receipt m)) take_receipt_state) (\<lambda>_ _. True)"
  by (cases "state_receipt m") (auto simp: hoare_take_state state_receipt_wf bindS_lift bindS_raise intro!: hoare_lift)

lemma hoare_iter:
  assumes "env_ok env" "accepts V env"
  shows "hoare V X P (session_iter env) (\<lambda>_ _. True)"
  unfolding session_iter_def
proof (rule hoare_bindS [OF hoare_pop])
  fix m
  show "hoare V X (\<lambda>_. wf_json m) (if msg_get m ''type'' = JStr ''receipt_state''
       then bindS (lift (state_receipt m)) take_receipt_state
     else if msg_get m ''type'' \<noteq> JStr ''task'' then lift (Inr ())
     else bindS (lift (jitem m ''task'')) (handle_task env)) (\<lambda>_ _. True)"
  proof (cases "wf_json m")
    case True
    have "hoare V X P' (bindS (lift (jitem m ''task'')) (handle_task env)) (\<lambda>_ _. True)" for P'
      using True assms by (cases "jitem m ''task''") (auto simp: bindS_lift bindS_raise intro!: hoare_lift hoare_handle_task dest: wf_jitem)
    with True show ?thesis by (auto intro!: hoare_state_message hoare_lift)
  qed (simp add: hoare_def)
qed

lemma hoare_loop:
  assumes "env_ok env" "accepts V env"
  shows "hoare V X P (session_loop env) (\<lambda>_ s. env_expected_tasks env \<le> length (ss_receipts s))"
proof -
  have "sess_inv V X s' \<and> (\<forall>x. r = Inr x \<longrightarrow> env_expected_tasks env \<le> length (ss_receipts s'))"
    if "session_loop env s = (r, s')" "sess_inv V X s" "env_ok env" "accepts V env" for s r s'
    using that
  proof (induction env s rule: session_loop.induct)
    case (1 env s)
    show ?case
    proof (cases "length (ss_receipts s) < env_expected_tasks env")
      case False
      with 1(2,3) show ?thesis by (simp add: session_loop.simps [of env s])
    next
      case True
      obtain q t where q: "session_iter env s = (q, t)" by fastforce
      note h = hoareD [OF hoare_iter [OF 1(4,5)] 1(3) TrueI q]
      show ?thesis
      proof (cases q)
        case (Inl e)
        with 1(2) True q h(1) show ?thesis by (auto simp: session_loop.simps [of env s])
      next
        case (Inr u)
        with 1(2) True q have "session_loop env t = (r, s')" by (simp add: session_loop.simps [of env s])
        from 1(1) [OF True q [symmetric] Inr this h(1) 1(4,5)] show ?thesis .
      qed
    qed
  qed
  with assms show ?thesis by (auto intro!: hoareI)
qed


lemma hoare_states: "hoare V X P (take_states n) (\<lambda>_ _. True)"
proof (induction n arbitrary: P)
  case 0
  show ?case by (auto intro!: hoare_lift)
next
  case (Suc n)
  show ?case
  proof (simp only: take_states.simps, rule hoare_bindS [OF hoare_pop])
    fix m
    let ?rest = "bindS (lift (ensure (msg_get m ''type'' = JStr ''receipt_state'') ''invalid_receipt_state'' [])) (\<lambda>_.
     bindS (lift (state_receipt m)) (\<lambda>receipt. bindS (take_receipt_state receipt) (\<lambda>_. take_states n)))"
    have "hoare V X (\<lambda>_. wf_json m) (lift (state_receipt m)) (\<lambda>r _. wf_json r)"
      by (rule hoare_lift) (blast intro: state_receipt_wf)
    moreover have "hoare V X (\<lambda>_. wf_json r) (take_receipt_state r) (\<lambda>_ _. True)" for r
    proof (cases "wf_json r")
      case True
      then show ?thesis by (rule hoare_take_state)
    qed (simp add: hoare_def)
    moreover have "hoare V X (\<lambda>_. wf_json m) (lift (ensure c a b)) (\<lambda>_ _. wf_json m)" for c a b
      by (rule hoare_lift)
    ultimately show "hoare V X (\<lambda>_. wf_json m) ?rest (\<lambda>_ _. True)"
      using Suc by (intro hoare_bindS) assumption+
  qed
qed

lemma hoare_true: "hoare V X (\<lambda>_. True) m (\<lambda>_ _. True) \<Longrightarrow> hoare V X P m (\<lambda>_ _. True)"
  by (simp add: hoare_def)

lemma hoare_authenticated:
  assumes "env_ok env" "accepts V env"
  shows "hoare V X P (run_authenticated env) (\<lambda>_ s. env_expected_tasks env \<le> length (ss_receipts s))"
proof -
  have lift: "hoare V X P' (lift r) (\<lambda>_ _. True)" for P' and r :: "'a res" by (rule hoare_lift) simp
  have recv: "hoare V X P' recv (\<lambda>_ _. True)" for P' by (rule hoare_quiet [OF quiet_recv]) simp
  have auth: "hoare V X P' (authenticate_session env c) (\<lambda>_ _. True)" for P' c
    unfolding authenticate_session_def
    by (rule hoare_quiet) (auto intro!: quiet_intros simp: is_receipt_message_def msg_get_def)
  show ?thesis
    unfolding run_authenticated_def
    by (rule hoare_bindS [OF recv] hoare_bindS [OF auth] hoare_bindS [OF hoare_states]
      hoare_bindS [where m = "lift _" and Q = "\<lambda>_ _. True"] hoare_lift TrueI hoare_loop [OF assms])+
qed

lemma connect_inv:
  assumes "env_ok env" "accepts V env" "sess_inv V X s" "connect_session env a s = (r, s')"
  shows "sess_inv V X s'" "r = Inr x \<Longrightarrow> env_expected_tasks env \<le> length (ss_receipts s')"
proof -
  have i: "sess_inv V X (s\<lparr>ss_in := fs, ss_pending := [], ss_rejected := 0\<rparr>)" for fs
    using assms(3) by (simp add: sess_inv_def)
  note h = hoareD [OF hoare_authenticated [OF assms(1,2)] i TrueI]
  show "sess_inv V X s'" using assms(3,4) h(1) by (auto simp: connect_session_def split: sum.splits)
  show "r = Inr x \<Longrightarrow> env_expected_tasks env \<le> length (ss_receipts s')"
    using assms(4) h(2) by (auto simp: connect_session_def split: sum.splits)
qed

text \<open>Every attempt keeps the invariant, and there are at most \<open>limit + 1\<close> attempts.\<close>

lemma run_sessions_inv:
  assumes "run_sessions env attempts limit n s = (r, s')" "env_ok env" "accepts V env" "sess_inv V X s" "n \<le> limit"
  shows "sess_inv V X s' \<and> (\<forall>k. r = Inr k \<longrightarrow> n < k \<and> k \<le> limit + 1 \<and> env_expected_tasks env \<le> length (ss_receipts s'))"
  using assms
proof (induction env attempts limit n s rule: run_sessions.induct)
  case (1 env attempts limit n s)
  obtain q t where q: "connect_session env (attempts (Suc n)) s = (q, t)" by fastforce
  note c = connect_inv [OF 1(3,4,5) q]
  show ?case
  proof (cases q)
    case (Inr x)
    with 1(2) q have "r = Inr (Suc n)" "s' = t" by (simp_all add: run_sessions.simps [of env attempts limit n s])
    with c(1) c(2) [OF Inr] 1(6) show ?thesis by simp
  next
    case (Inl e)
    show ?thesis
    proof (cases "after_failure e (Suc n) limit")
      case (Some e')
      with 1(2) q Inl c(1) show ?thesis by (auto simp: run_sessions.simps [of env attempts limit n s])
    next
      case None
      with 1(2) q Inl have "run_sessions env attempts limit (Suc n) t = (r, s')"
        by (simp add: run_sessions.simps [of env attempts limit n s])
      with 1(1) [OF q [symmetric] Inl None this 1(3,4) c(1) after_failure_None [OF None]] show ?thesis by auto
    qed
  qed
qed


section \<open>A node over its lifetime\<close>

lemma env_verify_node [simp]: "env_verify (env\<lparr>env_node := n\<rparr>) task = env_verify env task"
  by (simp add: env_verify_def)

lemma run_agent_session_inv:
  assumes "run_agent_session env addr lim idle attempts j = (r, s)" "env_ok env" "accepts V env"
    and "journal_inv j" "journal_ok V (journal_abs j)" "\<forall>x \<in> X. saved (journal_abs j) x"
  shows "sess_inv V X s"
    "r = Inr v \<Longrightarrow> \<exists>n node. to_checksum_address (env_ext env) addr = Inr node \<and> 1 \<le> n \<and> int n \<le> lim + 1 \<and>
       env_expected_tasks env \<le> length (ss_receipts s) \<and>
       v = JObj [(''node'', JStr node), (''receipts'', JArr (ss_receipts s)), (''rejected'', JInt (int (ss_rejected s))),
         (''connection_attempts'', JInt (int n)), (''reconnects'', JInt (int n - 1))]"
proof -
  let ?s0 = "\<lparr>ss_in = [], ss_out = [], ss_pending = [], ss_journal = j, ss_receipts = [], ss_rejected = 0\<rparr>"
  have i: "sess_inv V X ?s0" using assms(4-6) by (simp add: sess_inv_def)
  have *: "sess_inv V X s \<and> (\<forall>v. r = Inr v \<longrightarrow> (\<exists>n node. to_checksum_address (env_ext env) addr = Inr node \<and> 1 \<le> n \<and> int n \<le> lim + 1 \<and>
       env_expected_tasks env \<le> length (ss_receipts s) \<and>
       v = JObj [(''node'', JStr node), (''receipts'', JArr (ss_receipts s)), (''rejected'', JInt (int (ss_rejected s))),
         (''connection_attempts'', JInt (int n)), (''reconnects'', JInt (int n - 1))]))"
  proof (cases "lim < 0 \<or> lim > 10 \<or> idle < 1 \<or> idle > 900")
    case True
    with assms(1) i show ?thesis by (auto simp: run_agent_session_def Let_def split: if_splits)
  next
    case False
    show ?thesis
    proof (cases "to_checksum_address (env_ext env) addr")
      case (Inl e)
      with assms(1) i False show ?thesis by (auto simp: run_agent_session_def Let_def)
    next
      case (Inr node)
      obtain q t where q: "run_sessions (env\<lparr>env_node := node\<rparr>) attempts (nat lim) 0 ?s0 = (q, t)" by fastforce
      have e: "env_ok (env\<lparr>env_node := node\<rparr>)" "accepts V (env\<lparr>env_node := node\<rparr>)"
        using assms(2,3) by (simp_all add: env_ok_def accepts_def)
      note inv = run_sessions_inv [OF q e i]
      from assms(1) False Inr q show ?thesis using inv by (cases q) (auto simp: run_agent_session_def Let_def)
    qed
  qed
  then show "sess_inv V X s" by blast
  from * show "r = Inr v \<Longrightarrow> \<exists>n node. to_checksum_address (env_ext env) addr = Inr node \<and> 1 \<le> n \<and> int n \<le> lim + 1 \<and>
       env_expected_tasks env \<le> length (ss_receipts s) \<and>
       v = JObj [(''node'', JStr node), (''receipts'', JArr (ss_receipts s)), (''rejected'', JInt (int (ss_rejected s))),
         (''connection_attempts'', JInt (int n)), (''reconnects'', JInt (int n - 1))]" by blast
qed

text \<open>
  A node that is started again and again with its durable journal, under configurations of a
  class, and everything it has sent.
\<close>

inductive node_history :: "agent_env set \<Rightarrow> task_journal \<Rightarrow> json list \<Rightarrow> bool" for envs where
  history_start: "node_history envs (new_journal True) []"
| history_run: "node_history envs j out \<Longrightarrow> env \<in> envs \<Longrightarrow>
    run_agent_session env addr lim idle attempts j = (r, s) \<Longrightarrow> node_history envs (ss_journal s) (out @ ss_out s)"

definition sent_receipts :: "json list \<Rightarrow> json list" where
  "sent_receipts out = map (\<lambda>m. msg_get m ''receipt'') (filter is_receipt_message out)"

text \<open>The tasks that one of the configurations accepts.\<close>

definition accepted_tasks :: "agent_env set \<Rightarrow> json \<Rightarrow> bool" where
  "accepted_tasks envs task \<longleftrightarrow> (\<exists>env \<in> envs. \<exists>a. env_verify env task = Inr a)"

lemma node_history_inv:
  assumes "node_history envs j out" "\<forall>env \<in> envs. env_ok env"
  shows "journal_inv j \<and> journal_ok (accepted_tasks envs) (journal_abs j) \<and> (\<forall>r \<in> set (sent_receipts out). saved (journal_abs j) r)"
  using assms
proof (induction rule: node_history.induct)
  case history_start
  then show ?case by (simp add: new_journal_props journal_ok_def sent_receipts_def)
next
  case (history_run j out env addr lim idle attempts r s)
  let ?V = "accepted_tasks envs"
  have a: "accepts ?V env" using history_run(2) by (auto simp: accepts_def accepted_tasks_def)
  from history_run have "env_ok env" "journal_inv j" "journal_ok ?V (journal_abs j)"
    "\<forall>r \<in> set (sent_receipts out). saved (journal_abs j) r" by auto
  from run_agent_session_inv(1) [OF history_run(3) this(1) a this(2-4)]
  show ?case by (auto simp: sess_inv_def sent_receipts_def)
qed

lemma history_receipt_unique:
  assumes "node_history envs j out" "\<forall>env \<in> envs. env_ok env"
    and "r \<in> set (sent_receipts out)" "r' \<in> set (sent_receipts out)" "rid r = rid r'"
  shows "canonical_json_bytes r = canonical_json_bytes r'"
proof -
  from node_history_inv [OF assms(1,2)] assms(3,4) have "saved (journal_abs j) r" "saved (journal_abs j) r'" by auto
  then obtain i i' t t' where "jitem r ''task_id'' = Inr (JStr i)" "jitem r' ''task_id'' = Inr (JStr i')"
    "jn_tasks (journal_abs j) i = Some (t, Some (canonical_json_bytes r))"
    "jn_tasks (journal_abs j) i' = Some (t', Some (canonical_json_bytes r'))"
    unfolding saved_def by blast
  moreover from this have "i = i'" using assms(5) jitem_str unfolding rid_def by metis
  ultimately show ?thesis by simp
qed

lemma history_receipt_verified:
  assumes "node_history envs j out" "\<forall>env \<in> envs. env_ok env" "r \<in> set (sent_receipts out)"
  shows "\<exists>task. accepted_tasks envs task \<and> jitem task ''task_id'' = jitem r ''task_id''"
proof -
  from node_history_inv [OF assms(1,2)] assms(3) have "saved (journal_abs j) r" "journal_ok (accepted_tasks envs) (journal_abs j)" by auto
  then obtain i t where i: "jitem r ''task_id'' = Inr (JStr i)" "entry_ok (accepted_tasks envs) i t (Some (canonical_json_bytes r))"
    unfolding saved_def journal_ok_def by blast
  then show ?thesis unfolding entry_ok_def by auto
qed

end
