(* ===== verification/PilotAudit.thy ===== *)
theory PilotAudit
  imports Stored HashChain
begin

text \<open>
  \<^verbatim>\<open>pilot_audit.py\<close>: the append-only audit log, a file of canonical JSON lines that are linked
  by their SHA-256 hashes. A log is its list of lines; the run identifier, the last hash and the
  lines are the state of an \<open>AuditLog\<close>.
\<close>

record audit_log =
  al_lines :: "string list"
  al_run :: string
  al_previous :: string

definition AUDIT_START :: string where
  "AUDIT_START = ''sha256:'' @ replicate 64 CHR ''0''"

section \<open>Verification\<close>

text \<open>One line of the log; \<open>record.get\<close> on a value that is not an object raises.\<close>

definition audit_line :: "ext \<Rightarrow> (json \<times> nat) \<Rightarrow> string \<Rightarrow> (json \<times> nat) res" where
  "audit_line E st line =
     (case st of (previous, n) \<Rightarrow>
      let at = ''line '' @ dec_nat (Suc n) in
      case json_loads line of
        None \<Rightarrow> le_error ''audit_log_invalid'' at
      | Some record \<Rightarrow>
          bindE (jget record ''previous_record_hash'') (\<lambda>p.
          bindE (ensure (py_eq p previous) ''audit_chain_broken'' at) (\<lambda>_.
          bindE (jget record ''record_hash'') (\<lambda>expected.
          bindE (jpop record ''record_hash'') (\<lambda>view.
          bindE (ensure (expected = JStr (sha256_prefixed E (canonical_json_bytes view)))
                  ''audit_hash_mismatch'' at) (\<lambda>_.
          Inr (expected, Suc n)))))))"

definition verify_audit_log :: "ext \<Rightarrow> string list option \<Rightarrow> (nat \<times> json) res" where
  "verify_audit_log E file =
     (case file of
        None \<Rightarrow> le_error_exit ''audit_log_missing'' [] 3
      | Some ls \<Rightarrow>
          bindE (foldE (audit_line E) (JStr AUDIT_START, 0) ls) (\<lambda>(head, n). Inr (n, head)))"

section \<open>Writing\<close>

text \<open>\<open>AuditLog(path, run_id)\<close>: a log that has content is verified and continued.\<close>

definition open_audit_log :: "ext \<Rightarrow> string list \<Rightarrow> string \<Rightarrow> audit_log res" where
  "open_audit_log E ls run_id =
     (if ls = [] then Inr \<lparr>al_lines = [], al_run = run_id, al_previous = AUDIT_START\<rparr>
      else bindE (verify_audit_log E (Some ls)) (\<lambda>(n, head).
           bindE (jstr head) (\<lambda>h. Inr \<lparr>al_lines = ls, al_run = run_id, al_previous = h\<rparr>)))"

definition SENSITIVE_DETAILS :: "string list" where
  "SENSITIVE_DETAILS = [''authorization'', ''token'', ''write_token'']"

text \<open>The details come as keyword arguments, so their names are distinct; a detail named like one
  of the four leading fields replaces it. The text written and the new last hash.\<close>

definition audit_fields :: "audit_log \<Rightarrow> int \<Rightarrow> string \<Rightarrow> dict \<Rightarrow> dict" where
  "audit_fields log now event details =
     fold (\<lambda>kv d. AList.update (fst kv) (snd kv) d)
       (filter (\<lambda>kv. py_lower (fst kv) \<notin> set SENSITIVE_DETAILS) details)
       [(''timestamp'', JInt now), (''run_id'', JStr (al_run log)), (''event'', JStr event),
        (''previous_record_hash'', JStr (al_previous log))]"

definition audit_write :: "ext \<Rightarrow> audit_log \<Rightarrow> int \<Rightarrow> string \<Rightarrow> dict \<Rightarrow> audit_log" where
  "audit_write E log now event details =
     (let record = audit_fields log now event details;
          record_hash = sha256_prefixed E (canonical_json_bytes (JObj record));
          line = canonical_json_bytes (JObj (AList.update ''record_hash'' (JStr record_hash) record))
      in log\<lparr>al_previous := record_hash, al_lines := al_lines log @ [line]\<rparr>)"

section \<open>What is written verifies\<close>

text \<open>Details as the callers pass them: they do not name the two linking fields.\<close>

definition details_ok :: "dict \<Rightarrow> bool" where
  "details_ok details \<longleftrightarrow> (\<forall>kv \<in> set details. wf_json (snd kv) \<and>
     fst kv \<noteq> ''record_hash'' \<and> fst kv \<noteq> ''previous_record_hash'')"

lemma fold_update_other:
  "k \<notin> fst ` set kvs \<Longrightarrow> map_of (fold (\<lambda>kv d. AList.update (fst kv) (snd kv) d) kvs d) k = map_of d k"
  by (induction kvs arbitrary: d) auto

lemma fold_update_wf:
  "wf_json (JObj d) \<Longrightarrow> (\<And>kv. kv \<in> set kvs \<Longrightarrow> wf_json (snd kv)) \<Longrightarrow>
   wf_json (JObj (fold (\<lambda>kv d. AList.update (fst kv) (snd kv) d) kvs d))"
  by (induction kvs arbitrary: d) (auto simp del: wf_json.simps)

lemma audit_fields_ok:
  assumes "details_ok details"
  shows "wf_json (JObj (audit_fields log now event details))"
    and "map_of (audit_fields log now event details) ''record_hash'' = None"
    and "map_of (audit_fields log now event details) ''previous_record_hash'' = Some (JStr (al_previous log))"
proof -
  show "wf_json (JObj (audit_fields log now event details))"
    unfolding audit_fields_def using assms by (intro fold_update_wf) (auto simp: details_ok_def)
  show "map_of (audit_fields log now event details) ''record_hash'' = None"
    unfolding audit_fields_def using assms by (subst fold_update_other) (auto simp: details_ok_def)
  show "map_of (audit_fields log now event details) ''previous_record_hash'' = Some (JStr (al_previous log))"
    unfolding audit_fields_def using assms by (subst fold_update_other) (auto simp: details_ok_def)
qed

lemma delete_update_fresh: "map_of d k = None \<Longrightarrow> AList.delete k (AList.update k x d) = d"
  by (induction d) (auto simp: AList.delete_eq split: if_splits)

lemma verify_audit_Inr_iff:
  "verify_audit_log E (Some ls) = Inr (n, head) \<longleftrightarrow> foldE (audit_line E) (JStr AUDIT_START, 0) ls = Inr (head, n)"
  by (auto simp: verify_audit_log_def bindE_Inr_iff)

lemma audit_write_verifies:
  assumes v: "verify_audit_log E (Some (al_lines log)) = Inr (n, JStr (al_previous log))"
    and d: "details_ok details"
  shows "verify_audit_log E (Some (al_lines (audit_write E log now event details)))
    = Inr (Suc n, JStr (al_previous (audit_write E log now event details)))"
proof -
  let ?r = "audit_fields log now event details"
  let ?h = "sha256_prefixed E (canonical_json_bytes (JObj ?r))"
  let ?d = "AList.update ''record_hash'' (JStr ?h) ?r"
  have wf: "wf_json (JObj ?d)" using audit_fields_ok(1) [OF d] by (intro wf_update) simp_all
  have "jget (JObj (sorted_dict ?d)) ''previous_record_hash'' = Inr (JStr (al_previous log))"
    "jget (JObj (sorted_dict ?d)) ''record_hash'' = Inr (JStr ?h)"
    using wf audit_fields_ok(3) [OF d] by (simp_all add: map_of_sorted_dict del: wf_json.simps)
  moreover have "canonical_json_bytes (JObj (AList.delete ''record_hash'' (sorted_dict ?d))) = canonical_json_bytes (JObj ?r)"
    using audit_fields_ok(2) [OF d] by (simp add: canonical_delete_sorted delete_update_fresh)
  ultimately show ?thesis
    using v wf
    by (simp add: verify_audit_Inr_iff audit_write_def Let_def foldE_append audit_line_def json_loads_canonical
        jnorm_JObj del: wf_json.simps jnorm.simps)
qed

lemma open_audit_log_verifies:
  "open_audit_log E ls run = Inr log \<Longrightarrow>
   \<exists>n. verify_audit_log E (Some (al_lines log)) = Inr (n, JStr (al_previous log))"
  by (auto simp: open_audit_log_def bindE_Inr_iff verify_audit_Inr_iff jstr_Inr_iff split: if_splits)

section \<open>The log as a hash chain\<close>

interpretation audit_chain: hash_chain "sha256_prefixed E" wf_dict
    "body_without ''record_hash''" "str_at ''record_hash''" "str_at ''previous_record_hash''" for E
  by unfold_locales (unfold wf_dict_def, rule body_without_str_at, auto)

text \<open>A log that verifies is a chain of records, one per line, that ends in the reported hash.\<close>

lemma verify_audit_linked:
  assumes "foldE (audit_line E) (JStr h, i) ls = Inr (head, n)"
  shows "\<exists>ds g. mapE load_json ls = Inr (map JObj ds) \<and> head = JStr g \<and> n = i + length ls \<and>
           audit_chain.linked E h ds g"
  using assms
proof (induction ls arbitrary: h i)
  case Nil
  then show ?case by auto
next
  case (Cons l ls)
  from Cons.prems obtain st where st: "audit_line E (JStr h, i) l = Inr st"
    "foldE (audit_line E) st ls = Inr (head, n)" by (auto elim: bindE_InrE)
  from st(1) obtain recd where l: "json_loads l = Some recd"
    by (auto simp: audit_line_def Let_def split: option.splits)
  from st(1) l obtain p expected view where r: "jget recd ''previous_record_hash'' = Inr p"
    "py_eq p (JStr h)" "jget recd ''record_hash'' = Inr expected" "jpop recd ''record_hash'' = Inr view"
    "expected = JStr (sha256_prefixed E (canonical_json_bytes view))" "Inr (expected, Suc i) = (Inr st :: (json \<times> nat) res)"
    unfolding audit_line_def Let_def prod.case l option.case by (elim run_elims)
  then obtain d where d: "recd = JObj d" "view = JObj (AList.delete ''record_hash'' d)"
    by (auto simp: jpop_Inr_iff)
  let ?g = "sha256_prefixed E (canonical_json_bytes view)"
  from r d have links: "map_of d ''previous_record_hash'' = Some (JStr h)" "map_of d ''record_hash'' = Some (JStr ?g)"
    by (auto split: option.splits)
  from r(5,6) st(2) have "foldE (audit_line E) (JStr ?g, Suc i) ls = Inr (head, n)" by simp
  from Cons.IH [OF this] obtain ds g where "mapE load_json ls = Inr (map JObj ds)" "head = JStr g"
    "n = Suc i + length ls" "audit_chain.linked E ?g ds g" by blast
  moreover have "load_json l = Inr (JObj d)" "wf_dict d"
    using l d(1) json_loads_wf by (auto simp: load_json_def wf_dict_def simp del: wf_json.simps)
  ultimately show ?case
    using links d(2) by (intro exI [of _ "d # ds"] exI [of _ g])
      (simp add: str_at_Some, simp add: body_without_def)
qed

section \<open>The last hash determines the log\<close>

definition audit_body :: "string \<Rightarrow> string" where
  "audit_body line = (case load_json line of Inr (JObj d) \<Rightarrow> body_without ''record_hash'' d | _ \<Rightarrow> [])"

lemma linked_claims: "audit_chain.linked E h ds g \<Longrightarrow> d \<in> set ds \<Longrightarrow>
    wf_json (JObj d) \<and> map_of d ''record_hash'' = Some (JStr (sha256_prefixed E (body_without ''record_hash'' d)))"
  by (induction ds arbitrary: h) (auto simp: wf_dict_def str_at_Some)

lemma audit_heads_agree:
  assumes v: "verify_audit_log E (Some ls) = Inr (n, head)" "verify_audit_log E (Some ls') = Inr (n', head)"
    and inj: "inj_on (sha256_prefixed E) (audit_body ` (set ls \<union> set ls'))"
    and start: "AUDIT_START \<notin> sha256_prefixed E ` audit_body ` (set ls \<union> set ls')"
  shows "\<exists>vs ws. mapE load_json ls = Inr vs \<and> mapE load_json ls' = Inr ws \<and> map jnorm vs = map jnorm ws"
proof -
  obtain ds g where ds: "mapE load_json ls = Inr (map JObj ds)" "head = JStr g" "audit_chain.linked E AUDIT_START ds g"
    using verify_audit_linked v(1) unfolding verify_audit_Inr_iff by blast
  obtain es g' where es: "mapE load_json ls' = Inr (map JObj es)" "head = JStr g'" "audit_chain.linked E AUDIT_START es g'"
    using verify_audit_linked v(2) unfolding verify_audit_Inr_iff by blast
  have bodies: "audit_body ` set xs = body_without ''record_hash'' ` set fs" if "mapE load_json xs = Inr (map JObj fs)" for xs fs
  proof -
    from that have "list_all2 (\<lambda>l d. load_json l = Inr (JObj d)) xs fs"
      unfolding mapE_Inr_iff by (simp add: list.rel_map)
    then have "map audit_body xs = map (body_without ''record_hash'') fs"
      by (induction rule: list_all2_induct) (simp_all add: audit_body_def)
    then show ?thesis by (metis list.set_map)
  qed
  have im: "audit_body ` (set ls \<union> set ls') = body_without ''record_hash'' ` (set ds \<union> set es)"
    using bodies [OF ds(1)] bodies [OF es(1)] by (simp add: image_Un)
  have eq: "map (body_without ''record_hash'') ds = map (body_without ''record_hash'') es"
    using ds(3) es(3) [folded \<open>head = JStr g'\<close> [unfolded ds(2), simplified]]
  proof (rule audit_chain.head_determines)
    show "inj_on (sha256_prefixed E) (body_without ''record_hash'' ` (set ds \<union> set es))" using inj im by simp
    show "sha256_prefixed E (body_without ''record_hash'' e) \<noteq> AUDIT_START" if "e \<in> set ds \<union> set es" for e
      using start im that by (metis image_eqI)
  qed
  then have len: "length ds = length es" by (rule map_eq_imp_length_eq)
  have "map jnorm (map JObj ds) = map jnorm (map JObj es)"
  proof (rule nth_equalityI)
    fix i assume "i < length (map jnorm (map JObj ds))"
    then have i: "i < length ds" "ds ! i \<in> set ds" "es ! i \<in> set es" using len by auto
    have b: "body_without ''record_hash'' (ds ! i) = body_without ''record_hash'' (es ! i)"
      using arg_cong [OF eq, of "\<lambda>xs. xs ! i"] i(1) len by simp
    note cd = linked_claims [OF ds(3) i(2)] and ce = linked_claims [OF es(3) i(3)]
    have "map_of (ds ! i) ''record_hash'' = map_of (es ! i) ''record_hash''" by (simp only: cd ce b)
    from body_without_inject [OF cd [THEN conjunct1] ce [THEN conjunct1] b this]
    show "map jnorm (map JObj ds) ! i = map jnorm (map JObj es) ! i" using i(1) len by (simp only: nth_map length_map)
  qed (simp add: len)
  with ds(1) es(1) show ?thesis by blast
qed

end
