(* ===== verification/AgentExamples.thy ===== *)
theory AgentExamples
  imports RelayExamples AgentSessionInv PilotAudit
begin

text \<open>
  A node that runs one session with a durable journal, executes one task, and runs a second
  session in which the task comes again; an audit log with one record.
\<close>

definition demo_env :: agent_env where
  "demo_env = \<lparr>env_ext = demo_ext, env_now = 5, env_node = ''n'', env_profile = demo_profile, env_expected_tasks = 1,
     env_expected_issuer = Some (JStr ''i''), env_allowed_issuers = None, env_manifest_hash = JStr (''0x'' @ demo_digest),
     env_sign_challenge = (\<lambda>_. Inr (JStr ''n'')), env_sign_typed_data = (\<lambda>_. Inr (JStr ''n'')),
     env_has_cursors = True, env_has_origin = True, env_operate = (\<lambda>_. (0, Inr (JObj [])))\<rparr>"

definition demo_tail :: "frame list" where
  "demo_tail = map (\<lambda>v. TextFrame (canonical_json_bytes v))
     [JObj [(''type'', JStr ''ack''), (''task_id'', JStr ''t'')],
      JObj [(''type'', JStr ''ack''), (''status'', JStr ''receipt_confirmed''), (''task_id'', JStr ''t'')]]"

definition demo_frames :: "frame list" where
  "demo_frames = map (\<lambda>v. TextFrame (canonical_json_bytes v))
     [demo_challenge, JObj [(''status'', JStr ''authenticated'')],
      JObj [(''type'', JStr ''task''), (''task'', demo_task)]] @ demo_tail"

definition demo_attempt :: attempt where
  "demo_attempt = \<lparr>at_before = Inr (), at_frames = Inr demo_frames\<rparr>"

definition demo_run :: "task_journal \<Rightarrow> json res \<times> sess" where
  "demo_run j = run_agent_session demo_env (JStr ''n'') 0 30 (\<lambda>_. demo_attempt) j"

definition demo_first :: sess where
  "demo_first = snd (demo_run (new_journal True))"

definition demo_second :: sess where
  "demo_second = snd (demo_run (ss_journal demo_first))"

definition demo_made_receipt :: json where
  "demo_made_receipt = JObj [(''schema_version'', JStr ''loveengine.task-receipt/2''), (''chain_id'', JStr ''1''),
     (''registry'', JStr ''r''), (''task_id'', JStr ''t''), (''node'', JStr ''n''), (''status'', JStr ''completed''),
     (''result'', JObj []), (''result_hash'', JStr (''0x'' @ demo_digest)), (''nonce'', JStr ''1''),
     (''completed_at'', JStr ''5''), (''signature'', JStr ''n'')]"

definition demo_journal_done :: task_journal where
  "demo_journal_done = InSqlite [\<lparr>st_task_id = ''t'', st_issuer = ''i'', st_nonce = ''1'',
     st_task = canonical_json_bytes demo_task, st_receipt = Some (canonical_json_bytes demo_made_receipt), st_acked = True\<rparr>]"

text \<open>The state when the task message was read, and what the task leaves. The task message is evaluated
  in the kernel, the messages before it by the rules for canonical texts.\<close>

definition demo_auth_message :: json where
  "demo_auth_message = JObj [(''type'', JStr ''authenticate''), (''profile'', demo_profile), (''challenge_signature'', JStr ''n'')]"

definition demo_before :: "task_journal \<Rightarrow> sess" where
  "demo_before j = \<lparr>ss_in = demo_tail, ss_out = [demo_auth_message], ss_pending = [], ss_journal = j,
     ss_receipts = [], ss_rejected = 0\<rparr>"

definition demo_after :: "json \<Rightarrow> sess" where
  "demo_after r = \<lparr>ss_in = [], ss_out = [demo_auth_message,
       JObj [(''type'', JStr ''ack''), (''task_id'', JStr ''t''), (''status'', JStr ''accepted'')],
       JObj [(''type'', JStr ''receipt''), (''receipt'', r)],
       JObj [(''type'', JStr ''receipt_ack''), (''task_id'', JStr ''t'')]],
     ss_pending = [], ss_journal = demo_journal_done, ss_receipts = [r], ss_rejected = 0\<rparr>"

text \<open>\<open>handle_task\<close> after the checks of the task.\<close>

definition demo_serve :: "json \<Rightarrow> unit act" where
  "demo_serve task =
     bindS (with_journal (\<lambda>j. journal_claim (env_ext demo_env) j task)) (\<lambda>stored_receipt.
     bindS (lift (jitem task ''task_id'')) (\<lambda>task_id.
     bindS (send (JObj [(''type'', JStr ''ack''), (''task_id'', task_id), (''status'', JStr ''accepted'')])) (\<lambda>_.
     bindS (case stored_receipt of Some r \<Rightarrow> lift (Inr r) | None \<Rightarrow> execute_task demo_env task) (\<lambda>receipt.
     bindS (with_journal (\<lambda>j. bindE (journal_save_receipt j (py_str task_id) receipt) (\<lambda>j'. Inr ((), j')))) (\<lambda>_.
     bindS (send (JObj [(''type'', JStr ''receipt''), (''receipt'', receipt)])) (\<lambda>_.
     ack_loop task receipt))))))"

lemma demo_env_verifies: "env_verify demo_env (jnorm demo_task) = Inr ''i''"
  by code_simp

lemma demo_serve_first: "demo_serve (jnorm demo_task) (demo_before (new_journal True)) = (Inr (), demo_after demo_made_receipt)"
  by code_simp

lemma demo_serve_second:
  "demo_serve (jnorm demo_task) (demo_before demo_journal_done) = (Inr (), demo_after (jnorm demo_made_receipt))"
  by code_simp

lemma demo_handle: "handle_task demo_env (jnorm demo_task) s = demo_serve (jnorm demo_task) s"
  by (simp add: handle_task_def demo_serve_def demo_env_verifies bindS_lift del: jnorm.simps)

text \<open>The messages before the task.\<close>

lemma decode_canonical: "wf_json v \<Longrightarrow> jnorm v = JObj d \<Longrightarrow> decode_frame (TextFrame (canonical_json_bytes v)) = Inr (JObj d)"
  by (simp add: decode_frame_def json_loads_canonical)

lemma demo_norms:
  "jnorm demo_challenge = JObj [(''chain_id'', JStr ''1''), (''nonce'', JStr (replicate 64 CHR ''0'')),
     (''registry'', JStr ''r''), (''schema_version'', JStr RELAY_CHALLENGE_SCHEMA), (''type'', JStr ''challenge'')]"
  "jnorm (JObj [(''status'', JStr ''authenticated'')]) = JObj [(''status'', JStr ''authenticated'')]"
  "jnorm (JObj [(''type'', JStr ''task''), (''task'', demo_task)]) = JObj [(''task'', jnorm demo_task), (''type'', JStr ''task'')]"
  by code_simp+

lemma demo_decoded:
  "decode_frame (TextFrame (canonical_json_bytes demo_challenge)) = Inr (jnorm demo_challenge)"
  "decode_frame (TextFrame (canonical_json_bytes (JObj [(''status'', JStr ''authenticated'')]))) = Inr (JObj [(''status'', JStr ''authenticated'')])"
  "decode_frame (TextFrame (canonical_json_bytes (JObj [(''type'', JStr ''task''), (''task'', demo_task)])))
     = Inr (JObj [(''task'', jnorm demo_task), (''type'', JStr ''task'')])"
proof -
  have "wf_json demo_challenge" "wf_json (JObj [(''type'', JStr ''task''), (''task'', demo_task)])"
    by (simp_all add: demo_challenge_def demo_task_def demo_payload_def)
  then show "decode_frame (TextFrame (canonical_json_bytes demo_challenge)) = Inr (jnorm demo_challenge)"
    "decode_frame (TextFrame (canonical_json_bytes (JObj [(''type'', JStr ''task''), (''task'', demo_task)])))
       = Inr (JObj [(''task'', jnorm demo_task), (''type'', JStr ''task'')])"
    unfolding demo_norms(1) using demo_norms(1,3) by - (intro decode_canonical; assumption)+
  show "decode_frame (TextFrame (canonical_json_bytes (JObj [(''status'', JStr ''authenticated'')]))) = Inr (JObj [(''status'', JStr ''authenticated'')])"
    by (rule decode_canonical [OF _ demo_norms(2)]) simp
qed

lemma demo_challenge_ok: "verify_relay_challenge demo_ext (jnorm demo_challenge) (JStr ''1'') (JStr ''r'') = Inr ()"
  by code_simp

lemma demo_session:
  assumes "demo_serve (jnorm demo_task) (demo_before j) = (Inr (), demo_after r)"
  shows "fst (demo_run j) = Inr (JObj [(''node'', JStr ''n''), (''receipts'', JArr [r]), (''rejected'', JInt 0),
      (''connection_attempts'', JInt 1), (''reconnects'', JInt 0)]) \<and> snd (demo_run j) = demo_after r"
proof -
  let ?env = "demo_env\<lparr>env_node := ''n''\<rparr>"
  have env: "?env = demo_env" by (simp add: demo_env_def)
  define s where "s = \<lparr>ss_in = TextFrame (canonical_json_bytes (JObj [(''type'', JStr ''task''), (''task'', demo_task)])) # demo_tail,
    ss_out = [demo_auth_message], ss_pending = [], ss_journal = j, ss_receipts = [], ss_rejected = 0\<rparr>"
  have "session_iter demo_env s = (Inr (), demo_after r)"
    using assms demo_decoded(3)
    by (simp add: session_iter_def s_def bindS_def lift_def pop_or_recv_def recv_def msg_get_def demo_handle demo_before_def
        del: jnorm.simps)
  moreover have "session_loop demo_env (demo_after r) = (Inr (), demo_after r)"
    by (subst session_loop.simps) (simp add: demo_after_def demo_env_def)
  ultimately have loop: "session_loop demo_env s = (Inr (), demo_after r)"
    by (subst session_loop.simps) (simp add: s_def demo_env_def)
  have "authenticate_session demo_env (jnorm demo_challenge) t = (Inr (), t\<lparr>ss_out := ss_out t @ [demo_auth_message]\<rparr>)" for t
    using demo_challenge_ok
    by (simp add: authenticate_session_def demo_env_def demo_profile_def bindS_lift send_def demo_auth_message_def del: jnorm.simps)
  then have "connect_session demo_env demo_attempt
      \<lparr>ss_in = [], ss_out = [], ss_pending = [], ss_journal = j, ss_receipts = [], ss_rejected = 0\<rparr> = (Inr (), demo_after r)"
    using loop demo_decoded(1,2)
    by (simp add: connect_session_def demo_attempt_def demo_frames_def run_authenticated_def bindS_def recv_def lift_def
        msg_get_def state_count_def ensure_def s_def del: jnorm.simps)
  then have "run_sessions demo_env (\<lambda>_. demo_attempt) 0 0
      \<lparr>ss_in = [], ss_out = [], ss_pending = [], ss_journal = j, ss_receipts = [], ss_rejected = 0\<rparr> = (Inr 1, demo_after r)"
    by (subst run_sessions.simps) simp
  then show ?thesis
    using env by (simp add: demo_run_def run_agent_session_def to_checksum_address_def demo_after_def) (simp add: demo_env_def)
qed

lemma demo_results:
  "\<not> isl (fst (demo_run (new_journal True)))" "demo_first = demo_after demo_made_receipt"
  "demo_second = demo_after (jnorm demo_made_receipt)"
  using demo_session [OF demo_serve_first] demo_session [OF demo_serve_second]
  by (simp_all add: demo_first_def demo_second_def demo_after_def)

lemma demo_sent:
  "sent_receipts (ss_out demo_first) = [demo_made_receipt]" "sent_receipts (ss_out demo_second) = [jnorm demo_made_receipt]"
  "rid (jnorm demo_made_receipt) = rid demo_made_receipt"
proof -
  show "sent_receipts (ss_out demo_first) = [demo_made_receipt]" "sent_receipts (ss_out demo_second) = [jnorm demo_made_receipt]"
    by (simp_all add: demo_results sent_receipts_def demo_after_def is_receipt_message_def msg_get_def demo_auth_message_def
        del: jnorm.simps)
  show "rid (jnorm demo_made_receipt) = rid demo_made_receipt" by code_simp
qed

lemma demo_env_ok: "env_ok demo_env"
  by (auto simp: env_ok_def demo_env_def)

lemma demo_history:
  "node_history {demo_env} (ss_journal demo_first) (ss_out demo_first)"
  "node_history {demo_env} (ss_journal demo_second) (ss_out demo_first @ ss_out demo_second)"
proof -
  have run: "run_agent_session demo_env (JStr ''n'') 0 30 (\<lambda>_. demo_attempt) j = (fst (demo_run j), snd (demo_run j))" for j
    by (simp add: demo_run_def)
  from node_history.history_run [OF node_history.history_start _ run]
  show 1: "node_history {demo_env} (ss_journal demo_first) (ss_out demo_first)"
    by (simp add: demo_first_def)
  from node_history.history_run [OF this _ run]
  show "node_history {demo_env} (ss_journal demo_second) (ss_out demo_first @ ss_out demo_second)"
    by (simp add: demo_second_def)
qed

definition demo_journal :: task_journal where
  "demo_journal = InSqlite [\<lparr>st_task_id = ''t'', st_issuer = ''i'', st_nonce = ''1'',
     st_task = canonical_json_bytes demo_task, st_receipt = None, st_acked = False\<rparr>]"

definition demo_journal_answered :: task_journal where
  "demo_journal_answered = InSqlite [\<lparr>st_task_id = ''t'', st_issuer = ''i'', st_nonce = ''1'',
     st_task = canonical_json_bytes demo_task, st_receipt = Some (canonical_json_bytes demo_receipt), st_acked = False\<rparr>]"

definition with_task_id :: "json \<Rightarrow> string \<Rightarrow> json" where
  "with_task_id task i = (case task of JObj d \<Rightarrow> JObj (AList.update ''task_id'' (JStr i) d) | v \<Rightarrow> v)"

lemma sent_receipts_append: "sent_receipts (xs @ ys) = sent_receipts xs @ sent_receipts ys"
  by (simp add: sent_receipts_def)

definition demo_audit :: audit_log where
  "demo_audit = audit_write demo_ext \<lparr>al_lines = [], al_run = ''run'', al_previous = AUDIT_START\<rparr> 7 ''start''
     [(''port'', JInt 80), (''token'', JStr ''x'')]"

lemma demo_audit_verifies: "verify_audit_log demo_ext (Some (al_lines demo_audit)) = Inr (1, JStr (al_previous demo_audit))"
  by code_simp

end
