(* ===== verification/TaskIngress.thy ===== *)
theory TaskIngress
  imports RelayServer PutOnce
begin

text \<open>
  \<^verbatim>\<open>pilot_task_ingress.py\<close>: the admission of a signed V2 task into the hub's queue. The releases
  are the values of the hub's dictionary in its order. The queueing step is a write-once store of
  task texts, keyed by recipient and task, so a retry is answered as an idempotent replay and a
  changed task is refused.
\<close>

definition release_matches :: "ext \<Rightarrow> json \<Rightarrow> json \<Rightarrow> json \<Rightarrow> bool res" where
  "release_matches E bootstrap task release =
     bindE (validate_schema E release ''skill-release-v1.schema.json'') (\<lambda>_.
     bindE (jitem release ''status'') (\<lambda>status.
     if status \<noteq> JStr ''active'' then Inr False
     else bindE (jitem release ''chain_id'') (\<lambda>rc. bindE (jitem bootstrap ''chain_id'') (\<lambda>bc.
     if \<not> py_eq rc bc then Inr False
     else bindE (addr_item E release ''registry'') (\<lambda>rr. bindE (addr_item E bootstrap ''registry'') (\<lambda>br.
     if rr \<noteq> br then Inr False
     else bindE (addr_item E release ''publisher'') (\<lambda>rp. bindE (addr_item E bootstrap ''publisher'') (\<lambda>bp.
     if rp \<noteq> bp then Inr False
     else bindE (jitem release ''manifest_hash'') (\<lambda>rm. bindE (jlower rm) (\<lambda>rl.
          bindE (jitem task ''manifest_hash'') (\<lambda>tm. bindE (jlower tm) (\<lambda>tl. Inr (rl = tl)))))))))))))"

fun filterE :: "('a \<Rightarrow> bool res) \<Rightarrow> 'a list \<Rightarrow> 'a list res" where
  "filterE p [] = Inr []"
| "filterE p (x # xs) = bindE (p x) (\<lambda>b. bindE (filterE p xs) (\<lambda>ys. Inr (if b then x # ys else ys)))"

definition active_release_for_task :: "ext \<Rightarrow> json \<Rightarrow> json list \<Rightarrow> json \<Rightarrow> json res" where
  "active_release_for_task E bootstrap releases task =
     bindE (filterE (release_matches E bootstrap task) releases) (\<lambda>matches.
     case matches of [r] \<Rightarrow> Inr r | _ \<Rightarrow> le_error ''release_context_not_found'' [])"

definition EXECUTABLE_PAYLOADS :: "(string \<times> string) list" where
  "EXECUTABLE_PAYLOADS =
     [(''observe_live_text'', ''loveengine.observe-live-text-payload/1''),
      (''review_dispute'', ''loveengine.review-dispute-payload/1'')]"

definition is_member_profile :: "ext \<Rightarrow> string \<Rightarrow> json \<Rightarrow> bool res" where
  "is_member_profile E recipient profile =
     bindE (jitem2 profile ''profile'' ''node'') (\<lambda>n. bindE (to_checksum_address E n) (\<lambda>a. Inr (a = recipient)))"

text \<open>Everything before the store is touched: the checked task's recipient.\<close>

definition check_signed_task :: "ext \<Rightarrow> json \<Rightarrow> json list \<Rightarrow> json \<Rightarrow> int \<Rightarrow> string res" where
  "check_signed_task E bootstrap releases task now =
     bindE (ensure (is_dict task) ''invalid_task'' []) (\<lambda>_.
     bindE (jget task ''schema_version'') (\<lambda>sv.
     bindE (ensure (sv = JStr ''loveengine.network-task/2'') ''unsupported_task_schema'' []) (\<lambda>_.
     bindE (jget bootstrap ''schema_version'') (\<lambda>bsv.
     bindE (ensure (bsv = JStr ''loveengine.bootstrap-bundle/2'') ''unsupported_bootstrap_schema'' []) (\<lambda>_.
     bindE (jitem bootstrap ''chain_id'') (\<lambda>bc. bindE (jitem bootstrap ''registry'') (\<lambda>br.
     bindE (verify_bootstrap_v2 E bootstrap bc br now) (\<lambda>_.
     bindE (addr_item E task ''recipient'') (\<lambda>recipient.
     bindE (jitem bootstrap ''directory'') (\<lambda>directory. bindE (jlist directory) (\<lambda>members.
     bindE (filterE (is_member_profile E recipient) members) (\<lambda>profiles.
     bindE (case profiles of [p] \<Rightarrow> Inr p | _ \<Rightarrow> le_error ''profile_not_in_directory'' []) (\<lambda>profile.
     bindE (active_release_for_task E bootstrap releases task) (\<lambda>release.
     bindE (jitem bootstrap ''publisher'') (\<lambda>publisher.
     bindE (jitem release ''manifest_hash'') (\<lambda>manifest_hash.
     bindE (verify_task_for_node E task profile (Some publisher) (Some [publisher]) manifest_hash now) (\<lambda>_.
     bindE (jitem task ''task_type'') (\<lambda>task_type.
     bindE (by_schema task_type EXECUTABLE_PAYLOADS) (\<lambda>expected.
     bindE (case expected of Some s \<Rightarrow> Inr s | None \<Rightarrow> Inl KeyError) (\<lambda>expected_schema.
     bindE (jitem task ''payload'') (\<lambda>payload. bindE (jget payload ''schema_version'') (\<lambda>psv.
     bindE (ensure (psv = JStr expected_schema) ''executable_task_payload_required'' []) (\<lambda>_.
     Inr recipient)))))))))))))))))))))))"

text \<open>The queueing itself. A value bound to a column that is \<open>''\<close> becomes \<open>NULL\<close>, as in
  \<open>RelayStore.enqueue\<close>.\<close>

datatype queue_result = QueuedNow | IdempotentReplay

definition queue_task :: "ext \<Rightarrow> relay_store \<Rightarrow> json \<times> string \<Rightarrow> (queue_result \<times> relay_store) res" where
  "queue_task E store = (\<lambda>(task, recipient).
     bindE (text_item task ''task_id'') (\<lambda>task_id.
     bindE (text_item task ''issuer'') (\<lambda>issuer.
     bindE (text_item task ''nonce'') (\<lambda>nonce.
     let serialized = canonical_json_bytes task in
     case enqueue store recipient task_id serialized issuer nonce of
       (True, store') \<Rightarrow> Inr (QueuedNow, store')
     | (False, store') \<Rightarrow>
         (case task_state store' recipient task_id of
            None \<Rightarrow> le_error ''task_conflict'' []
          | Some existing \<Rightarrow>
              if m_payload existing \<noteq> serialized then le_error ''task_conflict'' []
              else
                bindE (to_checksum_address E (case m_issuer existing of Some s \<Rightarrow> JStr s | None \<Rightarrow> JNull)) (\<lambda>ei.
                bindE (addr_item E task ''issuer'') (\<lambda>ti.
                if ei = ti \<and> (case m_nonce existing of Some s \<Rightarrow> s | None \<Rightarrow> ''None'') = nonce then Inr (IdempotentReplay, store')
                else le_error ''task_conflict'' [])))))))"

definition queued_reply :: "queue_result \<Rightarrow> json \<Rightarrow> string \<Rightarrow> json" where
  "queued_reply r task_id recipient = JObj
     ((''queued'', JBool True) # (case r of IdempotentReplay \<Rightarrow> [(''idempotent_replay'', JBool True)] | QueuedNow \<Rightarrow> [])
      @ [(''task_id'', task_id), (''recipient'', JStr recipient)])"

definition enqueue_signed_task :: "ext \<Rightarrow> json \<Rightarrow> json list \<Rightarrow> relay_store \<Rightarrow> json \<Rightarrow> int \<Rightarrow> (json \<times> relay_store) res" where
  "enqueue_signed_task E bootstrap releases store task now =
     bindE (check_signed_task E bootstrap releases task now) (\<lambda>recipient.
     bindE (queue_task E store (task, recipient)) (\<lambda>(r, store').
     bindE (jitem task ''task_id'') (\<lambda>task_id.
     Inr (queued_reply r task_id recipient, store'))))"

section \<open>The queue is written once\<close>

definition task_key :: "json \<times> string \<Rightarrow> string \<times> string" where
  "task_key v = (snd v, text_key ''task_id'' (fst v))"

definition task_look :: "relay_store \<Rightarrow> string \<times> string \<Rightarrow> string option" where
  "task_look db k = map_option m_payload (task_state db (fst k) (snd k))"

lemma find_snoc_None: "find P xs = None \<Longrightarrow> find P (xs @ [x]) = (if P x then Some x else None)"
  by (induction xs) (auto split: if_splits)

lemma find_snoc_Some: "find P xs = Some y \<Longrightarrow> find P (xs @ ys) = Some y"
  by (induction xs) (auto split: if_splits)

lemma queue_task_Inr:
  assumes "queue_task E store (task, recipient) = Inr (r, store')"
  obtains (queued) issuer nonce where "r = QueuedNow"
      "enqueue store recipient (text_key ''task_id'' task) (canonical_json_bytes task) issuer nonce = (True, store')"
  | (replay) row where "r = IdempotentReplay" "store' = store"
      "task_state store recipient (text_key ''task_id'' task) = Some row" "m_payload row = canonical_json_bytes task"
proof -
  from assms obtain task_id issuer nonce where 1: "text_item task ''task_id'' = Inr task_id"
    "text_item task ''issuer'' = Inr issuer" "text_item task ''nonce'' = Inr nonce"
    by (auto simp: queue_task_def bindE_Inr_iff)
  then have k: "text_key ''task_id'' task = task_id" by (simp add: text_key_def)
  obtain b st where e: "enqueue store recipient task_id (canonical_json_bytes task) issuer nonce = (b, st)" by fastforce
  show ?thesis
  proof (cases b)
    case True
    with assms 1 e k show ?thesis by (intro queued [of issuer nonce]) (auto simp: queue_task_def)
  next
    case False
    then have "st = store" using e by (auto simp: enqueue_def Let_def split: if_splits)
    with assms 1 e k False show ?thesis
      by (auto simp: queue_task_def bindE_Inr_iff split: option.splits if_splits intro: replay)
  qed
qed

lemma enqueue_True:
  assumes "enqueue db rc t p i n = (True, db')"
  shows "db' = db @ [new_row rc t p i n]" "task_state db rc t = None"
  using assms by (auto simp: enqueue_def Let_def task_state_def find_None_iff row_conflict_def new_row_def at_key_def
      split: if_splits)

interpretation task_queue: put_once "queue_task E" task_key "\<lambda>v. canonical_json_bytes (fst v)" task_look relay_inv
    "\<lambda>_. True" for E
proof (unfold_locales, goal_cases)
  case (1 s v r s')
  obtain task rc where v: "v = (task, rc)" by fastforce
  from 1(3) [unfolded v] show ?case
  proof (cases rule: queue_task_Inr)
    case (queued issuer nonce)
    note e = enqueue_True [OF queued(2)]
    show ?thesis
    proof
      fix k
      show "task_look s' k = ((task_look s)(task_key v \<mapsto> canonical_json_bytes (fst v))) k"
      proof (cases "task_state s (fst k) (snd k)")
        case None
        with e v show ?thesis
          by (cases k) (auto simp: task_look_def task_key_def task_state_def find_snoc_None new_row_def at_key_def)
      next
        case (Some row)
        then have "k \<noteq> task_key v" using e(2) v by (auto simp: task_key_def)
        with Some e(1) show ?thesis by (simp add: task_look_def task_state_def find_snoc_Some)
      qed
    qed
  next
    case (replay row)
    with v show ?thesis by (auto simp: task_look_def task_key_def fun_eq_iff)
  qed
next
  case (2 s v r s' c)
  obtain task rc where v: "v = (task, rc)" by fastforce
  from 2(3) [unfolded v] show ?case
  proof (cases rule: queue_task_Inr)
    case (queued issuer nonce)
    with 2(4) enqueue_True(2) [OF queued(2)] v show ?thesis by (simp add: task_look_def task_key_def)
  next
    case (replay row)
    with 2(4) v show ?thesis by (simp add: task_look_def task_key_def)
  qed
next
  case (3 s v r s')
  obtain task rc where v: "v = (task, rc)" by fastforce
  from 3(3) [unfolded v] show ?case
  proof (cases rule: queue_task_Inr)
    case (queued issuer nonce)
    then have s': "s' = relay_op s (Enqueue rc (text_key ''task_id'' task) (canonical_json_bytes task) issuer nonce)" by simp
    show ?thesis unfolding s' by (rule relay_op_inv [OF 3(1)])
  qed (use 3 in simp)
qed

text \<open>The same task sent again is a replay that changes nothing.\<close>

lemma queue_task_again:
  assumes ok: "task_state store recipient tid = Some row" "m_payload row = canonical_json_bytes task"
    and fields: "text_item task ''task_id'' = Inr tid" "jitem task ''issuer'' = Inr (JStr i)" "i \<noteq> []"
      "text_item task ''nonce'' = Inr n" "n \<noteq> []" "checksum_address E (JStr i) = Inr a"
    and row: "m_issuer row = Some i" "m_nonce row = Some n"
  shows "queue_task E store (task, recipient) = Inr (IdempotentReplay, store)"
proof -
  have "at_key recipient tid row" "row \<in> set store" using task_state_Some [OF ok(1)] by auto
  then have "enqueue store recipient tid (canonical_json_bytes task) i n = (False, store)"
    by (auto simp: enqueue_def Let_def at_key_def row_conflict_def new_row_def)
  moreover have "text_item task ''issuer'' = Inr i" "addr_item E task ''issuer'' = Inr a"
    using fields by (simp_all add: text_item_def addr_item_def to_checksum_address_def)
  ultimately show ?thesis
    using ok fields row by (simp add: queue_task_def to_checksum_address_def)
qed

end
