(* ===== verification/Fetch.thy ===== *)
theory Fetch
  imports Stored
begin

text \<open>
  What the HTTP clients of \<^verbatim>\<open>observation.py\<close> and \<^verbatim>\<open>review_evidence.py\<close> share: origins of URLs
  (with the part of \<open>urllib.parse.urlsplit\<close> they use), bounded reading of a response body,
  decoding of a body, and computations that keep their state through an exception. The world
  answers requests with a list of responses; the requests are recorded.
\<close>

section \<open>urlsplit\<close>

record split_result =
  sr_scheme :: string
  sr_netloc :: string
  sr_path :: string
  sr_query :: string
  sr_fragment :: string

definition is_alpha :: "char \<Rightarrow> bool" where
  "is_alpha c \<longleftrightarrow> 65 \<le> ord_char c \<and> ord_char c \<le> 90 \<or> 97 \<le> ord_char c \<and> ord_char c \<le> 122"

definition scheme_char :: "char \<Rightarrow> bool" where
  "scheme_char c \<longleftrightarrow> is_alpha c \<or> is_digit c \<or> c \<in> set ''+-.''"

text \<open>\<open>s.partition(c)\<close> without the separator, and whether it was found.\<close>

definition partition_at :: "char \<Rightarrow> string \<Rightarrow> string \<times> bool \<times> string" where
  "partition_at c s = (let a = takeWhile (\<lambda>x. x \<noteq> c) s; r = dropWhile (\<lambda>x. x \<noteq> c) s in (a, r \<noteq> [], tl r))"

text \<open>\<open>s.rpartition("@")[2]\<close>.\<close>

definition after_last :: "char \<Rightarrow> string \<Rightarrow> string" where
  "after_last c s = rev (takeWhile (\<lambda>x. x \<noteq> c) (rev s))"

definition url_clean :: "string \<Rightarrow> string" where
  "url_clean s = filter (\<lambda>c. ord_char c \<notin> {9, 10, 13}) (dropWhile (\<lambda>c. ord_char c \<le> 32) s)"

definition url_scheme :: "string \<Rightarrow> string \<times> string" where
  "url_scheme u =
     (case partition_at CHR '':'' u of (a, found, r) \<Rightarrow>
        if found \<and> a \<noteq> [] \<and> is_alpha (hd a) \<and> list_all scheme_char a then (py_lower a, r) else ([], u))"

definition url_netloc :: "string \<Rightarrow> string \<times> string" where
  "url_netloc u =
     (if starts_with u ''//''
      then let r = drop 2 u; n = takeWhile (\<lambda>c. c \<notin> set ''/?#'') r in (n, drop (length n) r)
      else ([], u))"

definition check_netloc :: "ext \<Rightarrow> string \<Rightarrow> bool" where
  "check_netloc E n \<longleftrightarrow>
     (CHR ''['' \<in> set n \<longleftrightarrow> CHR '']'' \<in> set n) \<and>
     (CHR ''['' \<in> set n \<or> list_ex (\<lambda>c. 128 \<le> ord_char c) n \<longrightarrow> \<not> netloc_error E n)"

definition urlsplit :: "ext \<Rightarrow> string \<Rightarrow> split_result res" where
  "urlsplit E s =
     (case url_scheme (url_clean s) of (scheme, u) \<Rightarrow>
      case url_netloc u of (netloc, v) \<Rightarrow>
      if \<not> check_netloc E netloc then Inl ValueError
      else
        case partition_at CHR ''#'' v of (w, _, fragment) \<Rightarrow>
        case partition_at CHR ''?'' w of (path, _, query) \<Rightarrow>
        Inr \<lparr>sr_scheme = scheme, sr_netloc = netloc, sr_path = path, sr_query = query, sr_fragment = fragment\<rparr>)"

text \<open>The host (without lower-casing) and the text of the port.\<close>

definition host_port :: "string \<Rightarrow> string \<times> string" where
  "host_port netloc =
     (let h = after_last CHR ''@'' netloc in
      case partition_at CHR ''['' h of
        (_, True, bracketed) \<Rightarrow>
          (case partition_at CHR '']'' bracketed of (host, _, r) \<Rightarrow>
           case partition_at CHR '':'' r of (_, _, port) \<Rightarrow> (host, port))
      | (_, False, _) \<Rightarrow>
          (case partition_at CHR '':'' h of (host, _, port) \<Rightarrow> (host, port)))"

text \<open>\<open>parsed.port\<close>: absent when the text is empty; an integer in range otherwise.\<close>

definition url_port :: "string \<Rightarrow> nat option res" where
  "url_port t =
     (if t = [] then Inr None
      else if \<not> list_all is_digit t then Inl ValueError
      else case parse_digits 0 False t of
        Some n \<Rightarrow> if n \<le> 65535 then Inr (Some n) else Inl ValueError
      | None \<Rightarrow> Inl ValueError)"

section \<open>Origins (observation.py)\<close>

text \<open>\<open>parsed.port or default\<close>: port 0 counts as absent.\<close>

definition http_origin :: "ext \<Rightarrow> string \<Rightarrow> (string \<times> string \<times> nat) res" where
  "http_origin E s =
     bindE (urlsplit E s) (\<lambda>p.
     case host_port (sr_netloc p) of (host, port_text) \<Rightarrow>
     if sr_scheme p \<notin> {''http'', ''https''} \<or> host = [] \<or> CHR ''@'' \<in> set (sr_netloc p) \<or> sr_fragment p \<noteq> []
     then Inl ValueError
     else
       bindE (url_port port_text) (\<lambda>port.
       let n = (case port of Some n \<Rightarrow> n | None \<Rightarrow> 0) in
       Inr (sr_scheme p, py_lower host, if n \<noteq> 0 then n else if sr_scheme p = ''https'' then 443 else 80)))"

definition is_falsy :: "json \<Rightarrow> bool" where
  "is_falsy v \<longleftrightarrow> v \<in> {JNull, JBool False, JInt 0, JStr [], JArr [], JObj []}"

text \<open>A value that is not a string has no \<open>decode\<close>, unless it is falsy and taken as \<open>""\<close>.\<close>

definition normalized_http_origin :: "ext \<Rightarrow> json \<Rightarrow> (string \<times> string \<times> nat) res" where
  "normalized_http_origin E v =
     (case v of
        JStr s \<Rightarrow> catchE (http_origin E s) (\<lambda>e. e = TypeError \<or> e = ValueError) (\<lambda>_. le_error ''invalid_observation_url'' s)
      | _ \<Rightarrow> if is_falsy v then le_error ''invalid_observation_url'' (py_str v) else Inl AttributeError)"

text \<open>\<open>for field in names: if _normalized_http_origin(payload[field]) != expected: raise\<close>.\<close>

definition check_origins :: "ext \<Rightarrow> string \<Rightarrow> json \<Rightarrow> string \<times> string \<times> nat \<Rightarrow> string list \<Rightarrow> unit res" where
  "check_origins E code payload expected names =
     foldE (\<lambda>_ fld.
        bindE (jitem payload fld) (\<lambda>u. bindE (normalized_http_origin E u) (\<lambda>actual.
        ensure (actual = expected) code (fld @ '' must match the invite server origin'')))) () names"

section \<open>Reading a body\<close>

text \<open>\<open>StreamReader.read(n)\<close> on the buffers that arrive: at most \<open>n\<close> bytes of the next one; nothing at the end.\<close>

definition read_chunk :: "int \<Rightarrow> string list \<Rightarrow> string \<times> string list" where
  "read_chunk n bufs =
     (case bufs of
        [] \<Rightarrow> ([], [])
      | b # bs \<Rightarrow> if int (length b) \<le> n then (b, bs) else (take (nat n) b, drop (nat n) b # bs))"

function read_loop :: "int \<Rightarrow> string list \<Rightarrow> string \<Rightarrow> string" where
  "read_loop remaining bufs body =
     (if remaining \<le> 0 then body
      else case read_chunk (min 65536 remaining) bufs of (chunk, bufs') \<Rightarrow>
        if chunk = [] then body
        else read_loop (remaining - int (length chunk)) bufs' (body @ chunk))"
  by pat_completeness auto
termination
  by (relation "measure (\<lambda>(n, bufs, body). nat n)") auto

declare read_loop.simps [simp del]

definition read_limited :: "int \<Rightarrow> string \<Rightarrow> string list \<Rightarrow> string res" where
  "read_limited limit code bufs =
     (let body = read_loop (limit + 1) bufs [] in
      if limit < int (length body) then le_error code (''response exceeds '' @ py_str_int limit @ '' bytes'')
      else Inr body)"

text \<open>\<open>bytes.decode("utf-8")\<close> succeeds exactly on well-formed text (RFC 3629).\<close>

definition utf8_cont :: "char \<Rightarrow> bool" where
  "utf8_cont c \<longleftrightarrow> 128 \<le> ord_char c \<and> ord_char c \<le> 191"

fun utf8_valid :: "string \<Rightarrow> bool" where
  "utf8_valid [] \<longleftrightarrow> True"
| "utf8_valid (a # s) \<longleftrightarrow>
     (if ord_char a < 128 then utf8_valid s
      else case s of
        [] \<Rightarrow> False
      | b # t \<Rightarrow>
          if 194 \<le> ord_char a \<and> ord_char a \<le> 223 then utf8_cont b \<and> utf8_valid t
          else (case t of
              [] \<Rightarrow> False
            | c # u \<Rightarrow>
                if 224 \<le> ord_char a \<and> ord_char a \<le> 239 then
                  utf8_cont b \<and> utf8_cont c \<and> (ord_char a = 224 \<longrightarrow> 160 \<le> ord_char b)
                    \<and> (ord_char a = 237 \<longrightarrow> ord_char b \<le> 159) \<and> utf8_valid u
                else (case u of
                    [] \<Rightarrow> False
                  | d # w \<Rightarrow> 240 \<le> ord_char a \<and> ord_char a \<le> 244 \<and> utf8_cont b \<and> utf8_cont c \<and> utf8_cont d
                      \<and> (ord_char a = 240 \<longrightarrow> 144 \<le> ord_char b) \<and> (ord_char a = 244 \<longrightarrow> ord_char b \<le> 143)
                      \<and> utf8_valid w)))"

definition decode_utf8 :: "string \<Rightarrow> string res" where
  "decode_utf8 s = (if utf8_valid s then Inr s else Inl ValueError)"

section \<open>Requests\<close>

text \<open>Computations that keep their state through an exception.\<close>

type_synonym ('a, 's) eff = "'s \<Rightarrow> 'a res \<times> 's"

definition bindX :: "('a, 's) eff \<Rightarrow> ('a \<Rightarrow> ('b, 's) eff) \<Rightarrow> ('b, 's) eff" where
  "bindX m f = (\<lambda>s. case m s of (Inl e, s') \<Rightarrow> (Inl e, s') | (Inr x, s') \<Rightarrow> f x s')"

definition liftX :: "'a res \<Rightarrow> ('a, 's) eff" where
  "liftX r = (\<lambda>s. (r, s))"

definition modifyX :: "('s \<Rightarrow> 's) \<Rightarrow> (unit, 's) eff" where
  "modifyX f = (\<lambda>s. (Inr (), f s))"

lemma bindX_InrE:
  assumes "bindX m f s = (Inr y, t)"
  obtains x u where "m s = (Inr x, u)" "f x u = (Inr y, t)"
  using assms by (cases "m s"; cases "fst (m s)") (auto simp: bindX_def)

lemma liftX_InrE:
  assumes "liftX r s = (Inr y, t)"
  obtains "r = Inr y" "t = s"
  using assms by (auto simp: liftX_def)

lemma modifyX_InrE:
  assumes "modifyX f s = (Inr y, t)"
  obtains "t = f s"
  using assms by (auto simp: modifyX_def)

lemmas effect_elims = bindX_InrE liftX_InrE modifyX_InrE

text \<open>The same for any outcome: the first part failed, or the second one ran.\<close>

lemma bindX_cases:
  assumes "bindX m f s = (r, t)"
  obtains (fail) e where "m s = (Inl e, t)" "r = Inl e" | (run) x u where "m s = (Inr x, u)" "f x u = (r, t)"
  using assms by (cases "m s"; cases "fst (m s)") (auto simp: bindX_def)

lemma liftX_iff [simp]: "liftX x s = (r, t) \<longleftrightarrow> x = r \<and> t = s"
  by (auto simp: liftX_def)

lemma modifyX_iff [simp]: "modifyX f s = (r, t) \<longleftrightarrow> r = Inr () \<and> t = f s"
  by (auto simp: modifyX_def)

lemma bindX_lift [simp]:
  "bindX (liftX (Inr x)) f = f x"
  "bindX (liftX (Inl e)) f = liftX (Inl e)"
  by (simp_all add: bindX_def liftX_def)

datatype http =
    NoResponse exc
  | Response int "string list"

datatype request = Get string | GetAfter string int

record web =
  w_responses :: "http list"
  w_requests :: "request list"

text \<open>\<open>session.get(url, allow_redirects=False)\<close>: the status and the body still to be read. When nothing
  answers, the client's own timeout ends the wait.\<close>

definition http_get :: "request \<Rightarrow> (int \<times> string list, web) eff" where
  "http_get r = (\<lambda>w.
     let w1 = w\<lparr>w_requests := w_requests w @ [r]\<rparr> in
     case w_responses w of
       [] \<Rightarrow> (Inl TimeoutError, w1)
     | NoResponse e # rs \<Rightarrow> (Inl e, w1\<lparr>w_responses := rs\<rparr>)
     | Response status bufs # rs \<Rightarrow> (Inr (status, bufs), w1\<lparr>w_responses := rs\<rparr>))"

definition is_transport_error :: "exc \<Rightarrow> bool" where
  "is_transport_error e \<longleftrightarrow> e \<in> {ClientError, TimeoutError, OSError, ValueError}"

text \<open>What some answer among \<open>rs\<close> had as its body.\<close>

definition served :: "http list \<Rightarrow> string \<Rightarrow> bool" where
  "served rs body \<longleftrightarrow> (\<exists>bufs limit code. Response 200 bufs \<in> set rs \<and> read_limited limit code bufs = Inr body)"

lemma served_mono: "served rs body \<Longrightarrow> set rs \<subseteq> set rs' \<Longrightarrow> served rs' body"
  by (auto simp: served_def)

lemma http_get_cases:
  assumes "http_get r w = (x, w')"
  shows "set (w_responses w') \<subseteq> set (w_responses w)"
    and "x = Inr (status, bufs) \<Longrightarrow> Response status bufs \<in> set (w_responses w)"
  using assms by (auto simp: http_get_def Let_def split: list.splits http.splits)

text \<open>\<open>base.rstrip("/") + "/" + name\<close>.\<close>

definition under_url :: "string \<Rightarrow> string \<Rightarrow> string" where
  "under_url base name = rev (dropWhile (\<lambda>c. c = CHR ''/'') (rev base)) @ ''/'' @ name"

section \<open>Facts\<close>

text \<open>The loop reads what arrives up to one byte more than the limit, whatever the buffers are.\<close>

lemma read_loop_eq:
  "0 \<le> n \<Longrightarrow> [] \<notin> set bufs \<Longrightarrow> read_loop n bufs body = body @ take (nat n) (concat bufs)"
proof (induction n bufs body rule: read_loop.induct)
  case (1 n bufs body)
  show ?case
  proof (cases "n \<le> 0 \<or> bufs = []")
    case True
    then show ?thesis using 1(2) by (auto simp: read_loop.simps [of n bufs body] read_chunk_def)
  next
    case False
    then obtain b bs where b: "bufs = b # bs" "b \<noteq> []" using 1(3) by (cases bufs) auto
    let ?m = "min 65536 n"
    obtain chunk bufs' where c: "read_chunk ?m bufs = (chunk, bufs')" by fastforce
    have ch: "chunk \<noteq> []" "int (length chunk) \<le> n" "[] \<notin> set bufs'" "concat bufs = chunk @ concat bufs'"
      using c b False 1(3) by (auto simp: read_chunk_def split: if_splits)
    then have "read_loop n bufs body = read_loop (n - int (length chunk)) bufs' (body @ chunk)"
      using c False by (simp add: read_loop.simps [of n bufs body])
    also have "\<dots> = (body @ chunk) @ take (nat (n - int (length chunk))) (concat bufs')"
      using 1(1) [OF _ c [symmetric] ch(1)] ch False by auto
    also have "\<dots> = body @ take (nat n) (concat bufs)"
      using ch by (simp add: nat_diff_distrib')
    finally show ?thesis .
  qed
qed

text \<open>So a body is returned whole or refused: it is never cut.\<close>

lemma read_limited_eq:
  assumes "0 \<le> limit" "[] \<notin> set bufs"
  shows "read_limited limit code bufs =
    (if int (length (concat bufs)) \<le> limit then Inr (concat bufs)
     else le_error code (''response exceeds '' @ py_str_int limit @ '' bytes''))"
proof -
  have "read_loop (limit + 1) bufs [] = take (nat (limit + 1)) (concat bufs)"
    using assms by (simp add: read_loop_eq)
  then show ?thesis using assms(1) by (auto simp: read_limited_def Let_def min_def)
qed

lemma read_limited_Inr: "read_limited limit code bufs = Inr body \<Longrightarrow> int (length body) \<le> limit"
  by (auto simp: read_limited_def Let_def split: if_splits)

text \<open>URLs that passed the check have the expected origin.\<close>

lemma check_origins_Inr:
  "check_origins E code payload expected names = Inr () \<longleftrightarrow>
     (\<forall>fld \<in> set names. \<exists>u. jitem payload fld = Inr u \<and> normalized_http_origin E u = Inr expected)"
  unfolding check_origins_def
  by (cases expected) (auto simp: foldE_unit bindE_Inr_iff ensure_Inr_iff)

end
