(* ===== verification/EventChains.thy ===== *)
theory EventChains
  imports LiveEvidence
begin

text \<open>
  Chains of events as a reader of a session checks them: every event verifies and names the hash of
  the one before it, up to the case of the hexadecimal digits. Sequence numbers, sessions and
  artifacts are left to the reader. What two readers hold agrees when their last hashes agree.
\<close>

fun read_chain :: "ext \<Rightarrow> string \<Rightarrow> json list \<Rightarrow> string \<Rightarrow> bool" where
  "read_chain E h [] h' \<longleftrightarrow> h' = h"
| "read_chain E h (v # vs) h' \<longleftrightarrow>
     verify_live_event E v = Inr True \<and>
     (\<exists>p. jitem v ''previous_event_hash'' = Inr (JStr p) \<and> py_lower p = py_lower h) \<and>
     (\<exists>g. jitem v ''event_hash'' = Inr (JStr g) \<and> read_chain E g vs h')"

lemma event_chain_read: "event_chain E n h vs g \<Longrightarrow> read_chain E h vs g"
  by (induction vs arbitrary: n h) auto

lemma read_chain_verified: "read_chain E h vs g \<Longrightarrow> v \<in> set vs \<Longrightarrow> verify_live_event E v = Inr True"
  by (induction vs arbitrary: h) auto

definition lower_at :: "string \<Rightarrow> dict \<Rightarrow> string option" where
  "lower_at k d = map_option py_lower (str_at k d)"

definition lower_keccak :: "ext \<Rightarrow> string \<Rightarrow> string" where
  "lower_keccak E b = py_lower (keccak256_hex E b)"

lemma body_without_lower_at:
  assumes "wf_dict a" "wf_dict b" "body_without k a = body_without k b" "j \<noteq> k"
  shows "lower_at j a = lower_at j b"
  using body_without_str_at [OF assms(1,2) [unfolded wf_dict_def] assms(3,4)] by (simp add: lower_at_def)

interpretation lower_chain: hash_chain "lower_keccak E" wf_dict
    "body_without ''event_hash''" "lower_at ''event_hash''" "lower_at ''previous_event_hash''" for E
  by unfold_locales (rule body_without_lower_at, auto)

lemma lower_keccak_eq: "py_lower (keccak256_hex E b) = lower_keccak E b"
  by (simp add: lower_keccak_def)

lemma read_chain_linked:
  assumes "read_chain E h vs g" "\<And>v. v \<in> set vs \<Longrightarrow> wf_json v"
  shows "\<exists>ds. vs = map JObj ds \<and> lower_chain.linked E (py_lower h) ds (py_lower g)"
  using assms
proof (induction vs arbitrary: h)
  case (Cons v vs)
  from Cons.prems(1) obtain d where d: "v = JObj d" "event_ok E d" by (auto simp: verify_live_event_iff)
  then have hash: "map_of d ''event_hash'' = Some (JStr (keccak256_hex E (body_without ''event_hash'' d)))"
    by (simp add: event_ok_def body_without_def)
  with Cons.prems(1) d(1) obtain p where rest: "read_chain E (keccak256_hex E (body_without ''event_hash'' d)) vs g"
    and prev: "map_of d ''previous_event_hash'' = Some (JStr p)" "py_lower p = py_lower h" by (auto split: option.splits)
  from Cons.IH [OF rest] Cons.prems(2) obtain ds where
    "vs = map JObj ds" "lower_chain.linked E (lower_keccak E (body_without ''event_hash'' d)) ds (py_lower g)"
    unfolding lower_keccak_eq by auto
  moreover have "wf_dict d" using Cons.prems(2) [of v] d(1) by (simp add: wf_dict_def)
  moreover have "lower_at ''event_hash'' d = Some (lower_keccak E (body_without ''event_hash'' d))"
    "lower_at ''previous_event_hash'' d = Some (py_lower h)"
    using hash prev by (simp_all add: lower_at_def str_at_def lower_keccak_eq)
  ultimately show ?case using d(1) by (intro exI [of _ "d # ds"]) simp
qed simp

text \<open>Readers that start at the zero hash and end at the same hash hold the same events.\<close>

lemma read_chains_agree:
  assumes vs: "read_chain E ZERO_HASH vs h" and ws: "read_chain E ZERO_HASH ws h'" and "py_lower h = py_lower h'"
    and wf: "\<And>v. v \<in> set vs \<union> set ws \<Longrightarrow> wf_json v"
    and inj: "inj_on (lower_keccak E) (event_preimage ` (set vs \<union> set ws))"
    and start: "py_lower ZERO_HASH \<notin> lower_keccak E ` event_preimage ` (set vs \<union> set ws)"
  shows "map jnorm vs = map jnorm ws"
proof -
  from read_chain_linked [OF vs] wf obtain ds where
    ds: "vs = map JObj ds" "lower_chain.linked E (py_lower ZERO_HASH) ds (py_lower h)" by auto
  from read_chain_linked [OF ws] wf obtain es where
    es: "ws = map JObj es" "lower_chain.linked E (py_lower ZERO_HASH) es (py_lower h)" using assms(3) by auto
  have im: "event_preimage ` (set vs \<union> set ws) = body_without ''event_hash'' ` (set ds \<union> set es)"
    using ds(1) es(1) by (simp add: event_preimage_def image_Un image_image)
  have "map (body_without ''event_hash'') ds = map (body_without ''event_hash'') es"
    using ds(2) es(2)
  proof (rule lower_chain.head_determines)
    show "inj_on (lower_keccak E) (body_without ''event_hash'' ` (set ds \<union> set es))" using inj im by simp
    show "lower_keccak E (body_without ''event_hash'' e) \<noteq> py_lower ZERO_HASH" if "e \<in> set ds \<union> set es" for e
      using start im that by (metis image_eqI)
  qed
  then have eq: "map event_preimage vs = map event_preimage ws"
    using ds(1) es(1) by (simp add: event_preimage_def comp_def)
  then have len: "length vs = length ws" by (rule map_eq_imp_length_eq)
  have "jnorm (vs ! i) = jnorm (ws ! i)" if "i < length vs" for i
  proof (rule event_preimage_inject [where E = E])
    show "event_preimage (vs ! i) = event_preimage (ws ! i)" using eq that len by (metis nth_map)
  qed (use that len wf read_chain_verified [OF vs] read_chain_verified [OF ws] in auto)
  with len show ?thesis by (simp add: list_eq_iff_nth_eq)
qed

end
