(* ===== verification/Observation.thy ===== *)
theory Observation
  imports Fetch EventChains M4Network
begin

text \<open>
  \<^verbatim>\<open>observation.py\<close>: a node follows the event stream of a session, verifies every event and its
  artifact, keeps its position in a durable cursor store, and compares what it saw with the
  finalized bundle; and the aggregation of three observers' receipts. A round of the polling loop
  that starts before the deadline is a list of the responses it gets; the deadline passes after
  the last round. Waiting times and the texts of library exceptions are not modelled.
\<close>

definition MAX_SSE_RESPONSE_BYTES :: int where "MAX_SSE_RESPONSE_BYTES = 1024 * 1024"

definition MAX_JSON_RESPONSE_BYTES :: int where "MAX_JSON_RESPONSE_BYTES = 1024 * 1024"

definition MAX_ARTIFACT_BYTES :: int where "MAX_ARTIFACT_BYTES = 8 * 1024 * 1024"

definition MAX_OBSERVATION_EVENTS :: int where "MAX_OBSERVATION_EVENTS = 10000"

definition MAX_OBSERVATION_ARTIFACT_BYTES :: int where "MAX_OBSERVATION_ARTIFACT_BYTES = 64 * 1024 * 1024"

definition validate_observation_urls :: "ext \<Rightarrow> json \<Rightarrow> json \<Rightarrow> unit res" where
  "validate_observation_urls E payload allowed_origin =
     bindE (validate_schema E payload ''observe-live-text-payload-v1.schema.json'') (\<lambda>_.
     bindE (normalized_http_origin E allowed_origin) (\<lambda>expected.
     check_origins E ''observation_origin_mismatch'' payload expected [''stream_url'', ''session_url'', ''artifact_base_url'']))"

section \<open>The cursor store\<close>

record cursor_row =
  cu_sequence :: int
  cu_head :: string
  cu_count :: int

type_synonym cursor_store = "((string \<times> string) \<times> cursor_row) list"

definition cursor_get :: "cursor_store \<Rightarrow> string \<Rightarrow> string \<Rightarrow> cursor_row option" where
  "cursor_get store consumer session_id = map_of store (consumer, session_id)"

definition cursor_save :: "cursor_store \<Rightarrow> string \<Rightarrow> string \<Rightarrow> int \<Rightarrow> string \<Rightarrow> int \<Rightarrow> cursor_store res" where
  "cursor_save store consumer session_id sequence head_event_hash event_count =
     (let current = cursor_get store consumer session_id in
      case current of
        Some row \<Rightarrow>
          if sequence < cu_sequence row
          then le_error ''cursor_rollback'' (py_str_int sequence @ '' < '' @ py_str_int (cu_sequence row))
          else if sequence = cu_sequence row \<and> head_event_hash \<noteq> cu_head row then le_error ''cursor_conflict'' session_id
          else Inr (AList.update (consumer, session_id)
            \<lparr>cu_sequence = sequence, cu_head = head_event_hash, cu_count = event_count\<rparr> store)
      | None \<Rightarrow> Inr (AList.update (consumer, session_id)
          \<lparr>cu_sequence = sequence, cu_head = head_event_hash, cu_count = event_count\<rparr> store))"

section \<open>Server-sent events\<close>

text \<open>\<open>s.split("\n\n")\<close>.\<close>

fun split_blocks :: "string \<Rightarrow> string \<Rightarrow> string list" where
  "split_blocks acc (c # d # s) =
     (if c = CHR 0x0A \<and> d = CHR 0x0A then rev acc # split_blocks [] s else split_blocks (c # acc) (d # s))"
| "split_blocks acc s = [rev acc @ s]"

definition block_data :: "string \<Rightarrow> string list" where
  "block_data block = map (drop 6) (filter (\<lambda>l. starts_with l ''data: '') (py_splitlines block))"

definition sse_events :: "string \<Rightarrow> json list res" where
  "sse_events body =
     mapE (\<lambda>d. load_json (join [CHR 0x0A] d)) (filter (\<lambda>d. d \<noteq> []) (map block_data (split_blocks [] (replace_crlf body))))"

section \<open>Observing\<close>

record obs =
  ob_web :: web
  ob_cursors :: cursor_store
  ob_cursor :: int
  ob_head :: string
  ob_count :: int
  ob_artifacts :: int
  ob_bytes :: int
  ob_events :: int

definition obs_get :: "request \<Rightarrow> (int \<times> string list, obs) eff" where
  "obs_get r = (\<lambda>s. case http_get r (ob_web s) of (x, w) \<Rightarrow> (x, s\<lparr>ob_web := w\<rparr>))"

definition get_stateX :: "('s, 's) eff" where
  "get_stateX = (\<lambda>s. (Inr s, s))"

text \<open>The checks of one event that come before its artifact is fetched.\<close>

definition check_event :: "ext \<Rightarrow> json \<Rightarrow> int \<Rightarrow> string \<Rightarrow> json \<Rightarrow> unit res" where
  "check_event E session_id cursor head event =
     bindE (validate_schema E event ''live-event-v1.schema.json'') (\<lambda>_.
     bindE (jitem event ''session_id'') (\<lambda>sid.
     bindE (ensure (py_eq sid session_id) ''wrong_session'' (py_str sid)) (\<lambda>_.
     bindE (jitem event ''sequence'') (\<lambda>q. bindE (py_int q) (\<lambda>n.
     bindE (ensure (n = cursor + 1) ''sequence_gap'' (py_str q)) (\<lambda>_.
     bindE (jitem event ''previous_event_hash'') (\<lambda>p. bindE (jlower p) (\<lambda>previous.
     bindE (if previous = py_lower head then Inr ()
            else bindE (jitem event ''event_id'') (\<lambda>i. le_error ''hash_chain_broken'' (py_str i))) (\<lambda>_.
     bindE (verify_live_event E event) (\<lambda>valid.
     if valid then Inr () else bindE (jitem event ''event_id'') (\<lambda>i. le_error ''event_hash_mismatch'' (py_str i))))))))))))"

text \<open>\<open>sha256_prefixed(artifact) != event["artifact_hash"] or artifact != event["content"].encode()\<close>.\<close>

definition check_artifact :: "ext \<Rightarrow> json \<Rightarrow> string \<Rightarrow> unit res" where
  "check_artifact E event artifact =
     bindE (jitem event ''artifact_hash'') (\<lambda>h.
     bindE (if h \<noteq> JStr (sha256_prefixed E artifact) then Inr True
            else bindE (jitem event ''content'') (\<lambda>c. bindE (jstr c) (\<lambda>content. Inr (artifact \<noteq> content)))) (\<lambda>bad.
     ensure (\<not> bad) ''artifact_hash_mismatch'' (py_str h)))"

text \<open>\<open>payload["artifact_base_url"].rstrip("/") + "/" + event["artifact_hash"]\<close>.\<close>

definition artifact_url :: "json \<Rightarrow> json \<Rightarrow> string res" where
  "artifact_url payload event =
     bindE (jitem payload ''artifact_base_url'') (\<lambda>b. bindE (jstr b) (\<lambda>base.
     bindE (jitem event ''artifact_hash'') (\<lambda>h. case h of JStr d \<Rightarrow> Inr (under_url base d) | _ \<Rightarrow> Inl TypeError)))"

text \<open>The artifact of an event, within what is left of the budget of the observation.\<close>

definition artifact_body :: "json \<Rightarrow> int \<Rightarrow> int \<times> string list \<Rightarrow> string res" where
  "artifact_body event used = (\<lambda>(status, bufs).
     bindE (if status = 200 then Inr ()
        else bindE (jitem event ''artifact_hash'') (\<lambda>h. le_error ''artifact_missing'' (py_str h))) (\<lambda>_.
     let remaining = MAX_OBSERVATION_ARTIFACT_BYTES - used in
     bindE (ensure (0 < remaining) ''observation_artifact_budget_exceeded''
        (py_str_int MAX_OBSERVATION_ARTIFACT_BYTES)) (\<lambda>_.
     read_limited (min MAX_ARTIFACT_BYTES remaining)
       (if MAX_ARTIFACT_BYTES \<le> remaining then ''artifact_too_large'' else ''observation_artifact_budget_exceeded'') bufs)))"

definition fetch_artifact :: "json \<Rightarrow> json \<Rightarrow> (string, obs) eff" where
  "fetch_artifact payload event =
     bindX (liftX (artifact_url payload event)) (\<lambda>url.
     bindX (obs_get (Get url)) (\<lambda>response.
     bindX get_stateX (\<lambda>s.
     bindX (liftX (artifact_body event (ob_bytes s) response)) (\<lambda>artifact.
     bindX (modifyX (\<lambda>s. s\<lparr>ob_bytes := ob_bytes s + int (length artifact)\<rparr>)) (\<lambda>_.
     liftX (Inr artifact))))))"

text \<open>An event that passed becomes the position, in memory and in the store.\<close>

definition advance :: "json \<Rightarrow> string \<Rightarrow> json \<Rightarrow> (unit, obs) eff" where
  "advance payload consumer event =
     bindX (liftX (int_item event ''sequence'')) (\<lambda>n.
     bindX (liftX (bindE (jitem event ''event_hash'') jstr)) (\<lambda>h.
     bindX (modifyX (\<lambda>s. s\<lparr>ob_cursor := n, ob_count := n, ob_artifacts := ob_artifacts s + 1, ob_head := h\<rparr>)) (\<lambda>_.
     bindX (liftX (text_item payload ''session_id'')) (\<lambda>sid.
     bindX get_stateX (\<lambda>s.
     bindX (liftX (cursor_save (ob_cursors s) consumer sid n h n)) (\<lambda>store.
     modifyX (\<lambda>s. s\<lparr>ob_cursors := store\<rparr>)))))))"

definition count_event :: "(unit, obs) eff" where
  "count_event =
     bindX (modifyX (\<lambda>s. s\<lparr>ob_events := ob_events s + 1\<rparr>)) (\<lambda>_.
     bindX get_stateX (\<lambda>s.
     liftX (ensure (ob_events s \<le> MAX_OBSERVATION_EVENTS) ''observation_event_limit_exceeded''
       (py_str_int MAX_OBSERVATION_EVENTS))))"

definition observe_event :: "ext \<Rightarrow> json \<Rightarrow> string \<Rightarrow> json \<Rightarrow> (unit, obs) eff" where
  "observe_event E payload consumer event =
     bindX count_event (\<lambda>_.
     bindX get_stateX (\<lambda>s.
     bindX (liftX (jitem payload ''session_id'')) (\<lambda>session_id.
     bindX (liftX (check_event E session_id (ob_cursor s) (ob_head s) event)) (\<lambda>_.
     bindX (fetch_artifact payload event) (\<lambda>artifact.
     bindX (liftX (check_artifact E event artifact)) (\<lambda>_.
     advance payload consumer event))))))"

fun observe_events :: "ext \<Rightarrow> json \<Rightarrow> string \<Rightarrow> json list \<Rightarrow> (unit, obs) eff" where
  "observe_events E payload consumer [] = liftX (Inr ())"
| "observe_events E payload consumer (e # es) =
     bindX (observe_event E payload consumer e) (\<lambda>_. observe_events E payload consumer es)"

text \<open>A JSON document of a response.\<close>

definition read_json :: "int \<Rightarrow> string \<Rightarrow> string list \<Rightarrow> json res" where
  "read_json limit code bufs = bindE (read_limited limit code bufs) (\<lambda>b. bindE (decode_utf8 b) load_json)"

definition str_item :: "json \<Rightarrow> string \<Rightarrow> string res" where
  "str_item v k = bindE (jitem v k) jstr"

definition stream_events :: "int \<times> string list \<Rightarrow> json list res" where
  "stream_events = (\<lambda>(status, bufs).
     bindE (if status = 200 then Inr () else le_error_exit ''live_stream_unavailable'' (py_str_int status) 4) (\<lambda>_.
     bindE (read_limited MAX_SSE_RESPONSE_BYTES ''live_stream_too_large'' bufs) (\<lambda>b.
     bindE (decode_utf8 b) sse_events)))"

definition read_stream :: "ext \<Rightarrow> json \<Rightarrow> (json list, obs) eff" where
  "read_stream E payload =
     bindX (liftX (str_item payload ''stream_url'')) (\<lambda>url.
     bindX get_stateX (\<lambda>s.
     bindX (obs_get (GetAfter url (ob_cursor s))) (\<lambda>response.
     liftX (stream_events response))))"

text \<open>The bundle against what was observed; its hash.\<close>

definition check_bundle :: "ext \<Rightarrow> json \<Rightarrow> obs \<Rightarrow> json \<Rightarrow> json res" where
  "check_bundle E session_id s bundle =
     bindE (validate_schema E bundle ''evidence-bundle-v2.schema.json'') (\<lambda>_.
     bindE (jitem bundle ''bundle_hash'') (\<lambda>bh. bindE (evidence_bundle_hash E bundle) (\<lambda>h.
     bindE (ensure (bh = JStr h) ''bundle_hash_mismatch'' (py_str session_id)) (\<lambda>_.
     bindE (jitem bundle ''head_event_hash'') (\<lambda>hh. bindE (jlower hh) (\<lambda>head.
     bindE (if head \<noteq> py_lower (ob_head s) then Inr True
            else bindE (int_item bundle ''event_count'') (\<lambda>n. Inr (n \<noteq> ob_count s))) (\<lambda>bad.
     bindE (ensure (\<not> bad) ''observation_bundle_mismatch'' (py_str session_id)) (\<lambda>_.
     Inr bh))))))))"

definition observation_result :: "json \<Rightarrow> int \<Rightarrow> bool \<Rightarrow> obs \<Rightarrow> json \<Rightarrow> json" where
  "observation_result session_id observed_from recovered s bundle_hash = JObj
     [(''schema_version'', JStr ''loveengine.live-observation-receipt/1''), (''session_id'', session_id),
      (''observed_from'', JStr (py_str_int observed_from)), (''last_sequence'', JStr (py_str_int (ob_cursor s))),
      (''event_count'', JStr (py_str_int (ob_count s))), (''head_event_hash'', JStr (ob_head s)),
      (''bundle_hash'', bundle_hash),
      (''artifact_count'', JStr (py_str_int (if recovered \<and> ob_artifacts s = 0 then ob_count s else ob_artifacts s))),
      (''recovered_from_cursor'', JBool recovered)]"

text \<open>A session that is closed and observed to its end: the bundle. \<open>None\<close> goes on with the next round.\<close>

definition bundle_answer :: "ext \<Rightarrow> json \<Rightarrow> int \<Rightarrow> bool \<Rightarrow> obs \<Rightarrow> int \<times> string list \<Rightarrow> json option res" where
  "bundle_answer E session_id observed_from recovered s = (\<lambda>(status, bufs).
     if status \<in> {400, 404, 409} then Inr None
     else
       bindE (if status = 200 then Inr () else le_error_exit ''evidence_unavailable'' (py_str_int status) 4) (\<lambda>_.
       bindE (read_json MAX_JSON_RESPONSE_BYTES ''evidence_response_too_large'' bufs) (\<lambda>bundle.
       bindE (check_bundle E session_id s bundle) (\<lambda>bh.
       let result = observation_result session_id observed_from recovered s bh in
       bindE (validate_schema E result ''live-observation-receipt-v1.schema.json'') (\<lambda>_.
       Inr (Some result))))))"

definition observe_bundle :: "ext \<Rightarrow> json \<Rightarrow> string \<Rightarrow> int \<Rightarrow> bool \<Rightarrow> (json option, obs) eff" where
  "observe_bundle E payload url observed_from recovered =
     bindX (liftX (jitem payload ''session_id'')) (\<lambda>session_id.
     bindX (obs_get (Get (url @ ''/evidence''))) (\<lambda>response.
     bindX get_stateX (\<lambda>s.
     liftX (bundle_answer E session_id observed_from recovered s response))))"

text \<open>Whether the session is closed and its last event was seen.\<close>

definition at_end :: "ext \<Rightarrow> json \<Rightarrow> obs \<Rightarrow> json \<Rightarrow> bool res" where
  "at_end E payload s state =
     bindE (validate_schema E state ''live-session-v1.schema.json'') (\<lambda>_.
     bindE (jitem state ''status'') (\<lambda>status.
     if status \<noteq> JStr ''closed'' then Inr False
     else
       bindE (jitem state ''next_sequence'') (\<lambda>next. bindE (py_int next) (\<lambda>n.
       if ob_cursor s < n - 1 then Inr False
       else
         bindE (ensure (ob_cursor s = n - 1) ''sequence_gap'' (py_str next)) (\<lambda>_.
         bindE (jitem state ''head_event_hash'') (\<lambda>h. bindE (jlower h) (\<lambda>head.
         bindE (jitem payload ''session_id'') (\<lambda>session_id.
         bindE (ensure (head = py_lower (ob_head s)) ''hash_chain_broken'' (py_str session_id)) (\<lambda>_.
         Inr True)))))))))"

definition observe_state :: "ext \<Rightarrow> json \<Rightarrow> int \<Rightarrow> bool \<Rightarrow> (json option, obs) eff" where
  "observe_state E payload observed_from recovered =
     bindX (liftX (str_item payload ''session_url'')) (\<lambda>url.
     bindX (obs_get (Get url)) (\<lambda>(_, bufs).
     bindX (liftX (read_json MAX_JSON_RESPONSE_BYTES ''session_response_too_large'' bufs)) (\<lambda>state.
     bindX get_stateX (\<lambda>s.
     bindX (liftX (at_end E payload s state)) (\<lambda>finished.
     if finished then observe_bundle E payload url observed_from recovered else liftX (Inr None))))))"

text \<open>One round: the stream, its events, the state of the session, and the bundle when it is closed.\<close>

definition observe_round :: "ext \<Rightarrow> json \<Rightarrow> string \<Rightarrow> int \<Rightarrow> bool \<Rightarrow> (json option, obs) eff" where
  "observe_round E payload consumer observed_from recovered =
     bindX (read_stream E payload) (\<lambda>evs.
     bindX (observe_events E payload consumer evs) (\<lambda>_.
     observe_state E payload observed_from recovered))"

fun observe_rounds :: "ext \<Rightarrow> json \<Rightarrow> string \<Rightarrow> int \<Rightarrow> bool \<Rightarrow> http list list \<Rightarrow> (json, obs) eff" where
  "observe_rounds E payload consumer observed_from recovered [] =
     bindX (liftX (jitem payload ''session_id'')) (\<lambda>sid. liftX (le_error_exit ''observation_timeout'' (py_str sid) 4))"
| "observe_rounds E payload consumer observed_from recovered (rs # rounds) =
     bindX (modifyX (\<lambda>s. s\<lparr>ob_web := (ob_web s)\<lparr>w_responses := rs\<rparr>\<rparr>)) (\<lambda>_.
     bindX (observe_round E payload consumer observed_from recovered) (\<lambda>r.
     case r of
       Some v \<Rightarrow> liftX (Inr v)
     | None \<Rightarrow> observe_rounds E payload consumer observed_from recovered rounds))"

definition catch_transport :: "string \<Rightarrow> ('a, 's) eff \<Rightarrow> ('a, 's) eff" where
  "catch_transport code m =
     (\<lambda>s. case m s of (r, t) \<Rightarrow> (catchE r is_transport_error (\<lambda>_. le_error_exit code [] 4), t))"

text \<open>Where the observation starts: the stored cursor, or the one of the task.\<close>

definition start_observation :: "ext \<Rightarrow> json \<Rightarrow> cursor_store \<Rightarrow> string \<Rightarrow> json \<Rightarrow> (bool \<times> obs) res" where
  "start_observation E payload cursor_db consumer allowed_origin =
     bindE (reject_secret_fields payload ''$'') (\<lambda>_.
     bindE (validate_observation_urls E payload allowed_origin) (\<lambda>_.
     bindE (validate_schema E payload ''observe-live-text-payload-v1.schema.json'') (\<lambda>_.
     bindE (jitem payload ''session_id'') (\<lambda>_.
     bindE (int_item payload ''start_cursor'') (\<lambda>start.
     bindE (text_item payload ''session_id'') (\<lambda>sid.
     let w = \<lparr>w_responses = [], w_requests = []\<rparr> in
     case cursor_get cursor_db consumer sid of
       Some row \<Rightarrow>
         if cu_sequence row < start then le_error ''cursor_rollback'' ''stored cursor precedes task cursor''
         else Inr (True, \<lparr>ob_web = w, ob_cursors = cursor_db, ob_cursor = cu_sequence row, ob_head = cu_head row,
           ob_count = cu_count row, ob_artifacts = 0, ob_bytes = 0, ob_events = 0\<rparr>)
     | None \<Rightarrow>
         bindE (jitem payload ''initial_head_hash'') (\<lambda>h. bindE (jlower h) (\<lambda>head.
         Inr (False, \<lparr>ob_web = w, ob_cursors = cursor_db, ob_cursor = start, ob_head = head, ob_count = start,
           ob_artifacts = 0, ob_bytes = 0, ob_events = 0\<rparr>)))))))))"

definition observe_live_session ::
    "ext \<Rightarrow> json \<Rightarrow> cursor_store \<Rightarrow> string \<Rightarrow> json \<Rightarrow> http list list \<Rightarrow> json res \<times> cursor_store" where
  "observe_live_session E payload cursor_db consumer allowed_origin rounds =
     (case start_observation E payload cursor_db consumer allowed_origin of
        Inl e \<Rightarrow> (Inl e, cursor_db)
      | Inr (recovered, s) \<Rightarrow>
          (case catch_transport ''live_stream_unavailable''
             (observe_rounds E payload consumer (ob_cursor s) recovered rounds) s of
             (r, t) \<Rightarrow> (r, ob_cursors t)))"

section \<open>Aggregation\<close>

definition observation_set_hash :: "ext \<Rightarrow> json \<Rightarrow> string res" where
  "observation_set_hash E v = self_hash E ''observation_set_hash'' v"

definition COMPARABLE_KEYS :: "string list" where
  "COMPARABLE_KEYS = [''session_id'', ''last_sequence'', ''event_count'', ''head_event_hash'', ''bundle_hash'']"

definition comparable_view :: "json \<Rightarrow> json res" where
  "comparable_view result = bindE (mapE (\<lambda>k. bindE (jitem result k) (\<lambda>x. Inr (k, x))) COMPARABLE_KEYS) (\<lambda>d. Inr (JObj d))"

definition rejected_detail :: "json \<Rightarrow> string res" where
  "rejected_detail receipt =
     bindE (jget receipt ''result'') (\<lambda>result.
     bindE (case result of JObj d \<Rightarrow> jget_or result ''error_code'' (JStr ''unknown'') | _ \<Rightarrow> Inr (JStr ''unknown'')) (\<lambda>c.
     bindE (jget_or receipt ''task_id'' (JStr ''unknown'')) (\<lambda>t.
     Inr (py_str t @ '':'' @ py_str c))))"

definition observation_step ::
    "ext \<Rightarrow> json list \<Rightarrow> json \<Rightarrow> json \<Rightarrow> string list \<times> json option \<Rightarrow> json \<Rightarrow> (string list \<times> json option) res" where
  "observation_step E expected_nodes chain_id registry = (\<lambda>(nodes, canonical_result) receipt.
     bindE (verify_receipt_v2 E receipt chain_id registry) (\<lambda>signer.
     bindE (to_checksum_address E (JStr signer)) (\<lambda>node.
     bindE (mapE (to_checksum_address E) expected_nodes) (\<lambda>expected.
     bindE (ensure (node \<in> set expected) ''unexpected_observer'' node) (\<lambda>_.
     bindE (ensure (node \<notin> set nodes) ''duplicate_observer'' node) (\<lambda>_.
     bindE (jget receipt ''status'') (\<lambda>status.
     bindE (if status = JStr ''completed'' then Inr ()
            else bindE (rejected_detail receipt) (\<lambda>d. le_error_exit ''observation_receipt_rejected'' d 4)) (\<lambda>_.
     bindE (jitem receipt ''result'') (\<lambda>result.
     bindE (validate_schema E result ''live-observation-receipt-v1.schema.json'') (\<lambda>_.
     bindE (comparable_view result) (\<lambda>view.
     case canonical_result of
       None \<Rightarrow> Inr (nodes @ [node], Some view)
     | Some c \<Rightarrow>
         if py_eq view c then Inr (nodes @ [node], Some c)
         else bindE (jitem receipt ''task_id'') (\<lambda>t. le_error ''observation_mismatch'' (py_str t)))))))))))))"

definition receipt_node_key :: "json \<Rightarrow> string" where
  "receipt_node_key r = (case jitem r ''node'' of Inr (JStr n) \<Rightarrow> py_lower n | _ \<Rightarrow> [])"

text \<open>\<open>sorted(receipts, key=lambda item: item["node"].lower())\<close>.\<close>

definition sort_receipts :: "json list \<Rightarrow> json list res" where
  "sort_receipts receipts =
     bindE (mapE (\<lambda>r. bindE (jitem r ''node'') jlower) receipts) (\<lambda>_. Inr (sort_key receipt_node_key receipts))"

definition observation_set_value :: "json \<Rightarrow> json \<Rightarrow> json \<Rightarrow> json \<Rightarrow> json list \<Rightarrow> json" where
  "observation_set_value session_id event_count head bundle_hash sorted_receipts =
     JObj [(''schema_version'', JStr ''loveengine.observation-set/1''), (''session_id'', session_id),
           (''event_count'', event_count), (''head_event_hash'', head), (''bundle_hash'', bundle_hash),
           (''node_count'', JStr ''3''), (''receipts'', JArr sorted_receipts)]"

definition aggregate_observations :: "ext \<Rightarrow> json list \<Rightarrow> json list \<Rightarrow> json \<Rightarrow> json \<Rightarrow> json res" where
  "aggregate_observations E receipts expected_nodes chain_id registry =
     bindE (ensure (length receipts = 3) ''observation_quorum_missing'' ''three receipts required'') (\<lambda>_.
     bindE (foldE (observation_step E expected_nodes chain_id registry) ([], None) receipts) (\<lambda>(nodes, canonical_result).
     bindE (case canonical_result of Some c \<Rightarrow> Inr c | None \<Rightarrow> Inl AssertionError) (\<lambda>c.
     bindE (jitem c ''session_id'') (\<lambda>session_id.
     bindE (jitem c ''event_count'') (\<lambda>event_count.
     bindE (jitem c ''head_event_hash'') (\<lambda>head.
     bindE (jitem c ''bundle_hash'') (\<lambda>bundle_hash.
     bindE (sort_receipts receipts) (\<lambda>sorted_receipts.
     let v = observation_set_value session_id event_count head bundle_hash sorted_receipts in
     bindE (observation_set_hash E v) (\<lambda>h.
     bindE (jset v ''observation_set_hash'' (JStr h)) (\<lambda>w.
     bindE (validate_schema E w ''observation-set-v1.schema.json'') (\<lambda>_. Inr w)))))))))))"

section \<open>What an observation saw\<close>

text \<open>An event that passed the checks at position \<open>n\<close> after the head \<open>h\<close>: \<open>g\<close> is the head it leaves.\<close>

definition event_seen :: "ext \<Rightarrow> http list \<Rightarrow> json \<Rightarrow> int \<Rightarrow> string \<Rightarrow> json \<Rightarrow> string \<Rightarrow> bool" where
  "event_seen E rs sid n h v g \<longleftrightarrow>
     verify_live_event E v = Inr True \<and> (\<exists>x. jitem v ''session_id'' = Inr x \<and> py_eq x sid) \<and>
     int_item v ''sequence'' = Inr n \<and>
     (\<exists>p. jitem v ''previous_event_hash'' = Inr (JStr p) \<and> py_lower p = py_lower h) \<and>
     jitem v ''event_hash'' = Inr (JStr g) \<and>
     (\<exists>c. jitem v ''content'' = Inr (JStr c) \<and> jitem v ''artifact_hash'' = Inr (JStr (sha256_prefixed E c)) \<and> served rs c)"

definition streamed :: "http list \<Rightarrow> json \<Rightarrow> bool" where
  "streamed rs v \<longleftrightarrow> (\<exists>body evs. served rs body \<and> sse_events body = Inr evs \<and> v \<in> set evs)"

fun seen_chain :: "ext \<Rightarrow> http list \<Rightarrow> json \<Rightarrow> int \<Rightarrow> string \<Rightarrow> json list \<Rightarrow> string \<Rightarrow> bool" where
  "seen_chain E rs sid n h [] h' \<longleftrightarrow> h' = h"
| "seen_chain E rs sid n h (v # vs) h' \<longleftrightarrow> (\<exists>g. event_seen E rs sid n h v g \<and> seen_chain E rs sid (n + 1) g vs h')"

lemma event_seen_mono: "event_seen E rs sid n h v g \<Longrightarrow> set rs \<subseteq> set rs' \<Longrightarrow> event_seen E rs' sid n h v g"
  unfolding event_seen_def by (metis served_mono)

lemma seen_chain_mono: "seen_chain E rs sid n h vs g \<Longrightarrow> set rs \<subseteq> set rs' \<Longrightarrow> seen_chain E rs' sid n h vs g"
  by (induction vs arbitrary: n h) (simp, metis event_seen_mono seen_chain.simps(2))

lemma seen_chain_append:
  "seen_chain E rs sid n h (vs @ ws) g \<longleftrightarrow>
     (\<exists>m. seen_chain E rs sid n h vs m \<and> seen_chain E rs sid (n + int (length vs)) m ws g)"
  by (induction vs arbitrary: n h) (auto simp: algebra_simps)

lemma streamed_mono: "streamed rs v \<Longrightarrow> set rs \<subseteq> set rs' \<Longrightarrow> streamed rs' v"
  unfolding streamed_def by (metis served_mono)

text \<open>Steps that leave what is remembered between rounds as it is.\<close>

definition same_position :: "obs \<Rightarrow> obs \<Rightarrow> bool" where
  "same_position s t \<longleftrightarrow> ob_cursors t = ob_cursors s \<and> ob_cursor t = ob_cursor s \<and> ob_head t = ob_head s \<and>
     ob_count t = ob_count s \<and> ob_artifacts t = ob_artifacts s"

definition unread :: "obs \<Rightarrow> http list" where
  "unread s = w_responses (ob_web s)"

lemma same_position_refl [simp]: "same_position s s"
  by (simp add: same_position_def)

lemma same_position_trans: "same_position s t \<Longrightarrow> same_position t u \<Longrightarrow> same_position s u"
  by (simp add: same_position_def)

lemma obs_get_cases:
  assumes "obs_get r s = (x, t)"
  shows "same_position s t" "set (unread t) \<subseteq> set (unread s)"
    and "x = Inr (status, bufs) \<Longrightarrow> Response status bufs \<in> set (unread s)"
    and "ob_bytes t = ob_bytes s" "ob_events t = ob_events s"
  using assms http_get_cases [of r "ob_web s"]
  by (auto simp: obs_get_def same_position_def unread_def split: prod.splits)

lemma obs_get_quiet: "obs_get r s = (x, t) \<Longrightarrow> same_position s t \<and> set (unread t) \<subseteq> set (unread s)"
  using obs_get_cases(1,2) by blast

lemma check_event_Inr:
  assumes "check_event E sid c h e = Inr ()"
  shows "verify_live_event E e = Inr True" "\<exists>x. jitem e ''session_id'' = Inr x \<and> py_eq x sid"
    "int_item e ''sequence'' = Inr (c + 1)"
    "\<exists>p. jitem e ''previous_event_hash'' = Inr (JStr p) \<and> py_lower p = py_lower h"
  using assms unfolding check_event_def int_item_def
  by (elim run_elims; auto simp: bindE_Inr_iff jlower_Inr_iff split: if_splits)+

lemma check_artifact_Inr:
  assumes "check_artifact E e artifact = Inr ()"
  shows "jitem e ''artifact_hash'' = Inr (JStr (sha256_prefixed E artifact))"
    "jitem e ''content'' = Inr (JStr artifact)"
  using assms unfolding check_artifact_def
  by (elim run_elims; auto simp: bindE_Inr_iff jstr_Inr_iff split: if_splits)+

lemma cursor_save_later:
  assumes "\<And>row. cursor_get store consumer sid = Some row \<Longrightarrow> cu_sequence row < n"
  shows "cursor_save store consumer sid n h c =
    Inr (AList.update (consumer, sid) \<lparr>cu_sequence = n, cu_head = h, cu_count = c\<rparr> store)"
  using assms by (force simp: cursor_save_def Let_def split: option.splits)

lemma get_stateX_iff [simp]: "get_stateX s = (r, t) \<longleftrightarrow> r = Inr s \<and> t = s"
  by (auto simp: get_stateX_def)

lemma count_event_cases:
  assumes "count_event s = (r, t)"
  shows "same_position s t" "unread t = unread s"
  using assms unfolding count_event_def by (auto elim!: bindX_cases simp: same_position_def unread_def)

lemma artifact_body_served:
  assumes "artifact_body event used (status, bufs) = Inr a" "Response status bufs \<in> set rs"
  shows "served rs a"
proof -
  from assms(1) have "status = 200" unfolding artifact_body_def
    by (auto simp: bindE_Inr_iff split: if_splits)
  with assms show ?thesis unfolding artifact_body_def served_def Let_def
    by (auto elim!: run_elims)
qed

lemma obs_get_body_served:
  "obs_get r s = (Inr x, t) \<Longrightarrow> artifact_body event used x = Inr a \<Longrightarrow> served (unread s) a"
  by (cases x) (auto intro: artifact_body_served obs_get_cases(3))

lemma position_bytes [simp]:
  "same_position s (u\<lparr>ob_bytes := n\<rparr>) \<longleftrightarrow> same_position s u" "unread (u\<lparr>ob_bytes := n\<rparr>) = unread u"
  by (simp_all add: same_position_def unread_def)

lemma fetch_artifact_cases:
  assumes "fetch_artifact payload e s = (r, t)"
  shows "same_position s t \<and> set (unread t) \<subseteq> set (unread s) \<and> (\<forall>a. r = Inr a \<longrightarrow> served (unread s) a)"
  using assms unfolding fetch_artifact_def
  by (elim bindX_cases) (auto dest: obs_get_cases(1,2) obs_get_body_served)

text \<open>An event that passes leaves the position one further, in memory and in the store; one that does
  not leaves it as it was.\<close>

definition advanced :: "string \<times> string \<Rightarrow> string \<Rightarrow> obs \<Rightarrow> obs \<Rightarrow> bool" where
  "advanced key h s t \<longleftrightarrow>
     ob_cursor t = ob_cursor s + 1 \<and> ob_head t = h \<and> ob_count t = ob_cursor t \<and> ob_artifacts t = ob_artifacts s + 1 \<and>
     ob_cursors t = AList.update key \<lparr>cu_sequence = ob_cursor t, cu_head = h, cu_count = ob_cursor t\<rparr> (ob_cursors s)"

lemma advance_cases:
  assumes "advance payload consumer e s = (r, t)" "int_item e ''sequence'' = Inr (ob_cursor s + 1)"
    and sid: "text_item payload ''session_id'' = Inr sid"
    and old: "\<And>row. cursor_get (ob_cursors s) consumer sid = Some row \<Longrightarrow> cu_sequence row \<le> ob_cursor s"
  shows "unread t = unread s \<and>
    (case r of Inl x \<Rightarrow> same_position s t
     | Inr _ \<Rightarrow> \<exists>h. jitem e ''event_hash'' = Inr (JStr h) \<and> advanced (consumer, sid) h s t)"
proof -
  have save: "cursor_save (ob_cursors s) consumer sid (ob_cursor s + 1) h c =
      Inr (AList.update (consumer, sid) \<lparr>cu_sequence = ob_cursor s + 1, cu_head = h, cu_count = c\<rparr> (ob_cursors s))" for h c
    by (rule cursor_save_later) (use old in force)
  from assms(1) show ?thesis unfolding advance_def assms(2) sid bindX_lift
    by (elim bindX_cases) (auto simp: save advanced_def unread_def bindE_Inr_iff jstr_Inr_iff)
qed

lemma advanced_same: "same_position s u \<Longrightarrow> advanced key h u t \<longleftrightarrow> advanced key h s t"
  by (auto simp: advanced_def same_position_def)

lemma passed_event:
  assumes "count_event s = (Inr (), u)"
    and checked: "check_event E session_id (ob_cursor u) (ob_head u) e = Inr ()"
    and "fetch_artifact payload e u = (Inr a, w)"
    and a: "check_artifact E e a = Inr ()"
    and adv: "advance payload consumer e w = (r, t)"
    and sid: "text_item payload ''session_id'' = Inr sid"
    and old: "\<And>row. cursor_get (ob_cursors s) consumer sid = Some row \<Longrightarrow> cu_sequence row \<le> ob_cursor s"
  shows "set (unread t) \<subseteq> set (unread s) \<and>
    (case r of Inl x \<Rightarrow> same_position s t
     | Inr _ \<Rightarrow> \<exists>h. event_seen E (unread s) session_id (ob_cursor s + 1) (ob_head s) e h \<and> advanced (consumer, sid) h s t)"
proof -
  note u = count_event_cases [OF assms(1)] and w = fetch_artifact_cases [OF assms(3)]
  have sw: "same_position s w" "set (unread w) \<subseteq> set (unread s)" "served (unread s) a"
    using u w same_position_trans by auto
  note c = check_event_Inr [OF checked] and b = check_artifact_Inr [OF a]
  have pos: "ob_cursor w = ob_cursor s" "ob_cursors w = ob_cursors s" "ob_cursor u = ob_cursor s" "ob_head u = ob_head s"
    using sw(1) u(1) by (auto simp: same_position_def)
  have "unread t = unread w \<and>
    (case r of Inl x \<Rightarrow> same_position w t
     | Inr _ \<Rightarrow> \<exists>h. jitem e ''event_hash'' = Inr (JStr h) \<and> advanced (consumer, sid) h w t)"
    by (rule advance_cases [OF adv _ sid]) (use c(3) pos old in auto)
  moreover have "event_seen E (unread s) session_id (ob_cursor s + 1) (ob_head s) e h" if "jitem e ''event_hash'' = Inr (JStr h)" for h
    using c b sw(3) that unfolding event_seen_def pos by blast
  ultimately show ?thesis
    using sw same_position_trans [OF sw(1), of t] advanced_same [OF sw(1)] by (auto split: sum.splits)
qed

lemma observe_event_cases:
  assumes run: "observe_event E payload consumer e s = (r, t)"
    and sid: "text_item payload ''session_id'' = Inr sid" "jitem payload ''session_id'' = Inr session_id"
    and old: "\<And>row. cursor_get (ob_cursors s) consumer sid = Some row \<Longrightarrow> cu_sequence row \<le> ob_cursor s"
  shows "set (unread t) \<subseteq> set (unread s) \<and>
    (case r of Inl x \<Rightarrow> same_position s t
     | Inr _ \<Rightarrow> \<exists>h. event_seen E (unread s) session_id (ob_cursor s + 1) (ob_head s) e h \<and> advanced (consumer, sid) h s t)"
proof -
  from run consider
      (count) x where "count_event s = (Inl x, t)" "r = Inl x"
    | (check) x where "count_event s = (Inr (), t)" "r = Inl x"
    | (fetch) u x where "count_event s = (Inr (), u)" "fetch_artifact payload e u = (Inl x, t)" "r = Inl x"
    | (artifact) u a x where "count_event s = (Inr (), u)" "fetch_artifact payload e u = (Inr a, t)" "r = Inl x"
    | (all) u a w where "count_event s = (Inr (), u)" "check_event E session_id (ob_cursor u) (ob_head u) e = Inr ()"
        "fetch_artifact payload e u = (Inr a, w)" "check_artifact E e a = Inr ()" "advance payload consumer e w = (r, t)"
    unfolding observe_event_def sid bindX_lift by (elim bindX_cases) simp_all
  then show ?thesis
  proof cases
    case all
    then show ?thesis using sid(1) old by (rule passed_event)
  next
    case (fetch u x)
    then show ?thesis using count_event_cases [OF fetch(1)] fetch_artifact_cases [OF fetch(2)] same_position_trans by auto
  next
    case (artifact u a x)
    then show ?thesis using count_event_cases [OF artifact(1)] fetch_artifact_cases [OF artifact(2)] same_position_trans by auto
  qed (auto dest: count_event_cases)
qed

text \<open>What a run of the loop did, whatever its outcome: it observed the events \<open>es\<close>, and the store
  holds the position after the last of them.\<close>

definition progressed :: "ext \<Rightarrow> http list \<Rightarrow> json \<Rightarrow> string \<times> string \<Rightarrow> json list \<Rightarrow> obs \<Rightarrow> obs \<Rightarrow> bool" where
  "progressed E rs session_id key es s t \<longleftrightarrow>
     seen_chain E rs session_id (ob_cursor s + 1) (ob_head s) es (ob_head t) \<and>
     (\<forall>v \<in> set es. streamed rs v) \<and>
     ob_cursor t = ob_cursor s + int (length es) \<and> ob_artifacts t = ob_artifacts s + int (length es) \<and>
     ob_count t = (if es = [] then ob_count s else ob_cursor t) \<and>
     (\<forall>k. map_of (ob_cursors t) k =
        (if k = key \<and> es \<noteq> [] then Some \<lparr>cu_sequence = ob_cursor t, cu_head = ob_head t, cu_count = ob_cursor t\<rparr>
         else map_of (ob_cursors s) k))"

definition not_ahead :: "string \<times> string \<Rightarrow> obs \<Rightarrow> bool" where
  "not_ahead key s \<longleftrightarrow> (\<forall>row. map_of (ob_cursors s) key = Some row \<longrightarrow> cu_sequence row \<le> ob_cursor s)"

lemma progressed_Nil: "same_position s t \<Longrightarrow> progressed E rs session_id key [] s t"
  by (simp add: progressed_def same_position_def)

lemma progressed_mono: "progressed E rs session_id key es s t \<Longrightarrow> set rs \<subseteq> set rs' \<Longrightarrow> progressed E rs' session_id key es s t"
  unfolding progressed_def streamed_def by (metis seen_chain_mono served_mono)

lemma progressed_trans:
  assumes "progressed E rs session_id key es s t" "progressed E rs session_id key fs t u"
  shows "progressed E rs session_id key (es @ fs) s u"
  using assms unfolding progressed_def seen_chain_append
  by (auto simp: algebra_simps)

lemma progressed_not_ahead: "progressed E rs session_id key es s t \<Longrightarrow> not_ahead key s \<Longrightarrow> not_ahead key t"
  by (cases key) (fastforce simp: progressed_def not_ahead_def split: if_splits)

lemma progressed_event:
  assumes "event_seen E rs session_id (ob_cursor s + 1) (ob_head s) e h" "advanced key h s t" "streamed rs e"
  shows "progressed E rs session_id key [e] s t"
  using assms by (auto simp: progressed_def advanced_def update_conv)

lemma observe_events_cases:
  assumes "observe_events E payload consumer evs s = (r, t)"
    and sid: "text_item payload ''session_id'' = Inr sid" "jitem payload ''session_id'' = Inr session_id"
    and "not_ahead (consumer, sid) s" "set (unread s) \<subseteq> set rs" "\<forall>v \<in> set evs. streamed rs v"
  shows "\<exists>es. progressed E rs session_id (consumer, sid) es s t \<and> set (unread t) \<subseteq> set (unread s)"
  using assms(1,4-)
proof (induction evs arbitrary: s)
  case Nil
  then show ?case by (auto intro!: exI [of _ "[]"] progressed_Nil)
next
  case (Cons e evs)
  from Cons.prems(1) consider
      (fail) x where "observe_event E payload consumer e s = (Inl x, t)"
    | (run) u where "observe_event E payload consumer e s = (Inr (), u)" "observe_events E payload consumer evs u = (r, t)"
    by (auto elim: bindX_cases)
  then show ?case
  proof cases
    case (fail x)
    have "same_position s t \<and> set (unread t) \<subseteq> set (unread s)"
      using observe_event_cases [OF fail sid] Cons.prems(2) by (auto simp: not_ahead_def cursor_get_def)
    then show ?thesis by (auto intro!: exI [of _ "[]"] progressed_Nil)
  next
    case (run u)
    obtain h where h: "set (unread u) \<subseteq> set (unread s)" "advanced (consumer, sid) h s u"
        "event_seen E (unread s) session_id (ob_cursor s + 1) (ob_head s) e h"
      using observe_event_cases [OF run(1) sid] Cons.prems(2) by (auto simp: not_ahead_def cursor_get_def)
    have p: "progressed E rs session_id (consumer, sid) [e] s u"
      by (rule progressed_event [OF event_seen_mono [OF h(3) Cons.prems(3)] h(2)]) (use Cons.prems(4) in simp)
    obtain es where "progressed E rs session_id (consumer, sid) es u t" "set (unread t) \<subseteq> set (unread u)"
      using Cons.IH [OF run(2) progressed_not_ahead [OF p Cons.prems(2)]] h(1) Cons.prems(3,4) by auto
    with h(1) progressed_trans [OF p] show ?thesis by blast
  qed
qed

section \<open>Rounds\<close>

text \<open>The bundle of a result, and where it came from.\<close>

definition bundle_matches :: "ext \<Rightarrow> http list \<Rightarrow> json \<Rightarrow> obs \<Rightarrow> json \<Rightarrow> bool" where
  "bundle_matches E rs session_id s bh \<longleftrightarrow>
     (\<exists>body bundle. served rs body \<and> load_json body = Inr bundle \<and> check_bundle E session_id s bundle = Inr bh)"

lemma stream_events_streamed:
  assumes "stream_events (status, bufs) = Inr evs" "Response status bufs \<in> set rs"
  shows "\<forall>v \<in> set evs. streamed rs v"
proof -
  from assms(1) obtain body where "status = 200" "sse_events body = Inr evs"
    "read_limited MAX_SSE_RESPONSE_BYTES ''live_stream_too_large'' bufs = Inr body"
    unfolding stream_events_def decode_utf8_def by (auto elim!: run_elims split: if_splits)
  with assms(2) show ?thesis unfolding streamed_def served_def by blast
qed

lemma read_stream_cases:
  assumes "read_stream E payload s = (r, t)"
  shows "same_position s t \<and> set (unread t) \<subseteq> set (unread s) \<and> (\<forall>evs. r = Inr evs \<longrightarrow> (\<forall>v \<in> set evs. streamed (unread s) v))"
  using assms unfolding read_stream_def
  by (elim bindX_cases) (auto dest: obs_get_cases(1,2) stream_events_streamed [OF _ obs_get_cases(3) [OF _ refl]])

lemma read_json_served:
  assumes "read_json limit code bufs = Inr v" "Response 200 bufs \<in> set rs"
  shows "\<exists>body. served rs body \<and> load_json body = Inr v"
proof -
  from assms(1) obtain body where "read_limited limit code bufs = Inr body" "load_json body = Inr v"
    unfolding read_json_def decode_utf8_def by (auto elim!: run_elims split: if_splits)
  with assms(2) show ?thesis unfolding served_def by blast
qed

lemma same_positionD:
  assumes "same_position s t"
  shows "ob_cursor t = ob_cursor s" "ob_head t = ob_head s" "ob_count t = ob_count s" "ob_artifacts t = ob_artifacts s"
    "ob_cursors t = ob_cursors s"
  using assms by (auto simp: same_position_def)

lemma check_bundle_position: "same_position s t \<Longrightarrow> check_bundle E session_id t = check_bundle E session_id s"
proof -
  assume "same_position s t"
  from same_positionD [OF this] show ?thesis unfolding check_bundle_def by (simp only:)
qed

lemma result_position: "same_position s t \<Longrightarrow> observation_result session_id frm rcv t = observation_result session_id frm rcv s"
  by (rule ext) (simp add: observation_result_def same_position_def)

lemma bundle_answer_position: "same_position s t \<Longrightarrow> bundle_answer E session_id frm rcv t = bundle_answer E session_id frm rcv s"
  unfolding bundle_answer_def Let_def by (simp only: check_bundle_position result_position)

lemma bundle_answer_matches:
  assumes "bundle_answer E session_id frm rcv s (status, bufs) = Inr (Some v)" "Response status bufs \<in> set rs"
  shows "\<exists>bh. bundle_matches E rs session_id s bh \<and> v = observation_result session_id frm rcv s bh"
proof -
  from assms(1) obtain b bh where b: "status = 200" "check_bundle E session_id s b = Inr bh"
    "read_json MAX_JSON_RESPONSE_BYTES ''evidence_response_too_large'' bufs = Inr b"
    "v = observation_result session_id frm rcv s bh"
    unfolding bundle_answer_def Let_def by (auto elim!: run_elims split: if_splits)
  with read_json_served [of _ _ bufs b rs] assms(2) show ?thesis
    unfolding bundle_matches_def by blast
qed

lemma observe_bundle_cases:
  assumes "observe_bundle E payload url frm rcv s = (r, t)"
  shows "same_position s t \<and> set (unread t) \<subseteq> set (unread s) \<and>
    (\<forall>v session_id. r = Inr (Some v) \<longrightarrow> jitem payload ''session_id'' = Inr session_id \<longrightarrow>
       (\<exists>bh. bundle_matches E (unread s) session_id s bh \<and> v = observation_result session_id frm rcv s bh))"
proof -
  from assms consider
      "\<exists>x. r = Inl x" "same_position s t \<and> set (unread t) \<subseteq> set (unread s)"
    | session_id status bufs where "jitem payload ''session_id'' = Inr session_id"
        "obs_get (Get (url @ ''/evidence'')) s = (Inr (status, bufs), t)"
        "bundle_answer E session_id frm rcv t (status, bufs) = r"
    unfolding observe_bundle_def by (elim bindX_cases) (auto dest: obs_get_cases(1,2))
  then show ?thesis
  proof cases
    case (2 session_id status bufs)
    note g = obs_get_cases [OF 2(2)]
    from bundle_answer_position [OF g(1)] 2 g(1,2) bundle_answer_matches [OF _ g(3) [OF refl]] show ?thesis by auto
  qed auto
qed

lemma observe_state_cases:
  assumes "observe_state E payload frm rcv s = (r, t)"
  shows "same_position s t \<and> set (unread t) \<subseteq> set (unread s) \<and>
    (\<forall>v session_id. r = Inr (Some v) \<longrightarrow> jitem payload ''session_id'' = Inr session_id \<longrightarrow>
       (\<exists>bh. bundle_matches E (unread s) session_id s bh \<and> v = observation_result session_id frm rcv s bh))"
proof -
  from assms consider
      "\<forall>v. r \<noteq> Inr (Some v)" "same_position s t \<and> set (unread t) \<subseteq> set (unread s)"
    | url u where "same_position s u" "set (unread u) \<subseteq> set (unread s)" "observe_bundle E payload url frm rcv u = (r, t)"
    unfolding observe_state_def
    by (elim bindX_cases case_prodE; (auto dest!: obs_get_quiet elim!: bindX_cases split: if_splits prod.splits))
  then show ?thesis
  proof cases
    case (2 url u)
    note b = observe_bundle_cases [OF 2(3)]
    have m: "bundle_matches E (unread s) session_id s bh" if "bundle_matches E (unread u) session_id u bh" for session_id bh
      using that unfolding bundle_matches_def check_bundle_position [OF 2(1)] by (meson 2(2) served_mono)
    show ?thesis
      using b m 2(1,2) same_position_trans [OF 2(1)] unfolding result_position [OF 2(1)] by blast
  qed auto
qed

section \<open>A whole observation\<close>

lemma observe_round_cases:
  assumes run: "observe_round E payload consumer frm rcv s = (r, t)"
    and sid: "text_item payload ''session_id'' = Inr sid" "jitem payload ''session_id'' = Inr session_id"
    and s: "not_ahead (consumer, sid) s" "set (unread s) \<subseteq> set rs"
  shows "\<exists>es. progressed E rs session_id (consumer, sid) es s t \<and>
    (\<forall>v. r = Inr (Some v) \<longrightarrow>
       (\<exists>bh. bundle_matches E rs session_id t bh \<and> v = observation_result session_id frm rcv t bh))"
proof -
  from run consider
      (stream) x where "read_stream E payload s = (Inl x, t)" "r = Inl x"
    | (event) evs u x where "read_stream E payload s = (Inr evs, u)" "observe_events E payload consumer evs u = (Inl x, t)" "r = Inl x"
    | (state) evs u w where "read_stream E payload s = (Inr evs, u)" "observe_events E payload consumer evs u = (Inr (), w)"
        "observe_state E payload frm rcv w = (r, t)"
    unfolding observe_round_def by (elim bindX_cases) auto
  then show ?thesis
  proof cases
    case (stream x)
    with read_stream_cases [OF stream(1)] progressed_Nil show ?thesis by blast
  next
    case (event evs u x)
    note q = read_stream_cases [OF event(1)]
    have "not_ahead (consumer, sid) u" using q s(1) by (simp add: not_ahead_def same_position_def)
    moreover have "\<forall>v \<in> set evs. streamed rs v" using q s(2) by (auto intro: streamed_mono)
    ultimately obtain es where "progressed E rs session_id (consumer, sid) es u t"
      using observe_events_cases [OF event(2) sid, of rs] q s(2) by auto
    with progressed_trans [OF progressed_Nil, of s u] q event(3) show ?thesis by (intro exI [of _ es]) fastforce
  next
    case (state evs u w)
    note q = read_stream_cases [OF state(1)]
    have "not_ahead (consumer, sid) u" using q s(1) by (simp add: not_ahead_def same_position_def)
    moreover have "\<forall>v \<in> set evs. streamed rs v" using q s(2) by (auto intro: streamed_mono)
    moreover have u: "set (unread u) \<subseteq> set rs" using q s(2) by auto
    ultimately obtain es where es: "progressed E rs session_id (consumer, sid) es u w" "set (unread w) \<subseteq> set rs"
      using observe_events_cases [OF state(2) sid, of rs] by blast
    note f = observe_state_cases [OF state(3)]
    have "progressed E rs session_id (consumer, sid) ([] @ es @ []) s t"
      by (rule progressed_trans [OF progressed_Nil progressed_trans [OF es(1) progressed_Nil]]) (use q f in simp_all)
    moreover have "bundle_matches E rs session_id t bh" if "bundle_matches E (unread w) session_id w bh" for bh
      using that f es(2) unfolding bundle_matches_def by (metis check_bundle_position served_mono)
    ultimately show ?thesis
      using f sid(2) result_position [of w t] by (metis append_Nil append_Nil2)
  qed
qed

lemma observe_rounds_cases:
  assumes "observe_rounds E payload consumer frm rcv rounds s = (r, t)"
    and sid: "text_item payload ''session_id'' = Inr sid" "jitem payload ''session_id'' = Inr session_id"
    and "not_ahead (consumer, sid) s" "set (concat rounds) \<subseteq> set rs"
  shows "\<exists>es. progressed E rs session_id (consumer, sid) es s t \<and>
    (\<forall>v. r = Inr v \<longrightarrow> (\<exists>bh. bundle_matches E rs session_id t bh \<and> v = observation_result session_id frm rcv t bh))"
  using assms(1,4-)
proof (induction rounds arbitrary: s)
  case Nil
  then show ?case by (auto simp: sid elim!: bindX_cases intro!: exI [of _ "[]"] progressed_Nil)
next
  case (Cons ws rounds)
  let ?s = "s\<lparr>ob_web := (ob_web s)\<lparr>w_responses := ws\<rparr>\<rparr>"
  have start: "same_position s ?s" "unread ?s = ws" by (simp_all add: same_position_def unread_def)
  have na: "not_ahead (consumer, sid) ?s" using Cons.prems(2) by (simp add: not_ahead_def)
  from Cons.prems(1) consider
      (stop) x where "observe_round E payload consumer frm rcv ?s = (x, t)" "\<forall>v. r = Inr v \<longrightarrow> x = Inr (Some v)"
    | (again) u where "observe_round E payload consumer frm rcv ?s = (Inr None, u)"
        "observe_rounds E payload consumer frm rcv rounds u = (r, t)"
    by (auto elim!: bindX_cases split: option.splits)
  then show ?case
  proof cases
    case (stop x)
    obtain es where "progressed E rs session_id (consumer, sid) es ?s t"
      "\<forall>v. x = Inr (Some v) \<longrightarrow> (\<exists>bh. bundle_matches E rs session_id t bh \<and> v = observation_result session_id frm rcv t bh)"
      using observe_round_cases [OF stop(1) sid na, of rs] Cons.prems(3) start(2) by auto
    with stop(2) progressed_trans [OF progressed_Nil [OF start(1)]] show ?thesis by (intro exI [of _ es]) fastforce
  next
    case (again u)
    obtain es where es: "progressed E rs session_id (consumer, sid) es ?s u"
      using observe_round_cases [OF again(1) sid na, of rs] Cons.prems(3) start(2) by auto
    then have "not_ahead (consumer, sid) u" using na progressed_not_ahead by blast
    then obtain fs where fs: "progressed E rs session_id (consumer, sid) fs u t"
      "\<forall>v. r = Inr v \<longrightarrow> (\<exists>bh. bundle_matches E rs session_id t bh \<and> v = observation_result session_id frm rcv t bh)"
      using Cons.IH [OF again(2)] Cons.prems(3) by auto
    have "progressed E rs session_id (consumer, sid) ([] @ es @ fs) s t"
      by (rule progressed_trans [OF progressed_Nil [OF start(1)] progressed_trans [OF es fs(1)]])
    with fs(2) show ?thesis by blast
  qed
qed

text \<open>The position an observation starts from.\<close>

lemma start_observation_Inr:
  assumes "start_observation E payload cursor_db consumer origin = Inr (rcv, s)"
  obtains sid session_id where "text_item payload ''session_id'' = Inr sid" "jitem payload ''session_id'' = Inr session_id"
    "ob_cursors s = cursor_db" "not_ahead (consumer, sid) s" "ob_artifacts s = 0"
    "validate_observation_urls E payload origin = Inr ()"
    "case cursor_get cursor_db consumer sid of
       Some row \<Rightarrow> rcv \<and> ob_cursor s = cu_sequence row \<and> ob_head s = cu_head row \<and> ob_count s = cu_count row
     | None \<Rightarrow> \<not> rcv \<and> int_item payload ''start_cursor'' = Inr (ob_cursor s) \<and> ob_count s = ob_cursor s \<and>
         (\<exists>h. jitem payload ''initial_head_hash'' = Inr (JStr h) \<and> ob_head s = py_lower h)"
  using assms unfolding start_observation_def Let_def
  by (elim run_elims)
    (auto simp: not_ahead_def cursor_get_def bindE_Inr_iff jlower_Inr_iff split: option.splits if_splits)

text \<open>Whatever the outcome, the store gained at most the position after events that were checked.\<close>

lemma observation_outcome:
  assumes run: "observe_live_session E payload cursor_db consumer origin rounds = (r, cursor_db')"
    and start: "start_observation E payload cursor_db consumer origin = Inr (rcv, s)"
    and sid: "text_item payload ''session_id'' = Inr sid" "jitem payload ''session_id'' = Inr session_id"
  shows "\<exists>es t. progressed E (concat rounds) session_id (consumer, sid) es s t \<and> cursor_db' = ob_cursors t \<and>
    (\<forall>v. r = Inr v \<longrightarrow>
       (\<exists>bh. bundle_matches E (concat rounds) session_id t bh \<and> v = observation_result session_id (ob_cursor s) rcv t bh))"
proof -
  obtain x t where x: "observe_rounds E payload consumer (ob_cursor s) rcv rounds s = (x, t)" by fastforce
  have r: "cursor_db' = ob_cursors t" "\<And>v. r = Inr v \<Longrightarrow> x = Inr v"
    using run x by (auto simp: observe_live_session_def start catch_transport_def catchE_raise_Inr_iff)
  have "not_ahead (consumer, sid) s"
    using start_observation_Inr [OF start] sid(1) by (metis Inr_inject)
  from observe_rounds_cases [OF x sid this subset_refl] r show ?thesis by metis
qed

lemma seen_chain_read: "seen_chain E rs session_id n h vs g \<Longrightarrow> read_chain E h vs g"
  by (induction vs arbitrary: n h) (auto simp: event_seen_def)

lemma streamed_wf: "streamed rs v \<Longrightarrow> wf_json v"
  unfolding streamed_def sse_events_def
  by (auto simp: load_json_def dest!: mapE_member json_loads_wf split: option.splits)

lemma check_bundle_Inr:
  assumes "check_bundle E session_id s b = Inr bh"
  obtains hash where "evidence_bundle_hash E b = Inr hash" "bh = JStr hash" "int_item b ''event_count'' = Inr (ob_count s)"
  using assms unfolding check_bundle_def
  by (elim run_elims) (auto simp: bindE_Inr_iff split: if_splits)

text \<open>An observation that started at the beginning and reached a head of a session saw its events.\<close>

lemma progressed_agrees:
  assumes p: "progressed E rs session_id key es s t" and s: "ob_cursor s = 0" "ob_head s = ZERO_HASH"
    and vs: "event_chain E 1 ZERO_HASH vs h'" "\<And>v. v \<in> set vs \<Longrightarrow> wf_json v" "py_lower (ob_head t) = py_lower h'"
    and inj: "inj_on (lower_keccak E) (event_preimage ` (set vs \<union> {x. streamed rs x}))"
    and zero: "py_lower ZERO_HASH \<notin> lower_keccak E ` event_preimage ` (set vs \<union> {x. streamed rs x})"
  shows "seen_chain E rs session_id 1 ZERO_HASH es (ob_head t) \<and> map jnorm es = map jnorm vs"
proof -
  have es: "seen_chain E rs session_id 1 ZERO_HASH es (ob_head t)" "set es \<subseteq> {x. streamed rs x}"
    using p s by (auto simp: progressed_def)
  have sub: "event_preimage ` (set es \<union> set vs) \<subseteq> event_preimage ` (set vs \<union> {x. streamed rs x})" using es(2) by blast
  have "map jnorm es = map jnorm vs"
  proof (rule read_chains_agree [OF seen_chain_read [OF es(1)] event_chain_read [OF vs(1)] vs(3)])
    show "wf_json v" if "v \<in> set es \<union> set vs" for v using that es(2) vs(2) streamed_wf by auto
    show "inj_on (lower_keccak E) (event_preimage ` (set es \<union> set vs))" using inj sub by (rule inj_on_subset)
    show "py_lower ZERO_HASH \<notin> lower_keccak E ` event_preimage ` (set es \<union> set vs)" using zero sub by blast
  qed
  with es(1) show ?thesis by blast
qed

end
