(* ===== verification/StreamFrames.thy ===== *)
theory StreamFrames
  imports Observation LiveGateway
begin

text \<open>
  The event stream between the gateway that writes it (\<open>sse_frame\<close>, \<^verbatim>\<open>live_gateway.py\<close>) and the
  observer that reads it (\<open>sse_events\<close>, \<^verbatim>\<open>observation.py\<close>): frames whose lines hold no line
  boundary of \<open>str.splitlines\<close> are read back as the events they were written from.
\<close>

section \<open>Text without line boundaries\<close>

fun one_line :: "string \<Rightarrow> bool" where
  "one_line [] \<longleftrightarrow> True"
| "one_line (c # s) \<longleftrightarrow> line_break (c # s) = 0 \<and> one_line s"

lemma line_break_newline: "line_break (c # s) = 0 \<Longrightarrow> line_break (c # s @ CHR 0x0A # r) = 0"
  by (cases s; cases "tl s") (auto simp: line_break_def starts_with_def split: if_splits)

lemma one_line_no_newline: "one_line s \<Longrightarrow> CHR 0x0A \<notin> set s \<and> CHR 0x0D \<notin> set s"
  by (induction s) (auto simp: line_break_def split: if_splits)

lemma splitlines_newline:
  "one_line s \<Longrightarrow> splitlines_from acc (s @ CHR 0x0A # r) = (rev acc @ s) # splitlines_from [] r"
proof (induction s arbitrary: acc)
  case Nil
  then show ?case by (simp add: splitlines_from.simps [of acc] line_break_def)
next
  case (Cons c s)
  then show ?case
    using line_break_newline [of c s r] by (simp add: splitlines_from.simps [of acc])
qed

lemma splitlines_last: "one_line s \<Longrightarrow> splitlines_from acc s = (if acc @ s = [] then [] else [rev acc @ s])"
  by (induction s arbitrary: acc) (simp_all add: splitlines_from.simps)

text \<open>Text of ASCII without control characters is one line, in front of any text that is.\<close>

definition plain_char :: "char \<Rightarrow> bool" where
  "plain_char c \<longleftrightarrow> 32 \<le> ord_char c \<and> ord_char c < 128"

lemma one_line_plain: "list_all plain_char s \<Longrightarrow> one_line r \<Longrightarrow> one_line (s @ r)"
  by (induction s) (auto simp: plain_char_def line_break_def)

lemma one_line_plain': "list_all plain_char s \<Longrightarrow> one_line s"
  using one_line_plain [of s "[]"] by simp

lemma utf8_valid_plain: "list_all plain_char s \<Longrightarrow> utf8_valid s"
  by (induction s) (auto simp: plain_char_def)

text \<open>JSON text of a value whose strings are ASCII is such text: control characters are escaped.\<close>

definition ascii :: "string \<Rightarrow> bool" where
  "ascii s \<longleftrightarrow> list_all (\<lambda>c. ord_char c < 128) s"

fun ascii_json :: "json \<Rightarrow> bool" where
  "ascii_json (JStr s) \<longleftrightarrow> ascii s"
| "ascii_json (JArr vs) \<longleftrightarrow> list_all ascii_json vs"
| "ascii_json (JObj d) \<longleftrightarrow> list_all (\<lambda>kv. ascii (fst kv) \<and> ascii_json (snd kv)) d"
| "ascii_json _ \<longleftrightarrow> True"

lemma plain_esc_char: "ord_char c < 128 \<Longrightarrow> list_all plain_char (esc_char c)"
proof -
  assume "ord_char c < 128"
  moreover have "plain_char (hex_digit n)" if "n < 16" for n
    using that by (auto simp: hex_digit_def plain_char_def)
  ultimately show ?thesis
    by (auto simp: esc_char_def plain_char_def Let_def)
qed

lemma plain_quote: "ascii s \<Longrightarrow> list_all plain_char (quote s)"
proof -
  assume "ascii s"
  then have "list_all plain_char (concat (map esc_char s))"
    by (induction s) (auto simp: ascii_def plain_esc_char)
  then show ?thesis by (simp add: quote_def plain_char_def)
qed

lemma plain_join: "list_all plain_char sep \<Longrightarrow> list_all (list_all plain_char) xs \<Longrightarrow> list_all plain_char (join sep xs)"
proof (induction xs)
  case (Cons x xs)
  then show ?case by (cases "xs = []") (auto simp: join_Cons)
qed simp

lemma plain_punctuation [simp]: "plain_char CHR '',''" "plain_char CHR '':''" "plain_char CHR ''{''" "plain_char CHR ''}''"
  "plain_char CHR ''[''" "plain_char CHR '']''"
  by (simp_all add: plain_char_def)

lemma plain_json_text: "list_all plain_char gap \<Longrightarrow> ascii_json v \<Longrightarrow> list_all plain_char (plain_text gap v)"
proof (induction v)
  case (JObj d)
  have "list_all plain_char (plain_text gap (snd kv))" if "kv \<in> set d" for kv
    using JObj that by (auto simp: list_all_iff snds.simps)
  then have "list_all (list_all plain_char) (map (\<lambda>kv. quote (fst kv) @ '':'' @ gap @ plain_text gap (snd kv)) d)"
    using JObj.prems plain_quote by (auto simp: list_all_iff)
  from plain_join [OF _ this] show ?case using JObj.prems(1) by simp
next
  case (JArr vs)
  then have "list_all (list_all plain_char) (map (plain_text gap) vs)" by (auto simp: list_all_iff)
  from plain_join [OF _ this] show ?case using JArr.prems(1) by simp
next
  case (JInt i)
  have "plain_char c" if "c \<in> set (dec_nat n)" for c n
    using dec_nat_digits [OF that] by (auto simp: is_digit_def plain_char_def)
  then show ?case by (auto simp: py_str_int_def list_all_iff plain_char_def)
qed (auto simp: plain_quote plain_char_def)

lemma ascii_jnorm: "ascii_json v \<Longrightarrow> ascii_json (jnorm v)"
proof (induction v)
  case (JObj d)
  then show ?case by (auto simp: list_all_iff snds.simps)
next
  case (JArr vs)
  then show ?case by (auto simp: list_all_iff)
qed simp_all

lemma plain_dumps: "ascii_json v \<Longrightarrow> list_all plain_char (dumps_sorted v)"
  unfolding dumps_sorted_def json_text_plain by (intro plain_json_text ascii_jnorm) (simp add: plain_char_def)

text \<open>A bound on the length of the text.\<close>

lemma length_quote: "length (quote s) \<le> 6 * length s + 2"
proof -
  have "length (esc_char c) \<le> 6" for c by (simp add: esc_char_def Let_def)
  then have "length (concat (map esc_char s)) \<le> 6 * length s"
    by (induction s) (simp_all add: add_le_mono)
  then show ?thesis by (simp add: quote_def)
qed

fun text_bound :: "string \<Rightarrow> json \<Rightarrow> nat" where
  "text_bound gap (JStr s) = 6 * length s + 2"
| "text_bound gap (JArr vs) = 2 + sum_list (map (\<lambda>v. text_bound gap v + length gap + 1) vs)"
| "text_bound gap (JObj d) = 2 + sum_list (map (\<lambda>kv. 6 * length (fst kv) + 2 + 2 * length gap + 2 + text_bound gap (snd kv)) d)"
| "text_bound gap v = length (plain_text gap v)"

lemma length_join: "length (join sep xs) \<le> sum_list (map (\<lambda>x. length x + length sep) xs)"
proof (induction xs)
  case (Cons x xs)
  then show ?case by (cases "xs = []") (auto simp: join_Cons)
qed simp

lemma length_plain_text: "length (plain_text gap v) \<le> text_bound gap v"
proof (induction v)
  case (JObj d)
  let ?m = "\<lambda>kv. quote (fst kv) @ '':'' @ gap @ plain_text gap (snd kv)"
  have "length (?m kv) + length ('','' @ gap) \<le> 6 * length (fst kv) + 2 + 2 * length gap + 2 + text_bound gap (snd kv)"
    if "kv \<in> set d" for kv
    using JObj [of kv "snd kv"] that length_quote [of "fst kv"] by (auto simp: snds.simps)
  then have "sum_list (map (\<lambda>kv. length (?m kv) + length ('','' @ gap)) d)
      \<le> sum_list (map (\<lambda>kv. 6 * length (fst kv) + 2 + 2 * length gap + 2 + text_bound gap (snd kv)) d)"
    by (rule sum_list_mono)
  with length_join [of "'','' @ gap" "map ?m d"] show ?case by (simp add: comp_def)
next
  case (JArr vs)
  have "sum_list (map (\<lambda>v. length (plain_text gap v) + length ('','' @ gap)) vs)
      \<le> sum_list (map (\<lambda>v. text_bound gap v + length gap + 1) vs)"
    using JArr by (intro sum_list_mono) simp
  with length_join [of "'','' @ gap" "map (plain_text gap) vs"] show ?case by (simp add: comp_def)
next
  case (JStr s)
  then show ?case using length_quote [of s] by simp
qed simp_all

section \<open>Blocks\<close>

lemma split_blocks_line:
  "CHR 0x0A \<notin> set s \<Longrightarrow> c \<noteq> CHR 0x0A \<Longrightarrow> split_blocks acc (s @ CHR 0x0A # c # r) = split_blocks (CHR 0x0A # rev s @ acc) (c # r)"
proof (induction s arbitrary: acc)
  case (Cons d s)
  then show ?case by (cases s) auto
qed simp

lemma split_blocks_end:
  "CHR 0x0A \<notin> set s \<Longrightarrow> split_blocks acc (s @ CHR 0x0A # CHR 0x0A # r) = (rev acc @ s) # split_blocks [] r"
proof (induction s arbitrary: acc)
  case (Cons d s)
  then show ?case by (cases s) auto
qed simp

section \<open>Frames\<close>

definition frame_of :: "string \<Rightarrow> string \<Rightarrow> string" where
  "frame_of q t = ''id: '' @ q @ [CHR 0x0A] @ ''event: live_event'' @ [CHR 0x0A] @ ''data: '' @ t @ [CHR 0x0A, CHR 0x0A]"

definition frame_block :: "string \<Rightarrow> string \<Rightarrow> string" where
  "frame_block q t = ''id: '' @ q @ [CHR 0x0A] @ ''event: live_event'' @ [CHR 0x0A] @ ''data: '' @ t"

lemma block_data_frame:
  assumes "one_line q" "one_line t"
  shows "block_data (frame_block q t) = [t]"
proof -
  have plain: "list_all plain_char ''id: ''" "list_all plain_char ''event: live_event''" "list_all plain_char ''data: ''"
    by (simp_all add: plain_char_def)
  have l: "one_line (''id: '' @ q)" "one_line ''event: live_event''" "one_line (''data: '' @ t)"
    using one_line_plain [OF plain(1) assms(1)] one_line_plain [OF plain(2), of "[]"] one_line_plain [OF plain(3) assms(2)] by simp_all
  have "py_splitlines (frame_block q t) = [''id: '' @ q, ''event: live_event'', ''data: '' @ t]"
    unfolding py_splitlines_def frame_block_def
    using splitlines_newline [OF l(1), of "[]"] splitlines_newline [OF l(2), of "[]"] splitlines_last [OF l(3), of "[]"]
    by simp
  then show ?thesis by (simp add: block_data_def starts_with_def)
qed

lemma split_blocks_frame:
  assumes "one_line q" "one_line t"
  shows "split_blocks [] (frame_of q t @ r) = frame_block q t # split_blocks [] r"
proof -
  have q: "CHR 0x0A \<notin> set (''id: '' @ q)" and t: "CHR 0x0A \<notin> set (''data: '' @ t)" and e: "CHR 0x0A \<notin> set ''event: live_event''"
    using one_line_no_newline [OF assms(1)] one_line_no_newline [OF assms(2)] by simp_all
  have f: "frame_of q t @ r = (''id: '' @ q) @ CHR 0x0A # CHR ''e'' # (''vent: live_event'' @ CHR 0x0A # ''data: '' @ t @ CHR 0x0A # CHR 0x0A # r)"
    by (simp add: frame_of_def)
  show ?thesis
    unfolding f using split_blocks_line [OF q, of "CHR ''e''" "[]" "''vent: live_event'' @ CHR 0x0A # ''data: '' @ t @ CHR 0x0A # CHR 0x0A # r"]
      split_blocks_line [OF e, of "CHR ''d''" _ "''ata: '' @ t @ CHR 0x0A # CHR 0x0A # r"] split_blocks_end [OF t]
    by (simp add: frame_block_def)
qed

text \<open>What the observer reads from the frames of an answer.\<close>

lemma no_cr_frame: "one_line q \<Longrightarrow> one_line t \<Longrightarrow> CHR 0x0D \<notin> set (frame_of q t)"
  by (simp add: frame_of_def one_line_no_newline)

lemma split_frames:
  "list_all (\<lambda>(q, t). one_line q \<and> one_line t) fs \<Longrightarrow>
     split_blocks [] (concat (map (\<lambda>(q, t). frame_of q t) fs)) = map (\<lambda>(q, t). frame_block q t) fs @ [[]]"
  by (induction fs) (auto simp: split_blocks_frame)

lemma sse_events_frames:
  assumes "list_all (\<lambda>(q, t). one_line q \<and> one_line t) fs" "\<And>q t. (q, t) \<in> set fs \<Longrightarrow> load_json t = Inr (v t)"
  shows "sse_events (concat (map (\<lambda>(q, t). frame_of q t) fs)) = Inr (map (\<lambda>(q, t). v t) fs)"
proof -
  let ?body = "concat (map (\<lambda>(q, t). frame_of q t) fs)"
  have "CHR 0x0D \<notin> set ?body" using assms(1) no_cr_frame by (fastforce simp: list_all_iff)
  then have "replace_crlf ?body = ?body" by (rule replace_crlf_id)
  moreover have "map block_data (map (\<lambda>(q, t). frame_block q t) fs) = map (\<lambda>(q, t). [t]) fs"
    using assms(1) by (induction fs) (auto simp: block_data_frame)
  moreover have "block_data [] = []" by (simp add: block_data_def py_splitlines_def splitlines_from.simps)
  ultimately have "filter (\<lambda>d. d \<noteq> []) (map block_data (split_blocks [] (replace_crlf ?body))) = map (\<lambda>(q, t). [t]) fs"
    using split_frames [OF assms(1)] by (simp add: filter_True case_prod_beta' del: map_map)
  then have "sse_events ?body = mapE (\<lambda>d. load_json (join [CHR 0x0A] d)) (map (\<lambda>(q, t). [t]) fs)"
    unfolding sse_events_def by simp
  also have "\<dots> = Inr (map (\<lambda>(q, t). v t) fs)"
    using assms(2) by (subst mapE_map_Inr [where g = "\<lambda>d. v (hd d)"]) (auto simp: case_prod_beta')
  finally show ?thesis .
qed

text \<open>An event whose frame is read back: its lines hold no line boundary.\<close>

definition frame_safe :: "json \<Rightarrow> bool" where
  "frame_safe e \<longleftrightarrow> one_line (dumps_sorted e) \<and> (case jitem e ''sequence'' of Inr q \<Rightarrow> one_line (py_str q) | Inl _ \<Rightarrow> False)"

lemma sse_frame_frame_of:
  "sse_frame e = Inr f \<longleftrightarrow> (\<exists>q. jitem e ''sequence'' = Inr q \<and> f = frame_of (py_str q) (dumps_sorted e))"
  by (auto simp: sse_frame_def frame_of_def bindE_Inr_iff)

lemma mapE_sse_frame:
  "mapE sse_frame evs = Inr frames \<Longrightarrow> list_all frame_safe evs \<Longrightarrow>
     \<exists>fs. frames = map (\<lambda>(q, t). frame_of q t) fs \<and> list_all (\<lambda>(q, t). one_line q \<and> one_line t) fs \<and>
       map snd fs = map dumps_sorted evs"
proof (induction evs arbitrary: frames)
  case (Cons e evs)
  from Cons.prems obtain f fr where f: "frames = f # fr" "sse_frame e = Inr f" "mapE sse_frame evs = Inr fr"
    by (auto simp: bindE_Inr_iff)
  then obtain q where q: "jitem e ''sequence'' = Inr q" "f = frame_of (py_str q) (dumps_sorted e)"
    by (auto simp: sse_frame_frame_of)
  from Cons.IH [OF f(3)] Cons.prems(2) obtain fs where "fr = map (\<lambda>(q, t). frame_of q t) fs"
    "list_all (\<lambda>(q, t). one_line q \<and> one_line t) fs" "map snd fs = map dumps_sorted evs" by auto
  with f(1) q Cons.prems(2) show ?case
    by (intro exI [of _ "(py_str q, dumps_sorted e) # fs"]) (simp add: frame_safe_def)
qed simp

lemma stream_frames_events:
  assumes "mapE sse_frame evs = Inr frames" "list_all frame_safe evs" "list_all wf_json evs"
  shows "sse_events (concat frames) = Inr (map jnorm evs)"
proof -
  obtain fs where fs: "frames = map (\<lambda>(q, t). frame_of q t) fs" "list_all (\<lambda>(q, t). one_line q \<and> one_line t) fs"
    "map snd fs = map dumps_sorted evs"
    using mapE_sse_frame [OF assms(1,2)] by blast
  have load: "load_json (dumps_sorted e) = Inr (jnorm e)" if "wf_json e" for e
    using spaced.loads_text [OF that] by (simp add: load_json_def dumps_sorted_def)
  have "load_json t = Inr (the (json_loads t))" if "(q, t) \<in> set fs" for q t
  proof -
    from that fs(3) obtain e where "e \<in> set evs" "t = dumps_sorted e" by (metis image_iff list.set_map snd_conv)
    then show ?thesis using assms(3) load [of e] by (auto simp: list_all_iff load_json_def split: option.splits)
  qed
  from sse_events_frames [OF fs(2) this]
  have "sse_events (concat frames) = Inr (map (\<lambda>t. the (json_loads t)) (map snd fs))"
    unfolding fs(1) by (simp add: case_prod_beta' comp_def)
  also have "map (\<lambda>t. the (json_loads t)) (map snd fs) = map jnorm evs"
    unfolding fs(3) using assms(3) load by (force simp: list_all_iff load_json_def split: option.splits)
  finally show ?thesis .
qed

lemma text_bound_jnorm: "text_bound gap (jnorm v) = text_bound gap v"
proof (induction v)
  case (JObj d)
  let ?f = "\<lambda>kv. 6 * length (fst kv) + 2 + 2 * length gap + 2 + text_bound gap (snd kv)"
  have "sum_list (map ?f (sort_key fst (map (\<lambda>kv. (fst kv, jnorm (snd kv))) d))) = sum_list (map ?f (map (\<lambda>kv. (fst kv, jnorm (snd kv))) d))"
    by (simp only: sum_mset_sum_list [symmetric] mset_map mset_sort)
  also have "\<dots> = sum_list (map ?f d)"
    unfolding map_map by (intro arg_cong [where f = sum_list] map_cong refl) (use JObj in \<open>auto simp: snds.simps\<close>)
  finally show ?case by simp
next
  case (JArr vs)
  then have "map (\<lambda>v. Suc (text_bound gap (jnorm v) + length gap)) vs = map (\<lambda>v. Suc (text_bound gap v + length gap)) vs" by simp
  then show ?case by (simp add: comp_def cong: map_cong)
qed simp_all

text \<open>Events in ASCII can always be streamed.\<close>

lemma frame_safe_ascii:
  assumes "ascii_json e" "jitem e ''sequence'' = Inr (JStr q)" "list_all plain_char q"
  shows "frame_safe e"
  using assms one_line_plain' [OF plain_dumps [OF assms(1)]] one_line_plain' [OF assms(3)]
  by (simp add: frame_safe_def py_str_def)

text \<open>A text of one line without \<open>data: \<close> has no event.\<close>

lemma sse_events_none:
  assumes "one_line t" "t \<noteq> []" "\<not> starts_with t ''data: ''"
  shows "sse_events t = Inr []"
proof -
  have "CHR 0x0A \<notin> set s \<Longrightarrow> split_blocks acc s = [rev acc @ s]" for acc s
    by (induction acc s rule: split_blocks.induct) auto
  then have "split_blocks [] (replace_crlf t) = [t]"
    using one_line_no_newline [OF assms(1)] by (simp add: replace_crlf_id)
  moreover have "block_data t = []"
    using assms splitlines_last [OF assms(1), of "[]"] by (simp add: block_data_def py_splitlines_def)
  ultimately show ?thesis by (simp add: sse_events_def)
qed

end
