(* ===== verification/ObservationSet.thy ===== *)
theory ObservationSet
  imports Observation
begin

text \<open>
  The aggregation of observers' receipts (\<open>aggregate_observations\<close>, \<^verbatim>\<open>observation.py\<close>): what a set of
  observations that was accepted shows.
\<close>

definition observed_by ::
    "ext \<Rightarrow> json list \<Rightarrow> json \<Rightarrow> json \<Rightarrow> json \<Rightarrow> json \<Rightarrow> string \<Rightarrow> bool" where
  "observed_by E expected_nodes chain_id registry c receipt node \<longleftrightarrow>
     (\<exists>signer. verify_receipt_v2 E receipt chain_id registry = Inr signer \<and> to_checksum_address E (JStr signer) = Inr node) \<and>
     (\<exists>expected. mapE (to_checksum_address E) expected_nodes = Inr expected \<and> node \<in> set expected) \<and>
     jget receipt ''status'' = Inr (JStr ''completed'') \<and>
     (\<exists>result view. jitem receipt ''result'' = Inr result \<and> comparable_view result = Inr view \<and> py_eq view c)"

lemma observation_step_Inr:
  assumes "observation_step E expected_nodes chain_id registry (ns, cur) r = Inr (ms, cur')"
  obtains n c where "ms = ns @ [n]" "n \<notin> set ns" "cur' = Some c" "observed_by E expected_nodes chain_id registry c r n"
    "case cur of None \<Rightarrow> True | Some c0 \<Rightarrow> c0 = c"
proof -
  from assms obtain signer node expected status result view where
    1: "verify_receipt_v2 E r chain_id registry = Inr signer" "to_checksum_address E (JStr signer) = Inr node"
    and 2: "mapE (to_checksum_address E) expected_nodes = Inr expected" "node \<in> set expected" "node \<notin> set ns"
    and 3: "jget r ''status'' = Inr status"
      "(if status = JStr ''completed'' then Inr ()
        else bindE (rejected_detail r) (\<lambda>d. le_error_exit ''observation_receipt_rejected'' d 4)) = Inr ()"
      "jitem r ''result'' = Inr result" "comparable_view result = Inr view"
    and 4: "(case cur of
       None \<Rightarrow> Inr (ns @ [node], Some view)
     | Some c \<Rightarrow> if py_eq view c then Inr (ns @ [node], Some c)
         else bindE (jitem r ''task_id'') (\<lambda>t. le_error ''observation_mismatch'' (py_str t))) = Inr (ms, cur')"
    unfolding observation_step_def prod.case by (elim run_elims) auto
  have s: "status = JStr ''completed''" using 3(2) by (auto simp: bindE_Inr_iff split: if_splits)
  have "observed_by E expected_nodes chain_id registry c r node" if "py_eq view c" for c
    using 1 2 3 s that unfolding observed_by_def by blast
  with 2(3) 4 that show ?thesis by (auto simp: bindE_Inr_iff split: option.splits if_splits)
qed

lemma observation_fold:
  assumes "foldE (observation_step E expected_nodes chain_id registry) (ns, cur) rs = Inr (ms, Some c)"
    and "case cur of None \<Rightarrow> True | Some c0 \<Rightarrow> c0 = c" "distinct ns"
  shows "\<exists>new. ms = ns @ new \<and> distinct ms \<and> list_all2 (observed_by E expected_nodes chain_id registry c) rs new"
  using assms
proof (induction rs arbitrary: ns cur)
  case (Cons r rs)
  from Cons.prems(1) obtain ns' cur' where
    f: "observation_step E expected_nodes chain_id registry (ns, cur) r = Inr (ns', cur')"
      "foldE (observation_step E expected_nodes chain_id registry) (ns', cur') rs = Inr (ms, Some c)"
    by (auto simp: bindE_Inr_iff)
  from observation_step_Inr [OF f(1)] obtain n c1 where
    n: "ns' = ns @ [n]" "n \<notin> set ns" "cur' = Some c1" "observed_by E expected_nodes chain_id registry c1 r n" by metis
  have "snd (ms, Some c) = Some c1"
  proof (rule foldE_invariant [OF f(2), where P = "\<lambda>x. snd x = Some c1"])
    fix s x s'
    assume "snd s = Some c1" "observation_step E expected_nodes chain_id registry s x = Inr s'"
    then show "snd s' = Some c1" by (cases s; cases s') (auto elim!: observation_step_Inr)
  qed (simp add: n(3))
  with n Cons.IH [OF f(2)] Cons.prems(3) show ?case by auto
qed auto

lemma aggregate_observations_Inr:
  assumes "aggregate_observations E receipts expected_nodes chain_id registry = Inr v"
  obtains c nodes hash where "length receipts = 3" "distinct nodes"
    "list_all2 (observed_by E expected_nodes chain_id registry c) receipts nodes"
    "\<And>k. k \<in> {''session_id'', ''event_count'', ''head_event_hash'', ''bundle_hash''} \<Longrightarrow> jitem v k = jitem c k"
    "observation_set_hash E v = Inr hash" "jitem v ''observation_set_hash'' = Inr (JStr hash)"
proof -
  from assms obtain nodes cr c session_id event_count head bundle_hash sorted_receipts hash w where
    1: "length receipts = 3" "foldE (observation_step E expected_nodes chain_id registry) ([], None) receipts = Inr (nodes, cr)"
      "(case cr of Some c \<Rightarrow> Inr c | None \<Rightarrow> Inl AssertionError) = Inr c"
    and 2: "jitem c ''session_id'' = Inr session_id" "jitem c ''event_count'' = Inr event_count"
      "jitem c ''head_event_hash'' = Inr head" "jitem c ''bundle_hash'' = Inr bundle_hash"
    and 3: "observation_set_hash E (observation_set_value session_id event_count head bundle_hash sorted_receipts) = Inr hash"
      "jset (observation_set_value session_id event_count head bundle_hash sorted_receipts) ''observation_set_hash'' (JStr hash) = Inr v"
    unfolding aggregate_observations_def Let_def
    by (elim run_elims; clarify; elim run_elims; simp only: prod.case; elim run_elims; simp)
  have cr: "cr = Some c" using 1(3) by (auto split: option.splits)
  from observation_fold [OF 1(2) [unfolded cr]] obtain new where
    "nodes = new" "distinct nodes" "list_all2 (observed_by E expected_nodes chain_id registry c) receipts new" by auto
  moreover have "jitem v k = jitem c k" if "k \<in> {''session_id'', ''event_count'', ''head_event_hash'', ''bundle_hash''}" for k
    using that 2 3(2) by (auto simp: jset_Inr_iff observation_set_value_def)
  moreover have "observation_set_hash E v = Inr hash" "jitem v ''observation_set_hash'' = Inr (JStr hash)"
    using 3 by (auto simp: observation_set_hash_def self_hash_def jset_Inr_iff jpop_def observation_set_value_def)
  ultimately show ?thesis using 1(1) that by metis
qed

end
