(* ===== verification/ObservationExamples.thy ===== *)
theory ObservationExamples
  imports StreamFrames ObservationSet Examples
begin

text \<open>A concrete observation: one round of a closed session with one event, and its answers.\<close>

definition watch_payload :: json where
  "watch_payload = JObj [(''session_id'', JStr ''s''), (''stream_url'', JStr ''http://h/e''), (''session_url'', JStr ''http://h/s''),
     (''artifact_base_url'', JStr ''http://h/a''), (''start_cursor'', JStr ''0''), (''initial_head_hash'', JStr ZERO_HASH)]"

definition demo_head :: string where
  "demo_head = ''0x'' @ demo_digest"

definition demo_served_bundle :: json where
  "demo_served_bundle = JObj [(''bundle_hash'', JStr demo_head), (''event_count'', JStr ''1''), (''head_event_hash'', JStr demo_head)]"

definition demo_frame :: string where
  "demo_frame = frame_of ''1'' (dumps_sorted demo_event)"

definition demo_round :: "http list" where
  "demo_round = [Response 200 [demo_frame], Response 200 [''x''],
     Response 200 [dumps_sorted (demo_session ''closed'' ''2'' demo_head)], Response 200 [dumps_sorted demo_served_bundle]]"

definition demo_obs :: obs where
  "demo_obs = \<lparr>ob_web = \<lparr>w_responses = [], w_requests = []\<rparr>, ob_cursors = [], ob_cursor = 0, ob_head = ZERO_HASH,
     ob_count = 0, ob_artifacts = 0, ob_bytes = 0, ob_events = 0\<rparr>"

lemma demo_ascii: "ascii demo_digest" "ascii ZERO_HASH" "ascii demo_head"
  by (simp_all add: ascii_def demo_digest_def ZERO_HASH_def demo_head_def list_all_iff)

lemma demo_event_ascii: "ascii_json demo_event"
  using demo_ascii by (simp add: demo_event_def ascii_def)

lemma demo_frame_safe: "frame_safe demo_event"
  by (rule frame_safe_ascii [OF demo_event_ascii, of "''1''"]) (simp_all add: demo_event_def plain_char_def)

lemma demo_frame_ok: "sse_frame demo_event = Inr demo_frame"
  by (simp add: sse_frame_frame_of demo_frame_def demo_event_def py_str_def)

lemma demo_frame_events: "sse_events demo_frame = Inr [jnorm demo_event]"
  using stream_frames_events [of "[demo_event]" "[demo_frame]"] demo_frame_ok demo_frame_safe demo_event_wf by simp

lemma demo_urls: "validate_observation_urls demo_ext watch_payload (JStr ''http://h'') = Inr ()"
  by code_simp

lemma watch_payload_secrets: "reject_secret_fields watch_payload ''$'' = Inr ()"
  by code_simp

lemma watch_payload_items:
  "jitem watch_payload ''session_id'' = Inr (JStr ''s'')" "text_item watch_payload ''session_id'' = Inr ''s''"
  "jitem watch_payload ''initial_head_hash'' = Inr (JStr ZERO_HASH)"
  "str_item watch_payload ''stream_url'' = Inr ''http://h/e''" "str_item watch_payload ''session_url'' = Inr ''http://h/s''"
  by (simp_all add: watch_payload_def text_item_def str_item_def jstr_def)

lemma demo_start_cursor: "int_item watch_payload ''start_cursor'' = Inr 0"
  by code_simp

lemma demo_zero_lower: "py_lower ZERO_HASH = ZERO_HASH"
  by code_simp

lemma demo_start: "start_observation demo_ext watch_payload [] ''c'' (JStr ''http://h'') = Inr (False, demo_obs)"
  unfolding start_observation_def watch_payload_secrets demo_urls watch_payload_items demo_start_cursor
  by (simp add: validate_schema_def cursor_get_def jlower_def jstr_def demo_zero_lower demo_obs_def)

text \<open>One event is observed.\<close>

lemma demo_check: "check_event demo_ext (JStr ''s'') 0 ZERO_HASH (jnorm demo_event) = Inr ()"
  by code_simp

lemma demo_artifact:
  "check_artifact demo_ext (jnorm demo_event) ''x'' = Inr ()"
  "artifact_url watch_payload (jnorm demo_event) = Inr (''http://h/a/sha256:'' @ demo_digest)"
  by code_simp+

lemma demo_event_items: "int_item (jnorm demo_event) ''sequence'' = Inr 1"
  "bindE (jitem (jnorm demo_event) ''event_hash'') jstr = Inr demo_head"
  by code_simp+

text \<open>The answers.\<close>

lemma read_single: "b \<noteq> [] \<Longrightarrow> 0 \<le> limit \<Longrightarrow> int (length b) \<le> limit \<Longrightarrow> read_limited limit code [b] = Inr b"
  by (simp add: read_limited_eq)

lemma demo_docs_ascii: "ascii_json (demo_session ''closed'' ''2'' demo_head)" "ascii_json demo_served_bundle"
  using demo_ascii by (simp_all add: demo_session_def demo_served_bundle_def ascii_def)

lemma demo_utf8: "utf8_valid demo_frame" "utf8_valid (dumps_sorted (demo_session ''closed'' ''2'' demo_head))"
  "utf8_valid (dumps_sorted demo_served_bundle)"
proof -
  have line: "utf8_valid (s @ CHR 0x0A # r)" if "list_all plain_char s" "utf8_valid r" for s r
    using that by (induction s) (auto simp: plain_char_def)
  have p: "list_all plain_char (''data: '' @ dumps_sorted demo_event)"
    using plain_dumps [OF demo_event_ascii] by (simp add: plain_char_def)
  have d: "demo_frame = ''id: 1'' @ CHR 0x0A # ''event: live_event'' @ CHR 0x0A #
      (''data: '' @ dumps_sorted demo_event) @ CHR 0x0A # [] @ CHR 0x0A # []"
    by (simp add: demo_frame_def frame_of_def)
  show "utf8_valid demo_frame"
    unfolding d by (intro line p) (simp_all add: plain_char_def)
  show "utf8_valid (dumps_sorted (demo_session ''closed'' ''2'' demo_head))" "utf8_valid (dumps_sorted demo_served_bundle)"
    by (intro utf8_valid_plain plain_dumps demo_docs_ascii)+
qed

lemma demo_lengths: "length demo_frame \<le> 10000" "length (dumps_sorted (demo_session ''closed'' ''2'' demo_head)) \<le> 9000"
  "length (dumps_sorted demo_served_bundle) \<le> 9000"
proof -
  have b: "length (dumps_sorted v) \<le> n" if "text_bound '' '' v \<le> n" for v n
    using that length_plain_text [of "'' ''" "jnorm v"] by (simp add: dumps_sorted_def json_text_plain text_bound_jnorm)
  have "length (dumps_sorted demo_event) \<le> 9000"
    by (rule b) (simp add: demo_event_def demo_digest_def ZERO_HASH_def)
  then show "length demo_frame \<le> 10000" by (simp add: demo_frame_def frame_of_def)
  show "length (dumps_sorted (demo_session ''closed'' ''2'' demo_head)) \<le> 9000"
    by (rule b) (simp add: demo_session_def demo_head_def demo_digest_def)
  show "length (dumps_sorted demo_served_bundle) \<le> 9000"
    by (rule b) (simp add: demo_served_bundle_def demo_head_def demo_digest_def)
qed

lemma dumps_nonempty [simp]: "dumps_sorted (JObj d) \<noteq> []"
  by (simp add: dumps_sorted_def)

lemma load_dumps: "wf_json v \<Longrightarrow> load_json (dumps_sorted v) = Inr (jnorm v)"
  using spaced.loads_text [of v] by (simp add: load_json_def dumps_sorted_def)

lemma demo_stream: "stream_events (200, [demo_frame]) = Inr [jnorm demo_event]"
  using demo_lengths(1) demo_utf8(1) demo_frame_events
  by (simp add: stream_events_def read_single frame_of_def demo_frame_def MAX_SSE_RESPONSE_BYTES_def decode_utf8_def)

lemma demo_state:
  "read_json MAX_JSON_RESPONSE_BYTES code [dumps_sorted (demo_session ''closed'' ''2'' demo_head)]
     = Inr (jnorm (demo_session ''closed'' ''2'' demo_head))"
  "read_json MAX_JSON_RESPONSE_BYTES code [dumps_sorted demo_served_bundle] = Inr (jnorm demo_served_bundle)"
  using demo_lengths(2,3) demo_utf8(2,3)
  by (simp_all add: read_json_def read_single MAX_JSON_RESPONSE_BYTES_def decode_utf8_def load_dumps demo_session_def
      demo_served_bundle_def)

definition demo_seen :: "int \<Rightarrow> obs" where
  "demo_seen n = demo_obs\<lparr>ob_cursors := [((''c'', ''s''), \<lparr>cu_sequence = 1, cu_head = demo_head, cu_count = 1\<rparr>)],
     ob_cursor := 1, ob_head := demo_head, ob_count := 1, ob_artifacts := 1, ob_bytes := 1, ob_events := 1,
     ob_web := \<lparr>w_responses = drop (nat n) demo_round, w_requests = take (nat n)
       [GetAfter ''http://h/e'' 0, Get (''http://h/a/sha256:'' @ demo_digest), Get ''http://h/s'', Get ''http://h/s/evidence'']\<rparr>\<rparr>"

lemma demo_at_end: "at_end demo_ext watch_payload (demo_seen 3) (jnorm (demo_session ''closed'' ''2'' demo_head)) = Inr True"
  by code_simp

definition demo_result :: json where
  "demo_result = observation_result (JStr ''s'') 0 False (demo_seen 4) (JStr demo_head)"

lemma demo_check_bundle: "check_bundle demo_ext (JStr ''s'') (demo_seen 4) (jnorm demo_served_bundle) = Inr (JStr demo_head)"
  by code_simp

lemma demo_answer:
  "bundle_answer demo_ext (JStr ''s'') 0 False (demo_seen 4) (200, [dumps_sorted demo_served_bundle]) = Inr (Some demo_result)"
  by (simp add: bundle_answer_def demo_state demo_check_bundle demo_result_def validate_schema_def)

lemma demo_read_artifact: "artifact_body (jnorm demo_event) 0 (200, [''x'']) = Inr ''x''"
  by (simp add: artifact_body_def read_single MAX_OBSERVATION_ARTIFACT_BYTES_def MAX_ARTIFACT_BYTES_def)

lemma demo_observe_event:
  "observe_event demo_ext watch_payload ''c'' (jnorm demo_event)
     (demo_obs\<lparr>ob_web := \<lparr>w_responses = drop 1 demo_round, w_requests = [GetAfter ''http://h/e'' 0]\<rparr>\<rparr>) = (Inr (), demo_seen 2)"
  by (simp add: observe_event_def count_event_def bindX_def modifyX_def get_stateX_def liftX_def watch_payload_items demo_obs_def
      MAX_OBSERVATION_EVENTS_def demo_check fetch_artifact_def demo_artifact obs_get_def http_get_def demo_round_def
      demo_read_artifact advance_def demo_event_items cursor_save_def cursor_get_def demo_seen_def)

lemma demo_bundle_step: "observe_bundle demo_ext watch_payload ''http://h/s'' 0 False (demo_seen 3) = (Inr (Some demo_result), demo_seen 4)"
  using demo_answer
  by (simp add: observe_bundle_def bindX_def liftX_def get_stateX_def watch_payload_items obs_get_def http_get_def
      demo_round_def demo_seen_def demo_obs_def)

lemma demo_state_step: "observe_state demo_ext watch_payload 0 False (demo_seen 2) = (Inr (Some demo_result), demo_seen 4)"
proof -
  have "obs_get (Get ''http://h/s'') (demo_seen 2) =
      (Inr (200, [dumps_sorted (demo_session ''closed'' ''2'' demo_head)]), demo_seen 3)"
    by (simp add: obs_get_def http_get_def demo_round_def demo_seen_def demo_obs_def)
  then show ?thesis
    using demo_bundle_step demo_at_end
    by (simp add: observe_state_def bindX_def liftX_def get_stateX_def watch_payload_items demo_state)
qed

lemma demo_round_step:
  "observe_round demo_ext watch_payload ''c'' 0 False (demo_obs\<lparr>ob_web := \<lparr>w_responses = demo_round, w_requests = []\<rparr>\<rparr>)
     = (Inr (Some demo_result), demo_seen 4)"
proof -
  have "read_stream demo_ext watch_payload (demo_obs\<lparr>ob_web := \<lparr>w_responses = demo_round, w_requests = []\<rparr>\<rparr>)
      = (Inr [jnorm demo_event], demo_obs\<lparr>ob_web := \<lparr>w_responses = drop 1 demo_round, w_requests = [GetAfter ''http://h/e'' 0]\<rparr>\<rparr>)"
    using demo_stream
    by (simp add: read_stream_def bindX_def liftX_def get_stateX_def watch_payload_items obs_get_def http_get_def
        demo_round_def demo_obs_def)
  then show ?thesis
    using demo_observe_event demo_state_step by (simp add: observe_round_def bindX_def liftX_def)
qed

lemma demo_observation:
  "observe_live_session demo_ext watch_payload [] ''c'' (JStr ''http://h'') [demo_round] = (Inr demo_result, ob_cursors (demo_seen 4))"
proof -
  have w: "demo_obs\<lparr>ob_web := (ob_web demo_obs)\<lparr>w_responses := demo_round\<rparr>\<rparr>
      = demo_obs\<lparr>ob_web := \<lparr>w_responses = demo_round, w_requests = []\<rparr>\<rparr>" "ob_cursor demo_obs = 0"
    by (simp_all add: demo_obs_def)
  show ?thesis
    using demo_round_step
    by (simp add: observe_live_session_def demo_start catch_transport_def bindX_def modifyX_def liftX_def w)
qed

text \<open>Only the demo event was streamed.\<close>

lemma served_single:
  assumes "served rs body" "\<And>r. r \<in> set rs \<Longrightarrow> \<exists>status b. r = Response status [b] \<and> b \<noteq> []"
  shows "\<exists>status. Response status [body] \<in> set rs"
proof -
  from assms(1) obtain bufs limit code where r: "Response 200 bufs \<in> set rs" "read_limited limit code bufs = Inr body"
    by (auto simp: served_def)
  from assms(2) [OF r(1)] obtain b where b: "bufs = [b]" "b \<noteq> []" by auto
  have "0 \<le> limit" using read_limited_Inr [OF r(2)] by simp
  then have "b = body" using r(2) b by (simp add: read_limited_eq split: if_splits)
  with r(1) b(1) show ?thesis by blast
qed

lemma demo_other_bodies:
  "sse_events ''x'' = Inr []" "sse_events (dumps_sorted (demo_session ''closed'' ''2'' demo_head)) = Inr []"
  "sse_events (dumps_sorted demo_served_bundle) = Inr []"
proof -
  show "sse_events ''x'' = Inr []" by (rule sse_events_none) (simp_all add: line_break_def starts_with_def)
  have "sse_events (dumps_sorted (JObj d)) = Inr []" if "ascii_json (JObj d)" for d
    by (rule sse_events_none [OF one_line_plain' [OF plain_dumps [OF that]]]) (simp_all add: dumps_sorted_def starts_with_def)
  then show "sse_events (dumps_sorted (demo_session ''closed'' ''2'' demo_head)) = Inr []"
    "sse_events (dumps_sorted demo_served_bundle) = Inr []"
    using demo_docs_ascii by (simp_all add: demo_session_def demo_served_bundle_def)
qed

lemma demo_streamed: "streamed demo_round v \<Longrightarrow> v = jnorm demo_event"
proof -
  assume "streamed demo_round v"
  then obtain body evs where b: "served demo_round body" "sse_events body = Inr evs" "v \<in> set evs" by (auto simp: streamed_def)
  have "\<exists>status b. r = Response status [b] \<and> b \<noteq> []" if "r \<in> set demo_round" for r
    using that by (auto simp: demo_round_def demo_frame_def frame_of_def demo_session_def demo_served_bundle_def)
  from served_single [OF b(1) this] b(2,3) show ?thesis
    by (auto simp: demo_round_def demo_other_bodies demo_frame_events)
qed

lemma demo_result_items: "jitem demo_result ''head_event_hash'' = Inr (JStr demo_head)"
  "jitem demo_result ''event_count'' = Inr (JStr ''1'')"
  by (simp_all add: demo_result_def observation_result_def demo_seen_def)

lemma demo_hashed_texts: "event_preimage ` (set [jnorm demo_event] \<union> {x. streamed (concat [demo_round]) x}) \<subseteq> {event_preimage (jnorm demo_event)}"
  using demo_streamed by auto

lemma demo_texts_apart:
  "inj_on (lower_keccak demo_ext) (event_preimage ` (set [jnorm demo_event] \<union> {x. streamed (concat [demo_round]) x}))"
  "py_lower ZERO_HASH \<notin> lower_keccak demo_ext ` event_preimage ` (set [jnorm demo_event] \<union> {x. streamed (concat [demo_round]) x})"
proof -
  show "inj_on (lower_keccak demo_ext) (event_preimage ` (set [jnorm demo_event] \<union> {x. streamed (concat [demo_round]) x}))"
    by (rule inj_on_subset [OF _ demo_hashed_texts]) simp
  have "py_lower ZERO_HASH \<noteq> py_lower demo_head" by code_simp
  then have "py_lower ZERO_HASH \<notin> lower_keccak demo_ext ` {event_preimage (jnorm demo_event)}"
    by (simp add: lower_keccak_def demo_head_def)
  then show "py_lower ZERO_HASH \<notin> lower_keccak demo_ext ` event_preimage ` (set [jnorm demo_event] \<union> {x. streamed (concat [demo_round]) x})"
    using demo_hashed_texts by blast
qed

section \<open>A line separator in the content of an event\<close>

text \<open>The event verifies and can be stored and streamed, but the observer cuts its frame at U+2028 and
  fails to parse it: \<open>splitlines\<close> knows more line boundaries than the stream format.\<close>

definition separator_event :: json where
  "separator_event = JObj [(''event_id'', JStr ''e''), (''session_id'', JStr ''s''), (''sequence'', JStr ''1''),
     (''category'', JStr ''source''), (''content'', JStr [CHR 0xE2, CHR 0x80, CHR 0xA8]),
     (''content_hash'', JStr (''sha256:'' @ demo_digest)), (''event_hash'', JStr (''0x'' @ demo_digest))]"

lemma separator_event_ok: "verify_live_event demo_ext separator_event = Inr True"
proof -
  have "secret_free separator_event" by code_simp
  then show ?thesis by (simp add: verify_live_event_iff event_ok_def separator_event_def)
qed

lemma separator_frame_refused: "bindE (sse_frame separator_event) sse_events = Inl ValueError"
  by code_simp

theorem separator_event_lost:
  "\<exists>frame. verify_live_event demo_ext separator_event = Inr True \<and> sse_frame separator_event = Inr frame \<and>
     sse_events frame = Inl ValueError"
proof -
  have "jitem separator_event ''sequence'' = Inr (JStr ''1'')" by (simp add: separator_event_def)
  then obtain frame where "sse_frame separator_event = Inr frame" by (auto simp: sse_frame_frame_of)
  with separator_event_ok separator_frame_refused show ?thesis by auto
qed

section \<open>Three observers\<close>

definition watch_receipt :: "string \<Rightarrow> json" where
  "watch_receipt n = JObj [(''schema_version'', JStr ''loveengine.task-receipt/2''), (''chain_id'', JStr ''1''),
     (''registry'', JStr ''r''), (''task_id'', JStr n), (''node'', JStr n), (''status'', JStr ''completed''),
     (''result'', JObj [(''session_id'', JStr ''s''), (''last_sequence'', JStr ''1''), (''event_count'', JStr ''1''),
       (''head_event_hash'', JStr ''h''), (''bundle_hash'', JStr ''b'')]),
     (''result_hash'', JStr (''0x'' @ demo_digest)), (''nonce'', JStr ''1''), (''completed_at'', JStr ''8''), (''signature'', JStr n)]"

definition watch_receipts :: "json list" where
  "watch_receipts = map watch_receipt [''a'', ''b'', ''c'']"

definition watch_nodes :: "json list" where
  "watch_nodes = [JStr ''a'', JStr ''b'', JStr ''c'']"

lemma watch_verifies: "verify_receipt_v2 demo_ext (watch_receipt n) (JStr ''1'') (JStr ''r'') = Inr n"
  by code_simp

lemma watch_view: "jitem (watch_receipt n) ''result'' = Inr r \<Longrightarrow> comparable_view r = Inr r"
  by (auto simp: watch_receipt_def comparable_view_def COMPARABLE_KEYS_def)

lemma watch_items: "jget (watch_receipt n) ''status'' = Inr (JStr ''completed'')" "jitem (watch_receipt n) ''node'' = Inr (JStr n)"
  "\<exists>r. jitem (watch_receipt n) ''result'' = Inr r"
  by (simp_all add: watch_receipt_def jget_Inr_iff)

lemma watch_aggregate:
  "case aggregate_observations demo_ext watch_receipts watch_nodes (JStr ''1'') (JStr ''r'') of Inr _ \<Rightarrow> True | Inl _ \<Rightarrow> False"
  by code_simp

end
