(* ===== verification/ReviewEvidence.thy ===== *)
theory ReviewEvidence
  imports Observation Dispute
begin

text \<open>
  \<^verbatim>\<open>review_evidence.py\<close>: before a node signs a verdict on a dispute it fetches the finalized bundle,
  the events and their artifacts, and verifies them independently; the review result is bound to them.
  The state of the client is what is left of the answers, as in \<open>Fetch\<close>.
\<close>

definition MAX_REVIEW_EVENTS :: int where "MAX_REVIEW_EVENTS = 1000"

definition MAX_REVIEW_ARTIFACT_BYTES :: int where "MAX_REVIEW_ARTIFACT_BYTES = 32 * 1024 * 1024"

definition CURRENT_REVIEW_PAYLOAD_SCHEMA :: string where
  "CURRENT_REVIEW_PAYLOAD_SCHEMA = ''loveengine.review-dispute-payload/1''"

definition REVIEW_RESULT_BINDING_FIELDS :: "string list" where
  "REVIEW_RESULT_BINDING_FIELDS =
     [''dispute_id'', ''bundle_hash'', ''session_id'', ''revision'', ''event_count'', ''head_event_hash'']"

definition REVIEW_RESULT_HASH_FIELDS :: "string list" where
  "REVIEW_RESULT_HASH_FIELDS = [''bundle_hash'', ''head_event_hash'']"

definition is_current_review_payload :: "json \<Rightarrow> bool" where
  "is_current_review_payload payload \<longleftrightarrow>
     (case payload of JObj d \<Rightarrow> map_of d ''schema_version'' = Some (JStr CURRENT_REVIEW_PAYLOAD_SCHEMA) | _ \<Rightarrow> False)"

section \<open>The result of a review\<close>

definition binding_matches :: "string \<Rightarrow> json \<Rightarrow> json \<Rightarrow> bool" where
  "binding_matches fld actual expected \<longleftrightarrow>
     (if fld \<in> set REVIEW_RESULT_HASH_FIELDS then py_lower (py_str actual) = py_lower (py_str expected)
      else py_str actual = py_str expected)"

definition require_verified_review_result :: "ext \<Rightarrow> json \<Rightarrow> json \<Rightarrow> string \<Rightarrow> json res" where
  "require_verified_review_result E payload result task_id =
     bindE (ensure (is_current_review_payload payload) ''review_evidence_payload_required'' task_id) (\<lambda>_.
     bindE (validate_schema E payload ''review-dispute-payload-v1.schema.json'') (\<lambda>_.
     bindE (ensure (case result of JObj _ \<Rightarrow> True | _ \<Rightarrow> False) ''review_evidence_result_invalid'' task_id) (\<lambda>_.
     bindE (jget result ''evidence_verified'') (\<lambda>verified.
     bindE (ensure (verified = JBool True) ''review_evidence_not_verified'' task_id) (\<lambda>_.
     bindE (foldE (\<lambda>_ fld.
        bindE (jitem payload fld) (\<lambda>expected.
        bindE (jget result fld) (\<lambda>actual.
        ensure (binding_matches fld actual expected) ''review_evidence_binding_mismatch'' (task_id @ '':'' @ fld))))
        () REVIEW_RESULT_BINDING_FIELDS) (\<lambda>_.
     Inr result))))))"

section \<open>The evidence\<close>

definition validate_review_urls :: "ext \<Rightarrow> json \<Rightarrow> json \<Rightarrow> unit res" where
  "validate_review_urls E payload allowed_origin =
     bindE (validate_schema E payload ''review-dispute-payload-v1.schema.json'') (\<lambda>_.
     bindE (normalized_http_origin E allowed_origin) (\<lambda>expected.
     check_origins E ''review_origin_mismatch'' payload expected [''evidence_url'', ''events_url'', ''artifact_base_url'']))"

definition json_answer :: "string \<Rightarrow> int \<times> string list \<Rightarrow> json res" where
  "json_answer error_code = (\<lambda>(status, bufs).
     bindE (if status = 200 then Inr () else le_error_exit error_code (py_str_int status) 4) (\<lambda>_.
     read_json MAX_JSON_RESPONSE_BYTES (error_code @ ''_too_large'') bufs))"

definition json_response :: "string \<Rightarrow> string \<Rightarrow> (json, web) eff" where
  "json_response url error_code = bindX (http_get (Get url)) (\<lambda>response. liftX (json_answer error_code response))"

definition BUNDLE_FIELDS :: "string list" where
  "BUNDLE_FIELDS = [''bundle_hash'', ''session_id'', ''revision'', ''event_count'', ''head_event_hash'']"

text \<open>The bundle carries its own hash and has the values of the signed task.\<close>

definition check_review_bundle :: "ext \<Rightarrow> json \<Rightarrow> json \<Rightarrow> unit res" where
  "check_review_bundle E payload bundle =
     bindE (validate_schema E bundle ''evidence-bundle-v2.schema.json'') (\<lambda>_.
     bindE (jitem bundle ''bundle_hash'') (\<lambda>bh.
     bindE (evidence_bundle_hash E bundle) (\<lambda>h.
     bindE (if bh = JStr h then Inr ()
            else bindE (jitem payload ''session_id'') (\<lambda>s. le_error ''bundle_hash_mismatch'' (py_str s))) (\<lambda>_.
     foldE (\<lambda>_ fld.
        bindE (jitem bundle fld) (\<lambda>actual.
        bindE (jitem payload fld) (\<lambda>expected.
        ensure (py_lower (py_str actual) = py_lower (py_str expected)) ''review_bundle_mismatch''
          (fld @ '' does not match the signed task'')))) () BUNDLE_FIELDS))))"

text \<open>\<open>set(events_value) != {"events"}\<close>.\<close>

definition review_events :: "json \<Rightarrow> json \<Rightarrow> int \<Rightarrow> json list res" where
  "review_events payload events_value expected_count =
     bindE (ensure (case events_value of JObj d \<Rightarrow> fst ` set d = {''events''} | _ \<Rightarrow> False)
        ''review_events_invalid'' ''expected an events object'') (\<lambda>_.
     bindE (jitem events_value ''events'') (\<lambda>evs.
     case evs of
       JArr vs \<Rightarrow> if int (length vs) = expected_count then Inr vs
         else bindE (jitem payload ''session_id'') (\<lambda>s. le_error ''review_event_count_mismatch'' (py_str s))
     | _ \<Rightarrow> bindE (jitem payload ''session_id'') (\<lambda>s. le_error ''review_event_count_mismatch'' (py_str s))))"

record review =
  rv_web :: web
  rv_expected :: int
  rv_previous :: string
  rv_references :: "json list"
  rv_counts :: "(string \<times> nat) list"
  rv_bytes :: int

definition review_start :: "web \<Rightarrow> review" where
  "review_start w = \<lparr>rv_web = w, rv_expected = 1, rv_previous = ZERO_HASH, rv_references = [],
     rv_counts = map (\<lambda>c. (c, 0)) CATEGORIES, rv_bytes = 0\<rparr>"

text \<open>The checks of an event before its artifact is fetched.\<close>

definition check_review_event :: "ext \<Rightarrow> json \<Rightarrow> int \<Rightarrow> string \<Rightarrow> json \<Rightarrow> unit res" where
  "check_review_event E payload expected_sequence previous event =
     bindE (validate_schema E event ''live-event-v1.schema.json'') (\<lambda>_.
     bindE (jitem event ''session_id'') (\<lambda>sid. bindE (jitem payload ''session_id'') (\<lambda>session_id.
     bindE (ensure (py_eq sid session_id) ''wrong_session'' (py_str sid)) (\<lambda>_.
     bindE (int_item event ''sequence'') (\<lambda>n.
     bindE (if n \<noteq> expected_sequence then Inr True
            else bindE (jitem event ''previous_event_hash'') (\<lambda>p. bindE (jlower p) (\<lambda>q. Inr (q \<noteq> py_lower previous)))) (\<lambda>broken.
     bindE (if broken then bindE (jitem event ''event_id'') (\<lambda>i. le_error ''hash_chain_broken'' (py_str i)) else Inr ()) (\<lambda>_.
     bindE (verify_live_event E event) (\<lambda>valid.
     if valid then Inr () else bindE (jitem event ''event_id'') (\<lambda>i. le_error ''event_hash_mismatch'' (py_str i))))))))))"

definition review_artifact :: "json \<Rightarrow> int \<times> string list \<Rightarrow> string res" where
  "review_artifact event = (\<lambda>(status, bufs).
     bindE (if status = 200 then Inr ()
        else bindE (jitem event ''artifact_hash'') (\<lambda>h. le_error ''artifact_missing'' (py_str h))) (\<lambda>_.
     read_limited MAX_ARTIFACT_BYTES ''artifact_too_large'' bufs))"

text \<open>After the artifact: its budget, its hash, the reference of the event, its category, its hash.\<close>

definition record_review_event :: "ext \<Rightarrow> json \<Rightarrow> string \<Rightarrow> review \<Rightarrow> review res" where
  "record_review_event E event artifact s =
     (let total = rv_bytes s + int (length artifact) in
      bindE (ensure (total \<le> MAX_REVIEW_ARTIFACT_BYTES) ''review_artifact_budget_exceeded'' (py_str_int MAX_REVIEW_ARTIFACT_BYTES)) (\<lambda>_.
      bindE (check_artifact E event artifact) (\<lambda>_.
      bindE (event_reference event) (\<lambda>ref.
      bindE (jitem event ''category'') (\<lambda>category.
      bindE (count_category (rv_counts s) category) (\<lambda>counts.
      bindE (bindE (jitem event ''event_hash'') jstr) (\<lambda>h.
      Inr (s\<lparr>rv_bytes := total, rv_references := rv_references s @ [ref], rv_counts := counts, rv_previous := h,
             rv_expected := rv_expected s + 1\<rparr>))))))))"

definition review_get :: "request \<Rightarrow> (int \<times> string list, review) eff" where
  "review_get r = (\<lambda>s. case http_get r (rv_web s) of (x, w) \<Rightarrow> (x, s\<lparr>rv_web := w\<rparr>))"

definition review_event :: "ext \<Rightarrow> json \<Rightarrow> json \<Rightarrow> (unit, review) eff" where
  "review_event E payload event =
     bindX get_stateX (\<lambda>s.
     bindX (liftX (check_review_event E payload (rv_expected s) (rv_previous s) event)) (\<lambda>_.
     bindX (liftX (artifact_url payload event)) (\<lambda>url.
     bindX (review_get (Get url)) (\<lambda>response.
     bindX (liftX (review_artifact event response)) (\<lambda>artifact.
     bindX get_stateX (\<lambda>u.
     bindX (liftX (record_review_event E event artifact u)) (\<lambda>v.
     modifyX (\<lambda>_. v))))))))"

fun review_loop :: "ext \<Rightarrow> json \<Rightarrow> json list \<Rightarrow> (unit, review) eff" where
  "review_loop E payload [] = liftX (Inr ())"
| "review_loop E payload (e # es) = bindX (review_event E payload e) (\<lambda>_. review_loop E payload es)"

text \<open>The comparison of what was read with the bundle and the task; the result.\<close>

definition conclude_review :: "json \<Rightarrow> json \<Rightarrow> review \<Rightarrow> json res" where
  "conclude_review payload bundle s =
     bindE (jitem payload ''session_id'') (\<lambda>session_id.
     bindE (jitem payload ''head_event_hash'') (\<lambda>hh. bindE (jlower hh) (\<lambda>head.
     bindE (ensure (py_lower (rv_previous s) = head) ''hash_chain_broken'' (py_str session_id)) (\<lambda>_.
     bindE (jitem bundle ''events'') (\<lambda>evs.
     bindE (ensure (py_eq evs (JArr (rv_references s))) ''review_bundle_event_mismatch'' (py_str session_id)) (\<lambda>_.
     bindE (jitem bundle ''category_counts'') (\<lambda>counts.
     bindE (ensure (py_eq counts (JObj (map (\<lambda>(k, n). (k, JStr (dec_nat n))) (rv_counts s))))
        ''review_category_count_mismatch'' (py_str session_id)) (\<lambda>_.
     bindE (jitem payload ''revision'') (\<lambda>revision. bindE (jitem payload ''event_count'') (\<lambda>event_count.
     Inr (JObj [(''evidence_verified'', JBool True), (''session_id'', session_id), (''revision'', revision),
       (''event_count'', event_count), (''head_event_hash'', hh)])))))))))))"

definition fetch_review :: "ext \<Rightarrow> json \<Rightarrow> int \<Rightarrow> (json, web) eff" where
  "fetch_review E payload expected_count =
     bindX (liftX (str_item payload ''evidence_url'')) (\<lambda>evidence_url.
     bindX (json_response evidence_url ''review_evidence_unavailable'') (\<lambda>bundle.
     bindX (liftX (check_review_bundle E payload bundle)) (\<lambda>_.
     bindX (liftX (str_item payload ''events_url'')) (\<lambda>events_url.
     bindX (json_response events_url ''review_events_unavailable'') (\<lambda>events_value.
     bindX (liftX (review_events payload events_value expected_count)) (\<lambda>evs.
     (\<lambda>w. case review_loop E payload evs (review_start w) of
        (Inl e, s) \<Rightarrow> (Inl e, rv_web s)
      | (Inr _, s) \<Rightarrow> (conclude_review payload bundle s, rv_web s))))))))"

definition verify_review_evidence :: "ext \<Rightarrow> json \<Rightarrow> json \<Rightarrow> http list \<Rightarrow> json res" where
  "verify_review_evidence E payload allowed_origin rs =
     bindE (reject_secret_fields payload ''$'') (\<lambda>_.
     bindE (validate_review_urls E payload allowed_origin) (\<lambda>_.
     bindE (int_item payload ''event_count'') (\<lambda>expected_count.
     bindE (ensure (expected_count \<le> MAX_REVIEW_EVENTS) ''review_event_limit_exceeded''
        (py_str_int expected_count @ '' > '' @ py_str_int MAX_REVIEW_EVENTS)) (\<lambda>_.
     fst (catch_transport ''review_evidence_unavailable'' (fetch_review E payload expected_count)
       \<lparr>w_responses = rs, w_requests = []\<rparr>)))))"

section \<open>What an accepted review shows\<close>

lemma check_review_event_Inr:
  assumes "check_review_event E payload n h e = Inr ()" "jitem payload ''session_id'' = Inr session_id"
  shows "verify_live_event E e = Inr True" "\<exists>x. jitem e ''session_id'' = Inr x \<and> py_eq x session_id"
    "int_item e ''sequence'' = Inr n"
    "\<exists>p. jitem e ''previous_event_hash'' = Inr (JStr p) \<and> py_lower p = py_lower h"
proof -
  from assms obtain x sid m broken valid where c: "jitem e ''session_id'' = Inr x" "jitem payload ''session_id'' = Inr sid"
    "py_eq x sid" "int_item e ''sequence'' = Inr m"
    "(if m \<noteq> n then Inr True
            else bindE (jitem e ''previous_event_hash'') (\<lambda>p. bindE (jlower p) (\<lambda>q. Inr (q \<noteq> py_lower h)))) = Inr broken"
    "(if broken then bindE (jitem e ''event_id'') (\<lambda>i. le_error ''hash_chain_broken'' (py_str i)) else Inr ()) = Inr ()"
    "verify_live_event E e = Inr valid"
    "(if valid then Inr () else bindE (jitem e ''event_id'') (\<lambda>i. le_error ''event_hash_mismatch'' (py_str i))) = Inr ()"
    unfolding check_review_event_def by (elim run_elims) simp
  have "\<not> broken" "valid" using c(6,8) by (auto simp: bindE_Inr_iff split: if_splits)
  with c assms(2) show "verify_live_event E e = Inr True" "\<exists>x. jitem e ''session_id'' = Inr x \<and> py_eq x session_id"
    "int_item e ''sequence'' = Inr n" "\<exists>p. jitem e ''previous_event_hash'' = Inr (JStr p) \<and> py_lower p = py_lower h"
    by (auto simp: bindE_Inr_iff jlower_Inr_iff split: if_splits)
qed

lemma review_get_Inr:
  assumes "review_get r s = (Inr (status, bufs), t)"
  shows "Response status bufs \<in> set (w_responses (rv_web s))" "set (w_responses (rv_web t)) \<subseteq> set (w_responses (rv_web s))"
    "\<exists>w. t = s\<lparr>rv_web := w\<rparr>"
  using assms http_get_cases [of r "rv_web s"] by (auto simp: review_get_def split: prod.splits)

lemma review_artifact_served:
  assumes "review_artifact e (status, bufs) = Inr a" "Response status bufs \<in> set rs"
  shows "served rs a"
proof -
  from assms(1) have "status = 200" "read_limited MAX_ARTIFACT_BYTES ''artifact_too_large'' bufs = Inr a"
    unfolding review_artifact_def by (auto simp: bindE_Inr_iff split: if_splits)
  with assms(2) show ?thesis unfolding served_def by blast
qed

lemma record_review_event_Inr:
  assumes "record_review_event E e a s = Inr t"
  obtains ref c counts h where "check_artifact E e a = Inr ()" "event_reference e = Inr ref" "jitem e ''category'' = Inr c"
    "count_category (rv_counts s) c = Inr counts" "jitem e ''event_hash'' = Inr (JStr h)"
    "t = s\<lparr>rv_bytes := rv_bytes s + int (length a), rv_references := rv_references s @ [ref], rv_counts := counts,
           rv_previous := h, rv_expected := rv_expected s + 1\<rparr>"
  using assms unfolding record_review_event_def Let_def by (elim run_elims) (simp add: jstr_Inr_iff)

lemma review_event_Inr:
  assumes "review_event E payload e s = (Inr (), t)" "jitem payload ''session_id'' = Inr session_id"
  obtains h ref c where "event_seen E (w_responses (rv_web s)) session_id (rv_expected s) (rv_previous s) e h"
    "event_reference e = Inr ref" "rv_references t = rv_references s @ [ref]"
    "jitem e ''category'' = Inr c" "count_category (rv_counts s) c = Inr (rv_counts t)"
    "rv_previous t = h" "rv_expected t = rv_expected s + 1" "set (w_responses (rv_web t)) \<subseteq> set (w_responses (rv_web s))"
proof -
  from assms(1) obtain url status bufs u a where
    1: "check_review_event E payload (rv_expected s) (rv_previous s) e = Inr ()"
    and 2: "review_get (Get url) s = (Inr (status, bufs), u)" "review_artifact e (status, bufs) = Inr a"
    and 3: "record_review_event E e a u = Inr t"
    unfolding review_event_def by (elim bindX_InrE) (auto elim!: effect_elims)
  note c = check_review_event_Inr [OF 1 assms(2)] and g = review_get_Inr [OF 2(1)]
  obtain ref k counts h where r: "check_artifact E e a = Inr ()" "event_reference e = Inr ref" "jitem e ''category'' = Inr k"
    "count_category (rv_counts u) k = Inr counts" "jitem e ''event_hash'' = Inr (JStr h)"
    "t = u\<lparr>rv_bytes := rv_bytes u + int (length a), rv_references := rv_references u @ [ref], rv_counts := counts,
           rv_previous := h, rv_expected := rv_expected u + 1\<rparr>"
    by (rule record_review_event_Inr [OF 3])
  have "served (w_responses (rv_web s)) a" by (rule review_artifact_served [OF 2(2) g(1)])
  then have "event_seen E (w_responses (rv_web s)) session_id (rv_expected s) (rv_previous s) e h"
    using c r(5) check_artifact_Inr [OF r(1)] unfolding event_seen_def by blast
  with r g(2,3) that show ?thesis by auto
qed

lemma review_loop_Inr:
  assumes "review_loop E payload es s = (Inr (), t)" "jitem payload ''session_id'' = Inr session_id"
    "set (w_responses (rv_web s)) \<subseteq> set rs"
  shows "seen_chain E rs session_id (rv_expected s) (rv_previous s) es (rv_previous t) \<and>
    (\<exists>refs. mapE event_reference es = Inr refs \<and> rv_references t = rv_references s @ refs) \<and>
    rv_expected t = rv_expected s + int (length es)"
  using assms(1,3)
proof (induction es arbitrary: s)
  case (Cons e es)
  from Cons.prems(1) obtain u where u: "review_event E payload e s = (Inr (), u)" "review_loop E payload es u = (Inr (), t)"
    by (auto elim!: bindX_InrE)
  obtain h ref c where e: "event_seen E (w_responses (rv_web s)) session_id (rv_expected s) (rv_previous s) e h"
    "event_reference e = Inr ref" "rv_references u = rv_references s @ [ref]" "rv_previous u = h"
    "rv_expected u = rv_expected s + 1" "set (w_responses (rv_web u)) \<subseteq> set (w_responses (rv_web s))"
    by (rule review_event_Inr [OF u(1) assms(2)])
  from Cons.IH [OF u(2)] e(6) Cons.prems(2) obtain refs where r:
    "seen_chain E rs session_id (rv_expected u) (rv_previous u) es (rv_previous t)"
    "mapE event_reference es = Inr refs" "rv_references t = rv_references u @ refs" "rv_expected t = rv_expected u + int (length es)"
    by blast
  moreover have "event_seen E rs session_id (rv_expected s) (rv_previous s) e h"
    by (rule event_seen_mono [OF e(1) Cons.prems(2)])
  ultimately show ?case using e(2-5) by auto
qed auto

text \<open>The events among the answers, as members of an object's \<open>events\<close>.\<close>

definition listed :: "http list \<Rightarrow> json \<Rightarrow> bool" where
  "listed rs v \<longleftrightarrow> (\<exists>body w vs. served rs body \<and> load_json body = Inr w \<and> jitem w ''events'' = Inr (JArr vs) \<and> v \<in> set vs)"

lemma listed_wf: "listed rs v \<Longrightarrow> wf_json v"
proof -
  assume "listed rs v"
  then obtain body w vs where l: "load_json body = Inr w" "jitem w ''events'' = Inr (JArr vs)" "v \<in> set vs" by (auto simp: listed_def)
  from l(1) have "wf_json w" by (auto simp: load_json_def dest: json_loads_wf split: option.splits)
  from wf_jitem [OF this l(2)] l(3) show ?thesis by (auto simp: list_all_iff)
qed

lemma json_response_Inr:
  assumes "json_response url code w = (Inr v, w')"
  shows "\<exists>body. served (w_responses w) body \<and> load_json body = Inr v" "set (w_responses w') \<subseteq> set (w_responses w)"
proof -
  from assms obtain status bufs where g: "http_get (Get url) w = (Inr (status, bufs), w')" "json_answer code (status, bufs) = Inr v"
    unfolding json_response_def by (auto elim!: effect_elims)
  then have "status = 200" "read_json MAX_JSON_RESPONSE_BYTES (code @ ''_too_large'') bufs = Inr v"
    by (auto simp: json_answer_def bindE_Inr_iff split: if_splits)
  with http_get_cases [OF g(1)] read_json_served [of _ _ bufs v] show
    "\<exists>body. served (w_responses w) body \<and> load_json body = Inr v" "set (w_responses w') \<subseteq> set (w_responses w)" by auto
qed

lemma check_review_bundle_Inr:
  assumes "check_review_bundle E payload b = Inr ()"
  shows "\<exists>h. jitem b ''bundle_hash'' = Inr (JStr h) \<and> evidence_bundle_hash E b = Inr h"
    "fld \<in> set BUNDLE_FIELDS \<Longrightarrow> \<exists>x y. jitem b fld = Inr x \<and> jitem payload fld = Inr y \<and> py_lower (py_str x) = py_lower (py_str y)"
proof -
  from assms obtain bh h where c: "jitem b ''bundle_hash'' = Inr bh" "evidence_bundle_hash E b = Inr h"
    "(if bh = JStr h then Inr ()
            else bindE (jitem payload ''session_id'') (\<lambda>s. le_error ''bundle_hash_mismatch'' (py_str s))) = Inr ()"
    "foldE (\<lambda>_ fld.
        bindE (jitem b fld) (\<lambda>actual.
        bindE (jitem payload fld) (\<lambda>expected.
        ensure (py_lower (py_str actual) = py_lower (py_str expected)) ''review_bundle_mismatch''
          (fld @ '' does not match the signed task'')))) () BUNDLE_FIELDS = Inr ()"
    unfolding check_review_bundle_def by (elim run_elims) simp
  show "\<exists>h. jitem b ''bundle_hash'' = Inr (JStr h) \<and> evidence_bundle_hash E b = Inr h"
    using c(1-3) by (auto simp: bindE_Inr_iff split: if_splits)
  show "\<exists>x y. jitem b fld = Inr x \<and> jitem payload fld = Inr y \<and> py_lower (py_str x) = py_lower (py_str y)"
    if "fld \<in> set BUNDLE_FIELDS"
    using c(4) that by (auto simp: foldE_unit bindE_Inr_iff ensure_Inr_iff)
qed

lemma review_events_Inr:
  "review_events payload w n = Inr vs \<Longrightarrow> jitem w ''events'' = Inr (JArr vs) \<and> int (length vs) = n"
  unfolding review_events_def by (elim run_elims) (auto simp: bindE_Inr_iff split: json.splits if_splits)

lemma conclude_review_Inr:
  assumes "conclude_review payload b s = Inr v"
  obtains session_id hh evs counts revision event_count where
    "jitem payload ''session_id'' = Inr session_id" "jitem payload ''head_event_hash'' = Inr (JStr hh)"
    "py_lower (rv_previous s) = py_lower hh"
    "jitem b ''events'' = Inr evs" "py_eq evs (JArr (rv_references s))"
    "jitem b ''category_counts'' = Inr counts" "py_eq counts (JObj (map (\<lambda>(k, n). (k, JStr (dec_nat n))) (rv_counts s)))"
    "jitem payload ''revision'' = Inr revision" "jitem payload ''event_count'' = Inr event_count"
    "v = JObj [(''evidence_verified'', JBool True), (''session_id'', session_id), (''revision'', revision),
       (''event_count'', event_count), (''head_event_hash'', JStr hh)]"
  using assms unfolding conclude_review_def by (elim run_elims) (auto simp: jlower_Inr_iff)

lemma fetch_review_Inr:
  assumes "fetch_review E payload n w = (Inr v, w')"
  obtains b evs s where "\<exists>body. served (w_responses w) body \<and> load_json body = Inr b"
    "check_review_bundle E payload b = Inr ()" "list_all (listed (w_responses w)) evs" "int (length evs) = n"
    "\<exists>w1. set (w_responses w1) \<subseteq> set (w_responses w) \<and> review_loop E payload evs (review_start w1) = (Inr (), s)"
    "conclude_review payload b s = Inr v"
proof -
  from assms obtain url b w1 url2 ev w2 evs where
    1: "json_response url ''review_evidence_unavailable'' w = (Inr b, w1)" "check_review_bundle E payload b = Inr ()"
    and 2: "json_response url2 ''review_events_unavailable'' w1 = (Inr ev, w2)" "review_events payload ev n = Inr evs"
    and 3: "(case review_loop E payload evs (review_start w2) of
        (Inl e, s) \<Rightarrow> (Inl e, rv_web s)
      | (Inr _, s) \<Rightarrow> (conclude_review payload b s, rv_web s)) = (Inr v, w')"
    unfolding fetch_review_def by (elim effect_elims) simp
  obtain s where s: "review_loop E payload evs (review_start w2) = (Inr (), s)" "conclude_review payload b s = Inr v"
    using 3 by (auto split: prod.splits sum.splits)
  note r1 = json_response_Inr [OF 1(1)] and r2 = json_response_Inr [OF 2(1)] and e = review_events_Inr [OF 2(2)]
  have "list_all (listed (w_responses w)) evs"
    using r2(1) r1(2) e unfolding list_all_iff listed_def by (metis served_mono)
  moreover have "set (w_responses w2) \<subseteq> set (w_responses w)" using r1(2) r2(2) by blast
  ultimately show ?thesis using that r1(1) 1(2) e s by blast
qed

text \<open>An accepted review: the bundle and the events that were fetched.\<close>

lemma verify_review_evidence_Inr:
  assumes "verify_review_evidence E payload origin rs = Inr v" "jitem payload ''session_id'' = Inr session_id"
  obtains b evs hh refs h where "\<exists>body. served rs body \<and> load_json body = Inr b"
    "check_review_bundle E payload b = Inr ()" "list_all (listed rs) evs" "int_item payload ''event_count'' = Inr (int (length evs))"
    "seen_chain E rs session_id 1 ZERO_HASH evs h" "jitem payload ''head_event_hash'' = Inr (JStr hh)" "py_lower h = py_lower hh"
    "mapE event_reference evs = Inr refs" "\<exists>x. jitem b ''events'' = Inr x \<and> py_eq x (JArr refs)"
    "jitem v ''evidence_verified'' = Inr (JBool True)"
    "\<And>k. k \<in> {''session_id'', ''revision'', ''event_count'', ''head_event_hash''} \<Longrightarrow> jitem v k = jitem payload k"
    "validate_review_urls E payload origin = Inr ()"
proof -
  from assms(1) obtain n where n: "int_item payload ''event_count'' = Inr n" "validate_review_urls E payload origin = Inr ()"
    and f: "fst (catch_transport ''review_evidence_unavailable'' (fetch_review E payload n)
       \<lparr>w_responses = rs, w_requests = []\<rparr>) = Inr v"
    unfolding verify_review_evidence_def by (elim run_elims) simp
  obtain w' where f': "fetch_review E payload n \<lparr>w_responses = rs, w_requests = []\<rparr> = (Inr v, w')"
    using f by (auto simp: catch_transport_def catchE_raise_Inr_iff split: prod.splits)
  obtain b evs s w1 where r: "\<exists>body. served rs body \<and> load_json body = Inr b"
    "check_review_bundle E payload b = Inr ()" "list_all (listed rs) evs" "int (length evs) = n"
    "set (w_responses w1) \<subseteq> set rs" "review_loop E payload evs (review_start w1) = (Inr (), s)"
    "conclude_review payload b s = Inr v"
    by (rule fetch_review_Inr [OF f']) (simp, blast)
  have "set (w_responses (rv_web (review_start w1))) \<subseteq> set rs" using r(5) by (simp add: review_start_def)
  from review_loop_Inr [OF r(6) assms(2) this] obtain refs where l: "seen_chain E rs session_id 1 ZERO_HASH evs (rv_previous s)"
    "mapE event_reference evs = Inr refs" "rv_references s = refs" by (auto simp: review_start_def)
  show ?thesis
    by (rule conclude_review_Inr [OF r(7)], rule that [OF r(1-3) _ l(1)]) (use n r(4) l in auto)
qed

section \<open>A reviewer's result (agent_session.py) and its binding\<close>

definition review_fields :: "ext \<Rightarrow> string \<Rightarrow> json \<Rightarrow> json \<Rightarrow> string \<Rightarrow> json \<Rightarrow> json res" where
  "review_fields E dispute_text dispute_id bundle_hash verdict verified =
     (case verified of
        JObj d \<Rightarrow> Inr (JObj (fold (\<lambda>(k, x). AList.update k x) d
          [(''dispute_id'', dispute_id), (''bundle_hash'', bundle_hash), (''verdict'', JStr verdict),
           (''reason_hash'', JStr (keccak256_hex E (dispute_text @ '':'' @ verdict)))]))
      | _ \<Rightarrow> Inl TypeError)"

definition review_result :: "ext \<Rightarrow> json \<Rightarrow> (string \<times> string) list \<Rightarrow> json \<Rightarrow> http list \<Rightarrow> json res" where
  "review_result E task verdicts allowed_origin rs =
     bindE (jitem task ''payload'') (\<lambda>payload.
     bindE (jitem payload ''dispute_id'') (\<lambda>dispute_id.
     bindE (hashable dispute_id) (\<lambda>_.
     bindE (case dispute_id of JStr s \<Rightarrow> (case map_of verdicts s of Some x \<Rightarrow> Inr x | None \<Rightarrow> le_error ''review_verdict_required'' s)
            | _ \<Rightarrow> le_error ''review_verdict_required'' (py_str dispute_id)) (\<lambda>verdict.
     bindE (ensure (verdict \<in> set VERDICTS) ''invalid_verdict'' verdict) (\<lambda>_.
     bindE (verify_review_evidence E payload allowed_origin rs) (\<lambda>verified.
     bindE (jitem payload ''bundle_hash'') (\<lambda>bundle_hash.
     review_fields E (py_str dispute_id) dispute_id bundle_hash verdict verified)))))))"

text \<open>A result of a reviewer passes the operator's check for the payload of its task.\<close>

lemma review_result_items:
  assumes "review_result E task verdicts origin rs = Inr v"
    and p: "jitem task ''payload'' = Inr payload"
  shows "jget v ''evidence_verified'' = Inr (JBool True)"
    "fld \<in> set REVIEW_RESULT_BINDING_FIELDS \<Longrightarrow> \<exists>x. jitem payload fld = Inr x \<and> jget v fld = Inr x"
    "validate_schema E payload ''review-dispute-payload-v1.schema.json'' = Inr ()"
    "\<exists>d. v = JObj d"
proof -
  from assms obtain dispute_id verdict verified bundle_hash where
    1: "jitem payload ''dispute_id'' = Inr dispute_id" "verify_review_evidence E payload origin rs = Inr verified"
    "jitem payload ''bundle_hash'' = Inr bundle_hash"
    "review_fields E (py_str dispute_id) dispute_id bundle_hash verdict verified = Inr v"
    unfolding review_result_def by (elim run_elims) simp
  from 1(2) obtain n b w' s where f: "fetch_review E payload n \<lparr>w_responses = rs, w_requests = []\<rparr> = (Inr verified, w')"
    and urls: "validate_review_urls E payload origin = Inr ()"
    unfolding verify_review_evidence_def
    by (elim run_elims) (auto simp: catch_transport_def catchE_raise_Inr_iff split: prod.splits)
  obtain b s where c: "conclude_review payload b s = Inr verified" by (rule fetch_review_Inr [OF f]) blast
  obtain session_id hh revision event_count where i: "jitem payload ''session_id'' = Inr session_id"
    "jitem payload ''head_event_hash'' = Inr (JStr hh)" "jitem payload ''revision'' = Inr revision"
    "jitem payload ''event_count'' = Inr event_count"
    "verified = JObj [(''evidence_verified'', JBool True), (''session_id'', session_id), (''revision'', revision),
       (''event_count'', event_count), (''head_event_hash'', JStr hh)]"
    by (rule conclude_review_Inr [OF c])
  have v: "v = JObj [(''dispute_id'', dispute_id), (''bundle_hash'', bundle_hash), (''verdict'', JStr verdict),
       (''reason_hash'', JStr (keccak256_hex E (py_str dispute_id @ '':'' @ verdict))), (''evidence_verified'', JBool True),
       (''session_id'', session_id), (''revision'', revision), (''event_count'', event_count), (''head_event_hash'', JStr hh)]"
    using 1(4) by (simp add: review_fields_def i(5))
  show "jget v ''evidence_verified'' = Inr (JBool True)" "\<exists>d. v = JObj d"
    "fld \<in> set REVIEW_RESULT_BINDING_FIELDS \<Longrightarrow> \<exists>x. jitem payload fld = Inr x \<and> jget v fld = Inr x"
    using 1(1,3) i(1-4) by (auto simp: v jget_Inr_iff REVIEW_RESULT_BINDING_FIELDS_def)
  show "validate_schema E payload ''review-dispute-payload-v1.schema.json'' = Inr ()"
    using urls unfolding validate_review_urls_def by (elim run_elims) simp
qed

lemma review_result_bound:
  assumes "review_result E task verdicts origin rs = Inr v"
    and p: "jitem task ''payload'' = Inr payload" "is_current_review_payload payload"
  shows "require_verified_review_result E payload v task_id = Inr v"
proof -
  note i = review_result_items [OF assms(1) p(1)]
  from i(4) obtain d where d: "v = JObj d" by blast
  have "foldE (\<lambda>_ fld.
        bindE (jitem payload fld) (\<lambda>expected.
        bindE (jget v fld) (\<lambda>actual.
        ensure (binding_matches fld actual expected) ''review_evidence_binding_mismatch'' (task_id @ '':'' @ fld))))
        () REVIEW_RESULT_BINDING_FIELDS = Inr ()"
    unfolding foldE_unit
  proof
    fix fld assume "fld \<in> set REVIEW_RESULT_BINDING_FIELDS"
    from i(2) [OF this] obtain x where "jitem payload fld = Inr x" "jget v fld = Inr x" by blast
    then show "bindE (jitem payload fld) (\<lambda>expected. bindE (jget v fld) (\<lambda>actual.
        ensure (binding_matches fld actual expected) ''review_evidence_binding_mismatch'' (task_id @ '':'' @ fld))) = Inr ()"
      by (simp add: binding_matches_def)
  qed
  with i(1,3) p(2) show ?thesis by (simp add: require_verified_review_result_def d)
qed

section \<open>What a gateway finalized passes a review\<close>

text \<open>The answers to the requests for the artifacts carry the contents.\<close>

definition artifact_answer :: "json \<Rightarrow> int \<times> string list \<Rightarrow> bool" where
  "artifact_answer v r \<longleftrightarrow> (\<exists>c. jitem v ''content'' = Inr (JStr c) \<and> review_artifact v r = Inr c)"

definition content_bytes :: "json list \<Rightarrow> int" where
  "content_bytes vs = sum_list (map (\<lambda>v. case jitem v ''content'' of Inr (JStr c) \<Rightarrow> int (length c) | _ \<Rightarrow> 0) vs)"

lemma content_bytes_nonneg: "0 \<le> content_bytes vs"
  unfolding content_bytes_def by (rule sum_list_nonneg) (auto split: sum.splits json.splits)

lemma review_event_accepts:
  assumes chain: "event_chain E (rv_expected s) (rv_previous s) (v # vs) h'"
    and valid: "validate_schema E v ''live-event-v1.schema.json'' = Inr ()"
    and sid: "jitem v ''session_id'' = Inr session_id" "jitem payload ''session_id'' = Inr session_id"
    and base: "jitem payload ''artifact_base_url'' = Inr (JStr base)"
    and ready: "event_ready E files v" and ans: "artifact_answer v (st, bufs)"
    and web: "w_responses (rv_web s) = Response st bufs # rs"
    and bytes: "rv_bytes s + content_bytes [v] \<le> MAX_REVIEW_ARTIFACT_BYTES" and counts: "counts_ok (rv_counts s)"
  shows "\<exists>t ref g. review_event E payload v s = (Inr (), t) \<and> event_reference v = Inr ref \<and>
    jitem v ''event_hash'' = Inr (JStr g) \<and> w_responses (rv_web t) = rs \<and> rv_expected t = rv_expected s + 1 \<and>
    rv_previous t = g \<and> rv_references t = rv_references s @ [ref] \<and> rv_counts t = tally [v] (rv_counts s) \<and>
    rv_bytes t = rv_bytes s + content_bytes [v] \<and> counts_ok (rv_counts t)"
proof -
  from chain obtain g where c: "verify_live_event E v = Inr True" "int_item v ''sequence'' = Inr (rv_expected s)"
    "jitem v ''previous_event_hash'' = Inr (JStr (rv_previous s))" "jitem v ''event_hash'' = Inr (JStr g)" by auto
  from ready obtain k cat where k: "jitem v ''content'' = Inr (JStr k)" "jitem v ''artifact_hash'' = Inr (JStr (sha256_prefixed E k))"
    "cat \<in> set CATEGORIES" "jitem v ''category'' = Inr (JStr cat)" by (auto simp: event_ready_def)
  from ready_reference [OF ready chain] obtain ref where ref: "event_reference v = Inr ref" by blast
  have a: "review_artifact v (st, bufs) = Inr k" using ans k(1) by (auto simp: artifact_answer_def)
  have url: "artifact_url payload v = Inr (under_url base (sha256_prefixed E k))"
    using base k(2) by (simp add: artifact_url_def)
  have check: "check_review_event E payload (rv_expected s) (rv_previous s) v = Inr ()"
    unfolding check_review_event_def using c valid sid by (simp add: jlower_def)
  have art: "check_artifact E v k = Inr ()" using k(1,2) by (simp add: check_artifact_def)
  have cb: "content_bytes [v] = int (length k)" using k(1) by (simp add: content_bytes_def)
  have cc: "count_category (rv_counts s) (JStr cat) = Inr (tally [v] (rv_counts s))"
    using count_category_Inr_iff [OF counts] k(3,4) by (simp add: tally_def category_of_def)
  let ?t = "s\<lparr>rv_web := \<lparr>w_responses = rs, w_requests = w_requests (rv_web s) @ [Get (under_url base (sha256_prefixed E k))]\<rparr>,
     rv_bytes := rv_bytes s + int (length k), rv_references := rv_references s @ [ref], rv_counts := tally [v] (rv_counts s),
     rv_previous := g, rv_expected := rv_expected s + 1\<rparr>"
  have get: "review_get (Get (under_url base (sha256_prefixed E k))) s = (Inr (st, bufs),
      s\<lparr>rv_web := \<lparr>w_responses = rs, w_requests = w_requests (rv_web s) @ [Get (under_url base (sha256_prefixed E k))]\<rparr>\<rparr>)"
    using web by (simp add: review_get_def http_get_def)
  have rec: "record_review_event E v k (s\<lparr>rv_web := w\<rparr>) = Inr (s\<lparr>rv_web := w,
     rv_bytes := rv_bytes s + int (length k), rv_references := rv_references s @ [ref], rv_counts := tally [v] (rv_counts s),
     rv_previous := g, rv_expected := rv_expected s + 1\<rparr>)" for w
    using bytes cb art ref k(4) cc c(4) by (simp add: record_review_event_def)
  have "review_event E payload v s = (Inr (), ?t)"
    unfolding review_event_def by (simp add: bindX_def liftX_def get_stateX_def modifyX_def check url get a rec)
  moreover have "counts_ok (tally [v] (rv_counts s))"
    using counts_ok_update [OF counts k(3)] k(4) by (simp add: tally_def category_of_def)
  ultimately show ?thesis using ref c(4) cb by auto
qed

lemma tally_Cons: "tally (v # vs) counts = tally vs (tally [v] counts)"
  by (simp add: tally_def)

lemma content_bytes_Cons: "content_bytes (v # vs) = content_bytes [v] + content_bytes vs"
  by (simp add: content_bytes_def)

lemma review_loop_accepts:
  assumes "event_chain E (rv_expected s) (rv_previous s) vs h'"
    and "list_all2 artifact_answer vs as" "w_responses (rv_web s) = map (\<lambda>(st, bufs). Response st bufs) as @ rs"
    and each: "\<And>v. v \<in> set vs \<Longrightarrow> validate_schema E v ''live-event-v1.schema.json'' = Inr () \<and>
        jitem v ''session_id'' = Inr session_id \<and> event_ready E files v"
    and payload: "jitem payload ''session_id'' = Inr session_id" "jitem payload ''artifact_base_url'' = Inr (JStr base)"
    and "rv_bytes s + content_bytes vs \<le> MAX_REVIEW_ARTIFACT_BYTES" "counts_ok (rv_counts s)"
  shows "\<exists>t refs. review_loop E payload vs s = (Inr (), t) \<and> mapE event_reference vs = Inr refs \<and> rv_previous t = h' \<and>
    rv_references t = rv_references s @ refs \<and> rv_counts t = tally vs (rv_counts s)"
  using assms(1-4,7,8)
proof (induction vs arbitrary: s as)
  case Nil
  then show ?case by (auto simp: tally_def)
next
  case (Cons v vs)
  from Cons.prems(2) obtain st bufs as' where as: "as = (st, bufs) # as'" "artifact_answer v (st, bufs)"
    "list_all2 artifact_answer vs as'" by (cases as) auto
  have v: "validate_schema E v ''live-event-v1.schema.json'' = Inr ()" "jitem v ''session_id'' = Inr session_id" "event_ready E files v"
    using Cons.prems(4) by auto
  have "rv_bytes s + content_bytes [v] \<le> MAX_REVIEW_ARTIFACT_BYTES"
    using Cons.prems(5) content_bytes_nonneg [of vs] content_bytes_Cons [of v vs] by linarith
  from review_event_accepts [OF Cons.prems(1) v(1,2) payload v(3) as(2) _ this Cons.prems(6)] Cons.prems(3) as(1)
  obtain t ref g where t: "review_event E payload v s = (Inr (), t)" "event_reference v = Inr ref"
    "jitem v ''event_hash'' = Inr (JStr g)" "w_responses (rv_web t) = map (\<lambda>(st, bufs). Response st bufs) as' @ rs"
    "rv_expected t = rv_expected s + 1" "rv_previous t = g" "rv_references t = rv_references s @ [ref]"
    "rv_counts t = tally [v] (rv_counts s)" "rv_bytes t = rv_bytes s + content_bytes [v]" "counts_ok (rv_counts t)" by auto
  have chain: "event_chain E (rv_expected t) (rv_previous t) vs h'" using Cons.prems(1) t(3,5,6) by auto
  have bytes: "rv_bytes t + content_bytes vs \<le> MAX_REVIEW_ARTIFACT_BYTES"
    using Cons.prems(5) t(9) content_bytes_Cons [of v vs] by linarith
  obtain u refs where "review_loop E payload vs t = (Inr (), u)" "mapE event_reference vs = Inr refs" "rv_previous u = h'"
    "rv_references u = rv_references t @ refs" "rv_counts u = tally vs (rv_counts t)"
    using Cons.IH [OF chain as(3) t(4) _ bytes t(10)] Cons.prems(4) by auto
  then show ?case using t(1,2,7,8) tally_Cons [of v vs] by (auto simp: bindX_def)
qed

text \<open>The fields of a task's payload that the review compares with the bundle.\<close>

definition names_bundle :: "json \<Rightarrow> json \<Rightarrow> bool" where
  "names_bundle payload b \<longleftrightarrow> list_all (\<lambda>k. \<exists>x. jitem b k = Inr x \<and> jitem payload k = Inr x) BUNDLE_FIELDS"

lemma names_bundleD: "names_bundle payload b \<Longrightarrow> k \<in> set BUNDLE_FIELDS \<Longrightarrow> jitem b k = Inr x \<Longrightarrow> jitem payload k = Inr x"
  by (auto simp: names_bundle_def list_all_iff)

lemma check_review_bundle_accepts:
  assumes "validate_schema E b ''evidence-bundle-v2.schema.json'' = Inr ()" "names_bundle payload b"
    and "jitem b ''bundle_hash'' = Inr (JStr h)" "evidence_bundle_hash E b = Inr h"
  shows "check_review_bundle E payload b = Inr ()"
proof -
  have "foldE (\<lambda>_ fld.
        bindE (jitem b fld) (\<lambda>actual.
        bindE (jitem payload fld) (\<lambda>expected.
        ensure (py_lower (py_str actual) = py_lower (py_str expected)) ''review_bundle_mismatch''
          (fld @ '' does not match the signed task'')))) () BUNDLE_FIELDS = Inr ()"
    using assms(2) by (force simp: foldE_unit names_bundle_def list_all_iff)
  with assms(1,3,4) show ?thesis by (simp add: check_review_bundle_def)
qed

text \<open>The bundle of a session with the events that it was built from.\<close>

lemma finalized_bundle:
  assumes inv: "live_inv E db" and s: "get_session db sid = Inr s" and vs: "list_events db sid 0 = Inr vs"
    and rev: "py_int (JStr revision) = Inr i" "find_bundle db sid i = None"
    and f: "finalize_evidence_bundle E db files sid revision at = Inr (b, db')"
  obtains refs h g where "mapE event_reference vs = Inr refs" "\<And>v. v \<in> set vs \<Longrightarrow> event_ready E files v"
    "event_chain E 1 ZERO_HASH vs g" "jitem b ''head_event_hash'' = Inr (JStr g)" "jitem b ''events'' = Inr (JArr refs)"
    "jitem b ''event_count'' = Inr (JStr (dec_nat (length vs)))"
    "jitem b ''category_counts'' = Inr (JObj (map (\<lambda>(k, n). (k, JStr (dec_nat n))) (tally vs (sc_counts scan_start))))"
    "jitem b ''bundle_hash'' = Inr (JStr h)" "evidence_bundle_hash E b = Inr h"
proof -
  obtain vs' g where "list_events db sid 0 = Inr vs'" "event_chain E 1 ZERO_HASH vs' g" "jitem s ''head_event_hash'' = Inr (JStr g)"
    by (rule session_events [OF inv s]) blast
  with vs have g: "event_chain E 1 ZERO_HASH vs g" "jitem s ''head_event_hash'' = Inr (JStr g)" by auto
  from f [unfolded finalize_Inr_iff [OF inv s vs]] obtain refs head where
    ready: "\<forall>v \<in> set vs. event_ready E files v" and refs: "mapE event_reference vs = Inr refs"
    and head: "jitem s ''head_event_hash'' = Inr head"
    and save: "save_bundle db (session_bundle E sid revision at vs refs head) = Inr (b, db')" by blast
  have len: "length refs = length vs" using refs by (auto simp: mapE_Inr_iff dest: list_all2_lengthD)
  note i = session_bundle_items [of E sid revision at vs refs head, folded save_new_bundle(1) [OF save rev], unfolded len]
  from i(5) obtain h where "jitem b ''bundle_hash'' = Inr (JStr h)" "evidence_bundle_hash E b = Inr h" by blast
  with i(1-4) g head refs ready show ?thesis by (intro that [of refs g h]) auto
qed

lemma review_accepts_finalized:
  assumes inv: "live_inv E db" and s: "get_session db sid = Inr s" and vs: "list_events db sid 0 = Inr vs"
    and rev: "py_int (JStr revision) = Inr i" "find_bundle db sid i = None"
    and f: "finalize_evidence_bundle E db files sid revision at = Inr (b, db')"
    and task: "reject_secret_fields payload ''$'' = Inr ()" "validate_review_urls E payload origin = Inr ()" "names_bundle payload b"
    and urls: "jitem payload ''evidence_url'' = Inr (JStr u1)" "jitem payload ''events_url'' = Inr (JStr u2)"
      "jitem payload ''artifact_base_url'' = Inr (JStr base)" "jitem payload ''session_id'' = Inr session_id"
    and bundle_valid: "validate_schema E b ''evidence-bundle-v2.schema.json'' = Inr ()"
    and events_valid: "list_all (\<lambda>v. validate_schema E v ''live-event-v1.schema.json'' = Inr () \<and> jitem v ''session_id'' = Inr session_id) vs"
    and small: "length vs \<le> 1000" "content_bytes vs \<le> MAX_REVIEW_ARTIFACT_BYTES"
    and answers: "json_answer ''review_evidence_unavailable'' (st1, b1) = Inr b"
      "json_answer ''review_events_unavailable'' (st2, b2) = Inr (JObj [(''events'', JArr vs)])" "list_all2 artifact_answer vs as"
  shows "\<exists>v. verify_review_evidence E payload origin
      (Response st1 b1 # Response st2 b2 # map (\<lambda>(st, bufs). Response st bufs) as) = Inr v"
proof -
  obtain refs h g where b: "mapE event_reference vs = Inr refs" "\<And>v. v \<in> set vs \<Longrightarrow> event_ready E files v"
    "event_chain E 1 ZERO_HASH vs g" "jitem b ''head_event_hash'' = Inr (JStr g)" "jitem b ''events'' = Inr (JArr refs)"
    "jitem b ''event_count'' = Inr (JStr (dec_nat (length vs)))"
    "jitem b ''category_counts'' = Inr (JObj (map (\<lambda>(k, n). (k, JStr (dec_nat n))) (tally vs (sc_counts scan_start))))"
    "jitem b ''bundle_hash'' = Inr (JStr h)" "evidence_bundle_hash E b = Inr h"
    by (rule finalized_bundle [OF inv s vs rev f]) blast
  have fields: "k \<in> set BUNDLE_FIELDS \<Longrightarrow> jitem b k = Inr x \<Longrightarrow> jitem payload k = Inr x" for k x
    using task(3) by (rule names_bundleD)
  have count: "jitem payload ''event_count'' = Inr (JStr (dec_nat (length vs)))"
    and head: "jitem payload ''head_event_hash'' = Inr (JStr g)"
    using fields b(4,6) by (simp_all add: BUNDLE_FIELDS_def)
  obtain revision where revision: "jitem payload ''revision'' = Inr revision"
    using task(3) by (auto simp: names_bundle_def BUNDLE_FIELDS_def)
  let ?arts = "map (\<lambda>(st, bufs). Response st bufs) as"
  let ?w = "\<lparr>w_responses = ?arts, w_requests = [Get u1, Get u2]\<rparr>"
  have counts0: "rv_counts (review_start ?w) = sc_counts scan_start"
    by (simp add: review_start_def scan_start_def CATEGORIES_def)
  obtain t refs' where loop: "review_loop E payload vs (review_start ?w) = (Inr (), t)" "mapE event_reference vs = Inr refs'"
    "rv_previous t = g" "rv_references t = rv_references (review_start ?w) @ refs'"
    "rv_counts t = tally vs (rv_counts (review_start ?w))"
  proof (rule review_loop_accepts [of E "review_start ?w" vs g as "[]" session_id files payload base, THEN exE])
    show "event_chain E (rv_expected (review_start ?w)) (rv_previous (review_start ?w)) vs g"
      using b(3) by (simp add: review_start_def)
    show "validate_schema E v ''live-event-v1.schema.json'' = Inr () \<and> jitem v ''session_id'' = Inr session_id \<and> event_ready E files v"
      if "v \<in> set vs" for v using that events_valid b(2) by (auto simp: list_all_iff)
    show "counts_ok (rv_counts (review_start ?w))" unfolding counts0 by (rule counts_ok_start)
  qed (use answers(3) urls small in \<open>auto simp: review_start_def\<close>)
  have conclude: "\<exists>v. conclude_review payload b t = Inr v"
    using loop b(1,5,7) urls(4) head count revision
    unfolding conclude_review_def counts0 by (simp add: jlower_def review_start_def scan_start_def CATEGORIES_def)
  have "json_response u1 ''review_evidence_unavailable'' \<lparr>w_responses = Response st1 b1 # Response st2 b2 # ?arts, w_requests = []\<rparr>
      = (Inr b, \<lparr>w_responses = Response st2 b2 # ?arts, w_requests = [Get u1]\<rparr>)"
    "json_response u2 ''review_events_unavailable'' \<lparr>w_responses = Response st2 b2 # ?arts, w_requests = [Get u1]\<rparr>
      = (Inr (JObj [(''events'', JArr vs)]), ?w)"
    using answers(1,2) by (simp_all add: json_response_def bindX_def http_get_def liftX_def)
  moreover have "review_events payload (JObj [(''events'', JArr vs)]) (int (length vs)) = Inr vs"
    by (simp add: review_events_def)
  ultimately have "\<exists>v w'. fetch_review E payload (int (length vs))
      \<lparr>w_responses = Response st1 b1 # Response st2 b2 # ?arts, w_requests = []\<rparr> = (Inr v, w')"
    using loop(1) conclude urls(1,2) check_review_bundle_accepts [OF bundle_valid task(3) b(8,9)]
    unfolding fetch_review_def by (auto simp: bindX_def liftX_def str_item_def)
  moreover have "int_item payload ''event_count'' = Inr (int (length vs))"
    using count py_int_str_of_int [of "int (length vs)"] by (simp add: int_item_def py_str_int_def)
  ultimately show ?thesis
    using task(1,2) small(1) unfolding verify_review_evidence_def
    by (auto simp: MAX_REVIEW_EVENTS_def catch_transport_def)
qed

text \<open>A review that ends at the head of a session read that session's events.\<close>

lemma seen_chain_verified: "seen_chain E rs session_id n h vs g \<Longrightarrow> v \<in> set vs \<Longrightarrow> verify_live_event E v = Inr True"
  by (rule read_chain_verified [OF seen_chain_read])

lemma review_reads_session:
  assumes es: "seen_chain E rs session_id 1 ZERO_HASH es h" "list_all (listed rs) es"
    and vs: "event_chain E 1 ZERO_HASH vs h'" "\<And>v. v \<in> set vs \<Longrightarrow> wf_json v" "py_lower h = py_lower h'"
    and inj: "inj_on (lower_keccak E) (event_preimage ` (set vs \<union> {x. listed rs x \<and> verify_live_event E x = Inr True}))"
    and zero: "py_lower ZERO_HASH \<notin> lower_keccak E ` event_preimage ` (set vs \<union> {x. listed rs x \<and> verify_live_event E x = Inr True})"
  shows "map jnorm es = map jnorm vs"
proof -
  have "set es \<subseteq> {x. listed rs x \<and> verify_live_event E x = Inr True}"
    using es(2) seen_chain_verified [OF es(1)] by (auto simp: list_all_iff)
  then have sub: "event_preimage ` (set es \<union> set vs) \<subseteq> event_preimage ` (set vs \<union> {x. listed rs x \<and> verify_live_event E x = Inr True})"
    by blast
  show ?thesis
  proof (rule read_chains_agree [OF seen_chain_read [OF es(1)] event_chain_read [OF vs(1)] vs(3)])
    show "wf_json v" if "v \<in> set es \<union> set vs" for v using that es(2) vs(2) listed_wf by (auto simp: list_all_iff)
    show "inj_on (lower_keccak E) (event_preimage ` (set es \<union> set vs))" using inj sub by (rule inj_on_subset)
    show "py_lower ZERO_HASH \<notin> lower_keccak E ` event_preimage ` (set es \<union> set vs)" using zero sub by blast
  qed
qed

end
