(* ===== verification/ReviewExamples.thy ===== *)
theory ReviewExamples
  imports ReviewEvidence ObservationExamples
begin

text \<open>A concrete review: the bundle of the closed demo session with its one event.\<close>

definition demo_ref :: json where
  "demo_ref = JObj [(''event_id'', JStr ''e''), (''sequence'', JStr ''1''), (''category'', JStr ''source''),
     (''event_hash'', JStr demo_head), (''artifact_hash'', JStr (''sha256:'' @ demo_digest))]"

definition final_bundle :: json where
  "final_bundle = session_bundle demo_ext ''s'' ''1'' ''9'' [jnorm demo_event] [demo_ref] (JStr demo_head)"

definition demo_files :: artifact_fs where
  "demo_files = [[''sha256'', ''aa'', demo_digest] \<mapsto> ''x'']"

definition review_payload :: json where
  "review_payload = JObj [(''schema_version'', JStr CURRENT_REVIEW_PAYLOAD_SCHEMA), (''dispute_id'', JStr ''d''),
     (''bundle_hash'', JStr demo_head), (''session_id'', JStr ''s''), (''revision'', JStr ''1''), (''event_count'', JStr ''1''),
     (''head_event_hash'', JStr demo_head), (''evidence_url'', JStr ''http://h/b''), (''events_url'', JStr ''http://h/v''),
     (''artifact_base_url'', JStr ''http://h/a'')]"

definition events_value :: json where
  "events_value = JObj [(''events'', JArr [jnorm demo_event])]"

lemma demo_bundles: "bundles demo_closed_db = []"
  by (rule demo_closed)

lemma demo_reference: "event_reference (jnorm demo_event) = Inr demo_ref"
  by code_simp

lemma demo_digits: "digit_char 0 = CHR ''0''" "digit_char (Suc 0) = CHR ''1''"
  by code_simp+

lemma final_items: "jitem final_bundle ''bundle_hash'' = Inr (JStr demo_head)" "jitem final_bundle ''session_id'' = Inr (JStr ''s'')"
  "jitem final_bundle ''revision'' = Inr (JStr ''1'')" "jitem final_bundle ''event_count'' = Inr (JStr ''1'')"
  "jitem final_bundle ''head_event_hash'' = Inr (JStr demo_head)"
  by (simp_all add: final_bundle_def session_bundle_def bundle_value_def Let_def demo_head_def demo_digits)

lemma final_names: "names_bundle review_payload final_bundle"
  unfolding names_bundle_def BUNDLE_FIELDS_def by (simp add: final_items) (simp add: review_payload_def)

lemma demo_ready: "event_ready demo_ext demo_files (jnorm demo_event)"
proof -
  have "jitem (jnorm demo_event) ''content'' = Inr (JStr ''x'')" "jitem (jnorm demo_event) ''category'' = Inr (JStr ''source'')"
    "jitem (jnorm demo_event) ''artifact_hash'' = Inr (JStr (''sha256:'' @ demo_digest))"
    "jitem (jnorm demo_event) ''event_id'' = Inr (JStr ''e'')"
    by code_simp+
  moreover have "path_for (''sha256:'' @ demo_digest) = Inr [''sha256'', ''aa'', demo_digest]" by code_simp
  then have "artifact_get demo_ext demo_files (''sha256:'' @ demo_digest) = Inr ''x''"
    by (simp add: artifact_get_def demo_files_def)
  ultimately show ?thesis unfolding event_ready_def by (simp add: CATEGORIES_def)
qed

lemma final_counts: "tally [jnorm demo_event] (sc_counts scan_start) = [(''source'', 1), (''summary'', 0), (''derived'', 0)]"
  by code_simp

lemma final_bundle_eq: "final_bundle = JObj
     [(''schema_version'', JStr ''loveengine.evidence-bundle/2''), (''bundle_id'', JStr ''s:r1''), (''session_id'', JStr ''s''),
      (''revision'', JStr ''1''), (''status'', JStr ''finalized''), (''finalized_at'', JStr ''9''), (''event_count'', JStr ''1''),
      (''head_event_hash'', JStr demo_head),
      (''category_counts'', JObj [(''source'', JStr ''1''), (''summary'', JStr ''0''), (''derived'', JStr ''0'')]),
      (''events'', JArr [demo_ref]), (''bundle_hash'', JStr demo_head)]"
  by (simp add: final_bundle_def session_bundle_def bundle_value_def Let_def final_counts demo_head_def demo_digits)

lemma review_wf: "wf_json final_bundle" "wf_json events_value"
  by (simp_all add: final_bundle_eq demo_ref_def events_value_def demo_event_wf)

lemma final_text: "load_json (plain_text '' '' final_bundle) = Inr final_bundle"
  and events_text: "load_json (plain_text '' '' events_value) = Inr events_value"
  using spaced.loads_plain review_wf by (simp_all add: load_json_def)

lemma review_ascii: "ascii_json final_bundle" "ascii_json events_value"
proof -
  have e: "ascii_json demo_event" using demo_ascii by (simp add: demo_event_def ascii_def)
  show "ascii_json final_bundle" "ascii_json events_value"
    using demo_ascii ascii_jnorm [OF e] by (simp_all add: final_bundle_eq demo_ref_def events_value_def demo_head_def ascii_def)
qed

lemma review_utf8: "utf8_valid (plain_text '' '' final_bundle)" "utf8_valid (plain_text '' '' events_value)"
  using review_ascii by (auto intro!: utf8_valid_plain plain_json_text simp: plain_char_def)

lemma review_lengths: "length (plain_text '' '' final_bundle) \<le> 20000" "length (plain_text '' '' events_value) \<le> 20000"
proof -
  have "text_bound '' '' final_bundle \<le> 20000"
    by (simp add: final_bundle_eq demo_ref_def demo_head_def demo_digest_def)
  then show "length (plain_text '' '' final_bundle) \<le> 20000" by (rule order_trans [OF length_plain_text])
  have "text_bound '' '' events_value \<le> 20000"
    by (simp add: events_value_def text_bound_jnorm) (simp add: demo_event_def demo_digest_def ZERO_HASH_def)
  then show "length (plain_text '' '' events_value) \<le> 20000" by (rule order_trans [OF length_plain_text])
qed

lemma review_payload_ok: "reject_secret_fields review_payload ''$'' = Inr ()"
  "validate_review_urls demo_ext review_payload (JStr ''http://h'') = Inr ()"
  by code_simp+

lemma demo_one: "py_int (JStr ''1'') = Inr 1"
  by code_simp

lemma demo_finalized: "\<exists>db'. finalize_evidence_bundle demo_ext demo_closed_db demo_files ''s'' ''1'' ''9'' = Inr (final_bundle, db')"
proof -
  obtain d where d: "get_session demo_closed_db ''s'' = Inr (JObj d)" "map_of d ''status'' = Some (JStr ''closed'')"
    "map_of d ''head_event_hash'' = Some (JStr (''0x'' @ demo_digest))" by (rule demo_closed)
  have "\<exists>db'. save_bundle demo_closed_db final_bundle = Inr (final_bundle, db')"
    using final_items demo_one by (simp add: save_bundle_def text_item_def int_item_def find_bundle_def demo_bundles)
  then obtain db' where "save_bundle demo_closed_db (session_bundle demo_ext ''s'' ''1'' ''9'' [jnorm demo_event] [demo_ref] (JStr demo_head))
      = Inr (final_bundle, db')" by (auto simp: final_bundle_def)
  then show ?thesis
    using finalize_Inr_iff [OF live_reachable_inv [OF demo_reachable(2)] d(1) demo_listed(2), of demo_files "''1''" "''9''" "(final_bundle, db')"]
      d(2,3) demo_ready demo_reference by (auto simp: demo_head_def)
qed

lemma review_answers:
  "json_answer ''review_evidence_unavailable'' (200, [plain_text '' '' final_bundle]) = Inr final_bundle"
  "json_answer ''review_events_unavailable'' (200, [plain_text '' '' events_value]) = Inr (JObj [(''events'', JArr [jnorm demo_event])])"
proof -
  have ne: "plain_text '' '' final_bundle \<noteq> []" "plain_text '' '' events_value \<noteq> []"
    by (simp_all add: final_bundle_eq events_value_def)
  then show "json_answer ''review_evidence_unavailable'' (200, [plain_text '' '' final_bundle]) = Inr final_bundle"
    "json_answer ''review_events_unavailable'' (200, [plain_text '' '' events_value]) = Inr (JObj [(''events'', JArr [jnorm demo_event])])"
    using final_text events_text review_utf8 review_lengths
    by (simp_all add: json_answer_def read_json_def read_single MAX_JSON_RESPONSE_BYTES_def decode_utf8_def events_value_def [symmetric])
qed

lemma demo_artifact_answer: "list_all2 artifact_answer [jnorm demo_event] [(200, [''x''])]"
proof -
  have "jitem (jnorm demo_event) ''content'' = Inr (JStr ''x'')" by code_simp
  then show ?thesis by (simp add: artifact_answer_def review_artifact_def read_single MAX_ARTIFACT_BYTES_def)
qed

lemma demo_content_bytes: "content_bytes [jnorm demo_event] \<le> MAX_REVIEW_ARTIFACT_BYTES"
  by code_simp

lemma demo_valid: "validate_schema demo_ext final_bundle ''evidence-bundle-v2.schema.json'' = Inr ()"
  "list_all (\<lambda>v. validate_schema demo_ext v ''live-event-v1.schema.json'' = Inr () \<and> jitem v ''session_id'' = Inr (JStr ''s'')) [jnorm demo_event]"
proof -
  have "jitem (jnorm demo_event) ''session_id'' = Inr (JStr ''s'')" by code_simp
  then show "validate_schema demo_ext final_bundle ''evidence-bundle-v2.schema.json'' = Inr ()"
    "list_all (\<lambda>v. validate_schema demo_ext v ''live-event-v1.schema.json'' = Inr () \<and> jitem v ''session_id'' = Inr (JStr ''s'')) [jnorm demo_event]"
    by (simp_all add: validate_schema_def)
qed

lemma review_payload_items: "jitem review_payload ''evidence_url'' = Inr (JStr ''http://h/b'')"
  "jitem review_payload ''events_url'' = Inr (JStr ''http://h/v'')" "jitem review_payload ''artifact_base_url'' = Inr (JStr ''http://h/a'')"
  "jitem review_payload ''session_id'' = Inr (JStr ''s'')" "jitem review_payload ''head_event_hash'' = Inr (JStr demo_head)"
  by (simp_all add: review_payload_def)

definition demo_review_answers :: "http list" where
  "demo_review_answers = [Response 200 [plain_text '' '' final_bundle], Response 200 [plain_text '' '' events_value], Response 200 [''x'']]"

text \<open>Only the demo event was listed among the events that verify.\<close>

lemma demo_ref_unverified: "verify_live_event demo_ext demo_ref \<noteq> Inr True"
  by (simp add: verify_live_event_iff event_ok_def demo_ref_def)

lemma demo_listed_events:
  assumes "listed demo_review_answers v" "verify_live_event demo_ext v = Inr True"
  shows "v = jnorm demo_event"
proof -
  from assms(1) obtain body w vs where b: "served demo_review_answers body" "load_json body = Inr w" "jitem w ''events'' = Inr (JArr vs)" "v \<in> set vs"
    by (auto simp: listed_def)
  have "\<exists>status b. r = Response status [b] \<and> b \<noteq> []" if "r \<in> set demo_review_answers" for r
    using that by (auto simp: demo_review_answers_def final_bundle_eq events_value_def)
  from served_single [OF b(1) this] have "body \<in> {plain_text '' '' final_bundle, plain_text '' '' events_value, ''x''}"
    by (auto simp: demo_review_answers_def)
  moreover have "load_json ''x'' = Inl ValueError" by code_simp
  moreover have "jitem final_bundle ''events'' = Inr (JArr [demo_ref])"
    by (simp add: final_bundle_def session_bundle_items)
  moreover have "jitem events_value ''events'' = Inr (JArr [jnorm demo_event])" by (simp add: events_value_def)
  ultimately have "v \<in> {demo_ref, jnorm demo_event}"
    using b(2-4) final_text events_text by (elim insertE) auto
  with assms(2) demo_ref_unverified show ?thesis by auto
qed

lemma demo_review_texts_apart:
  "inj_on (lower_keccak demo_ext) (event_preimage ` (set [jnorm demo_event] \<union>
     {x. listed demo_review_answers x \<and> verify_live_event demo_ext x = Inr True}))"
  "py_lower ZERO_HASH \<notin> lower_keccak demo_ext ` event_preimage ` (set [jnorm demo_event] \<union>
     {x. listed demo_review_answers x \<and> verify_live_event demo_ext x = Inr True})"
proof -
  have sub: "event_preimage ` (set [jnorm demo_event] \<union> {x. listed demo_review_answers x \<and> verify_live_event demo_ext x = Inr True})
      \<subseteq> {event_preimage (jnorm demo_event)}"
    using demo_listed_events by auto
  show "inj_on (lower_keccak demo_ext) (event_preimage ` (set [jnorm demo_event] \<union>
     {x. listed demo_review_answers x \<and> verify_live_event demo_ext x = Inr True}))"
    by (rule inj_on_subset [OF _ sub]) simp
  have "py_lower ZERO_HASH \<noteq> py_lower demo_head" by code_simp
  then show "py_lower ZERO_HASH \<notin> lower_keccak demo_ext ` event_preimage ` (set [jnorm demo_event] \<union>
     {x. listed demo_review_answers x \<and> verify_live_event demo_ext x = Inr True})"
    using sub by (auto simp: lower_keccak_def demo_head_def)
qed

lemma demo_review: "\<exists>v. verify_review_evidence demo_ext review_payload (JStr ''http://h'') demo_review_answers = Inr v"
proof -
  obtain d where d: "get_session demo_closed_db ''s'' = Inr (JObj d)" by (rule demo_closed)
  have rev: "py_int (JStr ''1'') = Inr 1" "find_bundle demo_closed_db ''s'' 1 = None"
    using demo_bundles demo_one by (simp_all add: find_bundle_def del: py_int_simps)
  obtain db' where f: "finalize_evidence_bundle demo_ext demo_closed_db demo_files ''s'' ''1'' ''9'' = Inr (final_bundle, db')"
    using demo_finalized by blast
  from review_accepts_finalized [OF live_reachable_inv [OF demo_reachable(2)] d demo_listed(2) rev f review_payload_ok final_names
      review_payload_items(1-4) demo_valid _ demo_content_bytes review_answers demo_artifact_answer]
  show ?thesis by (simp add: demo_review_answers_def)
qed

definition review_task :: json where
  "review_task = JObj [(''task_id'', JStr ''t''), (''payload'', review_payload)]"

lemma demo_review_result: "\<exists>v. review_result demo_ext review_task [(''d'', ''uphold'')] (JStr ''http://h'') demo_review_answers = Inr v"
proof -
  obtain v where v: "verify_review_evidence demo_ext review_payload (JStr ''http://h'') demo_review_answers = Inr v"
    using demo_review by blast
  have "\<exists>x. jitem v ''evidence_verified'' = Inr x"
    by (rule verify_review_evidence_Inr [OF v review_payload_items(4)]) blast
  then have "\<exists>d. v = JObj d" by (auto simp: jitem_Inr_iff)
  with v show ?thesis
    by (auto simp: review_result_def review_task_def review_payload_def hashable_def VERDICTS_def review_fields_def)
qed

end
