(* ===== verification/TrustPolicy.thy ===== *)
theory TrustPolicy
  imports M4Network Fetch
begin

text \<open>
  \<^verbatim>\<open>trust_policy.py\<close>: the release anchor that an operator obtains out of band and against which an
  invite, a node profile and a release are compared, with the JSON file reader of \<^verbatim>\<open>jsonio.py\<close>.
  A policy that was built is valid, and a release that matches it has its identity.
\<close>

definition ZERO_ADDRESS :: string where
  "ZERO_ADDRESS = ''0x'' @ replicate 40 CHR ''0''"

definition is_value_error :: "exc \<Rightarrow> bool" where
  "is_value_error e \<longleftrightarrow> e = TypeError \<or> e = ValueError"

text \<open>The bytes of a file, or \<open>None\<close> when there is none.\<close>

definition read_json_file :: "string \<Rightarrow> string option \<Rightarrow> json res" where
  "read_json_file path contents =
     (case contents of
        None \<Rightarrow> le_error_exit ''file_not_found'' path 3
      | Some bytes \<Rightarrow>
          bindE (decode_utf8 bytes) (\<lambda>text.
          catchE (load_json text) (\<lambda>e. e = ValueError) (\<lambda>_. le_error ''invalid_json'' path)))"

section \<open>Policies\<close>

definition policy_address :: "ext \<Rightarrow> json \<Rightarrow> string \<Rightarrow> string res" where
  "policy_address E v fld =
     bindE (catchE (to_checksum_address E v) is_value_error
              (\<lambda>_. le_error ''invalid_trust_policy'' (''invalid '' @ fld))) (\<lambda>address.
     bindE (ensure (py_lower address \<noteq> ZERO_ADDRESS) ''invalid_trust_policy'' (fld @ '' cannot be zero'')) (\<lambda>_.
     Inr address))"

definition policy_issuers :: "ext \<Rightarrow> json list \<Rightarrow> string list res" where
  "policy_issuers E issuers =
     mapE (\<lambda>(index, raw). policy_address E raw (''allowed_issuers['' @ dec_nat index @ '']'')) (enumerate 0 issuers)"

definition validate_node_trust_policy :: "ext \<Rightarrow> json \<Rightarrow> json res" where
  "validate_node_trust_policy E v =
     bindE (validate_schema E v ''node-trust-policy-v1.schema.json'') (\<lambda>_.
     bindE (jitem v ''registry'') (\<lambda>registry.
     bindE (policy_address E registry ''registry'') (\<lambda>_.
     bindE (jitem v ''publisher'') (\<lambda>p.
     bindE (policy_address E p ''publisher'') (\<lambda>publisher.
     bindE (jitem v ''allowed_issuers'') (\<lambda>allowed.
     bindE (jlist allowed) (\<lambda>raws.
     bindE (policy_issuers E raws) (\<lambda>issuers.
     let lowered = map py_lower issuers in
     bindE (ensure (distinct lowered) ''invalid_trust_policy'' ''allowed_issuers contains duplicate addresses'') (\<lambda>_.
     bindE (ensure (py_lower publisher \<in> set lowered) ''invalid_trust_policy''
              ''publisher must be an allowed task issuer'') (\<lambda>_.
     Inr v))))))))))"

definition load_node_trust_policy :: "ext \<Rightarrow> string \<Rightarrow> string option \<Rightarrow> json res" where
  "load_node_trust_policy E path contents =
     bindE (read_json_file path contents) (validate_node_trust_policy E)"

definition build_node_trust_policy ::
    "ext \<Rightarrow> json \<Rightarrow> json \<Rightarrow> json \<Rightarrow> json \<Rightarrow> json \<Rightarrow> json \<Rightarrow> json \<Rightarrow> json list \<Rightarrow> json res" where
  "build_node_trust_policy E chain_id registry publisher skill_id version package_hash manifest_hash allowed_issuers =
     bindE (policy_address E registry ''registry'') (\<lambda>reg.
     bindE (policy_address E publisher ''publisher'') (\<lambda>pub.
     bindE (jlower package_hash) (\<lambda>package.
     bindE (jlower manifest_hash) (\<lambda>manifest.
     bindE (policy_issuers E allowed_issuers) (\<lambda>issuers.
     validate_node_trust_policy E
       (JObj [(''schema_version'', JStr ''loveengine.node-trust-policy/1''), (''chain_id'', JStr (py_str chain_id)),
         (''registry'', JStr reg), (''publisher'', JStr pub), (''skill_id'', skill_id), (''version'', version),
         (''package_hash'', JStr package), (''manifest_hash'', JStr manifest),
         (''allowed_issuers'', JArr (map JStr issuers))]))))))"

section \<open>Comparison with a policy\<close>

definition require_match :: "ext \<Rightarrow> string \<Rightarrow> json \<Rightarrow> json \<Rightarrow> unit res" where
  "require_match E fld actual expected =
     bindE (if fld \<in> {''registry'', ''publisher''} then same_address E actual expected
            else if fld \<in> {''package_hash'', ''manifest_hash''}
            then bindE (jlower actual) (\<lambda>a. bindE (jlower expected) (\<lambda>e. Inr (a = e)))
            else Inr (py_str actual = py_str expected)) (\<lambda>matches.
     ensure matches ''trust_policy_mismatch'' (fld @ '' does not match the trusted policy''))"

definition require_matches :: "ext \<Rightarrow> json \<Rightarrow> json \<Rightarrow> string list \<Rightarrow> unit res" where
  "require_matches E v policy names =
     foldE (\<lambda>_ fld. bindE (jitem v fld) (\<lambda>actual. bindE (jitem policy fld) (\<lambda>expected.
       require_match E fld actual expected))) () names"

definition verify_invite_against_policy :: "ext \<Rightarrow> json \<Rightarrow> json \<Rightarrow> unit res" where
  "verify_invite_against_policy E invite policy =
     require_matches E invite policy
       [''chain_id'', ''registry'', ''publisher'', ''skill_id'', ''version'', ''package_hash'']"

definition verify_profile_against_policy :: "ext \<Rightarrow> json \<Rightarrow> json \<Rightarrow> unit res" where
  "verify_profile_against_policy E signed_profile policy =
     require_matches E signed_profile policy [''chain_id'', ''registry'']"

definition verify_release_against_policy :: "ext \<Rightarrow> json \<Rightarrow> json \<Rightarrow> unit res" where
  "verify_release_against_policy E release policy =
     require_matches E release policy
       [''chain_id'', ''registry'', ''publisher'', ''skill_id'', ''version'', ''package_hash'', ''manifest_hash'']"

section \<open>Facts\<close>

lemma policy_address_Inr_iff [res_simps]:
  "policy_address E v fld = Inr a \<longleftrightarrow> checksum_address E v = Inr a \<and> py_lower a \<noteq> ZERO_ADDRESS"
  by (auto simp: policy_address_def to_checksum_address_def res_simps)

lemma policy_issuers_Inr_iff:
  "policy_issuers E raws = Inr issuers \<longleftrightarrow>
     list_all2 (\<lambda>raw a. checksum_address E raw = Inr a \<and> py_lower a \<noteq> ZERO_ADDRESS) raws issuers"
proof -
  have "mapE (\<lambda>(i, raw). policy_address E raw (f i)) (enumerate n raws) = Inr issuers \<longleftrightarrow>
      list_all2 (\<lambda>raw a. checksum_address E raw = Inr a \<and> py_lower a \<noteq> ZERO_ADDRESS) raws issuers" for f :: "nat \<Rightarrow> string" and n
    by (induction raws arbitrary: issuers n)
       (auto simp: bindE_Inr_iff policy_address_Inr_iff list_all2_Cons1)
  then show ?thesis by (simp add: policy_issuers_def)
qed

text \<open>The semantic content of a valid policy.\<close>

definition policy_valid :: "ext \<Rightarrow> json \<Rightarrow> bool" where
  "policy_valid E v \<longleftrightarrow>
     (\<exists>reg pub raws issuers. addr_item E v ''registry'' = Inr reg \<and> addr_item E v ''publisher'' = Inr pub \<and>
        jitem v ''allowed_issuers'' = Inr (JArr raws) \<and> mapE (to_checksum_address E) raws = Inr issuers \<and>
        ZERO_ADDRESS \<notin> py_lower ` set (reg # pub # issuers) \<and>
        distinct (map py_lower issuers) \<and> py_lower pub \<in> py_lower ` set issuers)"

lemma zero_free_issuers:
  "list_all2 (\<lambda>raw a. checksum_address E raw = Inr a \<and> py_lower a \<noteq> ZERO_ADDRESS) raws issuers \<longleftrightarrow>
     mapE (to_checksum_address E) raws = Inr issuers \<and> ZERO_ADDRESS \<notin> py_lower ` set issuers"
  unfolding mapE_Inr_iff to_checksum_address_def
  by (induction raws arbitrary: issuers) (auto simp: list_all2_Cons1)

lemma validate_node_trust_policy_Inr_iff:
  "validate_node_trust_policy E v = Inr w \<longleftrightarrow>
     w = v \<and> schema_error E ''node-trust-policy-v1.schema.json'' v = None \<and> policy_valid E v"
  unfolding validate_node_trust_policy_def policy_valid_def Let_def bindE_Inr_iff validate_schema_Inr_iff
    policy_address_Inr_iff jlist_Inr_iff policy_issuers_Inr_iff zero_free_issuers ensure_Inr_iff
    addr_item_def to_checksum_address_def
  by auto

text \<open>What matching means for each kind of field.\<close>

definition field_matches :: "ext \<Rightarrow> json \<Rightarrow> json \<Rightarrow> string \<Rightarrow> bool" where
  "field_matches E v policy fld \<longleftrightarrow>
     (\<exists>x y. jitem v fld = Inr x \<and> jitem policy fld = Inr y \<and>
        (if fld \<in> {''registry'', ''publisher''} then \<exists>a. checksum_address E x = Inr a \<and> checksum_address E y = Inr a
         else if fld \<in> {''package_hash'', ''manifest_hash''} then \<exists>h. jlower x = Inr h \<and> jlower y = Inr h
         else py_str x = py_str y))"

lemma require_match_Inr_iff:
  "require_match E fld x y = Inr u \<longleftrightarrow>
     (if fld \<in> {''registry'', ''publisher''} then \<exists>a. checksum_address E x = Inr a \<and> checksum_address E y = Inr a
      else if fld \<in> {''package_hash'', ''manifest_hash''} then \<exists>h. jlower x = Inr h \<and> jlower y = Inr h
      else py_str x = py_str y)"
proof -
  have "(\<exists>m. same_address E x y = Inr m \<and> m) \<longleftrightarrow> (\<exists>a. checksum_address E x = Inr a \<and> checksum_address E y = Inr a)"
    unfolding same_address_Inr_iff by blast
  moreover have "(\<exists>m. bindE (jlower x) (\<lambda>a. bindE (jlower y) (\<lambda>e. Inr (a = e))) = Inr m \<and> m) \<longleftrightarrow>
      (\<exists>h. jlower x = Inr h \<and> jlower y = Inr h)"
    unfolding bindE_Inr_iff by blast
  ultimately show ?thesis
    unfolding require_match_def bindE_Inr_iff [of _ "\<lambda>m. ensure m c d" for c d] ensure_Inr_iff by (simp only: split: if_split) simp
qed

lemma require_matches_Inr_iff:
  "require_matches E v policy names = Inr u \<longleftrightarrow> (\<forall>fld \<in> set names. field_matches E v policy fld)"
  unfolding require_matches_def foldE_unit bindE_Inr_iff field_matches_def require_match_Inr_iff by blast

text \<open>A policy that was built is valid and says what it was built from.\<close>

lemma build_node_trust_policy_valid:
  assumes "build_node_trust_policy E chain_id registry publisher skill_id version package_hash manifest_hash issuers = Inr v"
  shows "validate_node_trust_policy E v = Inr v" and "policy_valid E v"
proof -
  from assms obtain w where "validate_node_trust_policy E w = Inr v"
    by (auto simp only: build_node_trust_policy_def bindE_Inr_iff)
  then show "validate_node_trust_policy E v = Inr v" "policy_valid E v"
    by (simp_all add: validate_node_trust_policy_Inr_iff)
qed

lemma built_policy_matches_release:
  assumes b: "build_node_trust_policy E (JStr chain) registry publisher skill_id version package_hash manifest_hash issuers = Inr v"
    and r: "jitem release ''chain_id'' = Inr (JStr chain)" "jitem release ''registry'' = Inr registry"
      "jitem release ''publisher'' = Inr publisher" "jitem release ''skill_id'' = Inr skill_id"
      "jitem release ''version'' = Inr version" "jitem release ''package_hash'' = Inr package_hash"
      "jitem release ''manifest_hash'' = Inr manifest_hash"
    and sum: "\<And>w a. checksum_address E w = Inr a \<Longrightarrow> checksum_address E (JStr a) = Inr a"
  shows "verify_release_against_policy E release v = Inr ()" "verify_invite_against_policy E release v = Inr ()"
    "verify_profile_against_policy E release v = Inr ()"
proof -
  from b obtain reg pub package manifest iss where
    "checksum_address E registry = Inr reg" "checksum_address E publisher = Inr pub"
    "jlower package_hash = Inr package" "jlower manifest_hash = Inr manifest"
    "v = JObj [(''schema_version'', JStr ''loveengine.node-trust-policy/1''), (''chain_id'', JStr chain),
         (''registry'', JStr reg), (''publisher'', JStr pub), (''skill_id'', skill_id), (''version'', version),
         (''package_hash'', JStr package), (''manifest_hash'', JStr manifest),
         (''allowed_issuers'', JArr (map JStr iss))]"
    unfolding build_node_trust_policy_def bindE_Inr_iff policy_address_Inr_iff validate_node_trust_policy_Inr_iff
    by (simp only: py_str_JStr) blast
  then show "verify_release_against_policy E release v = Inr ()" "verify_invite_against_policy E release v = Inr ()"
    "verify_profile_against_policy E release v = Inr ()"
    using r sum unfolding verify_release_against_policy_def verify_invite_against_policy_def
        verify_profile_against_policy_def require_matches_Inr_iff
    by (simp_all add: field_matches_def) (auto simp: jlower_Inr_iff)
qed

end
