(* ===== verification/EvidenceStages.thy ===== *)
theory EvidenceStages
  imports ObservationSet ReviewEvidence TrustPolicy
begin

text \<open>
  The stages that the core and the pilot transcripts share (\<^verbatim>\<open>pilot_transcript.py\<close>,
  \<open>verify_witness_evidence_stages\<close>): the release anchor, the node directory, the tasks and their
  receipts, the chain of events with the artifact inventory, the evidence bundle, the observations,
  the dispute and the gate. The document is a JSON value; its parts are cross-checked one against
  another, and nothing is taken on trust but the issuers that the caller names.
\<close>

definition pilot_same :: "json \<Rightarrow> json \<Rightarrow> string \<Rightarrow> unit res" where
  "pilot_same left right label = ensure (py_eq left right) ''pilot_cross_reference_mismatch'' label"

text \<open>\<open>_same(left[k], right[l], label)\<close>, and the same through \<open>to_checksum_address\<close> and \<open>lower\<close>.\<close>

definition same_items :: "json \<Rightarrow> string \<Rightarrow> json \<Rightarrow> string \<Rightarrow> string \<Rightarrow> unit res" where
  "same_items left k right l label =
     bindE (jitem left k) (\<lambda>x. bindE (jitem right l) (\<lambda>y. pilot_same x y label))"

definition same_addresses :: "ext \<Rightarrow> json \<Rightarrow> string \<Rightarrow> json \<Rightarrow> string \<Rightarrow> string \<Rightarrow> unit res" where
  "same_addresses E left k right l label =
     bindE (addr_item E left k) (\<lambda>x. bindE (addr_item E right l) (\<lambda>y. pilot_same (JStr x) (JStr y) label))"

definition lower_item :: "json \<Rightarrow> string \<Rightarrow> string res" where
  "lower_item v k = bindE (jitem v k) jlower"

definition list_item :: "json \<Rightarrow> string \<Rightarrow> json list res" where
  "list_item v k = bindE (jitem v k) jlist"

text \<open>\<open>x in s\<close> for a set \<open>s\<close> of values: an unhashable \<open>x\<close> raises.\<close>

definition in_set :: "json \<Rightarrow> json list \<Rightarrow> bool res" where
  "in_set x s = bindE (hashable x) (\<lambda>_. Inr (list_ex (py_eq x) s))"

section \<open>Release and directory\<close>

definition verify_release_anchor :: "ext \<Rightarrow> json \<Rightarrow> unit res" where
  "verify_release_anchor E v =
     bindE (jitem v ''release_anchor'') (\<lambda>release.
     bindE (jitem v ''package'') (\<lambda>package.
     bindE (jitem v ''chain'') (\<lambda>chain.
     bindE (validate_schema E release ''skill-release-v1.schema.json'') (\<lambda>_.
     bindE (same_items release ''chain_id'' chain ''chain_id'' ''release/chain id'') (\<lambda>_.
     bindE (same_addresses E release ''registry'' chain ''registry'' ''release/registry'') (\<lambda>_.
     bindE (same_addresses E release ''publisher'' chain ''publisher'' ''release/publisher'') (\<lambda>_.
     bindE (same_items release ''version'' v ''version'' ''release/version'') (\<lambda>_.
     bindE (lower_item release ''version_hash'') (\<lambda>version_hash.
     bindE (jitem v ''version'') (\<lambda>version.
     bindE (jstr version) (\<lambda>version_text.
     bindE (pilot_same (JStr version_hash) (JStr (keccak256_hex E version_text)) ''release/version hash'') (\<lambda>_.
     bindE (lower_item release ''package_hash'') (\<lambda>package_hash.
     bindE (lower_item package ''archive_keccak256'') (\<lambda>archive.
     bindE (pilot_same (JStr package_hash) (JStr archive) ''release/package'') (\<lambda>_.
     bindE (lower_item release ''manifest_hash'') (\<lambda>manifest_hash.
     bindE (lower_item package ''manifest_hash'') (\<lambda>package_manifest.
     bindE (pilot_same (JStr manifest_hash) (JStr package_manifest) ''release/manifest'') (\<lambda>_.
     bindE (jitem release ''status'') (\<lambda>status.
     ensure (status = JStr ''active'') ''release_not_active'' (py_str status))))))))))))))))))))"

text \<open>The members: every node of the directory with its set of capabilities.\<close>

definition directory_member ::
    "ext \<Rightarrow> (string \<times> json list) list \<Rightarrow> json \<Rightarrow> (string \<times> json list) list res" where
  "directory_member E members item =
     bindE (jitem item ''profile'') (\<lambda>profile.
     bindE (addr_item E profile ''node'') (\<lambda>node.
     bindE (list_item profile ''capabilities'') (\<lambda>capabilities.
     bindE (mapE hashable capabilities) (\<lambda>_.
     Inr (AList.update node capabilities members)))))"

definition bootstrap_members :: "ext \<Rightarrow> json \<Rightarrow> (string \<times> json list) list res" where
  "bootstrap_members E v =
     bindE (jitem v ''chain'') (\<lambda>chain.
     bindE (jitem v ''bootstrap'') (\<lambda>bootstrap.
     bindE (jitem chain ''chain_id'') (\<lambda>chain_id.
     bindE (jitem chain ''registry'') (\<lambda>registry.
     bindE (int_item v ''verified_at'') (\<lambda>verified_at.
     bindE (verify_bootstrap_v2 E bootstrap chain_id registry verified_at) (\<lambda>_.
     bindE (same_addresses E bootstrap ''publisher'' chain ''publisher'' ''bootstrap/publisher'') (\<lambda>_.
     bindE (list_item bootstrap ''directory'') (\<lambda>directory.
     foldE (directory_member E) [] directory))))))))"

section \<open>Tasks and receipts\<close>

text \<open>The tasks by their identifiers.\<close>

type_synonym task_table = "(json \<times> json) list"

definition find_task :: "task_table \<Rightarrow> json \<Rightarrow> json option" where
  "find_task tasks i = map_option snd (find (\<lambda>kt. py_eq (fst kt) i) tasks)"

definition transcript_task ::
    "ext \<Rightarrow> json \<Rightarrow> json \<Rightarrow> json \<Rightarrow> (string \<times> json list) list \<Rightarrow> string list \<Rightarrow> task_table \<Rightarrow> json \<Rightarrow> task_table res" where
  "transcript_task E v chain expected_manifest members trusted_issuers tasks task =
     bindE (jget task ''task_id'') (\<lambda>task_id.
     bindE (if is_falsy task_id then Inr True
            else bindE (hashable task_id) (\<lambda>_. Inr (find_task tasks task_id \<noteq> None))) (\<lambda>duplicate.
     bindE (ensure (\<not> duplicate) ''duplicate_task'' (py_str task_id)) (\<lambda>_.
     bindE (addr_item E task ''recipient'') (\<lambda>recipient.
     bindE (ensure (map_of members recipient \<noteq> None) ''unexpected_recipient'' recipient) (\<lambda>_.
     bindE (jitem task ''task_type'') (\<lambda>task_type.
     bindE (in_set task_type (case map_of members recipient of Some cs \<Rightarrow> cs | None \<Rightarrow> [])) (\<lambda>capable.
     bindE (ensure capable ''unsupported_capability'' (py_str task_type)) (\<lambda>_.
     bindE (addr_item E task ''issuer'') (\<lambda>issuer.
     bindE (ensure (issuer \<in> set trusted_issuers) ''untrusted_issuer'' issuer) (\<lambda>_.
     bindE (jitem chain ''chain_id'') (\<lambda>chain_id.
     bindE (jitem chain ''registry'') (\<lambda>registry.
     bindE (int_item v ''verified_at'') (\<lambda>verified_at.
     bindE (verify_task_v2 E task chain_id registry (JStr recipient) (Some (JStr issuer)) (Some expected_manifest) verified_at) (\<lambda>_.
     Inr (tasks @ [(task_id, task)])))))))))))))))"

definition verify_tasks ::
    "ext \<Rightarrow> json \<Rightarrow> (string \<times> json list) list \<Rightarrow> json list option \<Rightarrow> task_table res" where
  "verify_tasks E v members allowed_issuers =
     bindE (jitem v ''chain'') (\<lambda>chain.
     bindE (jitem2 v ''release_anchor'' ''manifest_hash'') (\<lambda>expected_manifest.
     bindE (case allowed_issuers of
              Some issuers \<Rightarrow> mapE (to_checksum_address E) issuers
            | None \<Rightarrow> bindE (addr_item E chain ''publisher'') (\<lambda>p. Inr [p])) (\<lambda>trusted_issuers.
     bindE (list_item v ''network_tasks'') (\<lambda>items.
     foldE (transcript_task E v chain expected_manifest members trusted_issuers) [] items))))"

definition OBSERVE :: string where "OBSERVE = ''observe_live_text''"
definition REVIEW :: string where "REVIEW = ''review_dispute''"

text \<open>What the kind of task asks of the result of its receipt.\<close>

definition receipt_result :: "ext \<Rightarrow> string \<Rightarrow> bool \<Rightarrow> json \<Rightarrow> json \<Rightarrow> json \<Rightarrow> unit res" where
  "receipt_result E expected_type allow_legacy task_id task receipt =
     (if expected_type = OBSERVE then
        bindE (jitem receipt ''result'') (\<lambda>result.
        bindE (validate_schema E result ''live-observation-receipt-v1.schema.json'') (\<lambda>_.
        bindE (jitem result ''session_id'') (\<lambda>x.
        bindE (jitem task ''payload'') (\<lambda>payload.
        bindE (jget payload ''session_id'') (\<lambda>y.
        pilot_same x y ''observation receipt/task session'')))))
      else if expected_type = REVIEW then
        bindE (jitem receipt ''result'') (\<lambda>result.
        bindE (jitem task ''payload'') (\<lambda>payload.
        bindE (if allow_legacy then Inr ()
               else bindE (require_verified_review_result E payload result (py_str task_id)) (\<lambda>_. Inr ())) (\<lambda>_.
        foldE (\<lambda>_ fld.
          bindE (jget result fld) (\<lambda>x. bindE (jget payload fld) (\<lambda>y.
          pilot_same x y (''review receipt/task '' @ fld)))) () [''dispute_id'', ''bundle_hash''])))
      else Inr ())"

definition transcript_receipt ::
    "ext \<Rightarrow> json \<Rightarrow> task_table \<Rightarrow> string \<Rightarrow> bool \<Rightarrow> json list \<Rightarrow> json \<Rightarrow> json list res" where
  "transcript_receipt E v tasks expected_type allow_legacy handled receipt =
     bindE (jget receipt ''task_id'') (\<lambda>task_id.
     bindE (in_set task_id handled) (\<lambda>again.
     bindE (case find_task tasks task_id of
              Some task \<Rightarrow> if again then le_error ''receipt_task_mismatch'' (py_str task_id) else Inr task
            | None \<Rightarrow> le_error ''receipt_task_mismatch'' (py_str task_id)) (\<lambda>task.
     bindE (jitem task ''task_type'') (\<lambda>task_type.
     bindE (ensure (task_type = JStr expected_type) ''receipt_task_mismatch'' (py_str task_id)) (\<lambda>_.
     bindE (jitem2 v ''chain'' ''chain_id'') (\<lambda>chain_id.
     bindE (jitem2 v ''chain'' ''registry'') (\<lambda>registry.
     bindE (verify_receipt_v2 E receipt chain_id registry) (\<lambda>signer.
     bindE (to_checksum_address E (JStr signer)) (\<lambda>node.
     bindE (addr_item E task ''recipient'') (\<lambda>recipient.
     bindE (pilot_same (JStr node) (JStr recipient) ''receipt/node'') (\<lambda>_.
     bindE (same_items receipt ''nonce'' task ''nonce'' ''receipt/nonce'') (\<lambda>_.
     bindE (jitem receipt ''status'') (\<lambda>status.
     bindE (if status \<noteq> JStr ''completed'' then Inr False
            else bindE (int_item receipt ''completed_at'') (\<lambda>completed.
                 bindE (int_item task ''deadline'') (\<lambda>deadline. Inr (completed \<le> deadline)))) (\<lambda>in_time.
     bindE (ensure in_time ''receipt_task_mismatch'' (py_str task_id)) (\<lambda>_.
     bindE (receipt_result E expected_type allow_legacy task_id task receipt) (\<lambda>_.
     Inr (handled @ [task_id])))))))))))))))))"

definition verify_receipts ::
    "ext \<Rightarrow> json list \<Rightarrow> task_table \<Rightarrow> json \<Rightarrow> string \<Rightarrow> bool \<Rightarrow> unit res" where
  "verify_receipts E receipts tasks v expected_type allow_legacy =
     bindE (foldE (transcript_receipt E v tasks expected_type allow_legacy) [] receipts) (\<lambda>_. Inr ())"

section \<open>Events and artifacts\<close>

text \<open>One event at position \<open>expected\<close>; \<open>previous\<close> is the hash of the one before.\<close>

definition transcript_event :: "ext \<Rightarrow> nat \<times> json \<Rightarrow> json \<Rightarrow> (nat \<times> json) res" where
  "transcript_event E = (\<lambda>(expected, previous) event.
     bindE (int_item event ''sequence'') (\<lambda>sequence.
     bindE (if sequence \<noteq> int expected then Inr False
            else bindE (jitem event ''previous_event_hash'') (\<lambda>p. Inr (py_eq p previous))) (\<lambda>follows.
     bindE (ensure follows ''pilot_cross_reference_mismatch'' ''event chain'') (\<lambda>_.
     bindE (verify_live_event E event) (\<lambda>valid.
     bindE (if valid then Inr () else bindE (jitem event ''event_id'') (\<lambda>i. le_error ''event_hash_mismatch'' (py_str i))) (\<lambda>_.
     bindE (jitem event ''event_hash'') (\<lambda>h.
     Inr (Suc expected, h))))))))"

definition verify_event_chain :: "ext \<Rightarrow> json \<Rightarrow> bool \<Rightarrow> unit res" where
  "verify_event_chain E v require_events =
     bindE (list_item v ''events'') (\<lambda>items.
     bindE (ensure (\<not> (require_events \<and> items = [])) ''pilot_cross_reference_mismatch'' ''events empty'') (\<lambda>_.
     bindE (foldE (transcript_event E) (1, JStr ZERO_HASH) items) (\<lambda>(_, previous).
     if items = [] then Inr ()
     else bindE (jitem2 v ''session'' ''head_event_hash'') (\<lambda>head. pilot_same previous head ''event/session head''))))"

definition inventory_item :: "(json \<times> int) list \<Rightarrow> json \<Rightarrow> (json \<times> int) list res" where
  "inventory_item inventory artifact =
     bindE (jitem artifact ''artifact_hash'') (\<lambda>digest.
     bindE (in_set digest (map fst inventory)) (\<lambda>again.
     bindE (ensure (\<not> again) ''duplicate_artifact'' (py_str digest)) (\<lambda>_.
     bindE (int_item artifact ''size'') (\<lambda>size.
     Inr (inventory @ [(digest, size)])))))"

definition expected_artifact :: "ext \<Rightarrow> (string \<times> int) list \<Rightarrow> json \<Rightarrow> (string \<times> int) list res" where
  "expected_artifact E expected event =
     bindE (jitem event ''content'') (\<lambda>c. bindE (jstr c) (\<lambda>raw.
     let digest = sha256_prefixed E raw in
     bindE (jitem event ''artifact_hash'') (\<lambda>h.
     bindE (pilot_same (JStr digest) h ''event/artifact hash'') (\<lambda>_.
     Inr (AList.update digest (int (length raw)) expected)))))"

text \<open>Both dictionaries have distinct keys: they are equal when they have the same items.\<close>

definition verify_artifacts :: "ext \<Rightarrow> json \<Rightarrow> unit res" where
  "verify_artifacts E v =
     bindE (list_item v ''artifacts'') (\<lambda>artifacts.
     bindE (foldE inventory_item [] artifacts) (\<lambda>inventory.
     bindE (list_item v ''events'') (\<lambda>items.
     bindE (foldE (expected_artifact E) [] items) (\<lambda>expected.
     ensure (set inventory = set (map (\<lambda>(d, n). (JStr d, n)) expected)) ''pilot_cross_reference_mismatch'' ''artifact inventory''))))"

section \<open>Dispute and gate\<close>

text \<open>\<open>build_review\<close> with a verdict that comes from a document.\<close>

definition review_from_receipt :: "ext \<Rightarrow> json \<Rightarrow> json \<Rightarrow> json \<Rightarrow> json res" where
  "review_from_receipt E dispute receipt task_id =
     bindE (jitem receipt ''node'') (\<lambda>node.
     bindE (jitem2 receipt ''result'' ''verdict'') (\<lambda>verdict.
     bindE (jitem2 receipt ''result'' ''reason_hash'') (\<lambda>reason_hash.
     bindE (jitem receipt ''completed_at'') (\<lambda>completed_at.
     bindE (jitem receipt ''signature'') (\<lambda>signature.
     case verdict of
       JStr s \<Rightarrow> build_review E task_id dispute node s reason_hash completed_at signature
     | _ \<Rightarrow> bindE (hashable verdict) (\<lambda>_. le_error ''invalid_verdict'' (py_str verdict)))))))"

definition stage_review :: "ext \<Rightarrow> json \<Rightarrow> task_table \<Rightarrow> json list \<Rightarrow> json \<Rightarrow> json list res" where
  "stage_review E v tasks collected receipt =
     bindE (jitem receipt ''task_id'') (\<lambda>task_id.
     bindE (hashable task_id) (\<lambda>_.
     bindE (case find_task tasks task_id of Some task \<Rightarrow> Inr task | None \<Rightarrow> Inl KeyError) (\<lambda>task.
     bindE (jitem task ''payload'') (\<lambda>payload.
     bindE (jitem v ''dispute'') (\<lambda>dispute.
     bindE (jget payload ''dispute_id'') (\<lambda>x. bindE (jitem dispute ''dispute_id'') (\<lambda>y.
     bindE (pilot_same x y ''review task/dispute'') (\<lambda>_.
     bindE (jget payload ''bundle_hash'') (\<lambda>x. bindE (jitem dispute ''bundle_hash'') (\<lambda>y.
     bindE (pilot_same x y ''review task/dispute bundle'') (\<lambda>_.
     bindE (jitem receipt ''result'') (\<lambda>result.
     bindE (jget result ''dispute_id'') (\<lambda>x. bindE (jitem dispute ''dispute_id'') (\<lambda>y.
     bindE (pilot_same x y ''review receipt/dispute'') (\<lambda>_.
     bindE (jget result ''bundle_hash'') (\<lambda>x. bindE (jitem2 v ''evidence_bundle'' ''bundle_hash'') (\<lambda>y.
     bindE (pilot_same x y ''review receipt/evidence bundle'') (\<lambda>_.
     bindE (review_from_receipt E dispute receipt task_id) (\<lambda>r.
     Inr (collected @ [r]))))))))))))))))))))"

definition review_nodes :: "(string \<times> json list) list \<Rightarrow> string list" where
  "review_nodes members = map fst (filter (\<lambda>(_, cs). JStr REVIEW \<in> set cs) members)"

definition verify_dispute_and_gate ::
    "ext \<Rightarrow> json \<Rightarrow> (string \<times> json list) list \<Rightarrow> task_table \<Rightarrow> unit res" where
  "verify_dispute_and_gate E v members tasks =
     bindE (list_item v ''review_receipts'') (\<lambda>receipts.
     bindE (ensure (length receipts = 3) ''review_quorum_missing'' ''three receipts required'') (\<lambda>_.
     bindE (foldE (stage_review E v tasks) [] receipts) (\<lambda>collected.
     bindE (jitem v ''dispute'') (\<lambda>dispute.
     bindE (jset dispute ''status'' (JStr ''open'')) (\<lambda>o1.
     bindE (jpop o1 ''valid_review_count'') (\<lambda>o2.
     bindE (jpop o2 ''review_ids'') (\<lambda>original.
     bindE (aggregate_reviews E original collected (map JStr (review_nodes members))) (\<lambda>resolved.
     bindE (pilot_same resolved dispute ''dispute aggregation'') (\<lambda>_.
     bindE (jitem v ''session'') (\<lambda>session.
     bindE (jitem v ''evidence_bundle'') (\<lambda>bundle.
     bindE (jitem2 v ''proposal_gate'' ''proposal'') (\<lambda>proposal.
     bindE (build_proposal_plan E session bundle [dispute] proposal) (\<lambda>gate.
     bindE (jitem v ''proposal_gate'') (\<lambda>declared.
     pilot_same gate declared ''proposal gate''))))))))))))))"

section \<open>All stages\<close>

definition BUNDLED_FIELDS :: "string list" where
  "BUNDLED_FIELDS = [''event_id'', ''sequence'', ''category'', ''event_hash'', ''artifact_hash'']"

definition same_event :: "json \<times> json \<Rightarrow> unit res" where
  "same_event = (\<lambda>(event, bundled).
     foldE (\<lambda>_ fld. same_items event fld bundled fld (''bundle/event '' @ fld)) () BUNDLED_FIELDS)"

text \<open>The session, the bundle and the inventory of events agree.\<close>

definition verify_session_bundle :: "ext \<Rightarrow> json \<Rightarrow> json \<Rightarrow> json \<Rightarrow> unit res" where
  "verify_session_bundle E v session bundle =
     bindE (jitem session ''status'') (\<lambda>status.
     bindE (pilot_same status (JStr ''closed'') ''session status'') (\<lambda>_.
     bindE (list_item v ''events'') (\<lambda>items.
     bindE (foldE (\<lambda>_ event. same_items event ''session_id'' session ''session_id'' ''event/session'') () items) (\<lambda>_.
     bindE (same_items session ''session_id'' bundle ''session_id'' ''session/bundle'') (\<lambda>_.
     bindE (same_items session ''head_event_hash'' bundle ''head_event_hash'' ''session/bundle head'') (\<lambda>_.
     bindE (int_item session ''next_sequence'') (\<lambda>n.
     bindE (jitem bundle ''event_count'') (\<lambda>count.
     bindE (pilot_same (JStr (py_str_int (n - 1))) count ''session/bundle event count'') (\<lambda>_.
     bindE (pilot_same (JStr (dec_nat (length items))) count ''events/bundle count'') (\<lambda>_.
     bindE (list_item bundle ''events'') (\<lambda>bundled.
     bindE (ensure (length bundled = length items) ''pilot_cross_reference_mismatch'' ''bundle/event inventory count'') (\<lambda>_.
     bindE (foldE (\<lambda>_. same_event) () (zip items bundled)) (\<lambda>_.
     bindE (jitem bundle ''bundle_hash'') (\<lambda>h.
     bindE (evidence_bundle_hash E bundle) (\<lambda>actual.
     pilot_same h (JStr actual) ''bundle hash'')))))))))))))))"

definition verify_observation_stage :: "ext \<Rightarrow> json \<Rightarrow> json \<Rightarrow> json \<Rightarrow> json \<Rightarrow> unit res" where
  "verify_observation_stage E v session bundle observations =
     bindE (list_item v ''observation_receipts'') (\<lambda>receipts.
     bindE (mapE (\<lambda>item. addr_item E item ''node'') receipts) (\<lambda>nodes.
     bindE (jitem2 v ''chain'' ''chain_id'') (\<lambda>chain_id.
     bindE (jitem2 v ''chain'' ''registry'') (\<lambda>registry.
     bindE (aggregate_observations E receipts (map JStr (remdups nodes)) chain_id registry) (\<lambda>aggregated.
     bindE (pilot_same aggregated observations ''observation aggregation'') (\<lambda>_.
     bindE (same_items observations ''session_id'' session ''session_id'' ''observation/session'') (\<lambda>_.
     bindE (same_items observations ''head_event_hash'' session ''head_event_hash'' ''observation/session head'') (\<lambda>_.
     bindE (same_items observations ''event_count'' bundle ''event_count'' ''observation/bundle event count'') (\<lambda>_.
     same_items observations ''bundle_hash'' bundle ''bundle_hash'' ''observation/bundle'')))))))))"

definition verify_witness_evidence_stages ::
    "ext \<Rightarrow> json \<Rightarrow> json list option \<Rightarrow> bool \<Rightarrow> ((string \<times> json list) list \<times> task_table) res" where
  "verify_witness_evidence_stages E v allowed_issuers allow_legacy =
     bindE (verify_release_anchor E v) (\<lambda>_.
     bindE (bootstrap_members E v) (\<lambda>members.
     bindE (verify_tasks E v members allowed_issuers) (\<lambda>tasks.
     bindE (list_item v ''observation_receipts'') (\<lambda>observed.
     bindE (verify_receipts E observed tasks v OBSERVE False) (\<lambda>_.
     bindE (list_item v ''review_receipts'') (\<lambda>reviewed.
     bindE (verify_receipts E reviewed tasks v REVIEW allow_legacy) (\<lambda>_.
     bindE (verify_event_chain E v True) (\<lambda>_.
     bindE (verify_artifacts E v) (\<lambda>_.
     bindE (jitem v ''session'') (\<lambda>session.
     bindE (jitem v ''evidence_bundle'') (\<lambda>bundle.
     bindE (jitem v ''observation_set'') (\<lambda>observations.
     bindE (verify_session_bundle E v session bundle) (\<lambda>_.
     bindE (verify_observation_stage E v session bundle observations) (\<lambda>_.
     bindE (verify_dispute_and_gate E v members tasks) (\<lambda>_.
     Inr (members, tasks))))))))))))))))"

end
