(* ===== verification/StageFacts.thy ===== *)
theory StageFacts
  imports EvidenceStages LiveStoreInv
begin

text \<open>
  What an accepted document shows, stage by stage: a gap-free chain of verified events that ends at
  the head of the session, receipts that the recipients of distinct verified tasks signed, observers
  that agree on the bundle, and a dispute that passed the gate by the votes of three reviewers.
\<close>

section \<open>Equal documents have equal members\<close>

lemma map_of_filter: "map_of xs k = (case filter (\<lambda>kv. fst kv = k) xs of [] \<Rightarrow> None | kv # _ \<Rightarrow> Some (snd kv))"
  by (induction xs) auto

lemma map_of_sort_key: "map_of (sort_key fst xs) k = map_of xs k" for xs :: "('a :: linorder \<times> 'b) list"
proof -
  have "sorted (map fst (filter (\<lambda>kv. fst kv = k) xs))" by (induction xs) auto
  then have "filter (\<lambda>kv. fst kv = k) (sort_key fst xs) = filter (\<lambda>kv. fst kv = k) xs"
    by (simp add: filter_sort sort_key_id_if_sorted)
  then show ?thesis by (simp add: map_of_filter)
qed

lemma py_eq_jitem:
  assumes "py_eq v w" "jitem v k = Inr x"
  shows "\<exists>y. jitem w k = Inr y \<and> py_eq x y"
proof -
  obtain d where d: "v = JObj d" "map_of d k = Some x" using assms(2) by (auto simp: jitem_Inr_iff)
  then obtain e where e: "w = JObj e" using assms(1) by (cases w) (auto simp: py_eq_def)
  let ?n = "\<lambda>d. map (\<lambda>kv. (fst kv, jnorm (bool_as_int (snd kv)))) d"
  have n: "map_of (?n d) k = map_option (\<lambda>x. jnorm (bool_as_int x)) (map_of d k)" for d by (induction d) auto
  have "sort_key fst (?n d) = sort_key fst (?n e)"
    using assms(1) by (simp add: py_eq_def d(1) e comp_def)
  then have "map_of (?n d) k = map_of (?n e) k" using map_of_sort_key [of "?n d" k] map_of_sort_key [of "?n e" k] by simp
  then obtain y where "map_of e k = Some y" "jnorm (bool_as_int x) = jnorm (bool_as_int y)"
    unfolding n d(2) by (cases "map_of e k") auto
  then show ?thesis by (simp add: e py_eq_def)
qed

lemma py_eq_jitem_JStr: "py_eq v w \<Longrightarrow> jitem v k = Inr (JStr s) \<Longrightarrow> jitem w k = Inr (JStr s)"
  using py_eq_jitem by fastforce

lemma list_all2_set1: "list_all2 P xs ys \<Longrightarrow> x \<in> set xs \<Longrightarrow> \<exists>y \<in> set ys. P x y"
  by (induction rule: list_all2_induct) auto

section \<open>Checks\<close>

lemma pilot_same_Inr_iff [res_simps]: "pilot_same x y label = Inr u \<longleftrightarrow> py_eq x y"
  by (simp add: pilot_same_def ensure_Inr_iff)

lemma same_items_Inr_iff: "same_items l k r j label = Inr u \<longleftrightarrow> (\<exists>x y. jitem l k = Inr x \<and> jitem r j = Inr y \<and> py_eq x y)"
  by (auto simp: same_items_def bindE_Inr_iff pilot_same_Inr_iff)

lemma same_addresses_Inr_iff:
  "same_addresses E l k r j label = Inr u \<longleftrightarrow> (\<exists>a. addr_item E l k = Inr a \<and> addr_item E r j = Inr a)"
  by (auto simp: same_addresses_def bindE_Inr_iff pilot_same_Inr_iff)

lemma list_item_Inr_iff: "list_item v k = Inr vs \<longleftrightarrow> jitem v k = Inr (JArr vs)"
  by (simp add: list_item_def bindE_Inr_iff jlist_Inr_iff)

lemma in_set_Inr_iff: "in_set x s = Inr b \<longleftrightarrow> hashable x = Inr () \<and> (b \<longleftrightarrow> (\<exists>y \<in> set s. py_eq x y))"
  by (auto simp: in_set_def bindE_Inr_iff list_ex_iff)

section \<open>Events\<close>

lemma transcript_event_Inr:
  assumes "transcript_event E (n, JStr h) e = Inr (m, g)"
  shows "m = Suc n" "int_item e ''sequence'' = Inr (int n)" "jitem e ''previous_event_hash'' = Inr (JStr h)"
    "verify_live_event E e = Inr True" "jitem e ''event_hash'' = Inr g"
  using assms by (auto simp: transcript_event_def bindE_Inr_iff ensure_Inr_iff split: if_splits)

lemma transcript_events_chain:
  assumes "foldE (transcript_event E) (n, JStr h) vs = Inr (m, g)"
  shows "\<exists>h'. g = JStr h' \<and> event_chain E (int n) h vs h'"
  using assms
proof (induction vs arbitrary: n h)
  case (Cons e vs)
  from Cons.prems obtain m' g' where s: "transcript_event E (n, JStr h) e = Inr (m', g')"
    "foldE (transcript_event E) (m', g') vs = Inr (m, g)" by (auto simp: bindE_Inr_iff)
  note e = transcript_event_Inr [OF s(1)]
  from e(4,5) obtain h' where h': "g' = JStr h'" by (auto simp: verify_live_event_iff event_ok_def)
  from Cons.IH [of m' h'] s(2) e(1) h' obtain h'' where "g = JStr h''" "event_chain E (int (Suc n)) h' vs h''" by auto
  with e h' show ?case by (simp add: algebra_simps)
qed simp

lemma verify_event_chain_Inr:
  assumes "verify_event_chain E v req = Inr u"
  obtains vs h where "list_item v ''events'' = Inr vs" "event_chain E 1 ZERO_HASH vs h" "req \<Longrightarrow> vs \<noteq> []"
    "vs \<noteq> [] \<Longrightarrow> jitem2 v ''session'' ''head_event_hash'' = Inr (JStr h)"
proof -
  from assms obtain vs m g where 1: "list_item v ''events'' = Inr vs" "\<not> (req \<and> vs = [])"
    "foldE (transcript_event E) (1, JStr ZERO_HASH) vs = Inr (m, g)"
    and 2: "(if vs = [] then Inr ()
     else bindE (jitem2 v ''session'' ''head_event_hash'') (\<lambda>head. pilot_same g head ''event/session head'')) = Inr ()"
    unfolding verify_event_chain_def by (elim run_elims) (auto simp: unit_eq)
  from transcript_events_chain [OF 1(3)] obtain h where h: "g = JStr h" "event_chain E 1 ZERO_HASH vs h" by auto
  moreover have "jitem2 v ''session'' ''head_event_hash'' = Inr (JStr h)" if "vs \<noteq> []"
    using 2 that h(1) by (auto simp: bindE_Inr_iff pilot_same_Inr_iff)
  ultimately show ?thesis using 1 that by blast
qed

section \<open>Tasks\<close>

text \<open>A task of the document: verified for a member that offers its kind.\<close>

definition stage_task :: "ext \<Rightarrow> json \<Rightarrow> (string \<times> json list) list \<Rightarrow> string list \<Rightarrow> json \<Rightarrow> bool" where
  "stage_task E v members issuers task \<longleftrightarrow>
     (\<exists>recipient issuer cs kind c r m now signer.
        addr_item E task ''recipient'' = Inr recipient \<and> map_of members recipient = Some cs \<and>
        jitem task ''task_type'' = Inr kind \<and> (\<exists>x \<in> set cs. py_eq kind x) \<and>
        addr_item E task ''issuer'' = Inr issuer \<and> issuer \<in> set issuers \<and>
        jitem2 v ''chain'' ''chain_id'' = Inr c \<and> jitem2 v ''chain'' ''registry'' = Inr r \<and>
        jitem2 v ''release_anchor'' ''manifest_hash'' = Inr m \<and> int_item v ''verified_at'' = Inr now \<and>
        verify_task_v2 E task c r (JStr recipient) (Some (JStr issuer)) (Some m) now = Inr signer)"

lemma transcript_task_Inr:
  assumes "transcript_task E v chain manifest members issuers tasks task = Inr tasks'"
    and "jitem v ''chain'' = Inr chain" "jitem2 v ''release_anchor'' ''manifest_hash'' = Inr manifest"
  obtains i where "jget task ''task_id'' = Inr i" "find_task tasks i = None" "tasks' = tasks @ [(i, task)]"
    "stage_task E v members issuers task"
proof -
  from assms(1) obtain i duplicate recipient kind capable issuer c r now signer where
    1: "jget task ''task_id'' = Inr i"
      "(if is_falsy i then Inr True else bindE (hashable i) (\<lambda>_. Inr (find_task tasks i \<noteq> None))) = Inr duplicate" "\<not> duplicate"
    and 2: "addr_item E task ''recipient'' = Inr recipient" "map_of members recipient \<noteq> None"
      "jitem task ''task_type'' = Inr kind"
      "in_set kind (case map_of members recipient of Some cs \<Rightarrow> cs | None \<Rightarrow> []) = Inr capable" capable
    and 3: "addr_item E task ''issuer'' = Inr issuer" "issuer \<in> set issuers"
      "jitem chain ''chain_id'' = Inr c" "jitem chain ''registry'' = Inr r" "int_item v ''verified_at'' = Inr now"
      "verify_task_v2 E task c r (JStr recipient) (Some (JStr issuer)) (Some manifest) now = Inr signer"
      "tasks' = tasks @ [(i, task)]"
    unfolding transcript_task_def by (elim run_elims) auto
  have "stage_task E v members issuers task"
    unfolding stage_task_def using 2 3 assms(2,3)
    by (intro exI [of _ recipient] exI [of _ issuer] exI [of _ "the (map_of members recipient)"])
       (auto simp: in_set_Inr_iff jitem2_def)
  with 1 3(7) that show ?thesis by (auto simp: bindE_Inr_iff split: if_splits)
qed

lemma find_task_snoc: "find_task (tasks @ [(i, t)]) k = (case find_task tasks k of None \<Rightarrow> if py_eq i k then Some t else None | Some x \<Rightarrow> Some x)"
  by (induction tasks) (auto simp: find_task_def)

lemma transcript_tasks:
  assumes "foldE (transcript_task E v chain manifest members issuers) ts items = Inr tasks"
    and "jitem v ''chain'' = Inr chain" "jitem2 v ''release_anchor'' ''manifest_hash'' = Inr manifest"
    and "\<forall>(i, t) \<in> set ts. jget t ''task_id'' = Inr i \<and> stage_task E v members issuers t"
  shows "\<forall>(i, t) \<in> set tasks. jget t ''task_id'' = Inr i \<and> stage_task E v members issuers t"
proof (rule foldE_invariant [OF assms(1)])
  show "\<forall>(i, t) \<in> set ts. jget t ''task_id'' = Inr i \<and> stage_task E v members issuers t" by (rule assms(4))
next
  fix s x s'
  assume "\<forall>(i, t) \<in> set s. jget t ''task_id'' = Inr i \<and> stage_task E v members issuers t"
    "transcript_task E v chain manifest members issuers s x = Inr s'"
  then show "\<forall>(i, t) \<in> set s'. jget t ''task_id'' = Inr i \<and> stage_task E v members issuers t"
    by (auto elim!: transcript_task_Inr [OF _ assms(2,3)])
qed

lemma verify_tasks_Inr:
  assumes "verify_tasks E v members allowed = Inr tasks"
  obtains issuers where "\<And>i t. (i, t) \<in> set tasks \<Longrightarrow> jget t ''task_id'' = Inr i \<and> stage_task E v members issuers t"
    "case allowed of Some xs \<Rightarrow> mapE (to_checksum_address E) xs = Inr issuers
       | None \<Rightarrow> \<exists>chain p. jitem v ''chain'' = Inr chain \<and> addr_item E chain ''publisher'' = Inr p \<and> issuers = [p]"
proof -
  from assms obtain chain manifest issuers items where 1: "jitem v ''chain'' = Inr chain"
    "jitem2 v ''release_anchor'' ''manifest_hash'' = Inr manifest"
    "(case allowed of Some issuers \<Rightarrow> mapE (to_checksum_address E) issuers
      | None \<Rightarrow> bindE (addr_item E chain ''publisher'') (\<lambda>p. Inr [p])) = Inr issuers"
    "foldE (transcript_task E v chain manifest members issuers) [] items = Inr tasks"
    unfolding verify_tasks_def by (elim run_elims)
  from transcript_tasks [OF 1(4,1,2)] have t: "\<And>i t. (i, t) \<in> set tasks \<Longrightarrow> jget t ''task_id'' = Inr i \<and> stage_task E v members issuers t"
    by auto
  show ?thesis
  proof (rule that)
    show "case allowed of Some xs \<Rightarrow> mapE (to_checksum_address E) xs = Inr issuers
       | None \<Rightarrow> \<exists>chain p. jitem v ''chain'' = Inr chain \<and> addr_item E chain ''publisher'' = Inr p \<and> issuers = [p]"
      using 1(1,3) by (auto simp: bindE_Inr_iff split: option.splits)
  qed (use t in blast)
qed

lemma find_task_member: "find_task tasks i = Some t \<Longrightarrow> \<exists>k. (k, t) \<in> set tasks \<and> py_eq k i"
  by (auto simp: find_task_def find_Some_iff in_set_conv_nth) (metis fst_conv nth_mem snd_conv surj_pair)

section \<open>Receipts\<close>

text \<open>Receipt \<open>r\<close> answers \<open>task\<close>, signed by its recipient and in time.\<close>

definition answers :: "ext \<Rightarrow> json \<Rightarrow> task_table \<Rightarrow> string \<Rightarrow> json \<Rightarrow> json \<Rightarrow> bool" where
  "answers E v tasks kind r task \<longleftrightarrow>
     (\<exists>i. jget r ''task_id'' = Inr i \<and> find_task tasks i = Some task) \<and>
     jitem task ''task_type'' = Inr (JStr kind) \<and>
     (\<exists>c g signer node. jitem2 v ''chain'' ''chain_id'' = Inr c \<and> jitem2 v ''chain'' ''registry'' = Inr g \<and>
        verify_receipt_v2 E r c g = Inr signer \<and> checksum_address E (JStr signer) = Inr node \<and>
        addr_item E task ''recipient'' = Inr node) \<and>
     (\<exists>x y. jitem r ''nonce'' = Inr x \<and> jitem task ''nonce'' = Inr y \<and> py_eq x y) \<and>
     jitem r ''status'' = Inr (JStr ''completed'') \<and>
     (\<exists>completed deadline. int_item r ''completed_at'' = Inr completed \<and> int_item task ''deadline'' = Inr deadline \<and>
        completed \<le> deadline)"

lemma transcript_receipt_Inr:
  assumes "transcript_receipt E v tasks kind legacy handled r = Inr handled'"
  obtains i task where "jget r ''task_id'' = Inr i" "i \<notin> set handled" "handled' = handled @ [i]"
    "answers E v tasks kind r task" "receipt_result E kind legacy i task r = Inr ()"
proof -
  from assms obtain i again task kind' c g signer node recipient status in_time where
    1: "jget r ''task_id'' = Inr i" "in_set i handled = Inr again"
      "(case find_task tasks i of
              Some task \<Rightarrow> if again then le_error ''receipt_task_mismatch'' (py_str i) else Inr task
            | None \<Rightarrow> le_error ''receipt_task_mismatch'' (py_str i)) = Inr task"
    and 2: "jitem task ''task_type'' = Inr kind'" "kind' = JStr kind"
      "jitem2 v ''chain'' ''chain_id'' = Inr c" "jitem2 v ''chain'' ''registry'' = Inr g"
      "verify_receipt_v2 E r c g = Inr signer" "to_checksum_address E (JStr signer) = Inr node"
      "addr_item E task ''recipient'' = Inr recipient" "pilot_same (JStr node) (JStr recipient) ''receipt/node'' = Inr ()"
      "same_items r ''nonce'' task ''nonce'' ''receipt/nonce'' = Inr ()"
    and 3: "jitem r ''status'' = Inr status"
      "(if status \<noteq> JStr ''completed'' then Inr False
            else bindE (int_item r ''completed_at'') (\<lambda>completed.
                 bindE (int_item task ''deadline'') (\<lambda>deadline. Inr (completed \<le> deadline)))) = Inr in_time" in_time
      "receipt_result E kind legacy i task r = Inr ()" "handled' = handled @ [i]"
    unfolding transcript_receipt_def by (elim run_elims) auto
  from 1(2,3) have t: "find_task tasks i = Some task" "i \<notin> set handled"
    by (auto simp: in_set_Inr_iff split: option.splits if_splits)
  have "answers E v tasks kind r task"
    unfolding answers_def using 1(1) 2 3(1-3) t(1)
    by (auto simp: pilot_same_Inr_iff same_items_Inr_iff to_checksum_address_def bindE_Inr_iff split: if_splits)
  with 1(1) 3(4,5) t(2) that show ?thesis by blast
qed

lemma transcript_receipts:
  assumes "foldE (transcript_receipt E v tasks kind legacy) handled rs = Inr handled'" "distinct handled"
  shows "\<exists>ids ts. handled' = handled @ ids \<and> distinct (handled @ ids) \<and>
    list_all2 (\<lambda>r i. jget r ''task_id'' = Inr i) rs ids \<and>
    list_all2 (\<lambda>r t. answers E v tasks kind r t \<and> (\<exists>i. receipt_result E kind legacy i t r = Inr ())) rs ts"
  using assms
proof (induction rs arbitrary: handled)
  case (Cons r rs)
  from Cons.prems(1) obtain h where h: "transcript_receipt E v tasks kind legacy handled r = Inr h"
    "foldE (transcript_receipt E v tasks kind legacy) h rs = Inr handled'" by (auto simp: bindE_Inr_iff)
  from transcript_receipt_Inr [OF h(1)] obtain i task where i: "jget r ''task_id'' = Inr i" "i \<notin> set handled"
    "h = handled @ [i]" "answers E v tasks kind r task" "receipt_result E kind legacy i task r = Inr ()" by metis
  from Cons.IH [OF h(2)] i(2,3) Cons.prems(2) obtain ids ts where
    "handled' = h @ ids" "distinct (h @ ids)" "list_all2 (\<lambda>r i. jget r ''task_id'' = Inr i) rs ids"
    "list_all2 (\<lambda>r t. answers E v tasks kind r t \<and> (\<exists>i. receipt_result E kind legacy i t r = Inr ())) rs ts" by auto
  with i show ?case by (intro exI [of _ "i # ids"] exI [of _ "task # ts"]) auto
qed simp

text \<open>All receipts of one kind: distinct tasks, each answered by its recipient.\<close>

definition receipts_answer :: "ext \<Rightarrow> json \<Rightarrow> task_table \<Rightarrow> string \<Rightarrow> bool \<Rightarrow> json list \<Rightarrow> bool" where
  "receipts_answer E v tasks kind legacy rs \<longleftrightarrow>
     (\<exists>ids ts. distinct ids \<and> list_all2 (\<lambda>r i. jget r ''task_id'' = Inr i) rs ids \<and>
        list_all2 (\<lambda>r t. answers E v tasks kind r t \<and> (\<exists>i. receipt_result E kind legacy i t r = Inr ())) rs ts)"

lemma verify_receipts_Inr:
  assumes "verify_receipts E rs tasks v kind legacy = Inr u"
  shows "receipts_answer E v tasks kind legacy rs"
proof -
  from assms obtain handled where "foldE (transcript_receipt E v tasks kind legacy) [] rs = Inr handled"
    by (auto simp: verify_receipts_def bindE_Inr_iff)
  from transcript_receipts [OF this] show ?thesis by (auto simp: receipts_answer_def)
qed

section \<open>Dispute and gate\<close>

lemma stage_review_Inr:
  assumes "stage_review E v tasks collected r = Inr collected'" "jitem v ''dispute'' = Inr dispute"
  obtains i c where "jitem r ''task_id'' = Inr i" "review_from_receipt E dispute r i = Inr c" "collected' = collected @ [c]"
    "\<exists>result. jitem r ''result'' = Inr result \<and> (\<exists>x y. jget result ''bundle_hash'' = Inr x \<and>
       jitem2 v ''evidence_bundle'' ''bundle_hash'' = Inr y \<and> py_eq x y)"
proof -
  from assms(1) obtain i d result x y c where "jitem r ''task_id'' = Inr i" "jitem v ''dispute'' = Inr d"
    "jitem r ''result'' = Inr result" "jget result ''bundle_hash'' = Inr x"
    "jitem2 v ''evidence_bundle'' ''bundle_hash'' = Inr y" "pilot_same x y ''review receipt/evidence bundle'' = Inr ()"
    "review_from_receipt E d r i = Inr c" "Inr (collected @ [c]) = (Inr collected' :: json list res)"
    unfolding stage_review_def by (elim run_elims) (auto simp: unit_eq)
  with assms(2) that show ?thesis by (auto simp: pilot_same_Inr_iff)
qed

text \<open>Receipt \<open>r\<close> was turned into review \<open>c\<close>, and names the bundle of the document.\<close>

definition reviewed_as :: "ext \<Rightarrow> json \<Rightarrow> json \<Rightarrow> json \<Rightarrow> json \<Rightarrow> bool" where
  "reviewed_as E v dispute r c \<longleftrightarrow>
     (\<exists>i. jitem r ''task_id'' = Inr i \<and> review_from_receipt E dispute r i = Inr c) \<and>
     (\<exists>result x y. jitem r ''result'' = Inr result \<and> jget result ''bundle_hash'' = Inr x \<and>
        jitem2 v ''evidence_bundle'' ''bundle_hash'' = Inr y \<and> py_eq x y)"

lemma stage_reviews:
  assumes "foldE (stage_review E v tasks) collected rs = Inr collected'" "jitem v ''dispute'' = Inr dispute"
  shows "\<exists>cs. collected' = collected @ cs \<and> list_all2 (reviewed_as E v dispute) rs cs"
  using assms(1)
proof (induction rs arbitrary: collected)
  case (Cons r rs)
  from Cons.prems obtain m where m: "stage_review E v tasks collected r = Inr m"
    "foldE (stage_review E v tasks) m rs = Inr collected'" by (auto simp: bindE_Inr_iff)
  from stage_review_Inr [OF m(1) assms(2)] obtain c where "reviewed_as E v dispute r c" "m = collected @ [c]"
    unfolding reviewed_as_def by metis
  with Cons.IH [OF m(2)] show ?case by auto
qed simp

text \<open>A review built from a receipt carries its node and verdict.\<close>

lemma review_from_receipt_Inr:
  assumes "review_from_receipt E dispute r i = Inr c"
  obtains n verdict where "addr_item E r ''node'' = Inr n" "jitem c ''node'' = Inr (JStr n)"
    "jitem2 r ''result'' ''verdict'' = Inr (JStr verdict)" "verdict \<in> set VERDICTS" "verdict_of c = verdict"
proof -
  from assms obtain node verdict reason completed signature where
    1: "jitem r ''node'' = Inr node" "jitem2 r ''result'' ''verdict'' = Inr verdict"
      "(case verdict of JStr s \<Rightarrow> build_review E i dispute node s reason completed signature
        | _ \<Rightarrow> bindE (hashable verdict) (\<lambda>_. le_error ''invalid_verdict'' (py_str verdict))) = Inr c"
    unfolding review_from_receipt_def by (elim run_elims)
  then obtain s where s: "verdict = JStr s" "build_review E i dispute node s reason completed signature = Inr c"
    by (auto simp: bindE_Inr_iff split: json.splits)
  from s(2) obtain di bh n where "s \<in> set VERDICTS" "to_checksum_address E node = Inr n"
    "c = JObj [(''schema_version'', JStr ''loveengine.dispute-review/1''),
          (''review_id'', i), (''dispute_id'', di), (''bundle_hash'', bh),
          (''node'', JStr n), (''verdict'', JStr s), (''reason_hash'', reason),
          (''completed_at'', JStr (py_str completed)), (''signature'', signature)]"
    unfolding build_review_def by (auto simp: bindE_Inr_iff split: if_splits)
  with 1 s(1) that show ?thesis by (simp add: addr_item_def verdict_of_def)
qed

lemma verify_dispute_and_gate_Inr:
  assumes "verify_dispute_and_gate E v members tasks = Inr u"
  obtains rs dispute cs expected nodes session eb proposal gate declared where
    "list_item v ''review_receipts'' = Inr rs" "length rs = 3" "jitem v ''dispute'' = Inr dispute"
    "list_all2 (reviewed_as E v dispute) rs cs" "mapE (to_checksum_address E) (map JStr (review_nodes members)) = Inr expected"
    "list_all2 (review_of E dispute expected) cs nodes" "distinct nodes"
    "jitem dispute ''status'' = Inr (JStr (quorum_status expected nodes cs))"
    "jitem v ''session'' = Inr session" "jitem v ''evidence_bundle'' = Inr eb"
    "build_proposal_plan E session eb [dispute] proposal = Inr gate" "jitem v ''proposal_gate'' = Inr declared" "py_eq gate declared"
proof -
  from assms obtain rs cs dispute o1 o2 original resolved session eb proposal gate declared where
    1: "list_item v ''review_receipts'' = Inr rs" "length rs = 3" "foldE (stage_review E v tasks) [] rs = Inr cs"
      "jitem v ''dispute'' = Inr dispute"
    and 2: "jset dispute ''status'' (JStr ''open'') = Inr o1" "jpop o1 ''valid_review_count'' = Inr o2"
      "jpop o2 ''review_ids'' = Inr original"
      "aggregate_reviews E original cs (map JStr (review_nodes members)) = Inr resolved"
      "pilot_same resolved dispute ''dispute aggregation'' = Inr ()"
    and 3: "jitem v ''session'' = Inr session" "jitem v ''evidence_bundle'' = Inr eb"
      "build_proposal_plan E session eb [dispute] proposal = Inr gate" "jitem v ''proposal_gate'' = Inr declared"
      "pilot_same gate declared ''proposal gate'' = Inr ()"
    unfolding verify_dispute_and_gate_def by (elim run_elims) (auto simp: unit_eq)
  from stage_reviews [OF 1(3,4)] have cs: "list_all2 (reviewed_as E v dispute) rs cs" by simp
  from aggregate_reviews_Inr [OF 2(4)] obtain d expected nodes ids where a: "original = JObj d"
    "mapE (to_checksum_address E) (map JStr (review_nodes members)) = Inr expected"
    "list_all2 (review_of E original expected) cs nodes" "distinct nodes"
    "resolved = JObj (AList.update ''review_ids'' (JArr ids) (AList.update ''valid_review_count'' (JStr (dec_nat (length nodes)))
           (AList.update ''status'' (JStr (quorum_status expected nodes cs)) d)))" by metis
  have "jitem original k = jitem dispute k" if "k \<in> {''dispute_id'', ''bundle_hash''}" for k
    using 2(1-3) that by (auto simp: jset_Inr_iff jpop_Inr_iff)
  then have "review_of E original expected = review_of E dispute expected" by (simp add: review_of_def fun_eq_iff)
  with a(3) have "list_all2 (review_of E dispute expected) cs nodes" by simp
  moreover have "jitem dispute ''status'' = Inr (JStr (quorum_status expected nodes cs))"
    using 2(5) py_eq_jitem_JStr [of resolved dispute "''status''"] by (simp add: pilot_same_Inr_iff a(5))
  ultimately show ?thesis using that 1 cs a 3 by (simp add: pilot_same_Inr_iff)
qed

section \<open>The bundle and the observations\<close>

definition refers_to :: "json \<Rightarrow> json list \<Rightarrow> bool" where
  "refers_to eb vs \<longleftrightarrow>
     (\<exists>bs. jitem eb ''events'' = Inr (JArr bs) \<and>
        list_all2 (\<lambda>e b. \<forall>k \<in> set BUNDLED_FIELDS. \<exists>x y. jitem e k = Inr x \<and> jitem b k = Inr y \<and> py_eq x y) vs bs)"

lemma same_event_Inr_iff:
  "same_event (e, b) = Inr u \<longleftrightarrow>
     (\<forall>k \<in> set BUNDLED_FIELDS. \<exists>x y. jitem e k = Inr x \<and> jitem b k = Inr y \<and> py_eq x y)"
  by (simp add: same_event_def foldE_unit same_items_Inr_iff)

lemma verify_session_bundle_Inr:
  assumes "verify_session_bundle E v session eb = Inr u" "list_item v ''events'' = Inr vs"
  shows "jitem session ''status'' = Inr (JStr ''closed'')" "int_item session ''next_sequence'' = Inr (int (length vs) + 1)"
    "jitem eb ''event_count'' = Inr (JStr (dec_nat (length vs)))" "refers_to eb vs"
    "\<exists>h. jitem eb ''bundle_hash'' = Inr (JStr h) \<and> evidence_bundle_hash E eb = Inr h"
    "\<And>e. e \<in> set vs \<Longrightarrow> \<exists>x y. jitem e ''session_id'' = Inr x \<and> jitem session ''session_id'' = Inr y \<and> py_eq x y"
proof -
  from assms(1) obtain status items n count bundled h actual where
    1: "jitem session ''status'' = Inr status" "pilot_same status (JStr ''closed'') ''session status'' = Inr ()"
      "list_item v ''events'' = Inr items"
      "foldE (\<lambda>_ event. same_items event ''session_id'' session ''session_id'' ''event/session'') () items = Inr ()"
    and 2: "int_item session ''next_sequence'' = Inr n" "jitem eb ''event_count'' = Inr count"
      "pilot_same (JStr (py_str_int (n - 1))) count ''session/bundle event count'' = Inr ()"
      "pilot_same (JStr (dec_nat (length items))) count ''events/bundle count'' = Inr ()"
    and 3: "list_item eb ''events'' = Inr bundled" "length bundled = length items"
      "foldE (\<lambda>_. same_event) () (zip items bundled) = Inr ()"
    and 4: "jitem eb ''bundle_hash'' = Inr h" "evidence_bundle_hash E eb = Inr actual" "pilot_same h (JStr actual) ''bundle hash'' = Inr ()"
    unfolding verify_session_bundle_def by (elim run_elims) (auto simp: unit_eq)
  have items: "items = vs" using 1(3) assms(2) by simp
  show "jitem session ''status'' = Inr (JStr ''closed'')" using 1(1,2) by (simp add: pilot_same_Inr_iff)
  have c: "count = JStr (dec_nat (length vs))" using 2(4) by (simp add: pilot_same_Inr_iff items)
  with 2(3) have "py_str_int (n - 1) = py_str_int (int (length vs))" by (simp add: pilot_same_Inr_iff py_str_int_def)
  then have "n = int (length vs) + 1" unfolding py_str_int_inject by simp
  with 2(1) show "int_item session ''next_sequence'' = Inr (int (length vs) + 1)" by simp
  show "jitem eb ''event_count'' = Inr (JStr (dec_nat (length vs)))" using 2(2) c by simp
  have "list_all2 (\<lambda>e b. same_event (e, b) = Inr ()) vs bundled"
    using 3(2,3) by (auto simp: foldE_unit list_all2_iff items)
  with 3(1) show "refers_to eb vs"
    unfolding refers_to_def list_item_Inr_iff same_event_Inr_iff by blast
  show "\<exists>h. jitem eb ''bundle_hash'' = Inr (JStr h) \<and> evidence_bundle_hash E eb = Inr h"
    using 4 by (auto simp: pilot_same_Inr_iff)
  show "\<exists>x y. jitem e ''session_id'' = Inr x \<and> jitem session ''session_id'' = Inr y \<and> py_eq x y" if "e \<in> set vs" for e
    using 1(4) that by (auto simp: foldE_unit items same_items_Inr_iff)
qed

text \<open>Three nodes signed, as completed, the session, the head, the number of events and the bundle of the document.\<close>

definition observers_agree :: "ext \<Rightarrow> json \<Rightarrow> json \<Rightarrow> json \<Rightarrow> json list \<Rightarrow> bool" where
  "observers_agree E v session eb rs \<longleftrightarrow>
     (\<exists>expected chain_id registry c nodes. jitem2 v ''chain'' ''chain_id'' = Inr chain_id \<and>
        jitem2 v ''chain'' ''registry'' = Inr registry \<and>
        length rs = 3 \<and> distinct nodes \<and> list_all2 (observed_by E expected chain_id registry c) rs nodes \<and>
        (\<exists>x y. jitem c ''session_id'' = Inr x \<and> jitem session ''session_id'' = Inr y \<and> py_eq x y) \<and>
        (\<exists>x y. jitem c ''head_event_hash'' = Inr x \<and> jitem session ''head_event_hash'' = Inr y \<and> py_eq x y) \<and>
        (\<exists>x y. jitem c ''event_count'' = Inr x \<and> jitem eb ''event_count'' = Inr y \<and> py_eq x y) \<and>
        (\<exists>x y. jitem c ''bundle_hash'' = Inr x \<and> jitem eb ''bundle_hash'' = Inr y \<and> py_eq x y))"

lemma verify_observation_stage_Inr:
  assumes "verify_observation_stage E v session eb observations = Inr u" "list_item v ''observation_receipts'' = Inr rs"
  shows "observers_agree E v session eb rs"
proof -
  from assms(1) obtain receipts nodes0 chain_id registry a where
    1: "list_item v ''observation_receipts'' = Inr receipts" "jitem2 v ''chain'' ''chain_id'' = Inr chain_id"
      "jitem2 v ''chain'' ''registry'' = Inr registry"
      "aggregate_observations E receipts (map JStr (remdups nodes0)) chain_id registry = Inr a"
      "pilot_same a observations ''observation aggregation'' = Inr ()"
    and 2: "same_items observations ''session_id'' session ''session_id'' ''observation/session'' = Inr ()"
      "same_items observations ''head_event_hash'' session ''head_event_hash'' ''observation/session head'' = Inr ()"
      "same_items observations ''event_count'' eb ''event_count'' ''observation/bundle event count'' = Inr ()"
      "same_items observations ''bundle_hash'' eb ''bundle_hash'' ''observation/bundle'' = Inr ()"
    unfolding verify_observation_stage_def by (elim run_elims) (auto simp: unit_eq)
  have rs: "receipts = rs" using 1(1) assms(2) by simp
  from 1(4) obtain c nodes where c: "length rs = 3" "distinct nodes"
    "list_all2 (observed_by E (map JStr (remdups nodes0)) chain_id registry c) rs nodes"
    "\<forall>k \<in> {''session_id'', ''event_count'', ''head_event_hash'', ''bundle_hash''}. jitem a k = jitem c k"
    unfolding rs by (rule aggregate_observations_Inr) blast
  have t: "\<exists>x y. jitem c k = Inr x \<and> jitem w l = Inr y \<and> py_eq x y"
    if "same_items observations k w l label = Inr ()" "k \<in> {''session_id'', ''event_count'', ''head_event_hash'', ''bundle_hash''}" for k w l label
  proof -
    from that(1) obtain x y where xy: "jitem observations k = Inr x" "jitem w l = Inr y" "py_eq x y" by (auto simp: same_items_Inr_iff)
    have "py_eq observations a" using 1(5) by (simp add: pilot_same_Inr_iff py_eq_sym)
    from py_eq_jitem [OF this xy(1)] obtain z where z: "jitem a k = Inr z" "py_eq x z" by blast
    have "jitem c k = Inr z" using bspec [OF c(4) that(2)] z(1) by simp
    moreover have "py_eq z y" using z(2) xy(3) by (simp add: py_eq_def)
    ultimately show ?thesis using xy(2) by blast
  qed
  show ?thesis unfolding observers_agree_def
    using t [OF 2(1)] t [OF 2(2)] t [OF 2(3)] t [OF 2(4)] 1(2,3) c(1-3)
    by (intro exI [of _ "map JStr (remdups nodes0)"] exI [of _ chain_id] exI [of _ registry] exI [of _ c] exI [of _ nodes]) simp
qed

section \<open>All stages\<close>

lemma stages_Inr:
  assumes "verify_witness_evidence_stages E v allowed legacy = Inr (members, tasks)"
  obtains vs h session eb observed reviewed where
    "list_item v ''events'' = Inr vs" "vs \<noteq> []" "event_chain E 1 ZERO_HASH vs h"
    "jitem v ''session'' = Inr session" "jitem session ''head_event_hash'' = Inr (JStr h)"
    "jitem v ''evidence_bundle'' = Inr eb" "verify_session_bundle E v session eb = Inr ()"
    "list_item v ''observation_receipts'' = Inr observed" "receipts_answer E v tasks OBSERVE False observed"
    "observers_agree E v session eb observed"
    "list_item v ''review_receipts'' = Inr reviewed" "receipts_answer E v tasks REVIEW legacy reviewed"
    "bootstrap_members E v = Inr members" "verify_tasks E v members allowed = Inr tasks"
    "verify_dispute_and_gate E v members tasks = Inr ()" "verify_release_anchor E v = Inr ()" "verify_artifacts E v = Inr ()"
proof -
  from assms obtain observed reviewed session eb observations where
    1: "verify_release_anchor E v = Inr ()" "bootstrap_members E v = Inr members" "verify_tasks E v members allowed = Inr tasks"
      "list_item v ''observation_receipts'' = Inr observed" "verify_receipts E observed tasks v OBSERVE False = Inr ()"
      "list_item v ''review_receipts'' = Inr reviewed" "verify_receipts E reviewed tasks v REVIEW legacy = Inr ()"
    and 2: "verify_event_chain E v True = Inr ()" "verify_artifacts E v = Inr ()" "jitem v ''session'' = Inr session"
      "jitem v ''evidence_bundle'' = Inr eb" "verify_session_bundle E v session eb = Inr ()"
      "verify_observation_stage E v session eb observations = Inr ()" "verify_dispute_and_gate E v members tasks = Inr ()"
    unfolding verify_witness_evidence_stages_def by (elim run_elims) (auto simp: unit_eq)
  from 2(1) obtain vs h where vs: "list_item v ''events'' = Inr vs" "event_chain E 1 ZERO_HASH vs h" "vs \<noteq> []"
    "jitem2 v ''session'' ''head_event_hash'' = Inr (JStr h)" by (auto elim: verify_event_chain_Inr)
  then have head: "jitem session ''head_event_hash'' = Inr (JStr h)" using 2(3) by (simp add: jitem2_def)
  show ?thesis
    by (rule that [OF vs(1,3,2) 2(3) head 2(4,5) 1(4) verify_receipts_Inr [OF 1(5)]
        verify_observation_stage_Inr [OF 2(6) 1(4)] 1(6) verify_receipts_Inr [OF 1(7)] 1(2,3) 2(7) 1(1) 2(2)])
qed

end
