(* ===== verification/ChainView.thy ===== *)
theory ChainView
  imports EvidenceStages
begin

text \<open>
  What the transcripts read from a chain (\<^verbatim>\<open>pilot_transcript.py\<close>, \<^verbatim>\<open>core_transcript.py\<close>). The answers
  of a node to the calls of \<open>web3\<close> are a record of functions, an argument of the definitions: it
  stands for code and for a service outside the repository. Hashes that \<open>web3\<close> returns as bytes are
  given as \<open>Web3.to_hex\<close> prints them. The class name of an exception of \<open>web3\<close>, which the code
  puts into its message, is left out.
\<close>

datatype block_id = BlockNumber int | BlockHash string | BlockTag string

record chain_block =
  bk_number :: int
  bk_hash :: string
  bk_timestamp :: int

text \<open>The topics and the data of a log are bytes.\<close>

record chain_log =
  lg_address :: json
  lg_topics :: "string list"
  lg_data :: string

record chain_receipt =
  cr_status :: int
  cr_block_number :: int
  cr_block_hash :: string
  cr_contract :: json
  cr_logs :: "chain_log list"

record chain_tx =
  tx_from :: json
  tx_to :: json
  tx_input :: string

record chain_release =
  rl_package :: string
  rl_manifest :: string
  rl_status :: int

record chain_view =
  cv_connected :: bool
  cv_chain_id :: "int res"
  cv_block :: "block_id \<Rightarrow> chain_block res"
  cv_code :: "string \<Rightarrow> int \<Rightarrow> string res"
  cv_receipt :: "json \<Rightarrow> chain_receipt res"
  cv_tx :: "json \<Rightarrow> chain_tx res"
  cv_release :: "string \<Rightarrow> string \<Rightarrow> string \<Rightarrow> string \<Rightarrow> int \<Rightarrow> chain_release res"
  cv_current :: "string \<Rightarrow> string \<Rightarrow> string \<Rightarrow> int \<Rightarrow> string res"
  cv_address_of :: "string \<Rightarrow> string res"
  cv_decode_vote :: "string \<Rightarrow> (bool \<times> string) res"
  cv_executed :: "string \<Rightarrow> int \<Rightarrow> int \<Rightarrow> bool res"
  cv_vote_counts :: "string \<Rightarrow> int \<Rightarrow> int \<Rightarrow> (int \<times> int) res"
  cv_payload_hash :: "string \<Rightarrow> int \<Rightarrow> int \<Rightarrow> string res"
  cv_min_valid_votes :: "string \<Rightarrow> int \<Rightarrow> int res"
  cv_registered :: "string \<Rightarrow> string \<Rightarrow> int \<Rightarrow> bool res"
  cv_has_voted :: "string \<Rightarrow> int \<Rightarrow> string \<Rightarrow> int \<Rightarrow> bool res"
  cv_total_uto :: "string \<Rightarrow> int \<Rightarrow> int res"

text \<open>
  The arguments of the calls are, in this order: the address of the contract, the publisher, the
  digest of the skill, the bytes of the version and the block (\<open>cv_release\<close>, \<open>cv_current\<close>); the
  contract, the proposal or the witness, and the block (the calls of the DAO and the sink).
  \<open>cv_address_of\<close> is \<open>to_checksum_address\<close> of bytes, \<open>cv_decode_vote\<close> the decoding of \<open>(bool, bytes32)\<close>.
\<close>

definition is_le_error :: "exc \<Rightarrow> bool" where
  "is_le_error e = (case e of LoveEngineError _ _ _ \<Rightarrow> True | _ \<Rightarrow> False)"

text \<open>\<open>except LoveEngineError: raise\<close>, \<open>except Exception\<close>: one error code for the rest.\<close>

definition chain_guard :: "'a res \<Rightarrow> 'a res" where
  "chain_guard m = catchE m (\<lambda>e. \<not> is_le_error e) (\<lambda>_. le_error_exit ''chain_verification_failed'' [] 4)"

lemma chain_guard_Inr_iff [res_simps]: "chain_guard m = Inr x \<longleftrightarrow> m = Inr x"
  by (simp add: chain_guard_def catchE_raise_Inr_iff)

section \<open>The anchor\<close>

definition select_verification_anchor :: "chain_view \<Rightarrow> string \<Rightarrow> json res" where
  "select_verification_anchor w environment =
     bindE (if environment = ''sepolia_invited_pilot'' then
              bindE (catchE (cv_chain_id w) (\<lambda>e. \<not> is_le_error e)
                 (\<lambda>_. le_error_exit ''verification_anchor_unavailable'' ''Sepolia chain ID'' 4)) (\<lambda>chain.
              bindE (ensure (py_str_int chain = ''11155111'') ''wrong_chain_id'' []) (\<lambda>_. Inr ''safe''))
            else if environment = ''local_anvil'' then Inr ''latest''
            else le_error ''unsupported_pilot_environment'' environment) (\<lambda>selected_via.
     case cv_block w (BlockTag selected_via) of
       Inr b \<Rightarrow> Inr (JObj [(''block_number'', JStr (py_str_int (bk_number b))), (''block_hash'', JStr (bk_hash b)),
                   (''timestamp'', JStr (py_str_int (bk_timestamp b))), (''selected_via'', JStr selected_via)])
     | Inl _ \<Rightarrow> le_error_exit ''verification_anchor_unavailable'' (environment @ '':'' @ selected_via) 4)"

text \<open>\<open>bytes.fromhex\<close>: pairs of digits, blanks between them skipped.\<close>

fun bytes_fromhex :: "string \<Rightarrow> string res" where
  "bytes_fromhex [] = Inr []"
| "bytes_fromhex (c # s) =
     (if is_space c then bytes_fromhex s
      else case s of
        [] \<Rightarrow> Inl ValueError
      | d # t \<Rightarrow>
          (case (hex_val c, hex_val d) of
             (Some x, Some y) \<Rightarrow> bindE (bytes_fromhex t) (\<lambda>r. Inr (char_of (16 * x + y) # r))
           | _ \<Rightarrow> Inl ValueError))"

text \<open>The release at the historical block of the document. \<open>fresh\<close> says whether the function opened
  the connection itself; the result is the number of the block.\<close>

definition verify_release_anchor_rpc :: "ext \<Rightarrow> chain_view \<Rightarrow> bool \<Rightarrow> json \<Rightarrow> int res" where
  "verify_release_anchor_rpc E w fresh v =
     bindE (jitem v ''chain'') (\<lambda>chain.
     bindE (jitem v ''release_anchor'') (\<lambda>release.
     chain_guard (
     bindE (if fresh \<and> \<not> cv_connected w then le_error_exit ''rpc_unavailable'' [] 4 else Inr ()) (\<lambda>_.
     bindE (cv_chain_id w) (\<lambda>chain_id.
     bindE (jitem chain ''chain_id'') (\<lambda>expected_chain.
     bindE (pilot_same (JStr (py_str_int chain_id)) expected_chain ''RPC chain id'') (\<lambda>_.
     bindE (jitem v ''verification_anchor'') (\<lambda>anchor.
     bindE (int_item anchor ''block_number'') (\<lambda>anchor_number.
     bindE (cv_block w (BlockNumber anchor_number)) (\<lambda>block.
     bindE (lower_item anchor ''block_hash'') (\<lambda>anchor_hash.
     bindE (pilot_same (JStr (py_lower (bk_hash block))) (JStr anchor_hash) ''anchor block hash'') (\<lambda>_.
     bindE (jitem anchor ''timestamp'') (\<lambda>timestamp.
     bindE (pilot_same (JStr (py_str_int (bk_timestamp block))) timestamp ''anchor timestamp'') (\<lambda>_.
     bindE (same_items v ''verified_at'' anchor ''timestamp'' ''verified_at/anchor'') (\<lambda>_.
     bindE (addr_item E chain ''registry'') (\<lambda>registry.
     bindE (jitem release ''skill_id'') (\<lambda>s. bindE (jstr s) (\<lambda>skill.
     bindE (jitem release ''version_hash'') (\<lambda>vh. bindE (jstr vh) (\<lambda>version_text.
     bindE (bytes_fromhex (drop 2 version_text)) (\<lambda>version_hash.
     bindE (addr_item E chain ''publisher'') (\<lambda>publisher.
     bindE (cv_release w registry publisher (keccak_hex E skill) version_hash anchor_number) (\<lambda>onchain.
     bindE (lower_item release ''package_hash'') (\<lambda>package.
     bindE (pilot_same (JStr (py_lower (rl_package onchain))) (JStr package) ''Registry package hash'') (\<lambda>_.
     bindE (lower_item release ''manifest_hash'') (\<lambda>manifest.
     bindE (pilot_same (JStr (py_lower (rl_manifest onchain))) (JStr manifest) ''Registry manifest hash'') (\<lambda>_.
     bindE (pilot_same (JInt (rl_status onchain)) (JInt 1) ''Registry release status'') (\<lambda>_.
     bindE (cv_current w registry publisher (keccak_hex E skill) anchor_number) (\<lambda>current.
     bindE (lower_item release ''version_hash'') (\<lambda>version.
     bindE (pilot_same (JStr (py_lower current)) (JStr version) ''Registry current version'') (\<lambda>_.
     Inr anchor_number)))))))))))))))))))))))))))))))"

section \<open>One provider's view of the deployment\<close>

definition PUBLISH_RELEASE_SIGNATURE :: string where
  "PUBLISH_RELEASE_SIGNATURE = ''publishRelease(bytes32,bytes32,bytes32,bytes32,bytes32)''"

text \<open>\<open>Web3.to_hex(Web3.keccak(text=signature)[:4]).lower()\<close>.\<close>

definition selector_of :: "ext \<Rightarrow> string \<Rightarrow> string" where
  "selector_of E signature = py_lower (''0x'' @ take 8 (keccak_hex E signature))"

definition remove_0x :: "string \<Rightarrow> string" where
  "remove_0x s = (if starts_with s ''0x'' then drop 2 s else s)"

definition expected_publish_release_calldata :: "ext \<Rightarrow> json \<Rightarrow> string res" where
  "expected_publish_release_calldata E v =
     bindE (jitem v ''release_anchor'') (\<lambda>release.
     bindE (jitem release ''skill_id'') (\<lambda>s. bindE (jstr s) (\<lambda>skill.
     bindE (mapE (jitem release) [''version_hash'', ''package_hash'', ''manifest_hash'', ''previous_version_hash'']) (\<lambda>fs.
     bindE (mapE jlower fs) (\<lambda>hashes.
     Inr (selector_of E PUBLISH_RELEASE_SIGNATURE @
          concat (map remove_0x (py_lower (keccak256_hex E skill) # hashes))))))))"

definition observed_transaction ::
    "ext \<Rightarrow> chain_view \<Rightarrow> json \<Rightarrow> json \<Rightarrow> int \<Rightarrow> string \<times> string \<Rightarrow> (string \<times> json) res" where
  "observed_transaction E w v chain anchor_number = (\<lambda>(action, transaction_field).
     bindE (jitem chain transaction_field) (\<lambda>transaction_hash.
     bindE (cv_receipt w transaction_hash) (\<lambda>receipt.
     bindE (cv_tx w transaction_hash) (\<lambda>transaction.
     let block_number = cr_block_number receipt; block_hash = py_lower (cr_block_hash receipt) in
     bindE (ensure (cr_status receipt = 1 \<and> block_number \<le> anchor_number) ''chain_transaction_invalid'' (action @ '' receipt'')) (\<lambda>_.
     bindE (cv_block w (BlockHash (cr_block_hash receipt))) (\<lambda>_.
     bindE (to_checksum_address E (tx_from transaction)) (\<lambda>sender.
     bindE (addr_item E chain ''publisher'') (\<lambda>publisher.
     bindE (ensure (sender = publisher) ''chain_transaction_invalid'' (action @ '' sender'')) (\<lambda>_.
     bindE (if action = ''deploy'' then
              if tx_to transaction \<noteq> JNull then le_error ''chain_transaction_invalid'' ''deployment target''
              else bindE (to_checksum_address E (cr_contract receipt)) (\<lambda>created.
                   bindE (addr_item E chain ''registry'') (\<lambda>registry.
                   ensure (created = registry) ''chain_transaction_invalid'' ''deployment target''))
            else
              bindE (if tx_to transaction = JNull then le_error ''chain_transaction_invalid'' ''publish target''
                     else bindE (to_checksum_address E (tx_to transaction)) (\<lambda>target.
                          bindE (addr_item E chain ''registry'') (\<lambda>registry.
                          ensure (target = registry) ''chain_transaction_invalid'' ''publish target''))) (\<lambda>_.
              bindE (expected_publish_release_calldata E v) (\<lambda>calldata.
              ensure (py_lower (tx_input transaction) = calldata) ''chain_transaction_invalid'' ''publish calldata''))) (\<lambda>_.
     bindE (jlower transaction_hash) (\<lambda>lowered.
     Inr (action, JObj [(''transaction_hash'', JStr lowered), (''block_number'', JStr (py_str_int block_number)),
       (''block_hash'', JStr block_hash), (''status'', JStr ''1'')]))))))))))))"

definition safe_head_reached :: "chain_view \<Rightarrow> json \<Rightarrow> int \<Rightarrow> unit res" where
  "safe_head_reached w v anchor_number =
     bindE (jitem v ''environment'') (\<lambda>environment.
     if environment = JStr ''sepolia_invited_pilot'' then
       bindE (cv_block w (BlockTag ''safe'')) (\<lambda>safe.
       if bk_number safe < anchor_number then le_error_exit ''verification_anchor_unavailable'' [] 4 else Inr ())
     else Inr ())"

definition release_observation :: "ext \<Rightarrow> json \<Rightarrow> json \<Rightarrow> json \<Rightarrow> string \<Rightarrow> (string \<times> json) list \<Rightarrow> json res" where
  "release_observation E v chain anchor code_hash receipts =
     bindE (jitem chain ''chain_id'') (\<lambda>chain_id.
     bindE (addr_item E chain ''registry'') (\<lambda>registry.
     bindE (addr_item E chain ''publisher'') (\<lambda>publisher.
     bindE (jitem chain ''release_status'') (\<lambda>status.
     bindE (jitem v ''release_anchor'') (\<lambda>release.
     bindE (lower_item release ''package_hash'') (\<lambda>package.
     bindE (lower_item release ''manifest_hash'') (\<lambda>manifest.
     Inr (JObj [(''schema_version'', JStr ''loveengine.rpc-release-observation/1''), (''chain_id'', chain_id),
       (''registry'', JStr registry), (''publisher'', JStr publisher), (''anchor'', anchor),
       (''runtime_code_hash'', JStr code_hash), (''release_status'', status), (''package_hash'', JStr package),
       (''manifest_hash'', JStr manifest), (''transactions'', JObj receipts)]))))))))"

definition observe_release_anchor_rpc :: "ext \<Rightarrow> chain_view \<Rightarrow> json \<Rightarrow> string res" where
  "observe_release_anchor_rpc E w v =
     bindE (verify_release_anchor_rpc E w False v) (\<lambda>anchor_number.
     bindE (jitem v ''chain'') (\<lambda>chain.
     bindE (jitem v ''verification_anchor'') (\<lambda>anchor.
     chain_guard (
     bindE (safe_head_reached w v anchor_number) (\<lambda>_.
     bindE (addr_item E chain ''registry'') (\<lambda>registry.
     bindE (cv_code w registry anchor_number) (\<lambda>code.
     let code_hash = py_lower (keccak256_hex E code) in
     bindE (lower_item chain ''runtime_code_hash'') (\<lambda>expected.
     bindE (ensure (code_hash = expected) ''registry_code_hash_mismatch'' code_hash) (\<lambda>_.
     bindE (mapE (observed_transaction E w v chain anchor_number)
              [(''deploy'', ''deployment_transaction''), (''publish'', ''release_transaction'')]) (\<lambda>receipts.
     bindE (release_observation E v chain anchor code_hash receipts) (\<lambda>observation.
     Inr (sha256_prefixed E (canonical_json_bytes observation)))))))))))))"

end
