(* ===== verification/Attestation.thy ===== *)
theory Attestation
  imports TrustPolicy
begin

text \<open>
  \<^verbatim>\<open>participant_attestation.py\<close>: the declaration that each participant of an invited pilot signs, and
  the verification of the set of declarations of a run. The keyword arguments of the functions
  are records. An accepted set has exactly one declaration, signed by the node itself and valid at
  the given time, for each expected node, and declares at least two operator and two network groups.
\<close>

definition MAX_ATTESTATION_TTL_SECONDS :: int where
  "MAX_ATTESTATION_TTL_SECONDS = 3600"

definition attestation_domain :: "ext \<Rightarrow> json \<Rightarrow> json \<Rightarrow> json res" where
  "attestation_domain E chain_id registry =
     bindE (py_int chain_id) (\<lambda>chain. bindE (to_checksum_address E registry) (\<lambda>contract.
     Inr (domain_doc ''LoveEngine Agent Network'' ''2'' chain contract)))"

definition sha256_as_bytes32 :: "json \<Rightarrow> string \<Rightarrow> string res" where
  "sha256_as_bytes32 v label =
     (case v of
        JStr s \<Rightarrow> if starts_with s ''sha256:'' then require_bytes32 (JStr (''0x'' @ drop 7 s)) label
                  else le_error ''invalid_hash'' label
      | _ \<Rightarrow> le_error ''invalid_hash'' label)"

section \<open>Building a declaration\<close>

record attestation_args =
  at_chain_id :: json
  at_registry :: json
  at_run_id :: json
  at_node :: json
  at_role :: json
  at_profile_hash :: json
  at_assignment_task_id :: json
  at_assignment_payload_hash :: json
  at_pilot_invite_hash :: json
  at_trust_policy_hash :: json
  at_package_hash :: json
  at_manifest_hash :: json
  at_service_config_hash :: json
  at_ruleset_sha256 :: json
  at_rules_attestation_sha256 :: json
  at_operator_group_hash :: json
  at_network_group_hash :: json
  at_issued_at :: json
  at_valid_until :: json

text \<open>\<open>require_bytes32(v, name).lower()\<close>.\<close>

definition lower_bytes32 :: "json \<Rightarrow> string \<Rightarrow> json res" where
  "lower_bytes32 v name = bindE (require_bytes32 v name) (\<lambda>h. Inr (JStr (py_lower h)))"

definition attestation_value :: "ext \<Rightarrow> attestation_args \<Rightarrow> json res" where
  "attestation_value E a =
     bindE (to_checksum_address E (at_registry a)) (\<lambda>registry.
     bindE (to_checksum_address E (at_node a)) (\<lambda>node.
     bindE (lower_bytes32 (at_profile_hash a) ''profile_hash'') (\<lambda>profile.
     bindE (lower_bytes32 (at_assignment_payload_hash a) ''assignment_payload_hash'') (\<lambda>assignment.
     bindE (lower_bytes32 (at_package_hash a) ''package_hash'') (\<lambda>package.
     bindE (lower_bytes32 (at_manifest_hash a) ''manifest_hash'') (\<lambda>manifest.
     bindE (lower_bytes32 (at_service_config_hash a) ''service_config_hash'') (\<lambda>service.
     bindE (lower_bytes32 (at_operator_group_hash a) ''operator_group_hash'') (\<lambda>operator_group.
     bindE (lower_bytes32 (at_network_group_hash a) ''network_group_hash'') (\<lambda>network_group.
     Inr (JObj [(''schema_version'', JStr ''loveengine.participant-attestation/1''),
       (''chain_id'', JStr (py_str (at_chain_id a))), (''registry'', JStr registry), (''run_id'', at_run_id a),
       (''node'', JStr node), (''role'', at_role a), (''profile_hash'', profile),
       (''assignment_task_id'', at_assignment_task_id a), (''assignment_payload_hash'', assignment),
       (''pilot_invite_hash'', at_pilot_invite_hash a), (''trust_policy_hash'', at_trust_policy_hash a),
       (''package_hash'', package), (''manifest_hash'', manifest), (''service_config_hash'', service),
       (''ruleset_sha256'', at_ruleset_sha256 a), (''rules_attestation_sha256'', at_rules_attestation_sha256 a),
       (''operator_group_hash'', operator_group), (''network_group_hash'', network_group),
       (''issued_at'', JStr (py_str (at_issued_at a))), (''valid_until'', JStr (py_str (at_valid_until a))),
       (''signature'', JStr ''0x'')]))))))))))"

definition build_participant_attestation :: "ext \<Rightarrow> attestation_args \<Rightarrow> json res" where
  "build_participant_attestation E a =
     bindE (ensure (case at_run_id a of JStr s \<Rightarrow> s \<noteq> [] \<and> py_bool (at_assignment_task_id a) | _ \<Rightarrow> False)
              ''invalid_participant_attestation'' ''run_id'') (\<lambda>_.
     bindE (py_int (at_issued_at a)) (\<lambda>issued.
     bindE (py_int (at_valid_until a)) (\<lambda>until.
     bindE (ensure (\<not> until < issued) ''invalid_participant_attestation'' ''validity window'') (\<lambda>_.
     bindE (ensure (until \<le> issued + MAX_ATTESTATION_TTL_SECONDS) ''invalid_participant_attestation'' ''validity window'') (\<lambda>_.
     bindE (ensure (at_role a = JStr ''observation_node'') ''invalid_participant_attestation'' ''role'') (\<lambda>_.
     bindE (attestation_value E a) (\<lambda>v.
     bindE (sha256_as_bytes32 (at_ruleset_sha256 a) ''ruleset_sha256'') (\<lambda>_.
     bindE (sha256_as_bytes32 (at_rules_attestation_sha256 a) ''rules_attestation_sha256'') (\<lambda>_.
     bindE (sha256_as_bytes32 (at_pilot_invite_hash a) ''pilot_invite_hash'') (\<lambda>_.
     bindE (sha256_as_bytes32 (at_trust_policy_hash a) ''trust_policy_hash'') (\<lambda>_.
     bindE (check_secrets v) (\<lambda>_. Inr v))))))))))))"

section \<open>The signed document\<close>

definition attestation_fields :: json where
  "attestation_fields = JArr [type_field ''runId'' ''bytes32'', type_field ''node'' ''address'',
     type_field ''role'' ''bytes32'', type_field ''profileHash'' ''bytes32'',
     type_field ''assignmentTaskId'' ''bytes32'', type_field ''assignmentPayloadHash'' ''bytes32'',
     type_field ''pilotInviteHash'' ''bytes32'', type_field ''trustPolicyHash'' ''bytes32'',
     type_field ''packageHash'' ''bytes32'', type_field ''manifestHash'' ''bytes32'',
     type_field ''serviceConfigHash'' ''bytes32'', type_field ''rulesetSha256'' ''bytes32'',
     type_field ''rulesAttestationSha256'' ''bytes32'', type_field ''operatorGroupHash'' ''bytes32'',
     type_field ''networkGroupHash'' ''bytes32'', type_field ''issuedAt'' ''uint256'',
     type_field ''validUntil'' ''uint256'']"

definition sha256_item :: "json \<Rightarrow> string \<Rightarrow> string res" where
  "sha256_item v k = bindE (jitem v k) (\<lambda>x. sha256_as_bytes32 x k)"

definition attestation_message :: "ext \<Rightarrow> json \<Rightarrow> json res" where
  "attestation_message E v =
     bindE (id_item E v ''run_id'') (\<lambda>run_id.
     bindE (addr_item E v ''node'') (\<lambda>node.
     bindE (id_item E v ''role'') (\<lambda>role.
     bindE (bytes32_item v ''profile_hash'') (\<lambda>profile.
     bindE (id_item E v ''assignment_task_id'') (\<lambda>task.
     bindE (bytes32_item v ''assignment_payload_hash'') (\<lambda>payload.
     bindE (sha256_item v ''pilot_invite_hash'') (\<lambda>invite.
     bindE (sha256_item v ''trust_policy_hash'') (\<lambda>policy.
     bindE (bytes32_item v ''package_hash'') (\<lambda>package.
     bindE (bytes32_item v ''manifest_hash'') (\<lambda>manifest.
     bindE (bytes32_item v ''service_config_hash'') (\<lambda>service.
     bindE (sha256_item v ''ruleset_sha256'') (\<lambda>ruleset.
     bindE (sha256_item v ''rules_attestation_sha256'') (\<lambda>rules.
     bindE (bytes32_item v ''operator_group_hash'') (\<lambda>operator_group.
     bindE (bytes32_item v ''network_group_hash'') (\<lambda>network_group.
     bindE (int_item v ''issued_at'') (\<lambda>issued.
     bindE (int_item v ''valid_until'') (\<lambda>until.
     Inr (JObj [(''runId'', JStr run_id), (''node'', JStr node), (''role'', JStr role),
       (''profileHash'', JStr profile), (''assignmentTaskId'', JStr task), (''assignmentPayloadHash'', JStr payload),
       (''pilotInviteHash'', JStr invite), (''trustPolicyHash'', JStr policy), (''packageHash'', JStr package),
       (''manifestHash'', JStr manifest), (''serviceConfigHash'', JStr service), (''rulesetSha256'', JStr ruleset),
       (''rulesAttestationSha256'', JStr rules), (''operatorGroupHash'', JStr operator_group),
       (''networkGroupHash'', JStr network_group), (''issuedAt'', JInt issued), (''validUntil'', JInt until)]))))))))))))))))))"

definition build_participant_attestation_typed_data :: "ext \<Rightarrow> json \<Rightarrow> json res" where
  "build_participant_attestation_typed_data E v =
     bindE (jitem v ''chain_id'') (\<lambda>chain_id.
     bindE (jitem v ''registry'') (\<lambda>registry.
     bindE (attestation_domain E chain_id registry) (\<lambda>dom.
     bindE (attestation_message E v) (\<lambda>msg.
     Inr (typed_doc ''ParticipantAttestationV1'' attestation_fields dom msg)))))"

section \<open>Verification of one declaration\<close>

record attestation_expect =
  ex_chain_id :: json
  ex_registry :: json
  ex_run_id :: json
  ex_role :: json
  ex_profile_hash :: "json option"
  ex_assignment_task_id :: "json option"
  ex_assignment_payload_hash :: "json option"
  ex_pilot_invite_hash :: "json option"
  ex_trust_policy_hash :: "json option"
  ex_package_hash :: json
  ex_manifest_hash :: json
  ex_service_config_hash :: json
  ex_rules_attestation_sha256 :: "json option"

definition attestation_same :: "json \<Rightarrow> json \<Rightarrow> string \<Rightarrow> unit res" where
  "attestation_same left right label = ensure (py_eq left right) ''participant_attestation_mismatch'' label"

text \<open>\<open>_same(value[k], x, k)\<close>, and the same with \<open>lower()\<close> on both sides.\<close>

definition same_item :: "json \<Rightarrow> string \<Rightarrow> json \<Rightarrow> unit res" where
  "same_item v k x = bindE (jitem v k) (\<lambda>y. attestation_same y x k)"

definition same_lower_item :: "json \<Rightarrow> string \<Rightarrow> json \<Rightarrow> unit res" where
  "same_lower_item v k x =
     bindE (jitem v k) (\<lambda>y. bindE (jlower y) (\<lambda>l. bindE (jlower x) (\<lambda>r. attestation_same (JStr l) (JStr r) k)))"

definition attestation_bindings :: "ext \<Rightarrow> json \<Rightarrow> attestation_expect \<Rightarrow> unit res" where
  "attestation_bindings E v ex =
     bindE (same_item v ''chain_id'' (JStr (py_str (ex_chain_id ex)))) (\<lambda>_.
     bindE (jitem v ''registry'') (\<lambda>registry.
     bindE (same_address E registry (ex_registry ex)) (\<lambda>same.
     bindE (ensure same ''participant_attestation_mismatch'' ''registry'') (\<lambda>_.
     bindE (same_item v ''run_id'' (ex_run_id ex)) (\<lambda>_.
     bindE (same_item v ''role'' (ex_role ex)) (\<lambda>_.
     bindE (when_some (ex_profile_hash ex) (same_lower_item v ''profile_hash'')) (\<lambda>_.
     bindE (when_some (ex_assignment_task_id ex) (same_item v ''assignment_task_id'')) (\<lambda>_.
     bindE (when_some (ex_assignment_payload_hash ex) (same_lower_item v ''assignment_payload_hash'')) (\<lambda>_.
     bindE (when_some (ex_pilot_invite_hash ex) (same_item v ''pilot_invite_hash'')) (\<lambda>_.
     bindE (when_some (ex_trust_policy_hash ex) (same_item v ''trust_policy_hash'')) (\<lambda>_.
     bindE (same_lower_item v ''package_hash'' (ex_package_hash ex)) (\<lambda>_.
     bindE (same_lower_item v ''manifest_hash'' (ex_manifest_hash ex)) (\<lambda>_.
     bindE (when_some (ex_rules_attestation_sha256 ex) (same_item v ''rules_attestation_sha256'')) (\<lambda>_.
     same_lower_item v ''service_config_hash'' (ex_service_config_hash ex)))))))))))))))"

text \<open>The time must lie in the window, and the window must not be longer than the limit.\<close>

definition attestation_window :: "json \<Rightarrow> int \<Rightarrow> unit res" where
  "attestation_window v current =
     bindE (int_item v ''issued_at'') (\<lambda>issued.
     bindE (if issued > current then bindE (jitem v ''node'') (\<lambda>n. le_error ''participant_attestation_not_yet_valid'' (py_str n))
            else Inr ()) (\<lambda>_.
     bindE (int_item v ''valid_until'') (\<lambda>until.
     bindE (if until < current then bindE (jitem v ''node'') (\<lambda>n. le_error ''participant_attestation_expired'' (py_str n))
            else Inr ()) (\<lambda>_.
     if until > issued + MAX_ATTESTATION_TTL_SECONDS
     then bindE (jitem v ''node'') (\<lambda>n. le_error ''participant_attestation_ttl_exceeded'' (py_str n))
     else Inr ()))))"

definition attestation_signer :: "ext \<Rightarrow> json \<Rightarrow> string res" where
  "attestation_signer E v =
     catchE
       (bindE (build_participant_attestation_typed_data E v) (\<lambda>typed.
        bindE (jitem v ''signature'') (\<lambda>signature. recover_typed E typed signature)))
       (\<lambda>e. e = BadSignature \<or> e = TypeError \<or> e = ValueError)
       (\<lambda>_. le_error ''invalid_signature'' ''participant attestation signature'')"

definition verify_participant_attestation :: "ext \<Rightarrow> json \<Rightarrow> attestation_expect \<Rightarrow> int \<Rightarrow> string res" where
  "verify_participant_attestation E v ex current =
     bindE (check_secrets v) (\<lambda>_.
     bindE (validate_schema E v ''participant-attestation-v1.schema.json'') (\<lambda>_.
     bindE (attestation_bindings E v ex) (\<lambda>_.
     bindE (attestation_window v current) (\<lambda>_.
     bindE (attestation_signer E v) (\<lambda>signer.
     bindE (addr_item E v ''node'') (\<lambda>node.
     bindE (to_checksum_address E (JStr signer)) (\<lambda>s.
     bindE (ensure (s = node) ''invalid_signature'' ''participant attestation signer'') (\<lambda>_.
     Inr node))))))))"

section \<open>Verification of a set\<close>

record set_expect =
  se_chain_id :: json
  se_registry :: json
  se_run_id :: json
  se_package_hash :: json
  se_manifest_hash :: json
  se_service_config_hash :: json
  se_rulesets :: "(string \<times> json) list"
  se_profile_hashes :: "(string \<times> json) list"
  se_assignments :: "(string \<times> json \<times> json) list"
  se_pilot_invite_hash :: json
  se_trust_policy_hash :: json
  se_rules_attestations :: "(string \<times> json) list"

text \<open>\<open>{to_checksum_address(a): x for a, x in m.items()}\<close>.\<close>

definition normalize_addresses :: "ext \<Rightarrow> (string \<times> 'a) list \<Rightarrow> (string \<times> 'a) list res" where
  "normalize_addresses E m =
     foldE (\<lambda>acc (a, x). bindE (to_checksum_address E (JStr a)) (\<lambda>k. Inr (AList.update k x acc))) [] m"

record roll =
  ro_recovered :: "string list"
  ro_operator_groups :: "string list"
  ro_network_groups :: "string list"

definition lookup_address :: "(string \<times> 'a) list \<Rightarrow> string \<Rightarrow> 'a res" where
  "lookup_address m a = (case map_of m a of Some x \<Rightarrow> Inr x | None \<Rightarrow> Inl KeyError)"

definition attestation_expected ::
    "set_expect \<Rightarrow> json option \<Rightarrow> json \<times> json \<Rightarrow> json \<Rightarrow> attestation_expect" where
  "attestation_expected se profile assignment rules =
     \<lparr>ex_chain_id = se_chain_id se, ex_registry = se_registry se, ex_run_id = se_run_id se,
      ex_role = JStr ''observation_node'', ex_profile_hash = profile, ex_assignment_task_id = Some (fst assignment),
      ex_assignment_payload_hash = Some (snd assignment), ex_pilot_invite_hash = Some (se_pilot_invite_hash se),
      ex_trust_policy_hash = Some (se_trust_policy_hash se), ex_package_hash = se_package_hash se,
      ex_manifest_hash = se_manifest_hash se, ex_service_config_hash = se_service_config_hash se,
      ex_rules_attestation_sha256 = Some rules\<rparr>"

text \<open>One declaration; the four normalized mappings are \<open>rulesets\<close>, \<open>profiles\<close>, \<open>assignments\<close> and \<open>rules\<close>.\<close>

definition attestation_step ::
    "ext \<Rightarrow> set_expect \<Rightarrow> int \<Rightarrow> string list \<Rightarrow> (string \<times> json) list \<Rightarrow> (string \<times> json) list \<Rightarrow>
     (string \<times> json \<times> json) list \<Rightarrow> (string \<times> json) list \<Rightarrow> roll \<Rightarrow> json \<Rightarrow> roll res" where
  "attestation_step E se current nodes rulesets profiles assignments rules s v =
     bindE (addr_item E v ''node'') (\<lambda>key.
     bindE (lookup_address assignments key) (\<lambda>assignment.
     bindE (lookup_address rules key) (\<lambda>rule.
     bindE (verify_participant_attestation E v (attestation_expected se (map_of profiles key) assignment rule) current) (\<lambda>node.
     bindE (ensure (node \<notin> set (ro_recovered s)) ''duplicate_participant_attestation'' node) (\<lambda>_.
     bindE (ensure (node \<in> set nodes) ''unexpected_participant'' node) (\<lambda>_.
     bindE (ensure (map_of profiles node \<noteq> None) ''participant_profile_missing'' node) (\<lambda>_.
     bindE (jitem v ''ruleset_sha256'') (\<lambda>ruleset.
     bindE (attestation_same ruleset (case map_of rulesets node of Some x \<Rightarrow> x | None \<Rightarrow> JNull) ''ruleset_sha256'') (\<lambda>_.
     bindE (jitem v ''operator_group_hash'') (\<lambda>og. bindE (jlower og) (\<lambda>operator_group.
     bindE (jitem v ''network_group_hash'') (\<lambda>ng. bindE (jlower ng) (\<lambda>network_group.
     Inr (s\<lparr>ro_recovered := ro_recovered s @ [node],
            ro_operator_groups := List.insert operator_group (ro_operator_groups s),
            ro_network_groups := List.insert network_group (ro_network_groups s)\<rparr>))))))))))))))"

definition verify_participant_attestation_set ::
    "ext \<Rightarrow> json list \<Rightarrow> json list \<Rightarrow> set_expect \<Rightarrow> int \<Rightarrow> (string \<times> json) list res" where
  "verify_participant_attestation_set E attestations expected_nodes se current =
     bindE (mapE (to_checksum_address E) expected_nodes) (\<lambda>addresses.
     let nodes = remdups addresses in
     bindE (ensure (3 \<le> length nodes) ''participant_quorum_missing'' ''three nodes required'') (\<lambda>_.
     bindE (normalize_addresses E (se_rulesets se)) (\<lambda>rulesets.
     bindE (normalize_addresses E (se_profile_hashes se)) (\<lambda>profiles.
     bindE (normalize_addresses E (se_assignments se)) (\<lambda>assignments.
     bindE (normalize_addresses E (se_rules_attestations se)) (\<lambda>rules.
     bindE (foldE (attestation_step E se current nodes rulesets profiles assignments rules)
              \<lparr>ro_recovered = [], ro_operator_groups = [], ro_network_groups = []\<rparr> attestations) (\<lambda>s.
     bindE (ensure (set (ro_recovered s) = set nodes) ''participant_quorum_missing'' ''attestations do not cover nodes'') (\<lambda>_.
     bindE (ensure (2 \<le> length (ro_operator_groups s)) ''participant_diversity_missing''
              ''two declared operator groups required'') (\<lambda>_.
     bindE (ensure (2 \<le> length (ro_network_groups s)) ''participant_diversity_missing''
              ''two declared network groups required'') (\<lambda>_.
     Inr [(''nodes'', JInt (int (length (ro_recovered s)))),
          (''declared_operator_groups'', JInt (int (length (ro_operator_groups s)))),
          (''declared_network_groups'', JInt (int (length (ro_network_groups s))))]))))))))))"

section \<open>What an accepted declaration says\<close>

definition agrees :: "json \<Rightarrow> string \<Rightarrow> json \<Rightarrow> bool" where
  "agrees v k x \<longleftrightarrow> (\<exists>y. jitem v k = Inr y \<and> py_eq y x)"

definition agrees_lower :: "json \<Rightarrow> string \<Rightarrow> json \<Rightarrow> bool" where
  "agrees_lower v k x \<longleftrightarrow> (\<exists>h. bindE (jitem v k) jlower = Inr h \<and> jlower x = Inr h)"

definition bound_to :: "ext \<Rightarrow> json \<Rightarrow> attestation_expect \<Rightarrow> bool" where
  "bound_to E v ex \<longleftrightarrow>
     agrees v ''chain_id'' (JStr (py_str (ex_chain_id ex))) \<and>
     (\<exists>a. addr_item E v ''registry'' = Inr a \<and> checksum_address E (ex_registry ex) = Inr a) \<and>
     agrees v ''run_id'' (ex_run_id ex) \<and> agrees v ''role'' (ex_role ex) \<and>
     (\<forall>x. ex_profile_hash ex = Some x \<longrightarrow> agrees_lower v ''profile_hash'' x) \<and>
     (\<forall>x. ex_assignment_task_id ex = Some x \<longrightarrow> agrees v ''assignment_task_id'' x) \<and>
     (\<forall>x. ex_assignment_payload_hash ex = Some x \<longrightarrow> agrees_lower v ''assignment_payload_hash'' x) \<and>
     (\<forall>x. ex_pilot_invite_hash ex = Some x \<longrightarrow> agrees v ''pilot_invite_hash'' x) \<and>
     (\<forall>x. ex_trust_policy_hash ex = Some x \<longrightarrow> agrees v ''trust_policy_hash'' x) \<and>
     agrees_lower v ''package_hash'' (ex_package_hash ex) \<and> agrees_lower v ''manifest_hash'' (ex_manifest_hash ex) \<and>
     (\<forall>x. ex_rules_attestation_sha256 ex = Some x \<longrightarrow> agrees v ''rules_attestation_sha256'' x) \<and>
     agrees_lower v ''service_config_hash'' (ex_service_config_hash ex)"

definition window_holds :: "json \<Rightarrow> int \<Rightarrow> bool" where
  "window_holds v current \<longleftrightarrow>
     (\<exists>issued until. int_item v ''issued_at'' = Inr issued \<and> int_item v ''valid_until'' = Inr until \<and>
        issued \<le> current \<and> current \<le> until \<and> until \<le> issued + MAX_ATTESTATION_TTL_SECONDS)"

definition self_signed :: "ext \<Rightarrow> json \<Rightarrow> string \<Rightarrow> bool" where
  "self_signed E v node \<longleftrightarrow>
     (\<exists>typed s signer. build_participant_attestation_typed_data E v = Inr typed \<and> jitem v ''signature'' = Inr s \<and>
        recover_typed E typed s = Inr signer \<and> checksum_address E (JStr signer) = Inr node) \<and>
     addr_item E v ''node'' = Inr node"

lemma same_item_Inr_iff: "same_item v k x = Inr u \<longleftrightarrow> agrees v k x"
  by (auto simp: same_item_def agrees_def attestation_same_def bindE_Inr_iff ensure_Inr_iff)

lemma same_lower_item_Inr_iff: "same_lower_item v k x = Inr u \<longleftrightarrow> agrees_lower v k x"
  by (auto simp: same_lower_item_def agrees_lower_def attestation_same_def bindE_Inr_iff ensure_Inr_iff)

lemma unit_bind_Inr_iff: "bindE m (\<lambda>_. f) = Inr y \<longleftrightarrow> m = Inr () \<and> f = Inr y"
  by (cases m) auto

lemma registry_bind_Inr_iff:
  "bindE (jitem v k) (\<lambda>r. bindE (same_address E r x) (\<lambda>same. bindE (ensure same c d) (\<lambda>_. f))) = Inr y \<longleftrightarrow>
     (\<exists>a. addr_item E v k = Inr a \<and> checksum_address E x = Inr a) \<and> f = Inr y"
  unfolding bindE_Inr_iff ensure_Inr_iff same_address_Inr_iff addr_item_def to_checksum_address_def by blast

lemma attestation_bindings_Inr_iff: "attestation_bindings E v ex = Inr u \<longleftrightarrow> bound_to E v ex"
  by (simp only: attestation_bindings_def bound_to_def registry_bind_Inr_iff unit_bind_Inr_iff same_item_Inr_iff
      same_lower_item_Inr_iff when_some_Inr_iff)

lemma attestation_window_Inr_iff: "attestation_window v current = Inr u \<longleftrightarrow> window_holds v current"
  by (auto simp: attestation_window_def window_holds_def bindE_Inr_iff not_less split: if_splits)

lemma verify_participant_attestation_Inr_iff:
  "verify_participant_attestation E v ex current = Inr node \<longleftrightarrow>
     secret_free v \<and> schema_error E ''participant-attestation-v1.schema.json'' v = None \<and>
     bound_to E v ex \<and> window_holds v current \<and> self_signed E v node"
  unfolding verify_participant_attestation_def attestation_signer_def bindE_Inr_iff catchE_raise_Inr_iff
    check_secrets_Inr_iff validate_schema_Inr_iff attestation_bindings_Inr_iff attestation_window_Inr_iff
    ensure_Inr_iff self_signed_def to_checksum_address_def
  by blast

section \<open>What an accepted set says\<close>

definition lower_of :: "json \<Rightarrow> string \<Rightarrow> string" where
  "lower_of v k = (case bindE (jitem v k) jlower of Inr h \<Rightarrow> h | Inl _ \<Rightarrow> [])"

text \<open>Declaration \<open>v\<close> is by \<open>node\<close>, for the run, the release and the service configuration of \<open>se\<close>.\<close>

definition declared_by :: "ext \<Rightarrow> set_expect \<Rightarrow> int \<Rightarrow> json \<Rightarrow> string \<Rightarrow> bool" where
  "declared_by E se current v node \<longleftrightarrow>
     self_signed E v node \<and> window_holds v current \<and> agrees v ''run_id'' (se_run_id se) \<and>
     agrees v ''chain_id'' (JStr (py_str (se_chain_id se))) \<and>
     agrees v ''pilot_invite_hash'' (se_pilot_invite_hash se) \<and> agrees v ''trust_policy_hash'' (se_trust_policy_hash se) \<and>
     agrees_lower v ''package_hash'' (se_package_hash se) \<and> agrees_lower v ''manifest_hash'' (se_manifest_hash se) \<and>
     agrees_lower v ''service_config_hash'' (se_service_config_hash se)"

lemma attestation_step_Inr:
  assumes "attestation_step E se current nodes rulesets profiles assignments rules s v = Inr t"
  obtains node where "declared_by E se current v node" "node \<notin> set (ro_recovered s)" "node \<in> set nodes"
    "t = s\<lparr>ro_recovered := ro_recovered s @ [node],
           ro_operator_groups := List.insert (lower_of v ''operator_group_hash'') (ro_operator_groups s),
           ro_network_groups := List.insert (lower_of v ''network_group_hash'') (ro_network_groups s)\<rparr>"
proof -
  from assms obtain key assignment rule node ruleset og operator_group ng network_group where
    1: "verify_participant_attestation E v (attestation_expected se (map_of profiles key) assignment rule) current = Inr node"
    and 2: "node \<notin> set (ro_recovered s)" "node \<in> set nodes"
    and 3: "jitem v ''operator_group_hash'' = Inr og" "jlower og = Inr operator_group"
      "jitem v ''network_group_hash'' = Inr ng" "jlower ng = Inr network_group"
    and 4: "Inr (s\<lparr>ro_recovered := ro_recovered s @ [node],
            ro_operator_groups := List.insert operator_group (ro_operator_groups s),
            ro_network_groups := List.insert network_group (ro_network_groups s)\<rparr>) = (Inr t :: roll res)"
    unfolding attestation_step_def by (elim run_elims)
  have "declared_by E se current v node"
    using 1 by (simp add: verify_participant_attestation_Inr_iff declared_by_def bound_to_def attestation_expected_def)
  with 2 3 4 that show ?thesis by (simp add: lower_of_def)
qed

lemma attestation_fold:
  assumes "foldE (attestation_step E se current nodes rulesets profiles assignments rules) s vs = Inr t"
    and "distinct (ro_recovered s)" "distinct (ro_operator_groups s)" "distinct (ro_network_groups s)"
  shows "distinct (ro_recovered t) \<and> distinct (ro_operator_groups t) \<and> distinct (ro_network_groups t) \<and>
    set (ro_operator_groups t) = set (ro_operator_groups s) \<union> (\<lambda>v. lower_of v ''operator_group_hash'') ` set vs \<and>
    set (ro_network_groups t) = set (ro_network_groups s) \<union> (\<lambda>v. lower_of v ''network_group_hash'') ` set vs \<and>
    (\<exists>ns. ro_recovered t = ro_recovered s @ ns \<and> list_all2 (declared_by E se current) vs ns)"
  using assms
proof (induction vs arbitrary: s)
  case (Cons v vs)
  from Cons.prems(1) obtain s' where s': "attestation_step E se current nodes rulesets profiles assignments rules s v = Inr s'"
    "foldE (attestation_step E se current nodes rulesets profiles assignments rules) s' vs = Inr t"
    by (auto simp: bindE_Inr_iff)
  from attestation_step_Inr [OF s'(1)] obtain node where n: "declared_by E se current v node"
    "node \<notin> set (ro_recovered s)"
    "s' = s\<lparr>ro_recovered := ro_recovered s @ [node],
           ro_operator_groups := List.insert (lower_of v ''operator_group_hash'') (ro_operator_groups s),
           ro_network_groups := List.insert (lower_of v ''network_group_hash'') (ro_network_groups s)\<rparr>" by metis
  have "distinct (ro_recovered s') \<and> distinct (ro_operator_groups s') \<and> distinct (ro_network_groups s')"
    using n Cons.prems by simp
  with Cons.IH [OF s'(2)] n show ?case by auto
qed simp

lemma verify_participant_attestation_set_Inr:
  assumes "verify_participant_attestation_set E attestations expected_nodes se current = Inr r"
  obtains addresses nodes where "mapE (to_checksum_address E) expected_nodes = Inr addresses"
    "list_all2 (declared_by E se current) attestations nodes" "distinct nodes" "set nodes = set addresses" "3 \<le> length nodes"
    "2 \<le> card ((\<lambda>v. lower_of v ''operator_group_hash'') ` set attestations)"
    "2 \<le> card ((\<lambda>v. lower_of v ''network_group_hash'') ` set attestations)"
    "r = [(''nodes'', JInt (int (length nodes))),
          (''declared_operator_groups'', JInt (int (card ((\<lambda>v. lower_of v ''operator_group_hash'') ` set attestations)))),
          (''declared_network_groups'', JInt (int (card ((\<lambda>v. lower_of v ''network_group_hash'') ` set attestations))))]"
proof -
  from assms obtain addresses rulesets profiles assignments rules t where
    1: "mapE (to_checksum_address E) expected_nodes = Inr addresses" "3 \<le> length (remdups addresses)"
    and 2: "foldE (attestation_step E se current (remdups addresses) rulesets profiles assignments rules)
       \<lparr>ro_recovered = [], ro_operator_groups = [], ro_network_groups = []\<rparr> attestations = Inr t"
    and 3: "set (ro_recovered t) = set (remdups addresses)" "2 \<le> length (ro_operator_groups t)" "2 \<le> length (ro_network_groups t)"
      "Inr [(''nodes'', JInt (int (length (ro_recovered t)))),
          (''declared_operator_groups'', JInt (int (length (ro_operator_groups t)))),
          (''declared_network_groups'', JInt (int (length (ro_network_groups t))))] = (Inr r :: (string \<times> json) list res)"
    unfolding verify_participant_attestation_set_def Let_def by (elim run_elims)
  from attestation_fold [OF 2] have d: "distinct (ro_recovered t)" "distinct (ro_operator_groups t)" "distinct (ro_network_groups t)"
    "set (ro_operator_groups t) = (\<lambda>v. lower_of v ''operator_group_hash'') ` set attestations"
    "set (ro_network_groups t) = (\<lambda>v. lower_of v ''network_group_hash'') ` set attestations"
    "list_all2 (declared_by E se current) attestations (ro_recovered t)" by simp_all
  have "length (ro_recovered t) = length (remdups addresses)"
    using 3(1) d(1) by (metis distinct_card distinct_remdups)
  with 1 3 d that [of addresses "ro_recovered t"] show ?thesis
    by (simp add: distinct_card [symmetric])
qed

end
