(* ===== verification/PilotTranscript.thy ===== *)
theory PilotTranscript
  imports ChainView Attestation
begin

text \<open>
  \<^verbatim>\<open>pilot_transcript.py\<close>: the verification of a pilot's record: its hash, the stages of
  \<open>EvidenceStages\<close>, the binding to a trust policy, the votes of the witnesses, the inventory of
  transactions and contracts, and the comparison of all of it with a chain.
\<close>

definition pilot_transcript_hash :: "ext \<Rightarrow> json \<Rightarrow> string res" where
  "pilot_transcript_hash E v =
     bindE (jpop v ''transcript_hash'') (\<lambda>view. Inr (sha256_prefixed E (canonical_json_bytes view)))"

section \<open>Trust policies\<close>

text \<open>A policy as a dictionary, or the path of a file with its contents.\<close>

datatype policy_input = PolicyValue json | PolicyFile string "string option"

definition load_policy :: "ext \<Rightarrow> policy_input option \<Rightarrow> json option res" where
  "load_policy E p =
     (case p of
        None \<Rightarrow> Inr None
      | Some (PolicyValue v) \<Rightarrow> bindE (validate_node_trust_policy E v) (\<lambda>w. Inr (Some w))
      | Some (PolicyFile path contents) \<Rightarrow> bindE (load_node_trust_policy E path contents) (\<lambda>w. Inr (Some w)))"

definition POLICY_FIELDS :: "(string \<times> string \<times> string) list" where
  "POLICY_FIELDS = [(''chain_id'', ''chain'', ''chain_id''), (''registry'', ''chain'', ''registry''),
     (''publisher'', ''chain'', ''publisher''), (''skill_id'', ''release_anchor'', ''skill_id''),
     (''version'', ''release_anchor'', ''version''), (''package_hash'', ''release_anchor'', ''package_hash''),
     (''manifest_hash'', ''release_anchor'', ''manifest_hash'')]"

text \<open>\<open>policy.get("package_hash", policy.get("expected_package_hash"))\<close>.\<close>

definition policy_value :: "json \<Rightarrow> string \<Rightarrow> json res" where
  "policy_value policy name =
     (if name = ''package_hash'' then bindE (jget policy ''expected_package_hash'') (jget_or policy ''package_hash'')
      else if name = ''chain_id'' then bindE (jget_or policy ''chain_id'' (JStr [])) (\<lambda>x. Inr (JStr (py_str x)))
      else jget policy name)"

definition compare_policy_field :: "ext \<Rightarrow> string \<times> json \<times> json \<Rightarrow> unit res" where
  "compare_policy_field E = (\<lambda>(name, expected, actual).
     if name \<in> {''registry'', ''publisher''} then
       bindE (catchE (bindE (to_checksum_address E actual) (\<lambda>a. bindE (to_checksum_address E expected) (\<lambda>e. Inr (a = e))))
                is_value_error (\<lambda>_. le_error ''trust_policy_mismatch'' name)) (\<lambda>same.
       ensure same ''trust_policy_mismatch'' name)
     else if name \<in> {''package_hash'', ''manifest_hash''} then
       ensure (py_lower (py_str actual) = py_lower (py_str expected)) ''trust_policy_mismatch'' name
     else ensure (py_eq actual expected) ''trust_policy_mismatch'' name)"

definition verify_transcript_trust_policy :: "ext \<Rightarrow> json \<Rightarrow> json \<Rightarrow> unit res" where
  "verify_transcript_trust_policy E v policy =
     bindE (mapE (\<lambda>(name, part, fld). bindE (jitem2 v part fld) (\<lambda>expected.
              bindE (policy_value policy name) (\<lambda>actual. Inr (name, expected, actual)))) POLICY_FIELDS) (\<lambda>items.
     bindE (foldE (\<lambda>_. compare_policy_field E) () items) (\<lambda>_.
     bindE (jget policy ''allowed_issuers'') (\<lambda>allowed.
     bindE (case allowed of JArr (i # is) \<Rightarrow> Inr (i # is) | _ \<Rightarrow> le_error ''trust_policy_mismatch'' ''allowed_issuers'') (\<lambda>issuers.
     bindE (catchE (mapE (to_checksum_address E) issuers) is_value_error
              (\<lambda>_. le_error ''trust_policy_mismatch'' ''allowed_issuers'')) (\<lambda>allowed_issuers.
     bindE (list_item v ''network_tasks'') (\<lambda>tasks.
     foldE (\<lambda>_ task. bindE (addr_item E task ''issuer'') (\<lambda>issuer.
       ensure (issuer \<in> set allowed_issuers) ''untrusted_issuer'' issuer)) () tasks))))))"

section \<open>Votes\<close>

definition required_keys :: "json \<Rightarrow> string list \<Rightarrow> string \<Rightarrow> unit res" where
  "required_keys m names label =
     foldE (\<lambda>_ name. bindE (jin m name) (\<lambda>present.
       ensure present ''pilot_cross_reference_mismatch'' (label @ '': '' @ name))) () names"

text \<open>\<open>int(text, 16)\<close>: blanks around, a sign, the prefix \<open>0x\<close>, digits with single underscores between.\<close>

fun parse_hex :: "nat \<Rightarrow> bool \<Rightarrow> string \<Rightarrow> nat option" where
  "parse_hex n after [] = (if after then Some n else None)"
| "parse_hex n after (c # s) =
     (case hex_val c of
        Some d \<Rightarrow> parse_hex (16 * n + d) True s
      | None \<Rightarrow> if c = CHR ''_'' \<and> after \<and> s \<noteq> [] then parse_hex n False s else None)"

definition hex_body :: "string \<Rightarrow> nat option" where
  "hex_body t =
     (if length t \<ge> 2 \<and> hd t = CHR ''0'' \<and> t ! 1 \<in> {CHR ''x'', CHR ''X''}
      then parse_hex 0 False (case drop 2 t of c # s \<Rightarrow> if c = CHR ''_'' then s else c # s | [] \<Rightarrow> [])
      else parse_hex 0 False t)"

definition py_int16 :: "json \<Rightarrow> int res" where
  "py_int16 v =
     (case v of
        JStr s \<Rightarrow>
          (let t = py_strip s;
               signed = (case t of c # r \<Rightarrow> if c = CHR ''-'' then (- 1, r) else if c = CHR ''+'' then (1, r) else (1, t) | [] \<Rightarrow> (1, t)) in
           case hex_body (snd signed) of Some n \<Rightarrow> Inr (fst signed * int n) | None \<Rightarrow> Inl ValueError)
      | _ \<Rightarrow> Inl TypeError)"

definition VOTE_KEYS :: "string list" where
  "VOTE_KEYS = [''witness'', ''proposal_id'', ''support'', ''reason_hash'', ''payload_hash'', ''nonce'', ''deadline'', ''v'', ''r'', ''s'']"

definition vote_document :: "json \<Rightarrow> string \<Rightarrow> json \<Rightarrow> json res" where
  "vote_document chain witness approval =
     bindE (jitem chain ''chain_id'') (\<lambda>chain_id.
     bindE (jitem chain ''witness_dao'') (\<lambda>dao.
     bindE (mapE (jitem approval) [''proposal_id'', ''support'', ''reason_hash'', ''payload_hash'', ''nonce'', ''deadline'']) (\<lambda>xs.
     Inr (JObj ([(''chain_id'', chain_id), (''verifying_contract'', dao), (''witness'', JStr witness)] @
       zip [''proposal_id'', ''support'', ''reason_hash'', ''payload_hash'', ''nonce'', ''deadline''] xs)))))"

definition vote_signer :: "ext \<Rightarrow> json \<Rightarrow> json \<Rightarrow> string res" where
  "vote_signer E typed approval =
     catchE
       (bindE (int_item approval ''v'') (\<lambda>v.
        bindE (bindE (jitem approval ''r'') py_int16) (\<lambda>r.
        bindE (bindE (jitem approval ''s'') py_int16) (\<lambda>s.
        recover_vrs E typed v r s))))
       is_value_error (\<lambda>_. le_error ''invalid_signature'' ''vote approval'')"

definition verify_vote ::
    "ext \<Rightarrow> json \<Rightarrow> json \<Rightarrow> json \<Rightarrow> string list \<Rightarrow> string list \<Rightarrow> json \<Rightarrow> string list res" where
  "verify_vote E v chain proposal witnesses recovered approval =
     bindE (required_keys approval VOTE_KEYS ''vote approval'') (\<lambda>_.
     bindE (same_items approval ''proposal_id'' proposal ''proposal_id'' ''vote proposal'') (\<lambda>_.
     bindE (lower_item approval ''payload_hash'') (\<lambda>a. bindE (lower_item proposal ''payload_hash'') (\<lambda>p.
     bindE (pilot_same (JStr a) (JStr p) ''vote payload'') (\<lambda>_.
     bindE (addr_item E approval ''witness'') (\<lambda>witness.
     bindE (ensure (witness \<in> set witnesses \<and> witness \<notin> set recovered) ''invalid_vote_membership'' witness) (\<lambda>_.
     bindE (jitem approval ''support'') (\<lambda>support.
     bindE (if is_falsy support then Inr False
            else bindE (int_item approval ''deadline'') (\<lambda>deadline.
                 bindE (int_item v ''verified_at'') (\<lambda>verified_at. Inr (verified_at \<le> deadline)))) (\<lambda>valid.
     bindE (ensure valid ''invalid_vote_approval'' witness) (\<lambda>_.
     bindE (vote_document chain witness approval) (\<lambda>document.
     bindE (build_vote_typed_data E document) (\<lambda>typed.
     bindE (vote_signer E typed approval) (\<lambda>signer.
     bindE (to_checksum_address E (JStr signer)) (\<lambda>s.
     bindE (ensure (s = witness) ''invalid_signature'' ''vote approval signer'') (\<lambda>_.
     Inr (recovered @ [witness]))))))))))))))))"

definition verify_votes :: "ext \<Rightarrow> json \<Rightarrow> string list res" where
  "verify_votes E v =
     bindE (jitem v ''proposal'') (\<lambda>proposal.
     bindE (jitem v ''chain'') (\<lambda>chain.
     bindE (required_keys proposal [''proposal_id'', ''payload_hash'', ''total_votes'', ''support_votes''] ''proposal'') (\<lambda>_.
     bindE (list_item chain ''witnesses'') (\<lambda>ws.
     bindE (mapE (to_checksum_address E) ws) (\<lambda>witnesses.
     bindE (list_item v ''vote_approvals'') (\<lambda>approvals.
     bindE (foldE (verify_vote E v chain proposal witnesses) [] approvals) (\<lambda>recovered.
     bindE (int_item chain ''min_valid_votes'') (\<lambda>minimum.
     bindE (ensure (minimum \<le> int (length recovered)) ''vote_quorum_missing''
              (dec_nat (length recovered) @ '' < '' @ py_str_int minimum)) (\<lambda>_.
     bindE (int_item proposal ''total_votes'') (\<lambda>total.
     bindE (pilot_same (JInt total) (JInt (int (length recovered))) ''proposal total votes'') (\<lambda>_.
     bindE (int_item proposal ''support_votes'') (\<lambda>support.
     bindE (pilot_same (JInt support) (JInt (int (length recovered))) ''proposal support votes'') (\<lambda>_.
     Inr recovered)))))))))))))"

section \<open>Transactions and contracts\<close>

definition CONTRACT_POINTERS :: "(string \<times> string) list" where
  "CONTRACT_POINTERS = [(''registry'', ''SkillRegistry''), (''witness_dao'', ''WitnessDAO''), (''public_sink'', ''PublicSink'')]"

definition TRANSACTION_ACTIONS :: "(string \<times> string \<times> string) list" where
  "TRANSACTION_ACTIONS = [
     (''publishRelease'', ''SkillRegistry'', ''publishRelease(bytes32,bytes32,bytes32,bytes32,bytes32)''),
     (''setCurrentVersion'', ''SkillRegistry'', ''setCurrentVersion(bytes32,bytes32)''),
     (''batchRegister'', ''WitnessDAO'', ''batchRegister((address,uint256,uint256,uint8,bytes32,bytes32)[])''),
     (''scheduleBroadcast'', ''CorporateSink'', ''scheduleBroadcast(uint256,bytes32)''),
     (''proposeUserCount'', ''WitnessDAO'', ''proposeUserCount(uint256,bytes32)''),
     (''batchVote'', ''WitnessDAO'', ''batchVote((address,uint256,bool,bytes32,bytes32,uint256,uint256,'' @ ''uint8,bytes32,bytes32)[])'')]"

definition verify_transactions_and_code_inventory :: "ext \<Rightarrow> json \<Rightarrow> unit res" where
  "verify_transactions_and_code_inventory E v =
     bindE (list_item v ''transaction_receipts'') (\<lambda>transactions.
     bindE (mapE (\<lambda>item. lower_item item ''transaction_hash'') transactions) (\<lambda>hashes.
     bindE (ensure (distinct hashes) ''duplicate_transaction'' ''transaction hash'') (\<lambda>_.
     bindE (foldE (\<lambda>_ item. bindE (jitem item ''action'') (\<lambda>action.
              bindE (in_set action (map (\<lambda>a. JStr (fst a)) TRANSACTION_ACTIONS)) (\<lambda>known.
              ensure known ''unsupported_transaction_action'' (py_str action)))) () transactions) (\<lambda>_.
     bindE (bindE (jitem v ''contract_code_hashes'') jkeys) (\<lambda>coded.
     bindE (jitem v ''chain'') (\<lambda>chain.
     bindE (jitem chain ''contracts'') (\<lambda>contracts.
     bindE (jkeys contracts) (\<lambda>names.
     bindE (ensure (set coded = set names) ''pilot_cross_reference_mismatch'' ''contract code inventory'') (\<lambda>_.
     foldE (\<lambda>_ (fld, contract_name).
       bindE (jin contracts contract_name) (\<lambda>present.
       bindE (ensure present ''pilot_cross_reference_mismatch'' (''missing '' @ contract_name @ '' contract'')) (\<lambda>_.
       same_addresses E chain fld contracts contract_name (''chain '' @ fld @ ''/'' @ contract_name)))) () CONTRACT_POINTERS)))))))))"

section \<open>The record against a chain\<close>

definition VOTE_ACCEPTED_SIGNATURE :: string where
  "VOTE_ACCEPTED_SIGNATURE = ''VoteAccepted(uint256,address,bool,bytes32)''"

definition to_hex :: "string \<Rightarrow> string" where
  "to_hex bs = ''0x'' @ concat (map (\<lambda>c. [hex_digit (ord_char c div 16), hex_digit (ord_char c mod 16)]) bs)"

definition int_from_bytes :: "string \<Rightarrow> int" where
  "int_from_bytes bs = foldl (\<lambda>n c. 256 * n + int (ord_char c)) 0 bs"

definition verify_transaction_call :: "ext \<Rightarrow> chain_tx \<Rightarrow> string \<Rightarrow> json \<Rightarrow> unit res" where
  "verify_transaction_call E transaction action contracts =
     (case map_of TRANSACTION_ACTIONS action of
        None \<Rightarrow> le_error ''unsupported_transaction_action'' action
      | Some (contract_name, signature) \<Rightarrow>
          bindE (catchE (jitem contracts contract_name) (\<lambda>e. e = KeyError)
                   (\<lambda>_. le_error ''unsupported_transaction_action'' action)) (\<lambda>expected_target.
          bindE (ensure (tx_to transaction \<noteq> JNull) ''pilot_cross_reference_mismatch'' (action @ '' transaction target'')) (\<lambda>_.
          bindE (to_checksum_address E (tx_to transaction)) (\<lambda>target.
          bindE (to_checksum_address E expected_target) (\<lambda>expected.
          bindE (pilot_same (JStr target) (JStr expected) (action @ '' transaction target'')) (\<lambda>_.
          ensure (starts_with (py_lower (tx_input transaction)) (selector_of E signature))
            ''pilot_cross_reference_mismatch'' (action @ '' transaction input'')))))))"

text \<open>One log of a batch of votes: the votes recorded so far, by witness.\<close>

definition record_vote_log ::
    "ext \<Rightarrow> chain_view \<Rightarrow> string \<Rightarrow> (string \<times> int \<times> bool \<times> string) list \<Rightarrow> chain_log \<Rightarrow>
     (string \<times> int \<times> bool \<times> string) list res" where
  "record_vote_log E w dao recorded log =
     bindE (to_checksum_address E (lg_address log)) (\<lambda>address.
     if address \<noteq> dao then Inr recorded
     else case lg_topics log of
       [] \<Rightarrow> Inr recorded
     | topic # topics \<Rightarrow>
         if py_lower (to_hex topic) \<noteq> py_lower (keccak256_hex E VOTE_ACCEPTED_SIGNATURE) then Inr recorded
         else
           (case topics of
              [t1, t2] \<Rightarrow>
                bindE (cv_address_of w (drop (length t2 - 20) t2)) (\<lambda>witness.
                bindE (ensure (map_of recorded witness = None) ''duplicate_vote_event'' witness) (\<lambda>_.
                bindE (cv_decode_vote w (lg_data log)) (\<lambda>(support, reason_hash).
                Inr (recorded @ [(witness, int_from_bytes t1, support, py_lower reason_hash)]))))
            | _ \<Rightarrow> le_error ''pilot_cross_reference_mismatch'' ''VoteAccepted topics''))"

definition verify_batch_vote_logs ::
    "ext \<Rightarrow> chain_view \<Rightarrow> chain_receipt list \<Rightarrow> json \<Rightarrow> string list \<Rightarrow> unit res" where
  "verify_batch_vote_logs E w receipts v vote_signers =
     bindE (list_item v ''vote_approvals'') (\<lambda>approvals.
     bindE (foldE (\<lambda>acc item. bindE (addr_item E item ''witness'') (\<lambda>a. Inr (AList.update a item acc))) [] approvals) (\<lambda>expected.
     bindE (bindE (jitem v ''chain'') (\<lambda>chain. addr_item E chain ''witness_dao'')) (\<lambda>dao.
     bindE (foldE (record_vote_log E w dao) [] (concat (map cr_logs receipts))) (\<lambda>recorded.
     bindE (ensure (set (map fst recorded) = set vote_signers \<and> set (map fst expected) = set vote_signers)
              ''pilot_cross_reference_mismatch'' ''VoteAccepted witnesses'') (\<lambda>_.
     foldE (\<lambda>_ (witness, approval).
       bindE (lookup_address recorded witness) (\<lambda>(proposal_id, support, reason_hash).
       bindE (int_item approval ''proposal_id'') (\<lambda>p.
       bindE (pilot_same (JInt proposal_id) (JInt p) ''VoteAccepted proposal'') (\<lambda>_.
       bindE (jitem approval ''support'') (\<lambda>s.
       bindE (pilot_same (JBool support) (JBool (\<not> is_falsy s)) ''VoteAccepted support'') (\<lambda>_.
       bindE (lower_item approval ''reason_hash'') (\<lambda>r.
       pilot_same (JStr reason_hash) (JStr r) ''VoteAccepted reason hash'')))))))
       () expected)))))"

text \<open>One transaction of the record: its receipt is collected when it is a batch of votes.\<close>

definition verify_rpc_transaction ::
    "ext \<Rightarrow> chain_view \<Rightarrow> json \<Rightarrow> int \<Rightarrow> chain_receipt list \<Rightarrow> json \<Rightarrow> chain_receipt list res" where
  "verify_rpc_transaction E w chain anchor_number batch item =
     bindE (jitem item ''transaction_hash'') (\<lambda>h.
     bindE (cv_receipt w h) (\<lambda>receipt.
     bindE (jitem item ''status'') (\<lambda>status.
     bindE (pilot_same (JStr (py_str_int (cr_status receipt))) status ''transaction status'') (\<lambda>_.
     bindE (jitem item ''block_number'') (\<lambda>number.
     bindE (pilot_same (JStr (py_str_int (cr_block_number receipt))) number ''transaction block'') (\<lambda>_.
     bindE (lower_item item ''block_hash'') (\<lambda>block_hash.
     bindE (pilot_same (JStr (py_lower (cr_block_hash receipt))) (JStr block_hash) ''transaction block hash'') (\<lambda>_.
     bindE (ensure (cr_block_number receipt \<le> anchor_number) ''pilot_cross_reference_mismatch'' ''transaction after anchor'') (\<lambda>_.
     bindE (cv_block w (BlockHash (cr_block_hash receipt))) (\<lambda>_.
     bindE (cv_tx w h) (\<lambda>transaction.
     bindE (jitem item ''action'') (\<lambda>a. bindE (jstr a) (\<lambda>action.
     bindE (jitem chain ''contracts'') (\<lambda>contracts.
     bindE (verify_transaction_call E transaction action contracts) (\<lambda>_.
     Inr (if action = ''batchVote'' then batch @ [receipt] else batch))))))))))))))))"

definition verify_contract_code :: "ext \<Rightarrow> chain_view \<Rightarrow> json \<Rightarrow> int \<Rightarrow> string \<times> json \<Rightarrow> unit res" where
  "verify_contract_code E w v anchor_number = (\<lambda>(name, address).
     bindE (to_checksum_address E address) (\<lambda>a.
     bindE (cv_code w a anchor_number) (\<lambda>code.
     bindE (jitem v ''contract_code_hashes'') (\<lambda>declared.
     bindE (lower_item declared name) (\<lambda>h.
     pilot_same (JStr (py_lower (keccak256_hex E code))) (JStr h) (name @ '' code hash''))))))"

definition verify_dao_state :: "ext \<Rightarrow> chain_view \<Rightarrow> json \<Rightarrow> json \<Rightarrow> int \<Rightarrow> string list \<Rightarrow> unit res" where
  "verify_dao_state E w v chain anchor_number vote_signers =
     bindE (jitem v ''proposal'') (\<lambda>proposal.
     bindE (int_item proposal ''proposal_id'') (\<lambda>proposal_id.
     bindE (addr_item E chain ''witness_dao'') (\<lambda>dao.
     bindE (cv_executed w dao proposal_id anchor_number) (\<lambda>executed.
     bindE (pilot_same (JBool executed) (JBool True) ''proposal executed'') (\<lambda>_.
     bindE (cv_vote_counts w dao proposal_id anchor_number) (\<lambda>(total, support).
     bindE (int_item proposal ''total_votes'') (\<lambda>t.
     bindE (pilot_same (JInt total) (JInt t) ''onchain total votes'') (\<lambda>_.
     bindE (int_item proposal ''support_votes'') (\<lambda>s.
     bindE (pilot_same (JInt support) (JInt s) ''onchain support votes'') (\<lambda>_.
     bindE (cv_payload_hash w dao proposal_id anchor_number) (\<lambda>h.
     bindE (lower_item proposal ''payload_hash'') (\<lambda>p.
     bindE (pilot_same (JStr (py_lower h)) (JStr p) ''onchain proposal payload hash'') (\<lambda>_.
     bindE (cv_min_valid_votes w dao anchor_number) (\<lambda>m.
     bindE (int_item chain ''min_valid_votes'') (\<lambda>minimum.
     bindE (pilot_same (JInt m) (JInt minimum) ''onchain minimum valid votes'') (\<lambda>_.
     foldE (\<lambda>_ witness.
       bindE (cv_registered w dao witness anchor_number) (\<lambda>registered.
       bindE (ensure registered ''witness_not_registered'' witness) (\<lambda>_.
       bindE (cv_has_voted w dao proposal_id witness anchor_number) (\<lambda>voted.
       ensure voted ''witness_vote_not_recorded'' witness)))) () vote_signers))))))))))))))))"

definition verify_rpc :: "ext \<Rightarrow> chain_view \<Rightarrow> json \<Rightarrow> string list \<Rightarrow> unit res" where
  "verify_rpc E w v vote_signers =
     bindE (jitem v ''chain'') (\<lambda>chain.
     chain_guard (
     bindE (verify_release_anchor_rpc E w True v) (\<lambda>anchor_number.
     bindE (list_item v ''transaction_receipts'') (\<lambda>items.
     bindE (foldE (verify_rpc_transaction E w chain anchor_number) [] items) (\<lambda>batch.
     bindE (verify_batch_vote_logs E w batch v vote_signers) (\<lambda>_.
     bindE (jitem chain ''contracts'') (\<lambda>contracts.
     bindE (case contracts of JObj d \<Rightarrow> Inr d | _ \<Rightarrow> Inl AttributeError) (\<lambda>d.
     bindE (foldE (\<lambda>_. verify_contract_code E w v anchor_number) () d) (\<lambda>_.
     bindE (verify_dao_state E w v chain anchor_number vote_signers) (\<lambda>_.
     bindE (addr_item E chain ''public_sink'') (\<lambda>sink.
     bindE (cv_total_uto w sink anchor_number) (\<lambda>total.
     bindE (jitem2 v ''final_state'' ''total_uto'') (\<lambda>declared.
     pilot_same (JStr (py_str_int total)) declared ''PublicSink total UTO'')))))))))))))"

section \<open>The two versions\<close>

definition legacy_result :: "json \<Rightarrow> (string \<times> json) list \<Rightarrow> string \<Rightarrow> bool \<Rightarrow> bool \<Rightarrow> nat \<Rightarrow> json res" where
  "legacy_result v counts level chain_verified trust_bound approvals =
     bindE (jitem v ''run_id'') (\<lambda>run_id.
     bindE (list_item v ''events'') (\<lambda>events.
     bindE (jitem2 v ''final_state'' ''total_uto'') (\<lambda>total.
     Inr (JObj ([(''valid'', JBool True), (''verification_level'', JStr level), (''chain_verified'', JBool chain_verified),
       (''trust_bound'', JBool trust_bound), (''run_id'', run_id), (''event_count'', JInt (int (length events)))] @ counts @
       [(''vote_approvals'', JInt (int approvals)), (''total_uto'', total)])))))"

definition require_truthy :: "json \<Rightarrow> string \<Rightarrow> string \<Rightarrow> string \<Rightarrow> unit res" where
  "require_truthy v part k label =
     bindE (jitem v part) (\<lambda>p. bindE (jget p k) (\<lambda>x. ensure (\<not> is_falsy x) ''pilot_cross_reference_mismatch'' label))"

definition verify_legacy :: "ext \<Rightarrow> json \<Rightarrow> json res" where
  "verify_legacy E v =
     bindE (validate_schema E v ''pilot-transcript-v1.schema.json'') (\<lambda>_.
     bindE (jitem v ''transcript_hash'') (\<lambda>declared. bindE (pilot_transcript_hash E v) (\<lambda>actual.
     bindE (ensure (declared = JStr actual) ''transcript_hash_mismatch'' ''PilotTranscriptV1'') (\<lambda>_.
     bindE (jitem v ''session'') (\<lambda>session.
     bindE (jitem v ''evidence_bundle'') (\<lambda>bundle.
     bindE (jitem v ''observation_set'') (\<lambda>observations.
     bindE (same_items session ''session_id'' bundle ''session_id'' ''session/bundle'') (\<lambda>_.
     bindE (same_items session ''session_id'' observations ''session_id'' ''session/observations'') (\<lambda>_.
     bindE (same_items session ''head_event_hash'' bundle ''head_event_hash'' ''session/bundle head'') (\<lambda>_.
     bindE (same_items session ''head_event_hash'' observations ''head_event_hash'' ''session/observation head'') (\<lambda>_.
     bindE (same_items bundle ''bundle_hash'' observations ''bundle_hash'' ''bundle/observation hash'') (\<lambda>_.
     bindE (jget bundle ''schema_version'') (\<lambda>bv.
     bindE (if bv = JStr ''loveengine.evidence-bundle/2'' then
              bindE (jitem bundle ''bundle_hash'') (\<lambda>x. bindE (evidence_bundle_hash E bundle) (\<lambda>y. pilot_same x (JStr y) ''bundle hash''))
            else Inr ()) (\<lambda>_.
     bindE (jget observations ''schema_version'') (\<lambda>ov.
     bindE (if ov = JStr ''loveengine.observation-set/1'' then
              bindE (jitem observations ''observation_set_hash'') (\<lambda>x. bindE (observation_set_hash E observations) (\<lambda>y.
              pilot_same x (JStr y) ''observation set hash''))
            else Inr ()) (\<lambda>_.
     bindE (verify_event_chain E v False) (\<lambda>_.
     bindE (jitem v ''proposal'') (\<lambda>proposal.
     bindE (list_item v ''vote_approvals'') (\<lambda>approvals.
     bindE (foldE (\<lambda>_ approval.
              bindE (same_items approval ''proposal_id'' proposal ''proposal_id'' ''vote proposal'') (\<lambda>_.
              same_items approval ''payload_hash'' proposal ''payload_hash'' ''vote payload'')) () approvals) (\<lambda>_.
     bindE (require_truthy v ''proposal_gate'' ''ready'' ''gate not ready'') (\<lambda>_.
     bindE (require_truthy v ''final_state'' ''proposal_executed'' ''proposal not executed'') (\<lambda>_.
     bindE (jget_or observations ''receipts'' (JArr [])) (\<lambda>receipts. bindE (jlist receipts) (\<lambda>rs.
     legacy_result v [(''observation_receipts'', JInt (int (length rs)))] ''legacy_consistency'' False False (length approvals)))))))))))))))))))))))))"

definition uses_legacy_review_payload :: "json \<Rightarrow> bool res" where
  "uses_legacy_review_payload v =
     bindE (list_item v ''network_tasks'') (\<lambda>tasks.
     bindE (foldE (\<lambda>acc task. bindE (jget task ''task_type'') (\<lambda>t.
              if t = JStr REVIEW then bindE (jget task ''payload'') (\<lambda>p. Inr (acc @ [is_current_review_payload p]))
              else Inr acc)) [] tasks) (\<lambda>current.
     if current = [] then Inr False
     else bindE (ensure (\<not> (list_ex id current \<and> \<not> list_all id current)) ''mixed_review_evidence_payloads'' []) (\<lambda>_.
          Inr (\<not> list_all id current))))"

text \<open>An RPC URL is given as the answers of its node.\<close>

definition verify_pilot_v2 ::
    "ext \<Rightarrow> chain_view option \<Rightarrow> policy_input option \<Rightarrow> json \<Rightarrow> json res" where
  "verify_pilot_v2 E rpc trust_policy v =
     bindE (validate_schema E v ''pilot-transcript-v2.schema.json'') (\<lambda>_.
     bindE (jitem v ''transcript_hash'') (\<lambda>declared. bindE (pilot_transcript_hash E v) (\<lambda>actual.
     bindE (ensure (declared = JStr actual) ''transcript_hash_mismatch'' ''PilotTranscriptV2'') (\<lambda>_.
     bindE (uses_legacy_review_payload v) (\<lambda>legacy.
     bindE (if legacy then Inr None else load_policy E trust_policy) (\<lambda>policy.
     bindE (case policy of None \<Rightarrow> Inr None | Some p \<Rightarrow> bindE (list_item p ''allowed_issuers'') (\<lambda>xs. Inr (Some xs))) (\<lambda>allowed.
     bindE (verify_witness_evidence_stages E v allowed legacy) (\<lambda>_.
     bindE (verify_votes E v) (\<lambda>vote_signers.
     bindE (verify_transactions_and_code_inventory E v) (\<lambda>_.
     bindE (require_truthy v ''final_state'' ''proposal_executed'' ''proposal not executed'') (\<lambda>_.
     bindE (list_item v ''observation_receipts'') (\<lambda>observed.
     bindE (list_item v ''review_receipts'') (\<lambda>reviewed.
     bindE (list_item v ''vote_approvals'') (\<lambda>approvals.
     let counts = [(''observation_receipts'', JInt (int (length observed))), (''review_receipts'', JInt (int (length reviewed)))] in
     if legacy then legacy_result v counts ''legacy_consistency'' False False (length approvals)
     else
       bindE (case policy of None \<Rightarrow> Inr () | Some p \<Rightarrow> verify_transcript_trust_policy E v p) (\<lambda>_.
       bindE (case rpc of None \<Rightarrow> Inr () | Some w \<Rightarrow> verify_rpc E w v vote_signers) (\<lambda>_.
       let with_chain = (rpc \<noteq> None); trust_bound = (rpc \<noteq> None \<and> policy \<noteq> None) in
       legacy_result v counts (if trust_bound then ''chain_verified'' else if with_chain then ''chain_consistency'' else ''offline_integrity'')
         with_chain trust_bound (length approvals)))))))))))))))))"

definition verify_pilot_transcript ::
    "ext \<Rightarrow> chain_view option \<Rightarrow> policy_input option \<Rightarrow> json \<Rightarrow> json res" where
  "verify_pilot_transcript E rpc trust_policy v =
     bindE (check_secrets v) (\<lambda>_.
     bindE (jget v ''schema_version'') (\<lambda>version.
     if version = JStr ''loveengine.pilot-transcript/1'' then verify_legacy E v
     else if version = JStr ''loveengine.pilot-transcript/2'' then verify_pilot_v2 E rpc trust_policy v
     else le_error ''unsupported_transcript_version'' (py_str version)))"

section \<open>What accepted votes say\<close>

definition vote_by :: "ext \<Rightarrow> json \<Rightarrow> json \<Rightarrow> json \<Rightarrow> json \<Rightarrow> string \<Rightarrow> bool" where
  "vote_by E v chain proposal approval witness \<longleftrightarrow>
     addr_item E approval ''witness'' = Inr witness \<and>
     (\<exists>x y. jitem approval ''proposal_id'' = Inr x \<and> jitem proposal ''proposal_id'' = Inr y \<and> py_eq x y) \<and>
     (\<exists>h. lower_item approval ''payload_hash'' = Inr h \<and> lower_item proposal ''payload_hash'' = Inr h) \<and>
     (\<exists>x. jitem approval ''support'' = Inr x \<and> \<not> is_falsy x) \<and>
     (\<exists>deadline now. int_item approval ''deadline'' = Inr deadline \<and> int_item v ''verified_at'' = Inr now \<and> now \<le> deadline) \<and>
     (\<exists>document typed signer. vote_document chain witness approval = Inr document \<and>
        build_vote_typed_data E document = Inr typed \<and> vote_signer E typed approval = Inr signer \<and>
        checksum_address E (JStr signer) = Inr witness)"

lemma verify_vote_Inr:
  assumes "verify_vote E v chain proposal witnesses recovered approval = Inr recovered'"
  obtains witness where "recovered' = recovered @ [witness]" "witness \<in> set witnesses" "witness \<notin> set recovered"
    "vote_by E v chain proposal approval witness"
proof -
  from assms obtain a p witness support valid document typed signer s where
    1: "same_items approval ''proposal_id'' proposal ''proposal_id'' ''vote proposal'' = Inr ()"
      "lower_item approval ''payload_hash'' = Inr a" "lower_item proposal ''payload_hash'' = Inr p"
      "pilot_same (JStr a) (JStr p) ''vote payload'' = Inr ()"
    and 2: "addr_item E approval ''witness'' = Inr witness" "witness \<in> set witnesses \<and> witness \<notin> set recovered"
      "jitem approval ''support'' = Inr support"
      "(if is_falsy support then Inr False
            else bindE (int_item approval ''deadline'') (\<lambda>deadline.
                 bindE (int_item v ''verified_at'') (\<lambda>verified_at. Inr (verified_at \<le> deadline)))) = Inr valid" valid
    and 3: "vote_document chain witness approval = Inr document" "build_vote_typed_data E document = Inr typed"
      "vote_signer E typed approval = Inr signer" "to_checksum_address E (JStr signer) = Inr s" "s = witness"
      "recovered' = recovered @ [witness]"
    unfolding verify_vote_def by (elim run_elims) (auto simp: unit_eq)
  have v: "\<exists>deadline now. int_item approval ''deadline'' = Inr deadline \<and> int_item v ''verified_at'' = Inr now \<and> now \<le> deadline"
    "\<not> is_falsy support" using 2(4,5) by (auto simp: bindE_Inr_iff split: if_splits)
  have "vote_by E v chain proposal approval witness"
    unfolding vote_by_def
  proof (intro conjI)
    show "\<exists>x y. jitem approval ''proposal_id'' = Inr x \<and> jitem proposal ''proposal_id'' = Inr y \<and> py_eq x y"
      using 1(1) by (auto simp: same_items_def pilot_same_def bindE_Inr_iff ensure_Inr_iff)
    show "\<exists>h. lower_item approval ''payload_hash'' = Inr h \<and> lower_item proposal ''payload_hash'' = Inr h"
      using 1(2-4) by (auto simp: pilot_same_def ensure_Inr_iff)
    show "\<exists>document typed signer. vote_document chain witness approval = Inr document \<and>
        build_vote_typed_data E document = Inr typed \<and> vote_signer E typed approval = Inr signer \<and>
        checksum_address E (JStr signer) = Inr witness"
      using 3 by (auto simp: to_checksum_address_def)
  qed (use 2 v in auto)
  with 2(2) 3(6) that show ?thesis by blast
qed

lemma verify_votes_fold:
  assumes "foldE (verify_vote E v chain proposal witnesses) acc approvals = Inr recovered" "distinct acc"
  shows "\<exists>ws. recovered = acc @ ws \<and> distinct recovered \<and> set ws \<subseteq> set witnesses \<and>
    list_all2 (vote_by E v chain proposal) approvals ws"
  using assms
proof (induction approvals arbitrary: acc)
  case (Cons a approvals)
  from Cons.prems(1) obtain acc' where a: "verify_vote E v chain proposal witnesses acc a = Inr acc'"
    "foldE (verify_vote E v chain proposal witnesses) acc' approvals = Inr recovered" by (auto simp: bindE_Inr_iff)
  from verify_vote_Inr [OF a(1)] obtain w where w: "acc' = acc @ [w]" "w \<in> set witnesses" "w \<notin> set acc"
    "vote_by E v chain proposal a w" by metis
  from Cons.IH [OF a(2)] w Cons.prems(2) obtain ws where
    "recovered = acc' @ ws" "distinct recovered" "set ws \<subseteq> set witnesses" "list_all2 (vote_by E v chain proposal) approvals ws" by auto
  with w show ?case by (intro exI [of _ "w # ws"]) auto
qed simp

lemma verify_votes_Inr:
  assumes "verify_votes E v = Inr recovered"
  obtains proposal chain ws witnesses approvals minimum where
    "jitem v ''proposal'' = Inr proposal" "jitem v ''chain'' = Inr chain"
    "list_item chain ''witnesses'' = Inr ws" "mapE (to_checksum_address E) ws = Inr witnesses"
    "list_item v ''vote_approvals'' = Inr approvals" "distinct recovered" "set recovered \<subseteq> set witnesses"
    "list_all2 (vote_by E v chain proposal) approvals recovered"
    "int_item chain ''min_valid_votes'' = Inr minimum" "minimum \<le> int (length recovered)"
    "int_item proposal ''total_votes'' = Inr (int (length recovered))"
    "int_item proposal ''support_votes'' = Inr (int (length recovered))"
proof -
  from assms obtain proposal chain ws witnesses approvals minimum total support where
    1: "jitem v ''proposal'' = Inr proposal" "jitem v ''chain'' = Inr chain"
      "list_item chain ''witnesses'' = Inr ws" "mapE (to_checksum_address E) ws = Inr witnesses"
      "list_item v ''vote_approvals'' = Inr approvals"
      "foldE (verify_vote E v chain proposal witnesses) [] approvals = Inr recovered"
    and 2: "int_item chain ''min_valid_votes'' = Inr minimum" "minimum \<le> int (length recovered)"
      "int_item proposal ''total_votes'' = Inr total" "pilot_same (JInt total) (JInt (int (length recovered))) ''proposal total votes'' = Inr ()"
      "int_item proposal ''support_votes'' = Inr support"
      "pilot_same (JInt support) (JInt (int (length recovered))) ''proposal support votes'' = Inr ()"
    unfolding verify_votes_def by (elim run_elims) (auto simp: unit_eq)
  have "total = int (length recovered)" "support = int (length recovered)"
    using 2(4,6) by (simp_all add: pilot_same_def ensure_Inr_iff py_eq_def)
  with 1 2 verify_votes_fold [OF 1(6)] that show ?thesis by auto
qed

end
