(* ===== verification/PilotEndpoints.thy ===== *)
theory PilotEndpoints
  imports TrustPolicy
begin

text \<open>
  \<^verbatim>\<open>rpc_endpoints.py\<close> and the origins and invites of \<^verbatim>\<open>pilot_config.py\<close>: which URLs of RPC nodes
  and of the two surfaces of a pilot are accepted, and the invite that names the surface of the
  participants. A file is the text it holds, read as in \<open>Hashes\<close>.
\<close>

definition SEPOLIA_CHAIN_ID :: string where "SEPOLIA_CHAIN_ID = ''11155111''"
definition LOCAL_ANVIL_CHAIN_ID :: string where "LOCAL_ANVIL_CHAIN_ID = ''31337''"
definition LOOPBACK_HOSTS :: "string list" where "LOOPBACK_HOSTS = [''127.0.0.1'', ''::1'', ''localhost'']"

section \<open>Parts of a parsed URL\<close>

text \<open>\<open>parsed.hostname\<close>, with the empty string for \<open>None\<close>: the zone of an address keeps its case.\<close>

definition url_hostname :: "split_result \<Rightarrow> string" where
  "url_hostname p =
     (case partition_at CHR ''%'' (fst (host_port (sr_netloc p))) of (a, found, zone) \<Rightarrow>
        py_lower a @ (if found then CHR ''%'' # zone else []))"

definition split_port :: "split_result \<Rightarrow> nat option res" where
  "split_port p = url_port (snd (host_port (sr_netloc p)))"

text \<open>\<open>parsed.username is not None or parsed.password is not None\<close>.\<close>

definition has_userinfo :: "split_result \<Rightarrow> bool" where
  "has_userinfo p \<longleftrightarrow> CHR ''@'' \<in> set (sr_netloc p)"

section \<open>RPC endpoints\<close>

definition parsed_endpoint :: "ext \<Rightarrow> string \<Rightarrow> string \<Rightarrow> string \<Rightarrow> split_result res" where
  "parsed_endpoint E v chain_id label =
     bindE (catchE (bindE (urlsplit E v) (\<lambda>p. bindE (split_port p) (\<lambda>_. Inr p))) is_value_error
              (\<lambda>_. le_error ''rpc_endpoint_invalid'' label)) (\<lambda>p.
     bindE (ensure (\<not> (url_hostname p = [] \<or> has_userinfo p \<or> sr_fragment p \<noteq> [])) ''rpc_endpoint_invalid'' label) (\<lambda>_.
     bindE (if chain_id = SEPOLIA_CHAIN_ID then
              ensure (sr_scheme p = ''https'') ''rpc_endpoint_invalid'' (label @ '':https required'')
            else if chain_id = LOCAL_ANVIL_CHAIN_ID then
              ensure (sr_scheme p = ''http'' \<and> url_hostname p \<in> set LOOPBACK_HOSTS \<and> sr_query p = [])
                ''rpc_endpoint_invalid'' (label @ '':loopback required'')
            else ensure (sr_scheme p \<in> {''http'', ''https''}) ''rpc_endpoint_invalid'' label) (\<lambda>_.
     Inr p)))"

text \<open>The file, when one is named, is what \<open>read_restricted_text_file\<close> returned; \<open>None\<close> is \<open>None\<close>,
  and an empty URL counts as absent.\<close>

definition resolve_rpc_endpoint ::
    "ext \<Rightarrow> string option \<Rightarrow> string res option \<Rightarrow> string \<Rightarrow> string \<Rightarrow> bool \<Rightarrow> string option res" where
  "resolve_rpc_endpoint E direct_url url_file chain_id label required =
     (let direct = (direct_url \<noteq> None \<and> direct_url \<noteq> Some []) in
     bindE (ensure (\<not> (direct \<and> url_file \<noteq> None)) ''rpc_endpoint_ambiguous'' (label @ '' URL and file are mutually exclusive'')) (\<lambda>_.
     bindE (ensure (\<not> (chain_id = SEPOLIA_CHAIN_ID \<and> direct)) ''rpc_url_file_required''
              (''Sepolia '' @ label @ '' RPC must be loaded from a restricted file'')) (\<lambda>_.
     bindE (case url_file of Some r \<Rightarrow> bindE r (\<lambda>t. Inr (Some t)) | None \<Rightarrow> Inr direct_url) (\<lambda>v.
     let present = (v \<noteq> None \<and> v \<noteq> Some []) in
     bindE (ensure (\<not> (required \<and> \<not> present)) ''rpc_endpoint_required'' label) (\<lambda>_.
     bindE (case v of Some t \<Rightarrow> if t = [] then Inr () else bindE (parsed_endpoint E t chain_id label) (\<lambda>_. Inr ())
            | None \<Rightarrow> Inr ()) (\<lambda>_.
     Inr v))))))"

definition validate_rpc_pair ::
    "ext \<Rightarrow> string option \<Rightarrow> string option \<Rightarrow> string \<Rightarrow> bool \<Rightarrow> unit res" where
  "validate_rpc_pair E primary secondary chain_id require_secondary =
     (case primary of
        None \<Rightarrow> le_error ''rpc_endpoint_required'' ''primary''
      | Some p \<Rightarrow>
          bindE (ensure (p \<noteq> []) ''rpc_endpoint_required'' ''primary'') (\<lambda>_.
          bindE (parsed_endpoint E p chain_id ''primary'') (\<lambda>first.
          let given = (secondary \<noteq> None \<and> secondary \<noteq> Some []) in
          bindE (ensure (\<not> (require_secondary \<and> \<not> given)) ''two_rpc_endpoints_required'' ''secondary'') (\<lambda>_.
          case secondary of
            None \<Rightarrow> Inr ()
          | Some s \<Rightarrow>
              if s = [] then Inr ()
              else
                bindE (parsed_endpoint E s chain_id ''secondary'') (\<lambda>second.
                if chain_id = SEPOLIA_CHAIN_ID then
                  ensure (py_lower (url_hostname first) \<noteq> py_lower (url_hostname second)) ''distinct_rpc_origins_required''
                    ''Sepolia RPC endpoints must use different hostnames''
                else ensure (p \<noteq> s) ''distinct_rpc_origins_required'' ''RPC endpoints must differ'')))))"

section \<open>Origins of a pilot (pilot\_config.py)\<close>

text \<open>What \<open>urlsplit\<close> makes of a value: falsy values are taken as \<open>""\<close>, others are not strings.\<close>

definition origin_text :: "json \<Rightarrow> string res" where
  "origin_text v = (case v of JStr s \<Rightarrow> Inr s | _ \<Rightarrow> if is_falsy v then Inr [] else Inl AttributeError)"

definition bare_origin :: "split_result \<Rightarrow> bool" where
  "bare_origin p \<longleftrightarrow> \<not> has_userinfo p \<and> sr_path p = [] \<and> sr_query p = [] \<and> sr_fragment p = []"

definition validate_admin_origin :: "ext \<Rightarrow> json \<Rightarrow> json res" where
  "validate_admin_origin E v =
     bindE (catchE
       (bindE (origin_text v) (\<lambda>t. bindE (urlsplit E t) (\<lambda>p.
        if \<not> (sr_scheme p \<in> {''http'', ''https''} \<and> url_hostname p \<in> {''127.0.0.1'', ''localhost'', ''::1''} \<and> bare_origin p)
        then Inl ValueError
        else bindE (split_port p) (\<lambda>_. Inr ()))))
       is_value_error (\<lambda>_. le_error ''invalid_admin_origin'' [])) (\<lambda>_. Inr v)"

definition ends_with :: "string \<Rightarrow> string \<Rightarrow> bool" where
  "ends_with s t \<longleftrightarrow> length t \<le> length s \<and> drop (length s - length t) s = t"

definition validate_participant_origin :: "ext \<Rightarrow> json \<Rightarrow> json res" where
  "validate_participant_origin E v =
     bindE (catchE
       (bindE (origin_text v) (\<lambda>t. bindE (urlsplit E t) (\<lambda>p.
        let h = url_hostname p in
        if \<not> (sr_scheme p = ''https'' \<and> h \<noteq> [] \<and> ends_with h ''.ts.net'' \<and> 3 \<le> length (filter (\<lambda>c. c = CHR ''.'') h))
        then Inl ValueError
        else bindE (split_port p) (\<lambda>port.
          if \<not> (port \<in> {None, Some 443} \<and> bare_origin p) then Inl ValueError else Inr ()))))
       is_value_error (\<lambda>_. le_error ''invalid_participant_origin'' [])) (\<lambda>_. Inr v)"

definition validate_participant_v2_origin :: "ext \<Rightarrow> json \<Rightarrow> json \<Rightarrow> json res" where
  "validate_participant_v2_origin E v chain_id =
     (if py_str chain_id = ''11155111'' then validate_participant_origin E v
      else if py_str chain_id = ''31337'' then validate_admin_origin E v
      else le_error ''unsupported_pilot_chain'' [])"

section \<open>Invites\<close>

text \<open>\<open>"wss" if parsed.scheme == "https" else "ws"\<close>, with the path of the relay.\<close>

definition relay_url_of :: "split_result \<Rightarrow> string" where
  "relay_url_of p = (if sr_scheme p = ''https'' then ''wss'' else ''ws'') @ ''://'' @ sr_netloc p @ ''/v1/ws''"

definition validate_pilot_invite_v2 :: "ext \<Rightarrow> json \<Rightarrow> int option \<Rightarrow> json res" where
  "validate_pilot_invite_v2 E v current_time =
     bindE (jget v ''schema_version'') (\<lambda>version.
     bindE (ensure (version = JStr ''loveengine.pilot-invite/2'') ''unsupported_schema_version'' (py_str version)) (\<lambda>_.
     bindE (validate_schema E v ''pilot-invite-v2.schema.json'') (\<lambda>_.
     bindE (jitem v ''participant_url'') (\<lambda>u. bindE (jitem v ''chain_id'') (\<lambda>chain_id.
     bindE (validate_participant_v2_origin E u chain_id) (\<lambda>participant.
     bindE (jstr participant) (\<lambda>base.
     bindE (urlsplit E base) (\<lambda>p.
     bindE (jitem v ''dashboard_url'') (\<lambda>dashboard.
     bindE (ensure (dashboard = JStr (base @ ''/demo/'')) ''invalid_pilot_invite'' []) (\<lambda>_.
     bindE (jitem v ''relay_url'') (\<lambda>relay.
     bindE (ensure (relay = JStr (relay_url_of p)) ''invalid_pilot_invite'' []) (\<lambda>_.
     bindE (int_item v ''expires_at'') (\<lambda>expires.
     bindE (int_item v ''issued_at'') (\<lambda>issued.
     bindE (ensure (issued < expires) ''invalid_pilot_invite'' []) (\<lambda>_.
     bindE (case current_time of None \<Rightarrow> Inr ()
            | Some now \<Rightarrow> ensure (issued \<le> now \<and> now < expires) ''pilot_invite_expired'' []) (\<lambda>_.
     Inr v))))))))))))))))"

definition build_pilot_invite_v2 ::
    "ext \<Rightarrow> json \<Rightarrow> json \<Rightarrow> json \<Rightarrow> json \<Rightarrow> json \<Rightarrow> json \<Rightarrow> json \<Rightarrow> json \<Rightarrow> json res" where
  "build_pilot_invite_v2 E participant_url chain_id registry publisher version package_hash issued_at expires_at =
     bindE (validate_participant_v2_origin E participant_url (JStr (py_str chain_id))) (\<lambda>u.
     bindE (jstr u) (\<lambda>base.
     bindE (urlsplit E base) (\<lambda>p.
     bindE (jlower package_hash) (\<lambda>package.
     validate_pilot_invite_v2 E
       (JObj [(''schema_version'', JStr ''loveengine.pilot-invite/2''), (''participant_url'', JStr base),
         (''dashboard_url'', JStr (base @ ''/demo/'')), (''relay_url'', JStr (relay_url_of p)),
         (''chain_id'', JStr (py_str chain_id)), (''registry'', registry), (''publisher'', publisher),
         (''skill_id'', JStr ''loveengine-witness''), (''version'', version), (''package_hash'', JStr package),
         (''issued_at'', JStr (py_str issued_at)), (''expires_at'', JStr (py_str expires_at))]) None))))"

text \<open>Version 1: only trailing slashes are removed from the base URL.\<close>

definition rstrip_slash :: "string \<Rightarrow> string" where
  "rstrip_slash s = rev (dropWhile (\<lambda>c. c = CHR ''/'') (rev s))"

definition build_pilot_invite :: "string \<Rightarrow> json \<Rightarrow> json \<Rightarrow> json \<Rightarrow> json \<Rightarrow> json \<Rightarrow> json" where
  "build_pilot_invite base_url chain_id registry publisher version package_hash =
     (let base = rstrip_slash base_url in
      JObj [(''schema_version'', JStr ''loveengine.pilot-invite/1''), (''server_url'', JStr base),
        (''operator_url'', JStr (base @ ''/operator/'')), (''dashboard_url'', JStr (base @ ''/demo/'')),
        (''relay_url'', JStr (base @ ''/v1/ws'')), (''chain_id'', chain_id), (''registry'', registry),
        (''publisher'', publisher), (''skill_id'', JStr ''loveengine-witness''), (''version'', version),
        (''package_hash'', package_hash)])"

section \<open>Facts\<close>

text \<open>An endpoint that passed: its host, and what its chain asks of it.\<close>

definition endpoint_ok :: "split_result \<Rightarrow> string \<Rightarrow> bool" where
  "endpoint_ok p chain_id \<longleftrightarrow>
     url_hostname p \<noteq> [] \<and> \<not> has_userinfo p \<and> sr_fragment p = [] \<and> sr_scheme p \<in> {''http'', ''https''} \<and>
     (chain_id = SEPOLIA_CHAIN_ID \<longrightarrow> sr_scheme p = ''https'') \<and>
     (chain_id = LOCAL_ANVIL_CHAIN_ID \<longrightarrow> sr_scheme p = ''http'' \<and> url_hostname p \<in> set LOOPBACK_HOSTS \<and> sr_query p = [])"

lemma parsed_endpoint_Inr_iff:
  "parsed_endpoint E v chain_id label = Inr p \<longleftrightarrow>
     urlsplit E v = Inr p \<and> (\<exists>n. split_port p = Inr n) \<and> endpoint_ok p chain_id"
  by (auto simp: parsed_endpoint_def endpoint_ok_def bindE_Inr_iff catchE_raise_Inr_iff ensure_Inr_iff
      SEPOLIA_CHAIN_ID_def LOCAL_ANVIL_CHAIN_ID_def split: if_splits)

lemma validate_rpc_pair_two:
  assumes "validate_rpc_pair E primary secondary chain_id True = Inr u"
  obtains p s first second where "primary = Some p" "secondary = Some s"
    "urlsplit E p = Inr first" "urlsplit E s = Inr second" "endpoint_ok first chain_id" "endpoint_ok second chain_id"
    "if chain_id = SEPOLIA_CHAIN_ID then py_lower (url_hostname first) \<noteq> py_lower (url_hostname second) else p \<noteq> s"
proof -
  from assms obtain p where p: "primary = Some p" by (cases primary) (auto simp: validate_rpc_pair_def)
  from assms have "secondary \<noteq> None \<and> secondary \<noteq> Some []"
    by (auto simp: validate_rpc_pair_def p bindE_Inr_iff ensure_Inr_iff)
  then obtain s where s: "secondary = Some s" "s \<noteq> []" by auto
  from assms s obtain first second where "parsed_endpoint E p chain_id ''primary'' = Inr first"
    "parsed_endpoint E s chain_id ''secondary'' = Inr second"
    "if chain_id = SEPOLIA_CHAIN_ID then py_lower (url_hostname first) \<noteq> py_lower (url_hostname second) else p \<noteq> s"
    by (auto simp: validate_rpc_pair_def p bindE_Inr_iff ensure_Inr_iff split: if_splits)
  with p s that show ?thesis by (auto simp: parsed_endpoint_Inr_iff)
qed

lemma v2_origin_Inr: "validate_participant_v2_origin E v c = Inr w \<Longrightarrow> w = v"
  by (auto simp: validate_participant_v2_origin_def validate_participant_origin_def validate_admin_origin_def
      bindE_Inr_iff split: if_splits)

lemma validate_pilot_invite_v2_now:
  "validate_pilot_invite_v2 E v (Some now) = Inr w \<longleftrightarrow>
     validate_pilot_invite_v2 E v None = Inr w \<and>
     (\<exists>i x. int_item v ''issued_at'' = Inr i \<and> int_item v ''expires_at'' = Inr x \<and> i \<le> now \<and> now < x)"
  unfolding validate_pilot_invite_v2_def bindE_Inr_iff ensure_Inr_iff option.case by fastforce

lemma validate_pilot_invite_v2_Inr:
  assumes "validate_pilot_invite_v2 E v current_time = Inr w"
  obtains u chain_id base p where "w = v" "jitem v ''participant_url'' = Inr u" "jitem v ''chain_id'' = Inr chain_id"
    "validate_participant_v2_origin E u chain_id = Inr (JStr base)" "urlsplit E base = Inr p"
    "jitem v ''dashboard_url'' = Inr (JStr (base @ ''/demo/''))" "jitem v ''relay_url'' = Inr (JStr (relay_url_of p))"
proof -
  from assms obtain u chain_id participant base p dashboard relay where
    "jitem v ''participant_url'' = Inr u" "jitem v ''chain_id'' = Inr chain_id"
    "validate_participant_v2_origin E u chain_id = Inr participant" "jstr participant = Inr base" "urlsplit E base = Inr p"
    "jitem v ''dashboard_url'' = Inr dashboard" "dashboard = JStr (base @ ''/demo/'')"
    "jitem v ''relay_url'' = Inr relay" "relay = JStr (relay_url_of p)" "Inr v = (Inr w :: json res)"
    unfolding validate_pilot_invite_v2_def by (elim run_elims)
  with that show ?thesis by (simp add: jstr_Inr_iff)
qed

text \<open>A built invite validates again at any time of its window.\<close>

lemma built_invite_valid:
  assumes b: "build_pilot_invite_v2 E participant_url chain_id registry publisher version package_hash (JInt i) (JInt x) = Inr v"
    and "i \<le> now" "now < x"
  shows "validate_pilot_invite_v2 E v (Some now) = Inr v"
proof -
  from b obtain d where 1: "validate_pilot_invite_v2 E (JObj d) None = Inr v"
    and 2: "map_of d ''issued_at'' = Some (JStr (py_str_int i))" "map_of d ''expires_at'' = Some (JStr (py_str_int x))"
    unfolding build_pilot_invite_v2_def by (elim run_elims) (rule that, assumption, simp_all)
  then have "v = JObj d" by (elim validate_pilot_invite_v2_Inr) simp
  with 1 2 assms(2,3) show ?thesis
    by (simp add: validate_pilot_invite_v2_now int_item_def del: py_int_simps(3))
qed

end
