(* ===== verification/CoreTranscript.thy ===== *)
theory CoreTranscript
  imports PilotTranscript PilotEndpoints
begin

text \<open>
  \<^verbatim>\<open>core_transcript.py\<close>: the verification of the record of a run from release to gate. Version 2 adds
  the evidence on the signers, one signed declaration for each participant, and the comparison of two
  providers' views of the release. An RPC endpoint is its URL with the answers of its node.
\<close>

definition core_transcript_hash :: "ext \<Rightarrow> json \<Rightarrow> string res" where
  "core_transcript_hash E v =
     bindE (jpop v ''transcript_hash'') (\<lambda>view. Inr (sha256_prefixed E (canonical_json_bytes view)))"

definition public_service_config_hash :: "ext \<Rightarrow> json \<Rightarrow> string res" where
  "public_service_config_hash E v =
     bindE (jpop v ''config_hash'') (\<lambda>view.
     bindE (check_secrets view) (\<lambda>_. Inr (payload_hash E view)))"

definition level_of :: "bool \<Rightarrow> bool \<Rightarrow> string" where
  "level_of trust_bound consistency =
     (if trust_bound then ''chain_verified'' else if consistency then ''chain_consistency'' else ''offline_integrity'')"

text \<open>\<open>checked\<close> is \<open>None\<close> for version 1.\<close>

definition verification_result :: "json \<Rightarrow> bool \<Rightarrow> bool \<Rightarrow> bool option \<Rightarrow> dict res" where
  "verification_result v with_rpc with_policy checked =
     (let consistency = (case checked of None \<Rightarrow> with_rpc | Some c \<Rightarrow> c);
          trust_bound = (consistency \<and> with_policy) in
     bindE (jitem v ''run_id'') (\<lambda>run_id.
     bindE (jitem v ''environment'') (\<lambda>environment.
     bindE (jitem v ''actors_simulated'') (\<lambda>simulated.
     bindE (list_item v ''events'') (\<lambda>events.
     bindE (list_item v ''observation_receipts'') (\<lambda>observed.
     bindE (list_item v ''review_receipts'') (\<lambda>reviewed.
     bindE (bindE (jitem v ''proposal_gate'') (\<lambda>g. jget g ''ready'')) (\<lambda>ready.
     Inr ([(''valid'', JBool True), (''verification_level'', JStr (level_of trust_bound consistency)),
       (''chain_verified'', JBool (if checked = None then with_rpc else trust_bound)), (''trust_bound'', JBool trust_bound),
       (''run_id'', run_id), (''environment'', environment), (''actors_simulated'', simulated),
       (''event_count'', JInt (int (length events))), (''observation_receipts'', JInt (int (length observed))),
       (''review_receipts'', JInt (int (length reviewed))), (''gate_ready'', JBool (\<not> is_falsy ready))] @
       (case checked of None \<Rightarrow> [] | Some c \<Rightarrow> [(''chain_consistency_checked'', JBool c)]))))))))))"

text \<open>\<open>policy["allowed_issuers"] if policy is not None else None\<close>.\<close>

definition policy_allowed :: "json option \<Rightarrow> json list option res" where
  "policy_allowed policy =
     (case policy of None \<Rightarrow> Inr None | Some p \<Rightarrow> bindE (list_item p ''allowed_issuers'') (\<lambda>xs. Inr (Some xs)))"

type_synonym endpoint = "string \<times> chain_view"

text \<open>\<open>if rpc_url\<close>: an empty URL is none.\<close>

definition given :: "endpoint option \<Rightarrow> bool" where
  "given r \<longleftrightarrow> (case r of None \<Rightarrow> False | Some (u, _) \<Rightarrow> u \<noteq> [])"

definition verify_core_v1 :: "ext \<Rightarrow> endpoint option \<Rightarrow> policy_input option \<Rightarrow> json \<Rightarrow> json res" where
  "verify_core_v1 E rpc trust_policy v =
     bindE (validate_schema E v ''witness-core-transcript-v1.schema.json'') (\<lambda>_.
     bindE (jitem v ''transcript_hash'') (\<lambda>declared. bindE (core_transcript_hash E v) (\<lambda>actual.
     bindE (ensure (declared = JStr actual) ''transcript_hash_mismatch'' ''WitnessCoreTranscriptV1'') (\<lambda>_.
     bindE (load_policy E trust_policy) (\<lambda>policy.
     bindE (policy_allowed policy) (\<lambda>allowed.
     bindE (verify_witness_evidence_stages E v allowed False) (\<lambda>_.
     bindE (case policy of None \<Rightarrow> Inr () | Some p \<Rightarrow> verify_transcript_trust_policy E v p) (\<lambda>_.
     bindE (case rpc of
              Some (u, w) \<Rightarrow> if u = [] then Inr () else bindE (verify_release_anchor_rpc E w True v) (\<lambda>_. Inr ())
            | None \<Rightarrow> Inr ()) (\<lambda>_.
     bindE (verification_result v (given rpc) (policy \<noteq> None) None) (\<lambda>d. Inr (JObj d)))))))))))"

section \<open>Signers\<close>

text \<open>The evidence by address.\<close>

definition signer_item :: "ext \<Rightarrow> (string \<times> json) list \<Rightarrow> json \<Rightarrow> (string \<times> json) list res" where
  "signer_item E evidence item =
     bindE (addr_item E item ''address'') (\<lambda>address.
     bindE (ensure (map_of evidence address = None) ''duplicate_signer_evidence'' address) (\<lambda>_.
     Inr (evidence @ [(address, item)])))"

definition require_role :: "(string \<times> string list) list \<Rightarrow> string \<Rightarrow> string \<Rightarrow> (string \<times> string list) list" where
  "require_role required address role =
     AList.update address (List.insert role (case map_of required address of Some roles \<Rightarrow> roles | None \<Rightarrow> [])) required"

definition required_roles :: "ext \<Rightarrow> json \<Rightarrow> string list \<Rightarrow> (string \<times> string list) list res" where
  "required_roles E v participant_nodes =
     bindE (jitem v ''chain'') (\<lambda>chain.
     bindE (addr_item E chain ''publisher'') (\<lambda>publisher.
     bindE (list_item v ''network_tasks'') (\<lambda>tasks.
     bindE (mapE (\<lambda>task. addr_item E task ''issuer'') tasks) (\<lambda>issuers.
     bindE (mapE (\<lambda>n. to_checksum_address E (JStr n)) participant_nodes) (\<lambda>nodes.
     Inr (foldl (\<lambda>r n. require_role r n ''node'')
           (foldl (\<lambda>r i. require_role r i ''task_issuer'') (require_role [] publisher ''publisher'') issuers) nodes))))))"

definition signer_has_roles :: "(string \<times> json) list \<Rightarrow> string \<times> string list \<Rightarrow> unit res" where
  "signer_has_roles evidence = (\<lambda>(address, roles).
     case map_of evidence address of
       None \<Rightarrow> le_error ''signer_evidence_missing'' address
     | Some item \<Rightarrow>
         bindE (list_item item ''roles'') (\<lambda>declared.
         bindE (mapE hashable declared) (\<lambda>_.
         ensure (\<forall>role \<in> set roles. JStr role \<in> set declared) ''signer_evidence_missing'' address)))"

definition verify_signer_evidence ::
    "ext \<Rightarrow> json \<Rightarrow> string list \<Rightarrow> ((string \<times> json) list \<times> (string \<times> json) list) res" where
  "verify_signer_evidence E v participant_nodes =
     bindE (list_item v ''signer_evidence'') (\<lambda>items.
     bindE (foldE (signer_item E) [] items) (\<lambda>evidence.
     bindE (required_roles E v participant_nodes) (\<lambda>required.
     bindE (foldE (\<lambda>_. signer_has_roles evidence) () required) (\<lambda>_.
     bindE (mapE (\<lambda>n. bindE (lookup_address evidence n) (\<lambda>i. bindE (jitem i ''ruleset_sha256'') (\<lambda>x. Inr (n, x)))) participant_nodes) (\<lambda>rulesets.
     bindE (mapE (\<lambda>n. bindE (lookup_address evidence n) (\<lambda>i. bindE (jitem i ''rules_attestation_sha256'') (\<lambda>x. Inr (n, x)))) participant_nodes) (\<lambda>rules.
     Inr (rulesets, rules)))))))"

section \<open>Version 2\<close>

definition assignment_step ::
    "ext \<Rightarrow> (string \<times> json \<times> json) list \<Rightarrow> json \<Rightarrow> (string \<times> json \<times> json) list res" where
  "assignment_step E assignments task =
     bindE (jitem task ''task_type'') (\<lambda>t.
     if t \<noteq> JStr OBSERVE then Inr assignments
     else
       bindE (addr_item E task ''recipient'') (\<lambda>recipient.
       bindE (ensure (map_of assignments recipient = None) ''duplicate_participant_assignment'' recipient) (\<lambda>_.
       bindE (jitem task ''task_id'') (\<lambda>i. bindE (jitem task ''payload_hash'') (\<lambda>h.
       Inr (assignments @ [(recipient, i, h)]))))))"

definition profile_hash_step :: "ext \<Rightarrow> (string \<times> json) list \<Rightarrow> json \<Rightarrow> (string \<times> json) list res" where
  "profile_hash_step E acc item =
     bindE (jitem item ''profile'') (\<lambda>profile. bindE (addr_item E profile ''node'') (\<lambda>n.
     Inr (AList.update n (JStr (payload_hash E profile)) acc)))"

text \<open>Every participant answers, is a member, and has one observation task.\<close>

definition participants_of :: "ext \<Rightarrow> json \<Rightarrow> (string \<times> json list) list \<Rightarrow> string list res" where
  "participants_of E v members =
     bindE (list_item v ''observation_receipts'') (\<lambda>observed.
     bindE (list_item v ''review_receipts'') (\<lambda>reviewed.
     bindE (mapE (\<lambda>item. addr_item E item ''node'') (observed @ reviewed)) (\<lambda>nodes.
     bindE (ensure (set nodes \<subseteq> fst ` set members) ''unexpected_participant'' []) (\<lambda>_.
     Inr (remdups nodes)))))"

definition attested_participants ::
    "ext \<Rightarrow> json \<Rightarrow> string \<Rightarrow> string list \<Rightarrow> (string \<times> json) list res" where
  "attested_participants E v service_hash participants =
     bindE (verify_signer_evidence E v participants) (\<lambda>(rulesets, rules).
     bindE (list_item v ''network_tasks'') (\<lambda>tasks.
     bindE (foldE (assignment_step E) [] tasks) (\<lambda>assignments.
     bindE (ensure (set (map fst assignments) = set participants) ''participant_assignment_missing'' []) (\<lambda>_.
     bindE (list_item v ''participant_attestations'') (\<lambda>attestations.
     bindE (jitem v ''chain'') (\<lambda>chain.
     bindE (jitem chain ''chain_id'') (\<lambda>chain_id.
     bindE (jitem chain ''registry'') (\<lambda>registry.
     bindE (jitem v ''run_id'') (\<lambda>run_id.
     bindE (jitem2 v ''release_anchor'' ''package_hash'') (\<lambda>package.
     bindE (jitem2 v ''release_anchor'' ''manifest_hash'') (\<lambda>manifest.
     bindE (bindE (jitem v ''bootstrap'') (\<lambda>b. list_item b ''directory'')) (\<lambda>directory.
     bindE (foldE (profile_hash_step E) [] directory) (\<lambda>profiles.
     bindE (jitem v ''pilot_invite_hash'') (\<lambda>invite.
     bindE (jitem v ''trust_policy_hash'') (\<lambda>policy_hash.
     bindE (int_item v ''verified_at'') (\<lambda>verified_at.
     verify_participant_attestation_set E attestations (map JStr participants)
       \<lparr>se_chain_id = chain_id, se_registry = registry, se_run_id = run_id, se_package_hash = package,
        se_manifest_hash = manifest, se_service_config_hash = JStr service_hash, se_rulesets = rulesets,
        se_profile_hashes = profiles, se_assignments = assignments, se_pilot_invite_hash = invite,
        se_trust_policy_hash = policy_hash, se_rules_attestations = rules\<rparr> verified_at))))))))))))))))"

definition compare_providers :: "ext \<Rightarrow> endpoint \<Rightarrow> endpoint \<Rightarrow> json \<Rightarrow> unit res" where
  "compare_providers E first second v =
     bindE (jitem2 v ''chain'' ''chain_id'') (\<lambda>chain_id.
     bindE (validate_rpc_pair E (Some (fst first)) (Some (fst second)) (py_str chain_id) True) (\<lambda>_.
     bindE (observe_release_anchor_rpc E (snd first) v) (\<lambda>p.
     bindE (observe_release_anchor_rpc E (snd second) v) (\<lambda>s.
     bindE (jitem2 v ''chain'' ''primary_rpc_observation_hash'') (\<lambda>ph.
     bindE (ensure (ph = JStr p) ''rpc_observation_hash_mismatch'' ''primary'') (\<lambda>_.
     bindE (jitem2 v ''chain'' ''secondary_rpc_observation_hash'') (\<lambda>sh.
     bindE (ensure (sh = JStr s) ''rpc_observation_hash_mismatch'' ''secondary'') (\<lambda>_.
     ensure (p = s) ''rpc_observation_disagreement'' ''canonical state''))))))))"

definition verify_core_v2 ::
    "ext \<Rightarrow> endpoint option \<Rightarrow> endpoint option \<Rightarrow> policy_input option \<Rightarrow> json \<Rightarrow> json res" where
  "verify_core_v2 E rpc secondary trust_policy v =
     bindE (validate_schema E v ''witness-core-transcript-v2.schema.json'') (\<lambda>_.
     bindE (jitem v ''transcript_hash'') (\<lambda>declared. bindE (core_transcript_hash E v) (\<lambda>actual.
     bindE (ensure (declared = JStr actual) ''transcript_hash_mismatch'' ''WitnessCoreTranscriptV2'') (\<lambda>_.
     bindE (jitem v ''verified_at'') (\<lambda>at. bindE (jitem2 v ''verification_anchor'' ''timestamp'') (\<lambda>ts.
     bindE (ensure (py_eq at ts) ''core_cross_reference_mismatch'' ''verified_at/anchor timestamp'') (\<lambda>_.
     bindE (jitem v ''public_service'') (\<lambda>service.
     bindE (public_service_config_hash E service) (\<lambda>service_hash.
     bindE (lower_item service ''config_hash'') (\<lambda>config_hash.
     bindE (ensure (config_hash = py_lower service_hash) ''public_service_config_hash_mismatch'' service_hash) (\<lambda>_.
     bindE (load_policy E trust_policy) (\<lambda>policy.
     bindE (policy_allowed policy) (\<lambda>allowed.
     bindE (verify_witness_evidence_stages E v allowed False) (\<lambda>(members, _).
     bindE (participants_of E v members) (\<lambda>participants.
     bindE (attested_participants E v service_hash participants) (\<lambda>diversity.
     bindE (case policy of None \<Rightarrow> Inr () | Some p \<Rightarrow> verify_transcript_trust_policy E v p) (\<lambda>_.
     bindE (ensure (given rpc = given secondary) ''two_rpc_endpoints_required'' []) (\<lambda>_.
     bindE (if given rpc \<and> given secondary then bindE (compare_providers E (the rpc) (the secondary) v) (\<lambda>_. Inr True)
            else Inr False) (\<lambda>checked.
     bindE (verification_result v (given rpc) (policy \<noteq> None) (Some checked)) (\<lambda>d.
     bindE (jitem v ''input_mode'') (\<lambda>mode.
     Inr (JObj (d @ [(''input_mode'', mode), (''participant_claims_verified'', JBool True),
       (''signer_backend_evidence_verified'', JBool False)] @ diversity)))))))))))))))))))))))"

definition verify_core_transcript ::
    "ext \<Rightarrow> endpoint option \<Rightarrow> endpoint option \<Rightarrow> policy_input option \<Rightarrow> json \<Rightarrow> json res" where
  "verify_core_transcript E rpc secondary trust_policy v =
     bindE (check_secrets v) (\<lambda>_.
     bindE (jget v ''schema_version'') (\<lambda>version.
     if version = JStr ''loveengine.witness-core-transcript/1'' then
       bindE (ensure (secondary = None) ''unsupported_argument'' []) (\<lambda>_. verify_core_v1 E rpc trust_policy v)
     else if version = JStr ''loveengine.witness-core-transcript/2'' then
       verify_core_v2 E rpc secondary trust_policy v
     else le_error ''unsupported_schema_version'' (py_str version)))"

end
