(* ===== verification/TranscriptFacts.thy ===== *)
theory TranscriptFacts
  imports StageFacts CoreTranscript
begin

text \<open>
  What an accepted core transcript shows beyond its stages: who declared what, which tasks and
  issuers the trust policy covers, and that the two providers gave the same view of the release.
\<close>

section \<open>The trust policy\<close>

lemma load_policy_valid:
  assumes "load_policy E (Some p) = Inr r"
  obtains policy where "r = Some policy" "policy_valid E policy"
  using assms by (cases p) (auto simp: load_policy_def load_node_trust_policy_def bindE_Inr_iff validate_node_trust_policy_Inr_iff)

text \<open>The document and the policy name the same release, on the same chain, by the same publisher.\<close>

definition policy_covers :: "ext \<Rightarrow> json \<Rightarrow> json \<Rightarrow> bool" where
  "policy_covers E v policy \<longleftrightarrow>
     (\<forall>(name, part, fld) \<in> set POLICY_FIELDS. \<exists>expected actual. jitem2 v part fld = Inr expected \<and>
        policy_value policy name = Inr actual \<and>
        (if name \<in> {''registry'', ''publisher''}
         then \<exists>a. checksum_address E actual = Inr a \<and> checksum_address E expected = Inr a
         else if name \<in> {''package_hash'', ''manifest_hash''} then py_lower (py_str actual) = py_lower (py_str expected)
         else py_eq actual expected)) \<and>
     (\<exists>issuers allowed tasks. list_item policy ''allowed_issuers'' = Inr issuers \<and>
        mapE (to_checksum_address E) issuers = Inr allowed \<and> list_item v ''network_tasks'' = Inr tasks \<and>
        (\<forall>task \<in> set tasks. \<exists>i. addr_item E task ''issuer'' = Inr i \<and> i \<in> set allowed))"

lemma compare_policy_field_Inr_iff:
  "compare_policy_field E (name, expected, actual) = Inr u \<longleftrightarrow>
     (if name \<in> {''registry'', ''publisher''}
      then \<exists>a. checksum_address E actual = Inr a \<and> checksum_address E expected = Inr a
      else if name \<in> {''package_hash'', ''manifest_hash''} then py_lower (py_str actual) = py_lower (py_str expected)
      else py_eq actual expected)"
proof (cases "name \<in> {''registry'', ''publisher''}")
  case True
  have "compare_policy_field E (name, expected, actual) = Inr u \<longleftrightarrow>
    (\<exists>a. checksum_address E actual = Inr a \<and> checksum_address E expected = Inr a)"
    unfolding compare_policy_field_def prod.case if_P [OF True] bindE_Inr_iff catchE_raise_Inr_iff ensure_Inr_iff to_checksum_address_def
    by blast
  with True show ?thesis by (simp only: if_True)
next
  case False
  show ?thesis
    unfolding compare_policy_field_def prod.case if_not_P [OF False] by (simp add: ensure_Inr_iff split: if_split del: insert_iff)
qed

lemma verify_transcript_trust_policy_Inr:
  assumes "verify_transcript_trust_policy E v policy = Inr u"
  shows "policy_covers E v policy"
proof -
  from assms obtain items allowed issuers allowed_issuers tasks where
    1: "mapE (\<lambda>(name, part, fld). bindE (jitem2 v part fld) (\<lambda>expected.
              bindE (policy_value policy name) (\<lambda>actual. Inr (name, expected, actual)))) POLICY_FIELDS = Inr items"
      "foldE (\<lambda>_. compare_policy_field E) () items = Inr ()"
    and 2: "jget policy ''allowed_issuers'' = Inr allowed"
      "(case allowed of JArr (i # is) \<Rightarrow> Inr (i # is) | _ \<Rightarrow> le_error ''trust_policy_mismatch'' ''allowed_issuers'') = Inr issuers"
      "mapE (to_checksum_address E) issuers = Inr allowed_issuers" "list_item v ''network_tasks'' = Inr tasks"
      "foldE (\<lambda>_ task. bindE (addr_item E task ''issuer'') (\<lambda>issuer.
         ensure (issuer \<in> set allowed_issuers) ''untrusted_issuer'' issuer)) () tasks = Inr ()"
    unfolding verify_transcript_trust_policy_def by (elim run_elims) (auto simp: unit_eq catchE_raise_Inr_iff)
  have "allowed = JArr issuers" using 2(2) by (auto split: json.splits list.splits)
  with 2(1) have list: "list_item policy ''allowed_issuers'' = Inr issuers"
    by (auto simp: list_item_Inr_iff jget_Inr_iff jitem_Inr_iff split: option.splits)
  have flds: "\<exists>expected actual. jitem2 v part fld = Inr expected \<and> policy_value policy name = Inr actual \<and>
      compare_policy_field E (name, expected, actual) = Inr ()" if "(name, part, fld) \<in> set POLICY_FIELDS" for name part fld
  proof -
    from 1(1) that obtain item where "item \<in> set items"
      "(case (name, part, fld) of (name, part, fld) \<Rightarrow> bindE (jitem2 v part fld) (\<lambda>expected.
              bindE (policy_value policy name) (\<lambda>actual. Inr (name, expected, actual)))) = Inr item"
      unfolding mapE_Inr_iff by (meson list_all2_set1)
    with 1(2) show ?thesis by (auto simp: bindE_Inr_iff foldE_unit)
  qed
  show ?thesis
    unfolding policy_covers_def
  proof (intro conjI)
    show "\<forall>(name, part, fld) \<in> set POLICY_FIELDS. \<exists>expected actual. jitem2 v part fld = Inr expected \<and>
        policy_value policy name = Inr actual \<and>
        (if name \<in> {''registry'', ''publisher''}
         then \<exists>a. checksum_address E actual = Inr a \<and> checksum_address E expected = Inr a
         else if name \<in> {''package_hash'', ''manifest_hash''} then py_lower (py_str actual) = py_lower (py_str expected)
         else py_eq actual expected)"
      using flds unfolding compare_policy_field_Inr_iff by blast
    show "\<exists>issuers allowed tasks. list_item policy ''allowed_issuers'' = Inr issuers \<and>
        mapE (to_checksum_address E) issuers = Inr allowed \<and> list_item v ''network_tasks'' = Inr tasks \<and>
        (\<forall>task \<in> set tasks. \<exists>i. addr_item E task ''issuer'' = Inr i \<and> i \<in> set allowed)"
      using list 2(3-5) by (auto simp: foldE_unit bindE_Inr_iff ensure_Inr_iff)
  qed
qed

section \<open>Version 2\<close>

lemma core_v2_Inr:
  assumes "verify_core_v2 E rpc secondary trust_policy v = Inr r"
  obtains service_hash policy allowed members tasks participants diversity checked d mode where
    "load_policy E trust_policy = Inr policy" "policy_allowed policy = Inr allowed"
    "verify_witness_evidence_stages E v allowed False = Inr (members, tasks)"
    "participants_of E v members = Inr participants"
    "attested_participants E v service_hash participants = Inr diversity"
    "\<And>p. policy = Some p \<Longrightarrow> policy_covers E v p"
    "if checked then given rpc \<and> given secondary \<and> compare_providers E (the rpc) (the secondary) v = Inr () else \<not> given rpc"
    "verification_result v (given rpc) (policy \<noteq> None) (Some checked) = Inr d"
    "r = JObj (d @ [(''input_mode'', mode), (''participant_claims_verified'', JBool True),
       (''signer_backend_evidence_verified'', JBool False)] @ diversity)"
proof -
  from assms obtain service service_hash policy allowed mt participants diversity checked d mode where
    1: "load_policy E trust_policy = Inr policy" "policy_allowed policy = Inr allowed"
      "verify_witness_evidence_stages E v allowed False = Inr mt"
      "participants_of E v (fst mt) = Inr participants"
      "attested_participants E v service_hash participants = Inr diversity"
    and 2: "(case policy of None \<Rightarrow> Inr () | Some p \<Rightarrow> verify_transcript_trust_policy E v p) = Inr ()"
      "given rpc = given secondary"
      "(if given rpc \<and> given secondary then bindE (compare_providers E (the rpc) (the secondary) v) (\<lambda>_. Inr True)
            else Inr False) = Inr checked"
      "verification_result v (given rpc) (policy \<noteq> None) (Some checked) = Inr d"
      "Inr (JObj (d @ [(''input_mode'', mode), (''participant_claims_verified'', JBool True),
       (''signer_backend_evidence_verified'', JBool False)] @ diversity)) = (Inr r :: json res)"
    unfolding verify_core_v2_def case_prod_beta by (elim run_elims) (auto simp: unit_eq)
  show ?thesis
  proof (rule that)
    show "verify_witness_evidence_stages E v allowed False = Inr (fst mt, snd mt)" using 1(3) by simp
    show "policy_covers E v p" if "policy = Some p" for p
      using 2(1) that verify_transcript_trust_policy_Inr by auto
    show "if checked then given rpc \<and> given secondary \<and> compare_providers E (the rpc) (the secondary) v = Inr () else \<not> given rpc"
      using 2(2,3) by (auto simp: bindE_Inr_iff split: if_splits)
    show "r = JObj (d @ [(''input_mode'', mode), (''participant_claims_verified'', JBool True),
       (''signer_backend_evidence_verified'', JBool False)] @ diversity)" using 2(5) by simp
  qed (use 1 2(4) in auto)
qed

lemma participants_of_Inr:
  assumes "participants_of E v members = Inr participants"
  obtains observed reviewed where "list_item v ''observation_receipts'' = Inr observed" "list_item v ''review_receipts'' = Inr reviewed"
    "distinct participants" "set participants \<subseteq> fst ` set members"
    "\<And>r. r \<in> set (observed @ reviewed) \<Longrightarrow> \<exists>n \<in> set participants. addr_item E r ''node'' = Inr n"
proof -
  from assms obtain observed reviewed nodes where 1: "list_item v ''observation_receipts'' = Inr observed"
    "list_item v ''review_receipts'' = Inr reviewed" "mapE (\<lambda>item. addr_item E item ''node'') (observed @ reviewed) = Inr nodes"
    "set nodes \<subseteq> fst ` set members" "participants = remdups nodes"
    unfolding participants_of_def by (elim run_elims) auto
  have "\<exists>n \<in> set participants. addr_item E r ''node'' = Inr n" if "r \<in> set (observed @ reviewed)" for r
    using list_all2_set1 [OF 1(3) [unfolded mapE_Inr_iff] that] by (simp add: 1(5))
  with 1 that show ?thesis by simp
qed

text \<open>The declarations of the participants, for this run, release and service configuration.\<close>

definition run_of :: "json \<Rightarrow> string \<Rightarrow> set_expect \<Rightarrow> bool" where
  "run_of v service_hash se \<longleftrightarrow>
     jitem v ''run_id'' = Inr (se_run_id se) \<and> jitem2 v ''chain'' ''chain_id'' = Inr (se_chain_id se) \<and>
     jitem2 v ''release_anchor'' ''package_hash'' = Inr (se_package_hash se) \<and>
     jitem2 v ''release_anchor'' ''manifest_hash'' = Inr (se_manifest_hash se) \<and>
     jitem v ''pilot_invite_hash'' = Inr (se_pilot_invite_hash se) \<and> jitem v ''trust_policy_hash'' = Inr (se_trust_policy_hash se) \<and>
     se_service_config_hash se = JStr service_hash"

lemma attested_participants_Inr:
  assumes "attested_participants E v service_hash participants = Inr diversity"
  obtains attestations se now where "list_item v ''participant_attestations'' = Inr attestations" "run_of v service_hash se"
    "int_item v ''verified_at'' = Inr now"
    "verify_participant_attestation_set E attestations (map JStr participants) se now = Inr diversity"
proof -
  from assms obtain rr attestations chain c g run package manifest invite policy_hash now profiles assignments where
    1: "list_item v ''participant_attestations'' = Inr attestations" "jitem v ''chain'' = Inr chain"
      "jitem chain ''chain_id'' = Inr c" "jitem v ''run_id'' = Inr run"
      "jitem2 v ''release_anchor'' ''package_hash'' = Inr package" "jitem2 v ''release_anchor'' ''manifest_hash'' = Inr manifest"
      "jitem v ''pilot_invite_hash'' = Inr invite" "jitem v ''trust_policy_hash'' = Inr policy_hash"
      "int_item v ''verified_at'' = Inr now"
      "verify_participant_attestation_set E attestations (map JStr participants)
       \<lparr>se_chain_id = c, se_registry = g, se_run_id = run, se_package_hash = package,
        se_manifest_hash = manifest, se_service_config_hash = JStr service_hash, se_rulesets = fst rr,
        se_profile_hashes = profiles, se_assignments = assignments, se_pilot_invite_hash = invite,
        se_trust_policy_hash = policy_hash, se_rules_attestations = snd rr\<rparr> now = Inr diversity"
    unfolding attested_participants_def case_prod_beta by (elim run_elims)
  show ?thesis by (rule that [OF 1(1) _ 1(9,10)]) (use 1 in \<open>simp add: run_of_def jitem2_def\<close>)
qed

section \<open>Two providers\<close>

text \<open>What a provider's view of the release must be for \<open>p\<close> to be the hash of its observation.\<close>

lemma verify_release_anchor_rpc_Inr:
  assumes "verify_release_anchor_rpc E w fresh v = Inr n"
  obtains chain release anchor registry publisher skill version_hash onchain current where
    "jitem v ''chain'' = Inr chain" "jitem v ''release_anchor'' = Inr release" "jitem v ''verification_anchor'' = Inr anchor"
    "int_item anchor ''block_number'' = Inr n" "addr_item E chain ''registry'' = Inr registry"
    "addr_item E chain ''publisher'' = Inr publisher" "jitem release ''skill_id'' = Inr (JStr skill)"
    "cv_release w registry publisher (keccak_hex E skill) version_hash n = Inr onchain"
    "lower_item release ''package_hash'' = Inr (py_lower (rl_package onchain))"
    "lower_item release ''manifest_hash'' = Inr (py_lower (rl_manifest onchain))" "rl_status onchain = 1"
    "cv_current w registry publisher (keccak_hex E skill) n = Inr current"
    "lower_item release ''version_hash'' = Inr (py_lower current)"
proof -
  from assms obtain chain release anchor block registry s skill version_hash publisher onchain package manifest current version where
    1: "jitem v ''chain'' = Inr chain" "jitem v ''release_anchor'' = Inr release" "jitem v ''verification_anchor'' = Inr anchor"
      "int_item anchor ''block_number'' = Inr n"
      "addr_item E chain ''registry'' = Inr registry" "jitem release ''skill_id'' = Inr s" "jstr s = Inr skill"
      "addr_item E chain ''publisher'' = Inr publisher"
      "cv_release w registry publisher (keccak_hex E skill) version_hash n = Inr onchain"
    and 2: "lower_item release ''package_hash'' = Inr package"
      "pilot_same (JStr (py_lower (rl_package onchain))) (JStr package) ''Registry package hash'' = Inr ()"
      "lower_item release ''manifest_hash'' = Inr manifest"
      "pilot_same (JStr (py_lower (rl_manifest onchain))) (JStr manifest) ''Registry manifest hash'' = Inr ()"
      "pilot_same (JInt (rl_status onchain)) (JInt 1) ''Registry release status'' = Inr ()"
      "cv_current w registry publisher (keccak_hex E skill) n = Inr current"
      "lower_item release ''version_hash'' = Inr version"
      "pilot_same (JStr (py_lower current)) (JStr version) ''Registry current version'' = Inr ()"
    unfolding verify_release_anchor_rpc_def chain_guard_Inr_iff
    by (elim run_elims; simp only: chain_guard_Inr_iff; elim run_elims) (auto simp: unit_eq)
  have "rl_status onchain = 1" using 2(5) by (simp add: pilot_same_Inr_iff py_eq_def)
  with 1 2 that show ?thesis by (simp add: pilot_same_Inr_iff jstr_Inr_iff)
qed

text \<open>Both providers gave, at the anchor, the release and the code that the document names.\<close>

definition provider_saw :: "ext \<Rightarrow> chain_view \<Rightarrow> json \<Rightarrow> bool" where
  "provider_saw E w v \<longleftrightarrow>
     (\<exists>chain release registry publisher n skill version_hash onchain current code.
        jitem v ''chain'' = Inr chain \<and> jitem v ''release_anchor'' = Inr release \<and>
        addr_item E chain ''registry'' = Inr registry \<and> addr_item E chain ''publisher'' = Inr publisher \<and>
        jitem release ''skill_id'' = Inr (JStr skill) \<and>
        cv_release w registry publisher (keccak_hex E skill) version_hash n = Inr onchain \<and> rl_status onchain = 1 \<and>
        lower_item release ''package_hash'' = Inr (py_lower (rl_package onchain)) \<and>
        lower_item release ''manifest_hash'' = Inr (py_lower (rl_manifest onchain)) \<and>
        cv_current w registry publisher (keccak_hex E skill) n = Inr current \<and>
        lower_item release ''version_hash'' = Inr (py_lower current) \<and>
        cv_code w registry n = Inr code \<and> lower_item chain ''runtime_code_hash'' = Inr (py_lower (keccak256_hex E code)))"

lemma observe_release_anchor_rpc_Inr:
  assumes "observe_release_anchor_rpc E w v = Inr h"
  shows "provider_saw E w v"
proof -
  from assms obtain n chain anchor registry code expected where
    1: "verify_release_anchor_rpc E w False v = Inr n" "jitem v ''chain'' = Inr chain" "addr_item E chain ''registry'' = Inr registry"
      "cv_code w registry n = Inr code" "lower_item chain ''runtime_code_hash'' = Inr expected"
      "py_lower (keccak256_hex E code) = expected"
    unfolding observe_release_anchor_rpc_def
    by (elim run_elims; simp only: chain_guard_Inr_iff Let_def; elim run_elims) auto
  show ?thesis
  proof (rule verify_release_anchor_rpc_Inr [OF 1(1)])
    fix chain' release anchor registry' publisher skill version_hash onchain current
    assume 2: "jitem v ''chain'' = Inr chain'" "jitem v ''release_anchor'' = Inr release" "jitem v ''verification_anchor'' = Inr anchor"
      "int_item anchor ''block_number'' = Inr n" "addr_item E chain' ''registry'' = Inr registry'"
      "addr_item E chain' ''publisher'' = Inr publisher" "jitem release ''skill_id'' = Inr (JStr skill)"
      "cv_release w registry' publisher (keccak_hex E skill) version_hash n = Inr onchain"
      "lower_item release ''package_hash'' = Inr (py_lower (rl_package onchain))"
      "lower_item release ''manifest_hash'' = Inr (py_lower (rl_manifest onchain))" "rl_status onchain = 1"
      "cv_current w registry' publisher (keccak_hex E skill) n = Inr current"
      "lower_item release ''version_hash'' = Inr (py_lower current)"
    have "chain' = chain" "registry' = registry" using 1(2,3) 2(1,5) by simp_all
    then show ?thesis unfolding provider_saw_def using 1 2
      by - (rule exI [of _ chain], rule exI [of _ release], rule exI [of _ registry], rule exI [of _ publisher], rule exI [of _ n],
        rule exI [of _ skill], rule exI [of _ version_hash], rule exI [of _ onchain], rule exI [of _ current], rule exI [of _ code], simp)
  qed
qed

lemma compare_providers_Inr:
  assumes "compare_providers E first second v = Inr u"
  obtains h chain_id where "observe_release_anchor_rpc E (snd first) v = Inr h" "observe_release_anchor_rpc E (snd second) v = Inr h"
    "jitem2 v ''chain'' ''primary_rpc_observation_hash'' = Inr (JStr h)"
    "jitem2 v ''chain'' ''secondary_rpc_observation_hash'' = Inr (JStr h)"
    "jitem2 v ''chain'' ''chain_id'' = Inr chain_id"
    "validate_rpc_pair E (Some (fst first)) (Some (fst second)) (py_str chain_id) True = Inr ()"
proof -
  from assms obtain chain_id p s ph sh where
    "jitem2 v ''chain'' ''chain_id'' = Inr chain_id"
    "validate_rpc_pair E (Some (fst first)) (Some (fst second)) (py_str chain_id) True = Inr ()"
    "observe_release_anchor_rpc E (snd first) v = Inr p" "observe_release_anchor_rpc E (snd second) v = Inr s"
    "jitem2 v ''chain'' ''primary_rpc_observation_hash'' = Inr ph" "ph = JStr p"
    "jitem2 v ''chain'' ''secondary_rpc_observation_hash'' = Inr sh" "sh = JStr s" "p = s"
    unfolding compare_providers_def by (elim run_elims) (auto simp: unit_eq)
  with that show ?thesis by simp
qed

lemma verification_result_Inr:
  assumes "verification_result v with_rpc with_policy (Some c) = Inr d"
  shows "map_of d ''chain_verified'' = Some (JBool (c \<and> with_policy))"
    "map_of d ''verification_level'' = Some (JStr (level_of (c \<and> with_policy) c))"
  using assms by (auto simp: verification_result_def Let_def bindE_Inr_iff)

section \<open>Both versions\<close>

lemma core_transcript_stages:
  assumes "verify_core_transcript E rpc secondary p v = Inr r"
  obtains allowed members tasks where "verify_witness_evidence_stages E v allowed False = Inr (members, tasks)"
proof -
  from assms consider "verify_core_v1 E rpc p v = Inr r" | "verify_core_v2 E rpc secondary p v = Inr r"
    unfolding verify_core_transcript_def by (auto simp: bindE_Inr_iff split: if_splits)
  then show ?thesis
  proof cases
    case 1
    then obtain allowed mt where "verify_witness_evidence_stages E v allowed False = Inr mt"
      unfolding verify_core_v1_def by (elim run_elims)
    then show ?thesis using that [of allowed "fst mt" "snd mt"] by simp
  next
    case 2
    show ?thesis by (rule core_v2_Inr [OF 2]) (rule that)
  qed
qed

lemma length_filter_list_all2:
  assumes "list_all2 R xs ys" "\<And>x y. R x y \<Longrightarrow> P x \<longleftrightarrow> Q y"
  shows "length (filter P xs) = length (filter Q ys)"
  using assms(1) by (induction rule: list_all2_induct) (auto simp: assms(2))

lemma list_all2_conj_right:
  assumes "list_all2 R xs ys" "list_all2 S ys zs"
  shows "list_all2 (\<lambda>x y. R x y \<and> (\<exists>z. S y z)) xs ys"
  using assms(2,1) by (induction arbitrary: xs rule: list_all2_induct) (auto simp: list_all2_Cons2)


text \<open>A receipt that was counted as a review: its node and its verdict are those of the review; it was verified.\<close>

lemma reviewed_receipt:
  assumes "reviewed_as E v dispute r c" "review_of E dispute expected c n"
  shows "(\<exists>m. addr_item E r ''node'' = Inr m \<and> to_checksum_address E (JStr m) = Inr n) \<and>
    (jitem2 r ''result'' ''verdict'' = Inr (JStr ''dismiss'') \<longleftrightarrow> verdict_of c = ''dismiss'')"
proof -
  from assms(1) obtain m verdict where "addr_item E r ''node'' = Inr m" "jitem c ''node'' = Inr (JStr m)"
    "jitem2 r ''result'' ''verdict'' = Inr (JStr verdict)" "verdict_of c = verdict"
    unfolding reviewed_as_def by (elim conjE exE) (erule review_from_receipt_Inr, blast)
  with assms(2) show ?thesis by (auto simp: review_of_def addr_item_def)
qed

lemma answered_receipt:
  assumes "receipts_answer E v tasks kind legacy rs" "r \<in> set rs"
  shows "\<exists>c g signer. jitem2 v ''chain'' ''chain_id'' = Inr c \<and> jitem2 v ''chain'' ''registry'' = Inr g \<and>
    verify_receipt_v2 E r c g = Inr signer"
proof -
  from assms(1) obtain ts where "list_all2 (\<lambda>r t. answers E v tasks kind r t \<and> (\<exists>i. receipt_result E kind legacy i t r = Inr ())) rs ts"
    unfolding receipts_answer_def by blast
  from list_all2_set1 [OF this assms(2)] obtain t where "answers E v tasks kind r t" by blast
  then show ?thesis unfolding answers_def by blast
qed

end
