(* ===== verification/TranscriptExamples.thy ===== *)
theory TranscriptExamples
  imports TranscriptFacts ReviewExamples
begin

text \<open>
  A concrete run: three nodes \<open>a\<close>, \<open>b\<close> and \<open>c\<close> observe and review the closed session with one event,
  and dismiss a critical dispute. Each part is checked for a free node, so that the three nodes
  cost one evaluation.
\<close>

section \<open>Release, directory, tasks\<close>

definition hash_b :: string where "hash_b = ''0x'' @ replicate 64 CHR ''b''"

definition run_chain :: json where
  "run_chain = JObj [(''chain_id'', JStr ''1''), (''registry'', JStr ''r''), (''publisher'', JStr ''p''),
     (''runtime_code_hash'', JStr demo_head), (''release_status'', JStr ''active''),
     (''deployment_transaction'', JStr ''0x1''), (''release_transaction'', JStr ''0x2''),
     (''primary_rpc_observation_hash'', JStr (''sha256:'' @ demo_digest)),
     (''secondary_rpc_observation_hash'', JStr (''sha256:'' @ demo_digest))]"

definition run_release :: json where
  "run_release = JObj [(''chain_id'', JStr ''1''), (''registry'', JStr ''r''), (''publisher'', JStr ''p''),
     (''skill_id'', JStr ''k''), (''version'', JStr ''1''), (''version_hash'', JStr demo_head),
     (''package_hash'', JStr demo_head), (''manifest_hash'', JStr demo_head), (''previous_version_hash'', JStr demo_head),
     (''status'', JStr ''active'')]"

definition run_profile :: "string \<Rightarrow> json" where
  "run_profile n = JObj [(''node'', JStr n), (''capabilities'', JArr [JStr OBSERVE, JStr REVIEW]),
     (''sequence'', JStr ''1''), (''valid_until'', JStr ''9'')]"

definition run_member :: "string \<Rightarrow> json" where
  "run_member n = JObj [(''chain_id'', JStr ''1''), (''registry'', JStr ''r''), (''profile'', run_profile n), (''signature'', JStr n)]"

definition run_nodes :: "string list" where "run_nodes = [''a'', ''b'', ''c'']"

definition run_bootstrap :: json where
  "run_bootstrap = JObj [(''schema_version'', JStr ''loveengine.bootstrap-bundle/2''), (''chain_id'', JStr ''1''),
     (''registry'', JStr ''r''), (''publisher'', JStr ''p''), (''directory'', JArr (map run_member run_nodes)),
     (''directory_hash'', JStr demo_head), (''sequence'', JStr ''1''), (''valid_until'', JStr ''9''), (''signature'', JStr ''p'')]"

definition observe_payload :: json where "observe_payload = JObj [(''session_id'', JStr ''s'')]"

definition run_task :: "string \<Rightarrow> json \<Rightarrow> string \<Rightarrow> string \<Rightarrow> json" where
  "run_task kind payload i n = JObj [(''schema_version'', JStr ''loveengine.network-task/2''), (''chain_id'', JStr ''1''),
     (''registry'', JStr ''r''), (''task_id'', JStr (i @ n)), (''task_type'', JStr kind), (''issuer'', JStr ''p''),
     (''recipient'', JStr n), (''manifest_hash'', JStr demo_head), (''payload'', payload), (''payload_hash'', JStr demo_head),
     (''nonce'', JStr ''1''), (''deadline'', JStr ''9''), (''signature'', JStr ''p'')]"

definition observe_task :: "string \<Rightarrow> json" where "observe_task = run_task OBSERVE observe_payload ''o''"
definition verdict_task :: "string \<Rightarrow> json" where "verdict_task = run_task REVIEW review_payload ''r''"

definition run_receipt :: "json \<Rightarrow> string \<Rightarrow> string \<Rightarrow> json" where
  "run_receipt result i n = JObj [(''schema_version'', JStr ''loveengine.task-receipt/2''), (''chain_id'', JStr ''1''),
     (''registry'', JStr ''r''), (''task_id'', JStr (i @ n)), (''node'', JStr n), (''status'', JStr ''completed''),
     (''result'', result), (''result_hash'', JStr demo_head), (''nonce'', JStr ''1''), (''completed_at'', JStr ''8''),
     (''signature'', JStr n)]"

definition observe_result :: json where
  "observe_result = JObj [(''session_id'', JStr ''s''), (''last_sequence'', JStr ''1''), (''event_count'', JStr ''1''),
     (''head_event_hash'', JStr demo_head), (''bundle_hash'', JStr demo_head)]"

definition dismiss_result :: json where
  "dismiss_result = JObj [(''dispute_id'', JStr ''d''), (''bundle_hash'', JStr demo_head), (''session_id'', JStr ''s''),
     (''revision'', JStr ''1''), (''event_count'', JStr ''1''), (''head_event_hash'', JStr demo_head),
     (''evidence_verified'', JBool True), (''verdict'', JStr ''dismiss''), (''reason_hash'', JStr demo_head)]"

definition observe_receipt :: "string \<Rightarrow> json" where "observe_receipt = run_receipt observe_result ''o''"
definition verdict_receipt :: "string \<Rightarrow> json" where "verdict_receipt = run_receipt dismiss_result ''r''"

lemma run_member_ok: "verify_node_profile_v2 demo_ext (run_member n) 5 (Some (JStr ''1'')) (Some (JStr ''r'')) = Inr n"
  by code_simp

lemma observe_task_ok:
  "verify_task_v2 demo_ext (observe_task n) (JStr ''1'') (JStr ''r'') (JStr n) (Some (JStr ''p'')) (Some (JStr demo_head)) 5 = Inr ''p''"
  by code_simp

lemma verdict_task_ok:
  "verify_task_v2 demo_ext (verdict_task n) (JStr ''1'') (JStr ''r'') (JStr n) (Some (JStr ''p'')) (Some (JStr demo_head)) 5 = Inr ''p''"
  by code_simp

lemma observe_receipt_ok: "verify_receipt_v2 demo_ext (observe_receipt n) (JStr ''1'') (JStr ''r'') = Inr n"
  by code_simp

lemma verdict_receipt_ok: "verify_receipt_v2 demo_ext (verdict_receipt n) (JStr ''1'') (JStr ''r'') = Inr n"
  by code_simp

section \<open>Observations, dispute and gate\<close>

definition observe_receipts :: "json list" where "observe_receipts = map observe_receipt run_nodes"
definition verdict_receipts :: "json list" where "verdict_receipts = map verdict_receipt run_nodes"

definition run_observations :: json where
  "run_observations = JObj [(''schema_version'', JStr ''loveengine.observation-set/1''), (''session_id'', JStr ''s''),
           (''event_count'', JStr ''1''), (''head_event_hash'', JStr demo_head), (''bundle_hash'', JStr demo_head),
           (''node_count'', JStr ''3''), (''receipts'', JArr observe_receipts), (''observation_set_hash'', JStr demo_head)]"

definition run_dispute :: json where
  "run_dispute = JObj [(''dispute_id'', JStr ''d''), (''bundle_hash'', JStr demo_head), (''severity'', JStr ''critical''),
     (''status'', JStr ''dismissed''), (''valid_review_count'', JStr ''3''),
     (''review_ids'', JArr [JStr ''ra'', JStr ''rb'', JStr ''rc''])]"

definition run_gate :: json where
  "run_gate = JObj [(''schema_version'', JStr ''loveengine.proposal-plan/1''), (''ready'', JBool True),
     (''session_id'', JStr ''s''), (''bundle_hash'', JStr demo_head), (''proposal'', JNull),
     (''critical_disputes'', JArr [JStr ''d'']), (''proposal_hash'', JStr demo_head)]"

section \<open>Participants\<close>

definition run_signer :: "string \<Rightarrow> string list \<Rightarrow> json" where
  "run_signer a roles = JObj [(''address'', JStr a), (''roles'', JArr (map JStr roles)),
     (''ruleset_sha256'', JStr (''sha256:'' @ demo_digest)), (''rules_attestation_sha256'', JStr (''sha256:'' @ demo_digest))]"

definition run_signers :: json where
  "run_signers = JArr (run_signer ''p'' [''publisher'', ''task_issuer''] # map (\<lambda>n. run_signer n [''node'']) run_nodes)"

definition run_attestation :: "string \<Rightarrow> string \<Rightarrow> json" where
  "run_attestation n grp = JObj [(''chain_id'', JStr ''1''), (''registry'', JStr ''r''), (''run_id'', JStr ''n''),
     (''node'', JStr n), (''role'', JStr ''observation_node''), (''profile_hash'', JStr demo_head),
     (''assignment_task_id'', JStr (''o'' @ n)), (''assignment_payload_hash'', JStr demo_head),
     (''pilot_invite_hash'', JStr (''sha256:'' @ demo_digest)), (''trust_policy_hash'', JStr (''sha256:'' @ demo_digest)),
     (''package_hash'', JStr demo_head), (''manifest_hash'', JStr demo_head), (''service_config_hash'', JStr demo_head),
     (''ruleset_sha256'', JStr (''sha256:'' @ demo_digest)), (''rules_attestation_sha256'', JStr (''sha256:'' @ demo_digest)),
     (''operator_group_hash'', JStr grp), (''network_group_hash'', JStr grp),
     (''issued_at'', JStr ''1''), (''valid_until'', JStr ''9''), (''signature'', JStr n)]"

definition run_transcript :: json where
  "run_transcript = JObj [(''schema_version'', JStr ''loveengine.witness-core-transcript/2''), (''run_id'', JStr ''n''),
     (''environment'', JStr ''local_anvil''), (''actors_simulated'', JBool False), (''input_mode'', JStr ''push''),
     (''version'', JStr ''1''), (''verified_at'', JStr ''5''),
     (''verification_anchor'', JObj [(''block_number'', JStr ''1''), (''block_hash'', JStr demo_head), (''timestamp'', JStr ''5'')]),
     (''public_service'', JObj [(''config_hash'', JStr demo_head)]), (''release_anchor'', run_release),
     (''package'', JObj [(''archive_keccak256'', JStr demo_head), (''manifest_hash'', JStr demo_head)]),
     (''chain'', run_chain), (''bootstrap'', run_bootstrap),
     (''network_tasks'', JArr (map observe_task run_nodes @ map verdict_task run_nodes)),
     (''observation_receipts'', JArr observe_receipts), (''review_receipts'', JArr verdict_receipts),
     (''events'', JArr [demo_event]), (''artifacts'', JArr [JObj [(''artifact_hash'', JStr (''sha256:'' @ demo_digest)), (''size'', JStr ''1'')]]),
     (''session'', demo_session ''closed'' ''2'' demo_head), (''evidence_bundle'', final_bundle),
     (''observation_set'', run_observations), (''dispute'', run_dispute), (''proposal_gate'', run_gate),
     (''signer_evidence'', run_signers),
     (''participant_attestations'', JArr [run_attestation ''a'' demo_head, run_attestation ''b'' hash_b, run_attestation ''c'' hash_b]),
     (''pilot_invite_hash'', JStr (''sha256:'' @ demo_digest)), (''trust_policy_hash'', JStr (''sha256:'' @ demo_digest)),
     (''transcript_hash'', JStr (''sha256:'' @ demo_digest))]"

lemma run_items [simp]:
  "jitem run_transcript ''chain'' = Inr run_chain" "jitem run_transcript ''release_anchor'' = Inr run_release"
  "jitem run_transcript ''bootstrap'' = Inr run_bootstrap" "jitem run_transcript ''verified_at'' = Inr (JStr ''5'')"
  "jitem run_transcript ''network_tasks'' = Inr (JArr (map observe_task run_nodes @ map verdict_task run_nodes))"
  "jitem run_transcript ''observation_receipts'' = Inr (JArr observe_receipts)"
  "jitem run_transcript ''review_receipts'' = Inr (JArr verdict_receipts)"
  "jitem run_transcript ''events'' = Inr (JArr [demo_event])" "jitem run_transcript ''evidence_bundle'' = Inr final_bundle"
  "jitem run_transcript ''session'' = Inr (demo_session ''closed'' ''2'' demo_head)"
  "jitem run_transcript ''observation_set'' = Inr run_observations" "jitem run_transcript ''dispute'' = Inr run_dispute"
  "jitem run_transcript ''proposal_gate'' = Inr run_gate" "jitem run_transcript ''signer_evidence'' = Inr run_signers"
  "jitem run_transcript ''package'' = Inr (JObj [(''archive_keccak256'', JStr demo_head), (''manifest_hash'', JStr demo_head)])"
  "jitem run_transcript ''artifacts'' = Inr (JArr [JObj [(''artifact_hash'', JStr (''sha256:'' @ demo_digest)), (''size'', JStr ''1'')]])"
  "jitem run_transcript ''version'' = Inr (JStr ''1'')" "jitem run_transcript ''run_id'' = Inr (JStr ''n'')"
  by (simp_all add: run_transcript_def)

lemma chain_items [simp]:
  "jitem run_chain ''chain_id'' = Inr (JStr ''1'')" "jitem run_chain ''registry'' = Inr (JStr ''r'')"
  "jitem run_chain ''publisher'' = Inr (JStr ''p'')" "jitem run_chain ''runtime_code_hash'' = Inr (JStr demo_head)"
  "jitem run_chain ''release_status'' = Inr (JStr ''active'')" "jitem run_chain ''deployment_transaction'' = Inr (JStr ''0x1'')"
  "jitem run_chain ''release_transaction'' = Inr (JStr ''0x2'')"
  "jitem run_chain ''primary_rpc_observation_hash'' = Inr (JStr (''sha256:'' @ demo_digest))"
  "jitem run_chain ''secondary_rpc_observation_hash'' = Inr (JStr (''sha256:'' @ demo_digest))"
  by (simp_all add: run_chain_def)

lemma release_items [simp]:
  "jitem run_release ''chain_id'' = Inr (JStr ''1'')" "jitem run_release ''registry'' = Inr (JStr ''r'')"
  "jitem run_release ''publisher'' = Inr (JStr ''p'')" "jitem run_release ''skill_id'' = Inr (JStr ''k'')"
  "jitem run_release ''version'' = Inr (JStr ''1'')" "jitem run_release ''version_hash'' = Inr (JStr demo_head)"
  "jitem run_release ''package_hash'' = Inr (JStr demo_head)" "jitem run_release ''manifest_hash'' = Inr (JStr demo_head)"
  "jitem run_release ''previous_version_hash'' = Inr (JStr demo_head)" "jitem run_release ''status'' = Inr (JStr ''active'')"
  by (simp_all add: run_release_def)

lemma bootstrap_items [simp]:
  "jitem run_bootstrap ''chain_id'' = Inr (JStr ''1'')" "jitem run_bootstrap ''registry'' = Inr (JStr ''r'')"
  "jitem run_bootstrap ''publisher'' = Inr (JStr ''p'')" "jitem run_bootstrap ''directory'' = Inr (JArr (map run_member run_nodes))"
  "jitem run_bootstrap ''directory_hash'' = Inr (JStr demo_head)" "jitem run_bootstrap ''sequence'' = Inr (JStr ''1'')"
  "jitem run_bootstrap ''valid_until'' = Inr (JStr ''9'')" "jitem run_bootstrap ''signature'' = Inr (JStr ''p'')"
  by (simp_all add: run_bootstrap_def)

lemma task_items [simp]:
  "jitem (observe_task n) ''task_id'' = Inr (JStr (CHR ''o'' # n))" "jitem (verdict_task n) ''task_id'' = Inr (JStr (CHR ''r'' # n))"
  "jitem (observe_task n) ''task_type'' = Inr (JStr OBSERVE)" "jitem (verdict_task n) ''task_type'' = Inr (JStr REVIEW)"
  "jitem (observe_task n) ''issuer'' = Inr (JStr ''p'')" "jitem (verdict_task n) ''issuer'' = Inr (JStr ''p'')"
  "jitem (observe_task n) ''recipient'' = Inr (JStr n)" "jitem (verdict_task n) ''recipient'' = Inr (JStr n)"
  "jitem (observe_task n) ''payload'' = Inr observe_payload" "jitem (verdict_task n) ''payload'' = Inr review_payload"
  "jitem (observe_task n) ''payload_hash'' = Inr (JStr demo_head)" "jitem (verdict_task n) ''payload_hash'' = Inr (JStr demo_head)"
  "jitem (observe_task n) ''nonce'' = Inr (JStr ''1'')" "jitem (verdict_task n) ''nonce'' = Inr (JStr ''1'')"
  "jitem (observe_task n) ''deadline'' = Inr (JStr ''9'')" "jitem (verdict_task n) ''deadline'' = Inr (JStr ''9'')"
  "jget (observe_task n) ''task_id'' = Inr (JStr (CHR ''o'' # n))" "jget (verdict_task n) ''task_id'' = Inr (JStr (CHR ''r'' # n))"
  by (simp_all add: observe_task_def verdict_task_def run_task_def jget_def jget_or_def)

lemma receipt_items [simp]:
  "jitem (observe_receipt n) ''task_id'' = Inr (JStr (CHR ''o'' # n))" "jitem (verdict_receipt n) ''task_id'' = Inr (JStr (CHR ''r'' # n))"
  "jget (observe_receipt n) ''task_id'' = Inr (JStr (CHR ''o'' # n))" "jget (verdict_receipt n) ''task_id'' = Inr (JStr (CHR ''r'' # n))"
  "jitem (observe_receipt n) ''node'' = Inr (JStr n)" "jitem (verdict_receipt n) ''node'' = Inr (JStr n)"
  "jitem (observe_receipt n) ''status'' = Inr (JStr ''completed'')" "jitem (verdict_receipt n) ''status'' = Inr (JStr ''completed'')"
  "jitem (observe_receipt n) ''result'' = Inr observe_result" "jitem (verdict_receipt n) ''result'' = Inr dismiss_result"
  "jitem (observe_receipt n) ''nonce'' = Inr (JStr ''1'')" "jitem (verdict_receipt n) ''nonce'' = Inr (JStr ''1'')"
  "jitem (observe_receipt n) ''completed_at'' = Inr (JStr ''8'')" "jitem (verdict_receipt n) ''completed_at'' = Inr (JStr ''8'')"
  "jitem (observe_receipt n) ''signature'' = Inr (JStr n)" "jitem (verdict_receipt n) ''signature'' = Inr (JStr n)"
  by (simp_all add: observe_receipt_def verdict_receipt_def run_receipt_def jget_def jget_or_def)

section \<open>The stages\<close>

lemma run_hashes [simp]: "keccak256_hex demo_ext s = demo_head" "payload_hash demo_ext v = demo_head"
  "sha256_prefixed demo_ext s = ''sha256:'' @ demo_digest" "py_lower demo_head = demo_head"
  "require_bytes32 (JStr demo_head) l = Inr demo_head" "py_lower (''sha256:'' @ demo_digest) = ''sha256:'' @ demo_digest"
proof -
  show l: "py_lower demo_head = demo_head" "py_lower (''sha256:'' @ demo_digest) = ''sha256:'' @ demo_digest" by code_simp+
  show "keccak256_hex demo_ext s = demo_head" by (simp add: demo_head_def)
  then show "payload_hash demo_ext v = demo_head" by (simp add: payload_hash_def)
  show "sha256_prefixed demo_ext s = ''sha256:'' @ demo_digest" by simp
  have "is_bytes32 demo_head" by code_simp
  with l show "require_bytes32 (JStr demo_head) l = Inr demo_head" by (simp add: require_bytes32_def)
qed

lemma run_ints [simp]: "py_int_str ''1'' = Some 1" "py_int_str ''2'' = Some 2" "py_int_str ''5'' = Some 5"
  "py_int_str ''8'' = Some 8" "py_int_str ''9'' = Some 9"
  by code_simp+

lemma run_addresses [simp]: "to_checksum_address demo_ext (JStr a) = Inr a"
  by (simp add: to_checksum_address_def)

lemma run_release_ok: "verify_release_anchor demo_ext run_transcript = Inr ()"
  by (simp add: verify_release_anchor_def validate_schema_def same_items_def same_addresses_def
      pilot_same_def addr_item_def lower_item_def jlower_def del: demo_ext_simps(1,2))

declare demo_ext_simps(2) [simp del]

definition run_list :: "(string \<times> json list) list" where
  "run_list = map (\<lambda>n. (n, [JStr OBSERVE, JStr REVIEW])) run_nodes"

lemma run_list_of: "n \<in> set run_nodes \<Longrightarrow> map_of run_list n = Some [JStr OBSERVE, JStr REVIEW]"
  by (auto simp: run_list_def run_nodes_def)

lemma run_values [simp]: "hashable (JStr s) = Inr ()" "is_falsy (JStr (c # s)) \<longleftrightarrow> False"
  by (simp_all add: hashable_def is_falsy_def)

lemma run_schema [simp]: "validate_schema demo_ext v n = Inr ()"
  by (simp add: validate_schema_def)

lemma run_secrets: "check_secrets run_bootstrap = Inr ()"
proof -
  have "secret_free run_bootstrap" by code_simp
  then show ?thesis by (simp only: check_secrets_Inr_iff)
qed

lemma run_directory: "foldE (directory_step (\<lambda>p. verify_node_profile_v2 demo_ext p 5 (Some (JStr ''1'')) (Some (JStr ''r''))))
    [] (map run_member run_nodes) = Inr run_nodes"
  by (simp add: run_nodes_def directory_step_def run_member_ok)

lemma run_bootstrap_ok: "verify_bootstrap_v2 demo_ext run_bootstrap (JStr ''1'') (JStr ''r'') 5 = Inr True"
  using run_directory run_secrets
  by (simp add: verify_bootstrap_v2_def verify_bootstrap_with_def build_bootstrap_v2_typed_data_def v2_domain_def addr_item_def
      bytes32_item_def int_item_def recover_signer_def same_address_def)

lemma run_members: "bootstrap_members demo_ext run_transcript = Inr run_list"
  using run_bootstrap_ok
  by (simp add: bootstrap_members_def same_addresses_def addr_item_def int_item_def list_item_def pilot_same_def)
    (simp add: run_list_def run_nodes_def directory_member_def run_member_def run_profile_def addr_item_def list_item_def)


lemma run_task_step:
  assumes "n \<in> set run_nodes" "find_task tasks (JStr (CHR ''o'' # n)) = None"
  shows "transcript_task demo_ext run_transcript run_chain (JStr demo_head) run_list [''p''] tasks (observe_task n)
    = Inr (tasks @ [(JStr (CHR ''o'' # n), observe_task n)])"
  using assms observe_task_ok [of n]
  by (simp add: transcript_task_def run_list_of addr_item_def in_set_def int_item_def)

lemma run_review_step:
  assumes "n \<in> set run_nodes" "find_task tasks (JStr (CHR ''r'' # n)) = None"
  shows "transcript_task demo_ext run_transcript run_chain (JStr demo_head) run_list [''p''] tasks (verdict_task n)
    = Inr (tasks @ [(JStr (CHR ''r'' # n), verdict_task n)])"
  using assms verdict_task_ok [of n]
  by (simp add: transcript_task_def run_list_of addr_item_def in_set_def int_item_def)

definition run_tasks :: task_table where
  "run_tasks = map (\<lambda>n. (JStr (CHR ''o'' # n), observe_task n)) run_nodes @ map (\<lambda>n. (JStr (CHR ''r'' # n), verdict_task n)) run_nodes"

lemma run_tasks_ok:
  "verify_tasks demo_ext run_transcript run_list (Some [JStr ''p'']) = Inr run_tasks"
proof -
  let ?f = "transcript_task demo_ext run_transcript run_chain (JStr demo_head) run_list [''p'']"
  note nodes = run_nodes_def [THEN arg_cong [where f = set], simplified]
  have "foldE ?f [] (map observe_task [''a'', ''b'', ''c''] @ map verdict_task [''a'', ''b'', ''c'']) =
      Inr (map (\<lambda>n. (JStr (CHR ''o'' # n), observe_task n)) [''a'', ''b'', ''c''] @ map (\<lambda>n. (JStr (CHR ''r'' # n), verdict_task n)) [''a'', ''b'', ''c''])"
    by (simp add: run_task_step run_review_step find_task_def nodes)
  then show ?thesis
    by (simp add: verify_tasks_def list_item_def jitem2_def run_nodes_def [symmetric] run_tasks_def)
qed

lemma run_find: "n \<in> set run_nodes \<Longrightarrow> find_task run_tasks (JStr (CHR ''o'' # n)) = Some (observe_task n)"
  "n \<in> set run_nodes \<Longrightarrow> find_task run_tasks (JStr (CHR ''r'' # n)) = Some (verdict_task n)"
  by (auto simp: find_task_def run_tasks_def run_nodes_def)

lemma run_observe_step:
  assumes "n \<in> set run_nodes" "JStr (CHR ''o'' # n) \<notin> set handled"
  shows "transcript_receipt demo_ext run_transcript run_tasks OBSERVE False handled (observe_receipt n) = Inr (handled @ [JStr (CHR ''o'' # n)])"
  using assms observe_receipt_ok [of n]
  by (auto simp: transcript_receipt_def run_find jitem2_def addr_item_def in_set_def hashable_def int_item_def receipt_result_def list_ex_iff
      pilot_same_def same_items_def) (auto simp: observe_result_def observe_payload_def jget_def jget_or_def)

lemma run_verdict_step:
  assumes "n \<in> set run_nodes" "JStr (CHR ''r'' # n) \<notin> set handled"
  shows "transcript_receipt demo_ext run_transcript run_tasks REVIEW False handled (verdict_receipt n) = Inr (handled @ [JStr (CHR ''r'' # n)])"
proof -
  have "require_verified_review_result demo_ext review_payload dismiss_result l = Inr dismiss_result" for l
    by (simp add: require_verified_review_result_def review_payload_def dismiss_result_def is_current_review_payload_def jget_def jget_or_def
      REVIEW_RESULT_BINDING_FIELDS_def binding_matches_def py_str_def)
  then show ?thesis using assms verdict_receipt_ok [of n]
  by (auto simp: transcript_receipt_def run_find jitem2_def addr_item_def in_set_def hashable_def int_item_def receipt_result_def list_ex_iff
      pilot_same_def same_items_def REVIEW_def OBSERVE_def) (auto simp: dismiss_result_def review_payload_def jget_def jget_or_def)
qed

lemma run_receipts_ok:
  "verify_receipts demo_ext observe_receipts run_tasks run_transcript OBSERVE False = Inr ()"
  "verify_receipts demo_ext verdict_receipts run_tasks run_transcript REVIEW False = Inr ()"
proof -
  note nodes = run_nodes_def [THEN arg_cong [where f = set], simplified]
  have "foldE (transcript_receipt demo_ext run_transcript run_tasks OBSERVE False) [] (map observe_receipt [''a'', ''b'', ''c''])
      = Inr [JStr ''oa'', JStr ''ob'', JStr ''oc'']"
    "foldE (transcript_receipt demo_ext run_transcript run_tasks REVIEW False) [] (map verdict_receipt [''a'', ''b'', ''c''])
      = Inr [JStr ''ra'', JStr ''rb'', JStr ''rc'']"
    by (simp_all add: run_observe_step run_verdict_step nodes)
  then show "verify_receipts demo_ext observe_receipts run_tasks run_transcript OBSERVE False = Inr ()"
    "verify_receipts demo_ext verdict_receipts run_tasks run_transcript REVIEW False = Inr ()"
    by (simp_all add: verify_receipts_def observe_receipts_def verdict_receipts_def run_nodes_def)
qed

section \<open>Events, bundle and observations\<close>

lemma event_items [simp]:
  "jitem demo_event ''sequence'' = Inr (JStr ''1'')" "jitem demo_event ''previous_event_hash'' = Inr (JStr ZERO_HASH)"
  "jitem demo_event ''event_hash'' = Inr (JStr demo_head)" "jitem demo_event ''content'' = Inr (JStr ''x'')"
  "jitem demo_event ''artifact_hash'' = Inr (JStr (''sha256:'' @ demo_digest))" "jitem demo_event ''session_id'' = Inr (JStr ''s'')"
  "jitem demo_event ''event_id'' = Inr (JStr ''e'')" "jitem demo_event ''category'' = Inr (JStr ''source'')"
  by (simp_all add: demo_event_def demo_head_def)

lemma session_items [simp]:
  "jitem (demo_session status after head) ''status'' = Inr (JStr status)" "jitem (demo_session status after head) ''session_id'' = Inr (JStr ''s'')"
  "jitem (demo_session status after head) ''next_sequence'' = Inr (JStr after)"
  "jitem (demo_session status after head) ''head_event_hash'' = Inr (JStr head)"
  by (simp_all add: demo_session_def)

lemma run_chain_of_events: "verify_event_chain demo_ext run_transcript True = Inr ()"
  using demo_event_ok by (simp add: verify_event_chain_def list_item_def transcript_event_def int_item_def jitem2_def pilot_same_def)

lemma run_artifacts_ok: "verify_artifacts demo_ext run_transcript = Inr ()"
  by (simp add: verify_artifacts_def list_item_def inventory_item_def in_set_def int_item_def expected_artifact_def Let_def pilot_same_def)

lemma run_bundle_ok:
  "verify_session_bundle demo_ext run_transcript (demo_session ''closed'' ''2'' demo_head) final_bundle = Inr ()"
proof -
  have "jitem final_bundle ''events'' = Inr (JArr [demo_ref])" by (simp add: final_bundle_eq)
  moreover have "evidence_bundle_hash demo_ext final_bundle = Inr demo_head"
    by (simp add: evidence_bundle_hash_def self_hash_def jpop_def final_bundle_eq)
  moreover have "same_event (demo_event, demo_ref) = Inr ()"
    by (simp add: same_event_def same_items_def pilot_same_def BUNDLED_FIELDS_def demo_ref_def)
  moreover have "py_str_int 1 = ''1''" "dec_nat (Suc 0) = ''1''" by code_simp+
  ultimately show ?thesis
    by (simp add: verify_session_bundle_def same_items_def pilot_same_def list_item_def int_item_def final_items)
qed

lemma result_items [simp]:
  "jitem observe_result ''session_id'' = Inr (JStr ''s'')" "jitem observe_result ''head_event_hash'' = Inr (JStr demo_head)"
  "jitem observe_result ''event_count'' = Inr (JStr ''1'')" "jitem observe_result ''bundle_hash'' = Inr (JStr demo_head)"
  "jget (observe_receipt n) ''status'' = Inr (JStr ''completed'')"
  by (simp_all add: observe_result_def observe_receipt_def run_receipt_def jget_def jget_or_def)

lemma run_observation_step:
  assumes "n \<in> {''a'', ''b'', ''c''}" "n \<notin> set ns" "cur \<in> {None, Some observe_result}"
  shows "observation_step demo_ext [JStr ''a'', JStr ''b'', JStr ''c''] (JStr ''1'') (JStr ''r'') (ns, cur) (observe_receipt n)
    = Inr (ns @ [n], Some observe_result)"
proof -
  have "comparable_view observe_result = Inr observe_result"
    by (simp add: comparable_view_def COMPARABLE_KEYS_def) (simp add: observe_result_def)
  then show ?thesis using assms observe_receipt_ok [of n] by (auto simp: observation_step_def)
qed

lemma run_sorted: "sort_receipts observe_receipts = Inr observe_receipts"
proof -
  have keys: "map receipt_node_key (map observe_receipt [''a'', ''b'', ''c'']) = [''a'', ''b'', ''c'']"
  proof -
    have "py_lower ''a'' = ''a''" "py_lower ''b'' = ''b''" "py_lower ''c'' = ''c''" by code_simp+
    then show ?thesis by (simp add: receipt_node_key_def)
  qed
  have "sorted [''a'', ''b'', ''c'']" by code_simp
  with keys have "sort_key receipt_node_key (map observe_receipt [''a'', ''b'', ''c'']) = map observe_receipt [''a'', ''b'', ''c'']"
    by (intro sort_key_id_if_sorted) (simp only:)
  then show ?thesis by (simp add: sort_receipts_def observe_receipts_def run_nodes_def jlower_def)
qed

lemma run_observations: "aggregate_observations demo_ext observe_receipts (map JStr run_nodes) (JStr ''1'') (JStr ''r'') = Inr run_observations"
proof -
  have "length observe_receipts = 3" by (simp add: observe_receipts_def run_nodes_def)
  moreover have "foldE (observation_step demo_ext (map JStr run_nodes) (JStr ''1'') (JStr ''r'')) ([], None) observe_receipts
      = Inr ([''a'', ''b'', ''c''], Some observe_result)"
    by (simp add: observe_receipts_def run_nodes_def run_observation_step)
  ultimately show ?thesis using run_sorted
    by (simp add: aggregate_observations_def observation_set_hash_def self_hash_def)
      (simp add: observation_set_value_def jpop_def jset_def run_observations_def)
qed

lemma run_observation_items:
  "jitem run_observations ''session_id'' = Inr (JStr ''s'')" "jitem run_observations ''head_event_hash'' = Inr (JStr demo_head)"
  "jitem run_observations ''event_count'' = Inr (JStr ''1'')" "jitem run_observations ''bundle_hash'' = Inr (JStr demo_head)"
  by (simp_all add: run_observations_def)

lemma run_observations_ok:
  "verify_observation_stage demo_ext run_transcript (demo_session ''closed'' ''2'' demo_head) final_bundle run_observations = Inr ()"
proof -
  have "mapE (\<lambda>item. addr_item demo_ext item ''node'') observe_receipts = Inr run_nodes"
    by (simp add: observe_receipts_def run_nodes_def addr_item_def)
  moreover have "distinct run_nodes" by (simp add: run_nodes_def)
  ultimately show ?thesis
    using run_observations run_observation_items
    by (simp add: verify_observation_stage_def list_item_def jitem2_def pilot_same_def same_items_def final_items distinct_remdups_id)
qed

section \<open>Dispute and gate of the run\<close>

definition run_review :: "string \<Rightarrow> json" where
  "run_review n = JObj [(''schema_version'', JStr ''loveengine.dispute-review/1''),
     (''review_id'', JStr (CHR ''r'' # n)), (''dispute_id'', JStr ''d''), (''bundle_hash'', JStr demo_head),
     (''node'', JStr n), (''verdict'', JStr ''dismiss''), (''reason_hash'', JStr demo_head),
     (''completed_at'', JStr ''8''), (''signature'', JStr n)]"

lemma run_review_items [simp]:
  "jitem (run_review n) ''node'' = Inr (JStr n)" "jitem (run_review n) ''dispute_id'' = Inr (JStr ''d'')"
  "jitem (run_review n) ''bundle_hash'' = Inr (JStr demo_head)" "jitem (run_review n) ''verdict'' = Inr (JStr ''dismiss'')"
  "jitem (run_review n) ''review_id'' = Inr (JStr (CHR ''r'' # n))"
  by (simp_all add: run_review_def)

lemma dispute_items [simp]:
  "jitem run_dispute ''dispute_id'' = Inr (JStr ''d'')" "jitem run_dispute ''bundle_hash'' = Inr (JStr demo_head)"
  "jget run_dispute ''bundle_hash'' = Inr (JStr demo_head)" "jget run_dispute ''severity'' = Inr (JStr ''critical'')"
  "jget run_dispute ''status'' = Inr (JStr ''dismissed'')"
  by (simp_all add: run_dispute_def jget_def jget_or_def)

lemma payload_items [simp]:
  "jget review_payload ''dispute_id'' = Inr (JStr ''d'')" "jget review_payload ''bundle_hash'' = Inr (JStr demo_head)"
  "jget dismiss_result ''dispute_id'' = Inr (JStr ''d'')" "jget dismiss_result ''bundle_hash'' = Inr (JStr demo_head)"
  "jitem dismiss_result ''verdict'' = Inr (JStr ''dismiss'')" "jitem dismiss_result ''reason_hash'' = Inr (JStr demo_head)"
  by (simp_all add: review_payload_def dismiss_result_def jget_def jget_or_def)

lemma run_review_of:
  assumes "n \<in> set run_nodes"
  shows "stage_review demo_ext run_transcript run_tasks rs (verdict_receipt n) = Inr (rs @ [run_review n])"
  using assms
  by (simp add: stage_review_def run_find pilot_same_def jitem2_def final_items review_from_receipt_def build_review_def VERDICTS_def py_str_def)
    (simp add: run_review_def)

lemma run_reviews: "foldE (stage_review demo_ext run_transcript run_tasks) [] verdict_receipts = Inr (map run_review run_nodes)"
proof -
  note nodes = run_nodes_def [THEN arg_cong [where f = set], simplified]
  have "foldE (stage_review demo_ext run_transcript run_tasks) [] (map verdict_receipt [''a'', ''b'', ''c'']) = Inr (map run_review [''a'', ''b'', ''c''])"
    by (simp add: run_review_of nodes)
  then show ?thesis by (simp add: verdict_receipts_def run_nodes_def)
qed

definition open_dispute :: json where
  "open_dispute = JObj [(''dispute_id'', JStr ''d''), (''bundle_hash'', JStr demo_head), (''severity'', JStr ''critical''),
     (''status'', JStr ''open'')]"

lemma run_aggregated: "aggregate_reviews demo_ext open_dispute (map run_review run_nodes) (map JStr run_nodes) = Inr run_dispute"
proof -
  have "jitem open_dispute ''dispute_id'' = Inr (JStr ''d'')" "jitem open_dispute ''bundle_hash'' = Inr (JStr demo_head)"
    by (simp_all add: open_dispute_def)
  then have step: "n \<in> {''a'', ''b'', ''c''} \<Longrightarrow> n \<notin> set ns \<Longrightarrow> review_step demo_ext open_dispute [''a'', ''b'', ''c''] ns (run_review n) = Inr (ns @ [n])" for n ns
    by (auto simp: review_step_def addr_item_def)
  have status: "verdict_status [JStr ''dismiss'', JStr ''dismiss'', JStr ''dismiss''] = ''dismissed''" "digit_char (Suc (Suc (Suc 0))) = CHR ''3''" by code_simp+
  obtain o1 o2 where "jset open_dispute ''status'' (JStr ''dismissed'') = Inr o1" "jset o1 ''valid_review_count'' (JStr ''3'') = Inr o2"
    "jset o2 ''review_ids'' (JArr [JStr ''ra'', JStr ''rb'', JStr ''rc'']) = Inr run_dispute"
    by (simp add: jset_def open_dispute_def run_dispute_def)
  with step status show ?thesis by (simp add: aggregate_reviews_def run_nodes_def)
qed

lemma run_opened:
  "bindE (jset run_dispute ''status'' (JStr ''open'')) (\<lambda>o1. bindE (jpop o1 ''valid_review_count'') (\<lambda>o2. jpop o2 ''review_ids'')) = Inr open_dispute"
  by (simp add: jset_def jpop_def run_dispute_def open_dispute_def)

lemma run_gate_ok:
  "build_proposal_plan demo_ext (demo_session ''closed'' ''2'' demo_head) final_bundle [run_dispute] JNull = Inr run_gate"
proof -
  have "jget final_bundle ''status'' = Inr (JStr ''finalized'')" "jget final_bundle ''session_id'' = Inr (JStr ''s'')"
    "jget final_bundle ''bundle_hash'' = Inr (JStr demo_head)" by (simp_all add: final_bundle_eq jget_def jget_or_def)
  moreover have "jget (demo_session ''closed'' ''2'' demo_head) ''status'' = Inr (JStr ''closed'')"
    "jget (demo_session ''closed'' ''2'' demo_head) ''session_id'' = Inr (JStr ''s'')" by (simp_all add: demo_session_def jget_def jget_or_def)
  ultimately show ?thesis
    by (simp add: build_proposal_plan_def gate_reasons_def is_blocking_def is_critical_def py_sorted_def Let_def final_items)
      (simp add: run_gate_def)
qed

lemma run_dispute_ok: "verify_dispute_and_gate demo_ext run_transcript run_list run_tasks = Inr ()"
proof -
  have "length verdict_receipts = 3" by (simp add: verdict_receipts_def run_nodes_def)
  moreover have "review_nodes run_list = run_nodes" by (simp add: review_nodes_def run_list_def run_nodes_def)
  moreover have "jitem2 run_transcript ''proposal_gate'' ''proposal'' = Inr JNull" by (simp add: jitem2_def run_gate_def)
  moreover obtain o1 o2 where "jset run_dispute ''status'' (JStr ''open'') = Inr o1" "jpop o1 ''valid_review_count'' = Inr o2"
    "jpop o2 ''review_ids'' = Inr open_dispute" using run_opened by (auto simp: bindE_Inr_iff)
  ultimately show ?thesis using run_reviews run_aggregated run_gate_ok
    by (simp add: verify_dispute_and_gate_def list_item_def pilot_same_def)
qed

lemma run_stages: "verify_witness_evidence_stages demo_ext run_transcript (Some [JStr ''p'']) False = Inr (run_list, run_tasks)"
  using run_release_ok run_members run_tasks_ok run_receipts_ok run_chain_of_events run_artifacts_ok run_bundle_ok run_observations_ok run_dispute_ok
  by (simp add: verify_witness_evidence_stages_def list_item_def)


section \<open>Participants of the run\<close>

lemma run_participants: "participants_of demo_ext run_transcript run_list = Inr run_nodes"
proof -
  have "mapE (\<lambda>item. addr_item demo_ext item ''node'') (observe_receipts @ verdict_receipts) = Inr (run_nodes @ run_nodes)"
    by (simp add: observe_receipts_def verdict_receipts_def run_nodes_def addr_item_def)
  moreover have "set run_nodes \<subseteq> fst ` set run_list" by (auto simp: run_list_def run_nodes_def)
  moreover have "remdups (run_nodes @ run_nodes) = run_nodes" by (simp add: run_nodes_def)
  ultimately show ?thesis by (simp add: participants_of_def list_item_def)
qed

definition run_table :: "(string \<times> json) list" where
  "run_table = map (\<lambda>n. (n, JStr (''sha256:'' @ demo_digest))) run_nodes"

lemma signer_items [simp]:
  "jitem (run_signer a roles) ''address'' = Inr (JStr a)" "jitem (run_signer a roles) ''roles'' = Inr (JArr (map JStr roles))"
  "jitem (run_signer a roles) ''ruleset_sha256'' = Inr (JStr (''sha256:'' @ demo_digest))"
  "jitem (run_signer a roles) ''rules_attestation_sha256'' = Inr (JStr (''sha256:'' @ demo_digest))"
  by (simp_all add: run_signer_def)

lemma run_signed: "verify_signer_evidence demo_ext run_transcript run_nodes = Inr (run_table, run_table)"
proof -
  let ?e = "(''p'', run_signer ''p'' [''publisher'', ''task_issuer'']) # map (\<lambda>n. (n, run_signer n [''node''])) [''a'', ''b'', ''c'']"
  have "foldE (signer_item demo_ext) [] (run_signer ''p'' [''publisher'', ''task_issuer''] # map (\<lambda>n. run_signer n [''node'']) [''a'', ''b'', ''c'']) = Inr ?e"
    by (simp add: signer_item_def addr_item_def)
  moreover have "required_roles demo_ext run_transcript [''a'', ''b'', ''c''] =
      Inr [(''p'', [''task_issuer'', ''publisher'']), (''a'', [''node'']), (''b'', [''node'']), (''c'', [''node''])]"
    by (simp add: required_roles_def addr_item_def list_item_def run_nodes_def require_role_def List.insert_def)
  ultimately show ?thesis
    by (simp add: verify_signer_evidence_def list_item_def run_signers_def run_nodes_def signer_has_roles_def lookup_address_def run_table_def)
qed

definition run_assignments :: "(string \<times> json \<times> json) list" where
  "run_assignments = map (\<lambda>n. (n, JStr (CHR ''o'' # n), JStr demo_head)) run_nodes"

lemma run_assigned: "foldE (assignment_step demo_ext) [] (map observe_task run_nodes @ map verdict_task run_nodes) = Inr run_assignments"
  by (simp add: assignment_step_def addr_item_def run_nodes_def run_assignments_def) (simp add: OBSERVE_def REVIEW_def)

lemma run_profiles: "foldE (profile_hash_step demo_ext) [] (map run_member run_nodes) = Inr (map (\<lambda>n. (n, JStr demo_head)) run_nodes)"
  by (simp add: profile_hash_step_def run_member_def run_profile_def addr_item_def run_nodes_def)


lemma attestation_items [simp]:
  "jitem (run_attestation n g) ''chain_id'' = Inr (JStr ''1'')" "jitem (run_attestation n g) ''registry'' = Inr (JStr ''r'')"
  "jitem (run_attestation n g) ''run_id'' = Inr (JStr ''n'')" "jitem (run_attestation n g) ''node'' = Inr (JStr n)"
  "jitem (run_attestation n g) ''role'' = Inr (JStr ''observation_node'')" "jitem (run_attestation n g) ''profile_hash'' = Inr (JStr demo_head)"
  "jitem (run_attestation n g) ''assignment_task_id'' = Inr (JStr (CHR ''o'' # n))"
  "jitem (run_attestation n g) ''assignment_payload_hash'' = Inr (JStr demo_head)"
  "jitem (run_attestation n g) ''pilot_invite_hash'' = Inr (JStr (''sha256:'' @ demo_digest))"
  "jitem (run_attestation n g) ''trust_policy_hash'' = Inr (JStr (''sha256:'' @ demo_digest))"
  "jitem (run_attestation n g) ''package_hash'' = Inr (JStr demo_head)" "jitem (run_attestation n g) ''manifest_hash'' = Inr (JStr demo_head)"
  "jitem (run_attestation n g) ''service_config_hash'' = Inr (JStr demo_head)"
  "jitem (run_attestation n g) ''ruleset_sha256'' = Inr (JStr (''sha256:'' @ demo_digest))"
  "jitem (run_attestation n g) ''rules_attestation_sha256'' = Inr (JStr (''sha256:'' @ demo_digest))"
  "jitem (run_attestation n g) ''operator_group_hash'' = Inr (JStr g)" "jitem (run_attestation n g) ''network_group_hash'' = Inr (JStr g)"
  "jitem (run_attestation n g) ''issued_at'' = Inr (JStr ''1'')" "jitem (run_attestation n g) ''valid_until'' = Inr (JStr ''9'')"
  "jitem (run_attestation n g) ''signature'' = Inr (JStr n)"
  by (simp_all add: run_attestation_def)

lemma attestation_secrets: "check_secrets (run_attestation n g) = Inr ()"
proof -
  have "secret_free (run_attestation n g)" by code_simp
  then show ?thesis by (simp only: check_secrets_Inr_iff)
qed

definition run_expect :: set_expect where
  "run_expect = \<lparr>se_chain_id = JStr ''1'', se_registry = JStr ''r'', se_run_id = JStr ''n'', se_package_hash = JStr demo_head,
        se_manifest_hash = JStr demo_head, se_service_config_hash = JStr demo_head, se_rulesets = run_table,
        se_profile_hashes = map (\<lambda>n. (n, JStr demo_head)) run_nodes, se_assignments = run_assignments,
        se_pilot_invite_hash = JStr (''sha256:'' @ demo_digest),
        se_trust_policy_hash = JStr (''sha256:'' @ demo_digest), se_rules_attestations = run_table\<rparr>"

lemma attestation_ok:
  assumes "require_bytes32 (JStr g) ''operator_group_hash'' = Inr g'" "require_bytes32 (JStr g) ''network_group_hash'' = Inr g'"
  shows "verify_participant_attestation demo_ext (run_attestation n g)
     (attestation_expected run_expect (Some (JStr demo_head)) (JStr (CHR ''o'' # n), JStr demo_head) (JStr (''sha256:'' @ demo_digest))) 5 = Inr n"
proof -
  have head: "CHR ''0'' # CHR ''x'' # demo_digest = demo_head" by (simp add: demo_head_def)
  have "py_str (JStr ''1'') = ''1''" by (simp add: py_str_def)
  moreover have "sha256_as_bytes32 (JStr (''sha256:'' @ demo_digest)) l = Inr demo_head" for l
    using head by (simp add: sha256_as_bytes32_def starts_with_def)
  ultimately show ?thesis
    using attestation_secrets assms
    by (simp add: verify_participant_attestation_def attestation_bindings_def attestation_expected_def run_expect_def
      attestation_window_def attestation_signer_def same_item_def same_lower_item_def attestation_same_def same_address_def when_some_def
      build_participant_attestation_typed_data_def attestation_message_def attestation_domain_def addr_item_def int_item_def
      sha256_item_def bytes32_item_def id_item_def recover_signer_def jlower_def id_hash_def MAX_ATTESTATION_TTL_SECONDS_def)
qed


lemma run_groups: "require_bytes32 (JStr hash_b) l = Inr hash_b" "py_lower hash_b = hash_b" "hash_b \<noteq> demo_head"
proof -
  show l: "py_lower hash_b = hash_b" "hash_b \<noteq> demo_head" by code_simp+
  have "is_bytes32 hash_b" by code_simp
  with l show "require_bytes32 (JStr hash_b) l = Inr hash_b" by (simp add: require_bytes32_def)
qed

lemma run_attested: "verify_participant_attestation_set demo_ext
    [run_attestation ''a'' demo_head, run_attestation ''b'' hash_b, run_attestation ''c'' hash_b] (map JStr run_nodes) run_expect 5
  = Inr [(''nodes'', JInt 3), (''declared_operator_groups'', JInt 2), (''declared_network_groups'', JInt 2)]"
proof -
  let ?step = "attestation_step demo_ext run_expect 5 run_nodes run_table (map (\<lambda>n. (n, JStr demo_head)) run_nodes) run_assignments run_table"
  have nodes: "set run_nodes = {''a'', ''b'', ''c''}" "map_of run_table n = (if n \<in> {''a'', ''b'', ''c''} then Some (JStr (''sha256:'' @ demo_digest)) else None)"
    "map_of (map (\<lambda>n. (n, JStr demo_head)) run_nodes) n = (if n \<in> {''a'', ''b'', ''c''} then Some (JStr demo_head) else None)"
    "map_of run_assignments n = (if n \<in> {''a'', ''b'', ''c''} then Some (JStr (CHR ''o'' # n), JStr demo_head) else None)" for n
    by (simp_all add: run_nodes_def run_assignments_def run_table_def)
  have step: "?step s (run_attestation n g) = Inr (s\<lparr>ro_recovered := ro_recovered s @ [n],
      ro_operator_groups := List.insert g (ro_operator_groups s), ro_network_groups := List.insert g (ro_network_groups s)\<rparr>)"
    if "n \<in> {''a'', ''b'', ''c''}" "n \<notin> set (ro_recovered s)" "g \<in> {demo_head, hash_b}" for n g s
  proof -
    have g: "require_bytes32 (JStr g) l = Inr g" "py_lower g = g" for l using that(3) run_groups by auto
    show ?thesis using that(1,2) g attestation_ok [OF g(1) g(1), of n]
      by (simp add: attestation_step_def addr_item_def lookup_address_def nodes attestation_same_def jlower_def)
  qed
  have fold: "foldE ?step \<lparr>ro_recovered = [], ro_operator_groups = [], ro_network_groups = []\<rparr>
      [run_attestation ''a'' demo_head, run_attestation ''b'' hash_b, run_attestation ''c'' hash_b]
    = Inr \<lparr>ro_recovered = [''a'', ''b'', ''c''], ro_operator_groups = [hash_b, demo_head], ro_network_groups = [hash_b, demo_head]\<rparr>"
    using run_groups(3) by (simp add: step List.insert_def)
  have normal: "normalize_addresses demo_ext run_table = Inr run_table" "normalize_addresses demo_ext run_assignments = Inr run_assignments"
    "normalize_addresses demo_ext (map (\<lambda>n. (n, JStr demo_head)) run_nodes) = Inr (map (\<lambda>n. (n, JStr demo_head)) run_nodes)"
    by (simp_all add: normalize_addresses_def run_nodes_def run_assignments_def run_table_def)
  have ids: "mapE (to_checksum_address demo_ext) (map JStr run_nodes) = Inr run_nodes" "remdups run_nodes = run_nodes" "length run_nodes = 3"
    by (simp_all add: run_nodes_def)
  have fields: "se_rulesets run_expect = run_table" "se_profile_hashes run_expect = map (\<lambda>n. (n, JStr demo_head)) run_nodes"
    "se_assignments run_expect = run_assignments" "se_rules_attestations run_expect = run_table" by (simp_all add: run_expect_def)
  show ?thesis
    unfolding verify_participant_attestation_set_def ids Let_def fields normal bindE_simps fold by (simp add: ids nodes)
qed

lemma run_diversity: "attested_participants demo_ext run_transcript demo_head run_nodes
  = Inr [(''nodes'', JInt 3), (''declared_operator_groups'', JInt 2), (''declared_network_groups'', JInt 2)]"
proof -
  have "list_item run_transcript ''participant_attestations'' =
      Inr [run_attestation ''a'' demo_head, run_attestation ''b'' hash_b, run_attestation ''c'' hash_b]"
    "jitem run_transcript ''pilot_invite_hash'' = Inr (JStr (''sha256:'' @ demo_digest))"
    "jitem run_transcript ''trust_policy_hash'' = Inr (JStr (''sha256:'' @ demo_digest))"
    by (simp_all add: run_transcript_def list_item_def)
  moreover have "set (map fst run_assignments) = set run_nodes" by (auto simp: run_assignments_def)
  ultimately show ?thesis
    using run_signed run_assigned run_profiles run_attested
    by (simp add: attested_participants_def list_item_def jitem2_def int_item_def run_expect_def)
qed

end
