(* ===== verification/ChainExamples.thy ===== *)
theory ChainExamples
  imports TranscriptExamples
begin

text \<open>
  The run of \<open>TranscriptExamples\<close> before two providers and a trust policy: the whole transcript is
  accepted as \<open>chain_verified\<close>. Then an accepted vote of three witnesses.
\<close>

section \<open>Policy\<close>

definition run_policy :: json where
  "run_policy = JObj [(''chain_id'', JStr ''1''), (''registry'', JStr ''r''), (''publisher'', JStr ''p''), (''skill_id'', JStr ''k''),
     (''version'', JStr ''1''), (''package_hash'', JStr demo_head), (''manifest_hash'', JStr demo_head),
     (''allowed_issuers'', JArr [JStr ''p''])]"

lemma run_policy_ok: "load_policy demo_ext (Some (PolicyValue run_policy)) = Inr (Some run_policy)"
proof -
  have "py_lower ''r'' = ''r''" "py_lower ''p'' = ''p''" by code_simp+
  then have "policy_valid demo_ext run_policy"
    by (simp add: policy_valid_def addr_item_def run_policy_def ZERO_ADDRESS_def)
  then have "validate_node_trust_policy demo_ext run_policy = Inr run_policy" by (simp add: validate_node_trust_policy_Inr_iff)
  then show ?thesis by (simp add: load_policy_def)
qed

lemma run_policy_covers: "verify_transcript_trust_policy demo_ext run_transcript run_policy = Inr ()"
  by (simp add: verify_transcript_trust_policy_def POLICY_FIELDS_def jitem2_def policy_value_def run_policy_def jget_def jget_or_def
      py_str_def compare_policy_field_def list_item_def addr_item_def run_nodes_def)

section \<open>Two providers\<close>

definition run_calldata :: string where
  "run_calldata = selector_of demo_ext PUBLISH_RELEASE_SIGNATURE @ concat (replicate 5 demo_digest)"

definition run_view :: chain_view where
  "run_view = \<lparr>cv_connected = True, cv_chain_id = Inr 1,
     cv_block = (\<lambda>_. Inr \<lparr>bk_number = 1, bk_hash = demo_head, bk_timestamp = 5\<rparr>), cv_code = (\<lambda>_ _. Inr ''c''),
     cv_receipt = (\<lambda>_. Inr \<lparr>cr_status = 1, cr_block_number = 1, cr_block_hash = demo_head, cr_contract = JStr ''r'', cr_logs = []\<rparr>),
     cv_tx = (\<lambda>t. Inr (if t = JStr ''0x1'' then \<lparr>tx_from = JStr ''p'', tx_to = JNull, tx_input = []\<rparr>
                        else \<lparr>tx_from = JStr ''p'', tx_to = JStr ''r'', tx_input = run_calldata\<rparr>)),
     cv_release = (\<lambda>_ _ _ _ _. Inr \<lparr>rl_package = demo_head, rl_manifest = demo_head, rl_status = 1\<rparr>),
     cv_current = (\<lambda>_ _ _ _. Inr demo_head), cv_address_of = (\<lambda>s. Inr s), cv_decode_vote = (\<lambda>_. Inl ValueError),
     cv_executed = (\<lambda>_ _ _. Inr True), cv_vote_counts = (\<lambda>_ _ _. Inr (0, 0)), cv_payload_hash = (\<lambda>_ _ _. Inr demo_head),
     cv_min_valid_votes = (\<lambda>_ _. Inr 1), cv_registered = (\<lambda>_ _ _. Inr True), cv_has_voted = (\<lambda>_ _ _ _. Inr True),
     cv_total_uto = (\<lambda>_ _. Inr 0)\<rparr>"

lemma view_items [simp]:
  "cv_connected run_view" "cv_chain_id run_view = Inr 1" "cv_code run_view a n = Inr ''c''"
  "cv_block run_view b = Inr \<lparr>bk_number = 1, bk_hash = demo_head, bk_timestamp = 5\<rparr>"
  "cv_receipt run_view t = Inr \<lparr>cr_status = 1, cr_block_number = 1, cr_block_hash = demo_head, cr_contract = JStr ''r'', cr_logs = []\<rparr>"
  "cv_tx run_view t = Inr (if t = JStr ''0x1'' then \<lparr>tx_from = JStr ''p'', tx_to = JNull, tx_input = []\<rparr>
                        else \<lparr>tx_from = JStr ''p'', tx_to = JStr ''r'', tx_input = run_calldata\<rparr>)"
  "cv_release run_view r p k h n = Inr \<lparr>rl_package = demo_head, rl_manifest = demo_head, rl_status = 1\<rparr>"
  "cv_current run_view r p k n = Inr demo_head"
  by (simp_all add: run_view_def)

lemma run_anchor [simp]: "jitem run_transcript ''verification_anchor'' =
    Inr (JObj [(''block_number'', JStr ''1''), (''block_hash'', JStr demo_head), (''timestamp'', JStr ''5'')])"
  "jitem run_transcript ''environment'' = Inr (JStr ''local_anvil'')" "jitem run_transcript ''input_mode'' = Inr (JStr ''push'')"
  "jitem run_transcript ''actors_simulated'' = Inr (JBool False)"
  "jitem run_transcript ''transcript_hash'' = Inr (JStr (''sha256:'' @ demo_digest))"
  "jitem run_transcript ''public_service'' = Inr (JObj [(''config_hash'', JStr demo_head)])"
  "jget run_transcript ''schema_version'' = Inr (JStr ''loveengine.witness-core-transcript/2'')"
  by (simp_all add: run_transcript_def jget_def jget_or_def)

lemma run_numbers [simp]: "py_str_int 1 = ''1''" "py_str_int 5 = ''5''"
  by code_simp+

lemma run_release_seen: "verify_release_anchor_rpc demo_ext run_view fresh run_transcript = Inr 1"
proof -
  obtain bs where "bytes_fromhex (drop 2 demo_head) = Inr bs"
  proof -
    have "bytes_fromhex demo_digest = Inr (replicate 32 (CHR 0xAA))" by code_simp
    then show ?thesis by (intro that [of "replicate 32 (CHR 0xAA)"]) (simp add: demo_head_def)
  qed
  then show ?thesis
    by (simp add: verify_release_anchor_rpc_def chain_guard_Inr_iff pilot_same_def same_items_def int_item_def
        lower_item_def jlower_def addr_item_def)
qed

lemma run_calldata: "py_lower run_calldata = run_calldata" "expected_publish_release_calldata demo_ext run_transcript = Inr run_calldata"
proof -
  show "py_lower run_calldata = run_calldata" by code_simp
  have "remove_0x demo_head = demo_digest" by code_simp
  then show "expected_publish_release_calldata demo_ext run_transcript = Inr run_calldata"
    by (simp add: expected_publish_release_calldata_def run_calldata_def jlower_def eval_nat_numeral)
qed

lemma run_observed: "observe_release_anchor_rpc demo_ext run_view run_transcript = Inr (''sha256:'' @ demo_digest)"
proof -
  have lower: "py_lower ''0x1'' = ''0x1''" "py_lower ''0x2'' = ''0x2''" by code_simp+
  have "observed_transaction demo_ext run_view run_transcript run_chain 1 (''deploy'', ''deployment_transaction'')
      = Inr (''deploy'', JObj [(''transaction_hash'', JStr ''0x1''), (''block_number'', JStr ''1''), (''block_hash'', JStr demo_head), (''status'', JStr ''1'')])"
    "observed_transaction demo_ext run_view run_transcript run_chain 1 (''publish'', ''release_transaction'')
      = Inr (''publish'', JObj [(''transaction_hash'', JStr ''0x2''), (''block_number'', JStr ''1''), (''block_hash'', JStr demo_head), (''status'', JStr ''1'')])"
    using run_calldata lower by (simp_all add: observed_transaction_def Let_def addr_item_def jlower_def)
  then show ?thesis
    using run_release_seen [of False]
    by (simp add: observe_release_anchor_rpc_def chain_guard_Inr_iff safe_head_reached_def addr_item_def lower_item_def
        jlower_def Let_def release_observation_def)
qed

definition run_primary :: endpoint where "run_primary = (''http://a'', run_view)"
definition run_secondary :: endpoint where "run_secondary = (''http://b'', run_view)"

lemma run_compared: "compare_providers demo_ext run_primary run_secondary run_transcript = Inr ()"
proof -
  have "validate_rpc_pair demo_ext (Some ''http://a'') (Some ''http://b'') ''1'' True = Inr ()" by code_simp
  then show ?thesis using run_observed
    by (simp add: compare_providers_def jitem2_def run_primary_def run_secondary_def py_str_def)
qed

lemma run_accepted: "verify_core_v2 demo_ext (Some run_primary) (Some run_secondary) (Some (PolicyValue run_policy)) run_transcript =
    Inr (JObj ([(''valid'', JBool True), (''verification_level'', JStr ''chain_verified''), (''chain_verified'', JBool True),
       (''trust_bound'', JBool True), (''run_id'', JStr ''n''), (''environment'', JStr ''local_anvil''), (''actors_simulated'', JBool False),
       (''event_count'', JInt 1), (''observation_receipts'', JInt 3), (''review_receipts'', JInt 3), (''gate_ready'', JBool True),
       (''chain_consistency_checked'', JBool True), (''input_mode'', JStr ''push''), (''participant_claims_verified'', JBool True),
       (''signer_backend_evidence_verified'', JBool False), (''nodes'', JInt 3), (''declared_operator_groups'', JInt 2),
       (''declared_network_groups'', JInt 2)]))"
proof -
  have "core_transcript_hash demo_ext run_transcript = Inr (''sha256:'' @ demo_digest)"
    by (simp add: core_transcript_hash_def jpop_def run_transcript_def)
  moreover have "public_service_config_hash demo_ext (JObj [(''config_hash'', JStr demo_head)]) = Inr demo_head"
  proof -
    have "secret_free (JObj [])" by code_simp
    then have "check_secrets (JObj []) = Inr ()" by (simp only: check_secrets_Inr_iff)
    then show ?thesis by (simp add: public_service_config_hash_def jpop_def)
  qed
  moreover have "policy_allowed (Some run_policy) = Inr (Some [JStr ''p''])"
    by (simp add: policy_allowed_def list_item_def run_policy_def)
  moreover have "given (Some run_primary)" "given (Some run_secondary)" by (simp_all add: given_def run_primary_def run_secondary_def)
  moreover have "verification_result run_transcript True True (Some True) = Inr
      [(''valid'', JBool True), (''verification_level'', JStr ''chain_verified''), (''chain_verified'', JBool True),
       (''trust_bound'', JBool True), (''run_id'', JStr ''n''), (''environment'', JStr ''local_anvil''), (''actors_simulated'', JBool False),
       (''event_count'', JInt 1), (''observation_receipts'', JInt 3), (''review_receipts'', JInt 3), (''gate_ready'', JBool True),
       (''chain_consistency_checked'', JBool True)]"
    by (simp add: verification_result_def Let_def list_item_def level_of_def observe_receipts_def verdict_receipts_def run_nodes_def
        run_gate_def jget_def jget_or_def is_falsy_def)
  ultimately show ?thesis
    using run_policy_ok run_stages run_participants run_diversity run_policy_covers run_compared
    by (simp add: verify_core_v2_def jitem2_def lower_item_def jlower_def)
qed

lemma normalize_letters:
  "normalize_key (CHR ''a'' # s) = CHR ''a'' # normalize_key s" "normalize_key (CHR ''b'' # s) = CHR ''b'' # normalize_key s" "normalize_key (CHR ''c'' # s) = CHR ''c'' # normalize_key s"
  "normalize_key (CHR ''d'' # s) = CHR ''d'' # normalize_key s" "normalize_key (CHR ''e'' # s) = CHR ''e'' # normalize_key s" "normalize_key (CHR ''f'' # s) = CHR ''f'' # normalize_key s"
  "normalize_key (CHR ''g'' # s) = CHR ''g'' # normalize_key s" "normalize_key (CHR ''h'' # s) = CHR ''h'' # normalize_key s" "normalize_key (CHR ''i'' # s) = CHR ''i'' # normalize_key s"
  "normalize_key (CHR ''j'' # s) = CHR ''j'' # normalize_key s" "normalize_key (CHR ''k'' # s) = CHR ''k'' # normalize_key s" "normalize_key (CHR ''l'' # s) = CHR ''l'' # normalize_key s"
  "normalize_key (CHR ''m'' # s) = CHR ''m'' # normalize_key s" "normalize_key (CHR ''n'' # s) = CHR ''n'' # normalize_key s" "normalize_key (CHR ''o'' # s) = CHR ''o'' # normalize_key s"
  "normalize_key (CHR ''p'' # s) = CHR ''p'' # normalize_key s" "normalize_key (CHR ''q'' # s) = CHR ''q'' # normalize_key s" "normalize_key (CHR ''r'' # s) = CHR ''r'' # normalize_key s"
  "normalize_key (CHR ''s'' # s) = CHR ''s'' # normalize_key s" "normalize_key (CHR ''t'' # s) = CHR ''t'' # normalize_key s" "normalize_key (CHR ''u'' # s) = CHR ''u'' # normalize_key s"
  "normalize_key (CHR ''v'' # s) = CHR ''v'' # normalize_key s" "normalize_key (CHR ''w'' # s) = CHR ''w'' # normalize_key s" "normalize_key (CHR ''x'' # s) = CHR ''x'' # normalize_key s"
  "normalize_key (CHR ''y'' # s) = CHR ''y'' # normalize_key s" "normalize_key (CHR ''z'' # s) = CHR ''z'' # normalize_key s"
  "normalize_key (CHR ''2'' # s) = CHR ''2'' # normalize_key s" "normalize_key (CHR ''5'' # s) = CHR ''5'' # normalize_key s" "normalize_key (CHR ''6'' # s) = CHR ''6'' # normalize_key s"
  "normalize_key (CHR ''_'' # s) = normalize_key s" "normalize_key [] = []"
  by (simp_all add: normalize_key_def py_lower_def lower_char_def is_alnum_def is_digit_def)

lemmas key_simps = secret_free_simps normalize_letters FORBIDDEN_KEYS_def

lemma run_parts_secret_free:
  "secret_free run_chain" "secret_free run_release" "secret_free (run_member n)" "secret_free (observe_task n)"
  "secret_free (verdict_task n)" "secret_free (observe_receipt n)" "secret_free (verdict_receipt n)" "secret_free demo_event"
  "secret_free (demo_session status after head)" "secret_free final_bundle" "secret_free run_dispute" "secret_free run_gate"
  "secret_free run_signers" "secret_free (run_attestation n g)"
  by (simp_all add: key_simps run_chain_def run_release_def run_member_def run_profile_def observe_task_def run_task_def
      observe_payload_def verdict_task_def review_payload_def observe_receipt_def run_receipt_def observe_result_def
      verdict_receipt_def dismiss_result_def demo_event_def demo_session_def final_bundle_eq demo_ref_def run_dispute_def
      run_gate_def run_signers_def run_signer_def run_nodes_def run_attestation_def)

lemma run_without_secrets: "check_secrets run_transcript = Inr ()"
proof -
  have "secret_free run_transcript"
    by (simp add: run_transcript_def run_bootstrap_def run_observations_def observe_receipts_def verdict_receipts_def run_nodes_def
        run_parts_secret_free) (simp add: key_simps run_parts_secret_free)
  then show ?thesis by (simp only: check_secrets_Inr_iff)
qed

lemma run_core: "\<exists>r. verify_core_transcript demo_ext (Some run_primary) (Some run_secondary) (Some (PolicyValue run_policy)) run_transcript = Inr r"
  using run_accepted run_without_secrets by (simp add: verify_core_transcript_def)

lemma run_texts_apart:
  "inj_on (lower_keccak demo_ext) (event_preimage ` (set [jnorm demo_event] \<union> set [demo_event]))"
  "py_lower ZERO_HASH \<notin> lower_keccak demo_ext ` event_preimage ` (set [jnorm demo_event] \<union> set [demo_event])"
proof -
  have e: "event_preimage (jnorm demo_event) = event_preimage demo_event" by code_simp
  then show "inj_on (lower_keccak demo_ext) (event_preimage ` (set [jnorm demo_event] \<union> set [demo_event]))" by simp
  have "py_lower ZERO_HASH \<noteq> py_lower demo_head" by code_simp
  with e show "py_lower ZERO_HASH \<notin> lower_keccak demo_ext ` event_preimage ` (set [jnorm demo_event] \<union> set [demo_event])"
    by (simp add: lower_keccak_def)
qed

section \<open>Votes\<close>

definition vote_approval :: "string \<Rightarrow> string \<Rightarrow> json" where
  "vote_approval w r = JObj [(''witness'', JStr w), (''proposal_id'', JStr ''1''), (''support'', JBool True), (''reason_hash'', JStr demo_head),
     (''payload_hash'', JStr demo_head), (''nonce'', JStr ''1''), (''deadline'', JStr ''9''), (''v'', JStr ''1''),
     (''r'', JStr r), (''s'', JStr ''0x1'')]"

definition vote_transcript :: json where
  "vote_transcript = JObj [(''verified_at'', JStr ''5''),
     (''chain'', JObj [(''chain_id'', JStr ''1''), (''witness_dao'', JStr ''d''), (''witnesses'', JArr [JStr ''A'', JStr ''B'', JStr ''C'']),
        (''min_valid_votes'', JStr ''2'')]),
     (''proposal'', JObj [(''proposal_id'', JStr ''1''), (''payload_hash'', JStr demo_head), (''total_votes'', JStr ''2''),
        (''support_votes'', JStr ''2'')]),
     (''vote_approvals'', JArr [vote_approval ''A'' ''0x41'', vote_approval ''B'' ''0x42''])]"

lemma votes_accepted: "verify_votes demo_ext vote_transcript = Inr [''A'', ''B'']"
  by code_simp

end
