(* ===== verification/SignedTypes.thy ===== *)
theory SignedTypes
  imports Attestation
begin

text \<open>
  The documents that are signed (\<^verbatim>\<open>typed_data.py\<close>, \<^verbatim>\<open>network_typed_data.py\<close>, \<^verbatim>\<open>m4_typed_data.py\<close>,
  \<^verbatim>\<open>participant_attestation.py\<close>) declare the fields of their message with types of EIP-712. A typing
  relation says which values have a type; every document that a builder returns is well typed: its
  message has exactly the declared fields, in their order, with values of the declared types, and so
  has its domain. An encoder of such a document finds each field, and no two builders disagree with
  the declaration that the signer shows.
\<close>

inductive has_type :: "ext \<Rightarrow> string \<Rightarrow> json \<Rightarrow> bool" for E where
  Bytes32: "is_bytes32 s \<Longrightarrow> has_type E ''bytes32'' (JStr s)"
| Address: "checksum_address E v = Inr a \<Longrightarrow> has_type E ''address'' (JStr a)"
| Uint256: "has_type E ''uint256'' (JInt i)"
| Boolean: "has_type E ''bool'' (JBool b)"
| Text: "has_type E ''string'' (JStr s)"

declare has_type.intros [intro!]

inductive_cases has_type_elims [elim!]:
  "has_type E ''bytes32'' v" "has_type E ''address'' v" "has_type E ''uint256'' v" "has_type E ''bool'' v"

definition conforms :: "ext \<Rightarrow> json \<Rightarrow> json \<Rightarrow> bool" where
  "conforms E flds m \<longleftrightarrow>
     (\<exists>fs d. flds = JArr fs \<and> m = JObj d \<and> list_all2 (\<lambda>f kv. \<exists>t. f = type_field (fst kv) t \<and> has_type E t (snd kv)) fs d)"

definition well_typed :: "ext \<Rightarrow> json \<Rightarrow> bool" where
  "well_typed E doc \<longleftrightarrow>
     (\<exists>primary flds dm m. doc = typed_doc primary flds dm m \<and> conforms E DOMAIN_TYPES dm \<and> conforms E flds m)"

text \<open>What the documents ask of the hash function: 32 bytes in hexadecimal digits.\<close>

definition digests :: "ext \<Rightarrow> bool" where
  "digests E \<longleftrightarrow> (\<forall>s. length (keccak_hex E s) = 64 \<and> list_all is_hex (keccak_hex E s))"

lemma is_hex_lower: "is_hex c \<Longrightarrow> is_hex (lower_char c)"
proof -
  assume "is_hex c"
  moreover have "ord_char (char_of n :: char) = n" if "n < 256" for n using that by simp
  ultimately show ?thesis
    by (cases "65 \<le> ord_char c \<and> ord_char c \<le> 70")
      (auto simp: is_hex_def hex_val_def lower_char_def is_digit_def split: if_splits)
qed

lemma is_bytes32_lower: "is_bytes32 s \<Longrightarrow> is_bytes32 (py_lower s)"
proof -
  assume s: "is_bytes32 s"
  then obtain t where t: "s = ''0x'' @ t" unfolding is_bytes32_def by (metis append_take_drop_id)
  with s have "list_all is_hex (py_lower t)" by (auto simp: is_bytes32_def py_lower_def list_all_iff is_hex_lower)
  moreover have "py_lower ''0x'' = ''0x''" by code_simp
  moreover have "py_lower s = py_lower ''0x'' @ py_lower t" by (simp add: t py_lower_def)
  ultimately show ?thesis using s t by (simp add: is_bytes32_def)
qed

lemma is_bytes32_digest: "digests E \<Longrightarrow> is_bytes32 (keccak256_hex E s)"
  by (simp add: digests_def is_bytes32_def keccak256_hex_def)

lemma conforms_fields:
  "conforms E (JArr []) (JObj []) \<longleftrightarrow> True"
  "conforms E (JArr (type_field k t # fs)) (JObj ((k', v) # d)) \<longleftrightarrow> k = k' \<and> has_type E t v \<and> conforms E (JArr fs) (JObj d)"
  by (auto simp: conforms_def type_field_def)

lemma well_typed_doc: "conforms E DOMAIN_TYPES dm \<Longrightarrow> conforms E flds m \<Longrightarrow> well_typed E (typed_doc p flds dm m)"
  by (auto simp: well_typed_def)

lemma domain_conforms: "checksum_address E v = Inr a \<Longrightarrow> conforms E DOMAIN_TYPES (domain_doc n w c a)"
  by (auto simp: DOMAIN_TYPES_def domain_doc_def conforms_fields)


text \<open>The messages of each kind.\<close>

lemma sha256_item_Inr: "sha256_item v k = Inr h \<Longrightarrow> is_bytes32 h"
proof -
  assume "sha256_item v k = Inr h"
  then obtain x where "sha256_as_bytes32 x k = Inr h" by (auto simp: sha256_item_def bindE_Inr_iff)
  then show ?thesis
    by (cases x) (auto simp: sha256_as_bytes32_def require_bytes32_Inr_iff split: if_splits dest: is_bytes32_lower)
qed

lemmas message_items = bindE_Inr_iff item_Inr_iffs is_bytes32_lower is_bytes32_digest conforms_fields

lemma profile_conforms: "digests E \<Longrightarrow> profile_message E v = Inr m \<Longrightarrow> conforms E profile_fields m"
  by (auto simp: profile_message_def profile_fields_def message_items payload_hash_def)

lemma bootstrap_conforms: "bootstrap_message E v h = Inr m \<Longrightarrow> conforms E bootstrap_fields m"
  by (auto simp: bootstrap_message_def bootstrap_fields_def message_items require_bytes32_Inr_iff)

lemma task_conforms: "digests E \<Longrightarrow> task_message E v = Inr m \<Longrightarrow> conforms E task_fields m"
  by (auto simp: task_message_Inr_iff task_fields_def message_items)

lemma receipt_conforms: "digests E \<Longrightarrow> receipt_message E v = Inr m \<Longrightarrow> conforms E receipt_fields m"
  by (auto simp: receipt_message_def receipt_fields_def message_items)

lemma attestation_conforms:
  assumes "digests E" "attestation_message E v = Inr m"
  shows "conforms E attestation_fields m"
proof -
  from assms(2) obtain run_id node role profile task payload invite policy package manifest service ruleset rules og ng issued until where
    "id_item E v ''run_id'' = Inr run_id" "addr_item E v ''node'' = Inr node" "id_item E v ''role'' = Inr role"
    "bytes32_item v ''profile_hash'' = Inr profile" "id_item E v ''assignment_task_id'' = Inr task"
    "bytes32_item v ''assignment_payload_hash'' = Inr payload" "sha256_item v ''pilot_invite_hash'' = Inr invite"
    "sha256_item v ''trust_policy_hash'' = Inr policy" "bytes32_item v ''package_hash'' = Inr package"
    "bytes32_item v ''manifest_hash'' = Inr manifest" "bytes32_item v ''service_config_hash'' = Inr service"
    "sha256_item v ''ruleset_sha256'' = Inr ruleset" "sha256_item v ''rules_attestation_sha256'' = Inr rules"
    "bytes32_item v ''operator_group_hash'' = Inr og" "bytes32_item v ''network_group_hash'' = Inr ng"
    and m: "Inr (JObj [(''runId'', JStr run_id), (''node'', JStr node), (''role'', JStr role),
       (''profileHash'', JStr profile), (''assignmentTaskId'', JStr task), (''assignmentPayloadHash'', JStr payload),
       (''pilotInviteHash'', JStr invite), (''trustPolicyHash'', JStr policy), (''packageHash'', JStr package),
       (''manifestHash'', JStr manifest), (''serviceConfigHash'', JStr service), (''rulesetSha256'', JStr ruleset),
       (''rulesAttestationSha256'', JStr rules), (''operatorGroupHash'', JStr og),
       (''networkGroupHash'', JStr ng), (''issuedAt'', JInt issued), (''validUntil'', JInt until)]) = (Inr m :: json res)"
    unfolding attestation_message_def by (elim run_elims)
  then have "is_bytes32 run_id" "\<exists>w. checksum_address E w = Inr node" "is_bytes32 role" "is_bytes32 profile" "is_bytes32 task" "is_bytes32 payload"
    "is_bytes32 invite" "is_bytes32 policy" "is_bytes32 package" "is_bytes32 manifest" "is_bytes32 service" "is_bytes32 ruleset"
    "is_bytes32 rules" "is_bytes32 og" "is_bytes32 ng"
    using assms(1) by (auto simp: item_Inr_iffs is_bytes32_lower is_bytes32_digest intro: sha256_item_Inr)
  moreover from m have "m = JObj [(''runId'', JStr run_id), (''node'', JStr node), (''role'', JStr role),
       (''profileHash'', JStr profile), (''assignmentTaskId'', JStr task), (''assignmentPayloadHash'', JStr payload),
       (''pilotInviteHash'', JStr invite), (''trustPolicyHash'', JStr policy), (''packageHash'', JStr package),
       (''manifestHash'', JStr manifest), (''serviceConfigHash'', JStr service), (''rulesetSha256'', JStr ruleset),
       (''rulesAttestationSha256'', JStr rules), (''operatorGroupHash'', JStr og),
       (''networkGroupHash'', JStr ng), (''issuedAt'', JInt issued), (''validUntil'', JInt until)]" by simp
  ultimately show ?thesis by (auto simp: attestation_fields_def conforms_fields)
qed

section \<open>The documents\<close>

lemma domains:
  "vote_domain E v = Inr dm \<Longrightarrow> conforms E DOMAIN_TYPES dm" "network_domain E c g = Inr dm \<Longrightarrow> conforms E DOMAIN_TYPES dm"
  "v2_domain E c g = Inr dm \<Longrightarrow> conforms E DOMAIN_TYPES dm" "v2_domain_of E v = Inr dm \<Longrightarrow> conforms E DOMAIN_TYPES dm"
  "attestation_domain E c g = Inr dm \<Longrightarrow> conforms E DOMAIN_TYPES dm"
  by (auto simp: vote_domain_def network_domain_def v2_domain_def v2_domain_of_def attestation_domain_def bindE_Inr_iff to_checksum_address_def
      intro: domain_conforms)

lemma envelope_typed: "envelope E p flds c g m = Inr d \<Longrightarrow> conforms E flds m \<Longrightarrow> well_typed E d"
  by (auto simp: envelope_def bindE_Inr_iff dest: domains intro!: well_typed_doc)

lemma vote_documents:
  "build_register_typed_data E v = Inr d \<Longrightarrow> well_typed E d" "build_vote_typed_data E v = Inr d \<Longrightarrow> well_typed E d"
proof -
  show "build_register_typed_data E v = Inr d \<Longrightarrow> well_typed E d"
    unfolding build_register_typed_data_def
    by (elim run_elims) (auto simp: conforms_fields item_Inr_iffs dest: domains intro!: well_typed_doc)
  show "build_vote_typed_data E v = Inr d \<Longrightarrow> well_typed E d"
    unfolding build_vote_typed_data_def
    by (elim run_elims) (auto simp: conforms_fields item_Inr_iffs is_bytes32_lower dest: domains intro!: well_typed_doc)
qed

lemma network_documents:
  assumes "digests E"
  shows "build_node_profile_typed_data E c g v = Inr d \<Longrightarrow> well_typed E d"
    "build_bootstrap_typed_data E c g v = Inr d \<Longrightarrow> well_typed E d"
    "build_task_typed_data E v = Inr d \<Longrightarrow> well_typed E d" "build_receipt_typed_data E v = Inr d \<Longrightarrow> well_typed E d"
  unfolding build_node_profile_typed_data_def build_bootstrap_typed_data_def build_task_typed_data_def build_receipt_typed_data_def
    bindE_Inr_iff
  by (elim exE conjE; erule envelope_typed;
      erule profile_conforms [OF assms] bootstrap_conforms task_conforms [OF assms] receipt_conforms [OF assms])+

lemma v2_documents:
  assumes "digests E"
  shows "build_node_profile_v2_typed_data E c g v = Inr d \<Longrightarrow> well_typed E d"
    "build_task_v2_typed_data E v = Inr d \<Longrightarrow> well_typed E d" "build_receipt_v2_typed_data E v = Inr d \<Longrightarrow> well_typed E d"
    "build_participant_attestation_typed_data E v = Inr d \<Longrightarrow> well_typed E d"
    "build_bootstrap_v2_typed_data E v = Inr d \<Longrightarrow> well_typed E d"
proof -
  show "build_node_profile_v2_typed_data E c g v = Inr d \<Longrightarrow> well_typed E d"
    unfolding build_node_profile_v2_typed_data_def
    by (elim run_elims) (auto dest: domains intro!: well_typed_doc profile_conforms [OF assms])
  show "build_task_v2_typed_data E v = Inr d \<Longrightarrow> well_typed E d"
    unfolding build_task_v2_typed_data_def by (elim run_elims) (auto dest: domains intro!: well_typed_doc task_conforms [OF assms])
  show "build_receipt_v2_typed_data E v = Inr d \<Longrightarrow> well_typed E d"
    unfolding build_receipt_v2_typed_data_def by (elim run_elims) (auto dest: domains intro!: well_typed_doc receipt_conforms [OF assms])
  show "build_participant_attestation_typed_data E v = Inr d \<Longrightarrow> well_typed E d"
    unfolding build_participant_attestation_typed_data_def
    by (elim run_elims) (auto dest: domains intro!: well_typed_doc attestation_conforms [OF assms])
  show "build_bootstrap_v2_typed_data E v = Inr d \<Longrightarrow> well_typed E d"
    unfolding build_bootstrap_v2_typed_data_def
    by (elim run_elims) (auto simp: bootstrap_fields_def conforms_fields item_Inr_iffs is_bytes32_lower dest: domains intro!: well_typed_doc)
qed

end
