(* ===== verification/Spec2Isabelle.thy ===== *)
theory Spec2Isabelle
  imports AgentExamples TaskIngress ObservationExamples ReviewExamples ChainExamples SignedTypes
begin

text \<open>
  A verification development for the LoveEngine witness skill (Python package
  \<^verbatim>\<open>src/src/loveengine_witness\<close>).

  The program. A gateway records live sessions as hash-linked events with content-addressed
  artifacts and finalizes a closed session into an evidence bundle. A hub queues signed tasks for
  nodes and relays them over authenticated connections; a node verifies a task, executes it once and
  answers with a signed receipt, which its journal repeats after a crash. The tasks ask a node to
  observe a session or to review the evidence of a dispute. Three observations are aggregated; three
  reviews decide a dispute; a plan of a proposal passes the gate when no critical dispute blocks it.
  A transcript records a whole run: the release, the directory of nodes, the tasks, receipts, events,
  bundle, dispute, gate, the declarations of the participants, the votes. Its verification repeats
  every check, compares it with a trust policy and with what one or two RPC nodes answer.

  Foundations.
  \<^item> \<open>Prelude\<close>: exceptions as values (\<open>exc\<close>, \<open>res\<close>, \<open>bindE\<close>, \<open>catchE\<close>, \<open>ensure\<close>), loops that may
    raise (\<open>foldE\<close>, \<open>mapE\<close>), \<open>str\<close> and \<open>int\<close> operations; the collection \<open>res_simps\<close> characterises when
    an operation returns. \<open>Json\<close>, \<open>JsonDecode\<close>: JSON values, dictionary operations, \<^verbatim>\<open>canonical.py\<close>
    and \<open>json.loads\<close>, with the round trip; \<open>Stored\<close>: values behind their stored text.
  \<^item> \<open>Hashes\<close> (\<^verbatim>\<open>hashes.py\<close>, \<^verbatim>\<open>schema.py\<close>, \<^verbatim>\<open>secrets.py\<close>): the record \<open>ext\<close> of the code outside the
    repository. \<open>TypedData\<close> (\<^verbatim>\<open>typed_data.py\<close>, \<^verbatim>\<open>network_typed_data.py\<close>, \<^verbatim>\<open>m4_typed_data.py\<close>) and
    \<open>SignedTypes\<close>: the EIP-712 documents and their typing relation.
  \<^item> \<open>HashChain\<close>, \<open>PutOnce\<close>: the interfaces of a hash-linked log and of a store whose entries are
    written once, as locales; their clients' lemmas are proved once. Chains are interpreted on
    the live events and the audit log; \<open>PutOnce\<close> on the artifact files, the disputes, the bundles and
    the queue; \<open>agent_journal\<close> on the memory and the SQLite journal and on the two of them together;
    \<open>json_layout\<close> on both layouts of the writer.

  Sessions and evidence. \<open>LiveProtocol\<close> (\<^verbatim>\<open>live_protocol.py\<close>), \<open>LiveStore\<close> and \<open>LiveStoreInv\<close>
  (\<^verbatim>\<open>live_store.py\<close>: the SQLite tables are lists of rows, the calls are \<open>live_cmd\<close>, reachable states are
  inductive, the invariant is \<open>live_inv\<close>), \<open>LiveEvidence\<close> (\<^verbatim>\<open>live_evidence.py\<close>, \<^verbatim>\<open>evidence.py\<close>),
  \<open>LiveGateway\<close> (\<^verbatim>\<open>live_gateway.py\<close>: the handlers over both stores, the polling stream),
  \<open>StreamFrames\<close> (the event stream between gateway and observer), \<open>EventChains\<close> (what two readers of a
  chain with one head agree on), \<open>Dispute\<close> (\<^verbatim>\<open>dispute.py\<close>).

  Tasks and their delivery. \<open>NetworkProtocol\<close> and \<open>M4Network\<close> (\<^verbatim>\<open>network_protocol.py\<close>,
  \<^verbatim>\<open>m4_network.py\<close>, \<^verbatim>\<open>event_bridge.py\<close>), \<open>Challenge\<close>, \<open>RelayStore\<close> (\<^verbatim>\<open>relay.py\<close>, with its four-phase
  refinement), \<open>RelayServer\<close> and \<open>RelayHub\<close> (\<^verbatim>\<open>relay_server.py\<close>, the invariant of runs of many
  connections), \<open>TaskIngress\<close> (\<^verbatim>\<open>pilot_task_ingress.py\<close>), \<open>AgentJournal\<close> (an abstract journal refined by
  the table and by the memory variant), \<open>AgentSession\<close> and \<open>AgentSessionInv\<close> (\<^verbatim>\<open>agent_session.py\<close>),
  \<open>PilotAudit\<close> (\<^verbatim>\<open>pilot_audit.py\<close>).

  Observation and review. \<open>Fetch\<close>, \<open>Observation\<close>, \<open>ObservationSet\<close> (\<^verbatim>\<open>observation.py\<close>),
  \<open>ReviewEvidence\<close> (\<^verbatim>\<open>review_evidence.py\<close>).

  Trust and transcripts. \<open>TrustPolicy\<close> (\<^verbatim>\<open>trust_policy.py\<close>, \<^verbatim>\<open>jsonio.py\<close>), \<open>Attestation\<close>
  (\<^verbatim>\<open>participant_attestation.py\<close>), \<open>PilotEndpoints\<close> (\<^verbatim>\<open>rpc_endpoints.py\<close>, the origins and invites of
  \<^verbatim>\<open>pilot_config.py\<close>), \<open>EvidenceStages\<close>, \<open>ChainView\<close>, \<open>PilotTranscript\<close> (\<^verbatim>\<open>pilot_transcript.py\<close>) and
  \<open>CoreTranscript\<close> (\<^verbatim>\<open>core_transcript.py\<close>); \<open>StageFacts\<close> and \<open>TranscriptFacts\<close> say what an accepted
  document shows. The theories \<open>...Examples\<close> hold the concrete runs on which the theorems below are
  instantiated, the last of them a whole accepted transcript.

  Groups of lemmas. For each fallible operation \<open>f\<close>, \<open>f_Inr\<close> or \<open>f_Inr_iff\<close> says what its normal return
  shows; for each component with a state, an invariant (\<open>..._inv\<close>) is kept by every operation and
  holds in every reachable state; refinements are stated as abstraction functions (\<open>..._abs\<close>);
  \<open>..._agree\<close> lemmas derive equality of contents from equality of head hashes, under the hypothesis that
  the texts compared have different digests. The properties proper follow in this theory: the live
  sessions and the gateway, disputes, signed tasks, the relay, the node, logs and texts, admission,
  observation, review, transcripts.

  Bounds and fuel. The JSON parser runs on fuel, the length of its text, which \<open>loads_plain\<close> and the
  round trip show to be enough for every text that the program writes. A node reconnects at most as
  often as its argument says (10 in the code's check); a run returns by structural recursion. Reading
  is bounded by the limits of the source, written out (\<open>MAX_JSON_RESPONSE_BYTES\<close>, \<open>MAX_ARTIFACT_BYTES\<close>,
  \<open>MAX_REVIEW_EVENTS\<close>, 1000 receipt states of a frame). Symbolic links are followed with fuel, beyond
  which opening fails as the system call does. Integers are Python's, without bounds.

  What is outside the model. Hash functions, checksum addresses, signature recovery, the schema
  validator and the checks of \<open>urlsplit\<close> on brackets and non-ASCII hosts are fields of \<open>ext\<close>; the answers
  of web3 are a \<open>chain_view\<close>; theorems that rely on these state it as a hypothesis. Strings are their
  UTF-8 bytes, and lower and casefold act on ASCII letters; JSON numbers with a fraction, lone surrogates,
  the limit of 4300 digits of \<open>int\<close> and SQLite's 64-bit integers are left out. Explanatory texts of
  errors that are constant in the source, and texts of library exceptions, are left out of the error
  values; the codes and exit codes are kept. Where Python iterates over a set, the model iterates over a
  list, which decides only which of several errors is raised first. A delivery pass of the hub is one
  step; a polling round is a list of answers; sockets, latencies and waiting times do not occur.

  Not modelled. The aiohttp routing, the dashboards and pages (\<^verbatim>\<open>pilot_ui.py\<close>, parts of
  \<^verbatim>\<open>live_gateway.py\<close>, \<^verbatim>\<open>pilot_surfaces.py\<close>); process control, Tailscale and Clef (\<^verbatim>\<open>pilot_server.py\<close>,
  \<^verbatim>\<open>signer_client.py\<close>, \<^verbatim>\<open>toolchain.py\<close>, \<^verbatim>\<open>tailscale_serve.py\<close>); the command lines and the repository's tools,
  which run external programs; the phases, snapshots and operator plans of a pilot; the release
  packages; transactions; the transcripts of the first protocol version and of the demos.
\<close>

section \<open>Live sessions\<close>

text \<open>C1. After any sequence of calls of the metadata store, the events that a session lists form one
  gap-free chain of verified events, numbered from 1, from the zero hash to the head hash that the
  session records, and the session's next sequence number is one more than their number.\<close>

theorem live_session_chain:
  assumes "live_reachable E db" "get_session db sid = Inr s"
  shows "\<exists>vs h. list_events db sid 0 = Inr vs \<and> event_chain E 1 ZERO_HASH vs h \<and>
    jitem s ''head_event_hash'' = Inr (JStr h) \<and> int_item s ''next_sequence'' = Inr (int (length vs) + 1)"
  by (rule session_events [OF live_reachable_inv [OF assms(1)] assms(2)]) blast

theorem live_session_chain_witness:
  "\<exists>s vs h. get_session demo_db ''s'' = Inr s \<and> list_events demo_db ''s'' 0 = Inr vs \<and>
     event_chain demo_ext 1 ZERO_HASH vs h \<and> length vs = 1"
proof -
  obtain d where d: "get_session demo_db ''s'' = Inr (JObj d)" "map_of d ''next_sequence'' = Some (JStr ''2'')"
    by (rule demo_sessions)
  from live_session_chain [OF demo_reachable(1) d(1)] obtain vs h where
    "list_events demo_db ''s'' 0 = Inr vs" "event_chain demo_ext 1 ZERO_HASH vs h"
    "int_item (JObj d) ''next_sequence'' = Inr (int (length vs) + 1)" by blast
  moreover have "py_int (JStr ''2'') = Inr 2" by code_simp
  ultimately show ?thesis using d by (intro exI [of _ "JObj d"] exI [of _ vs] exI [of _ h]) (auto simp: int_item_def)
qed



text \<open>Sending an accepted event again reports a duplicate and leaves the store as it is.\<close>

lemma live_append_idempotent:
  assumes "live_reachable E db" "wf_json event" "append_event E db event = Inr (dup, db')"
  shows "append_event E db' event = Inr (True, db')"
  using append_event_again [OF live_reachable_inv [OF assms(1)] assms(2,3)] .

lemma live_append_idempotent_witness:
  "\<exists>dup db. append_event demo_ext demo_db demo_event = Inr (dup, db) \<and> append_event demo_ext db demo_event = Inr (True, db)"
proof -
  have "append_event demo_ext demo_db demo_event = Inr (True, demo_db)" by (rule demo_duplicate)
  from live_append_idempotent [OF demo_reachable(1) demo_event_wf this] this show ?thesis by blast
qed

text \<open>C16. A closed session stays as it is: no call changes its record or its events.\<close>

theorem live_closed_frozen:
  assumes "live_reachable E db" "get_session db sid = Inr s" "jitem s ''status'' = Inr (JStr ''closed'')"
    and "list_all op_ok ops"
  shows "get_session (live_run E db ops) sid = Inr s \<and> list_events (live_run E db ops) sid = list_events db sid"
  using closed_run [OF assms] .

theorem live_closed_frozen_witness:
  "list_events (live_run demo_ext demo_closed_db [AppendEvent demo_event, CloseSession ''s'' (JStr ''10'')]) ''s''
     = list_events demo_closed_db ''s''"
proof -
  obtain d where "get_session demo_closed_db ''s'' = Inr (JObj d)" "map_of d ''status'' = Some (JStr ''closed'')"
    by (rule demo_closed)
  then show ?thesis
    using live_closed_frozen [OF demo_reachable(2), of "''s''" "JObj d"] demo_event_wf by simp
qed

text \<open>The head hash of a session determines its events: two sessions, of two stores that any calls
  reach, with the same head hash list the same events, unless two of the hashed texts collide or one
  hashes to zero.\<close>

lemma live_head_determines_events:
  assumes "live_reachable E db" "get_session db sid = Inr s" "list_events db sid 0 = Inr vs"
    and "live_reachable E db'" "get_session db' sid' = Inr s'" "list_events db' sid' 0 = Inr ws"
    and "jitem s ''head_event_hash'' = jitem s' ''head_event_hash''"
    and "inj_on (keccak256_hex E) (event_preimage ` (set vs \<union> set ws))"
    and "ZERO_HASH \<notin> keccak256_hex E ` event_preimage ` (set vs \<union> set ws)"
  shows "map jnorm vs = map jnorm ws"
  by (rule heads_agree [OF live_reachable_inv [OF assms(1)] assms(2,3) live_reachable_inv [OF assms(4)] assms(5-)])

lemma live_head_determines_events_witness:
  "\<exists>vs ws. list_events demo_db ''s'' 0 = Inr vs \<and> list_events demo_closed_db ''s'' 0 = Inr ws \<and> vs \<noteq> [] \<and>
     map jnorm vs = map jnorm ws"
proof -
  obtain d where d: "get_session demo_db ''s'' = Inr (JObj d)"
    "map_of d ''head_event_hash'' = Some (JStr (''0x'' @ demo_digest))" by (rule demo_sessions)
  obtain d' where d': "get_session demo_closed_db ''s'' = Inr (JObj d')"
    "map_of d' ''head_event_hash'' = Some (JStr (''0x'' @ demo_digest))" by (rule demo_closed)
  have l: "list_events demo_db ''s'' 0 = Inr [jnorm demo_event]" "list_events demo_closed_db ''s'' 0 = Inr [jnorm demo_event]"
    by (rule demo_listed)+
  have "map jnorm [jnorm demo_event] = map jnorm [jnorm demo_event]"
    by (rule live_head_determines_events [OF demo_reachable(1) d(1) l(1) demo_reachable(2) d'(1) l(2)])
      (use d(2) d'(2) in \<open>auto simp: demo_digest_not_zero\<close>)
  with l show ?thesis by blast
qed

text \<open>C3. In every state that requests to a gateway reach, a closed session can be finalized under a new
  revision, and the bundle lists exactly the session's events with their number, their head, their
  count per category and its own hash, each with its artifact still readable.\<close>

theorem gateway_finalize:
  assumes "gateway_reachable E gw" "get_session (gw_db gw) sid = Inr s" "jitem s ''status'' = Inr (JStr ''closed'')"
    and "py_int (JStr revision) = Inr i" "find_bundle (gw_db gw) sid i = None"
  shows "\<exists>v db' vs rs cs h. finalize_evidence_bundle E (gw_db gw) (gw_files gw) sid revision at = Inr (v, db') \<and>
    list_events (gw_db gw) sid 0 = Inr vs \<and> mapE event_reference vs = Inr rs \<and>
    jitem v ''events'' = Inr (JArr rs) \<and> jitem v ''event_count'' = Inr (JStr (dec_nat (length vs))) \<and>
    jitem v ''head_event_hash'' = jitem s ''head_event_hash'' \<and> jitem v ''category_counts'' = Inr (JObj cs) \<and>
    (\<forall>c \<in> set CATEGORIES. map_of cs c = Some (JStr (dec_nat (length (filter (\<lambda>x. category_of x = c) vs))))) \<and>
    jitem v ''bundle_hash'' = Inr (JStr h) \<and> evidence_bundle_hash E v = Inr h \<and>
    (\<forall>x \<in> set vs. event_ready E (gw_files gw) x)"
proof -
  have inv: "gateway_inv E gw" using assms(1) by (rule gateway_reachable_inv)
  obtain v db' where v: "finalize_evidence_bundle E (gw_db gw) (gw_files gw) sid revision at = Inr (v, db')"
    using gateway_finalizes [OF inv assms(2-)] by blast
  from finalize_contents [OF _ assms(2,4,5) v] inv v show ?thesis by (simp add: gateway_inv_def)
qed

theorem gateway_finalize_witness:
  "\<exists>v db. finalize_evidence_bundle demo_ext (gw_db demo_gateway) (gw_files demo_gateway) ''s'' ''1'' ''9'' = Inr (v, db)"
proof -
  obtain d where d: "get_session (gw_db demo_gateway) ''s'' = Inr (JObj d)" "map_of d ''status'' = Some (JStr ''closed'')"
    "bundles (gw_db demo_gateway) = []" by (rule demo_gateway_closed)
  have "py_int (JStr ''1'') = Inr 1" by code_simp
  from gateway_finalize [OF demo_gateway_reachable(2) d(1) _ this, of "''9''"] d(2,3) show ?thesis
    by (auto simp: find_bundle_def)
qed

text \<open>C15. The event stream loses no event at the end of a session: once a round of the poll sees the
  session closed, what it returns are all events after the cursor that the session will ever have,
  whatever other calls run between its two reads and afterwards.\<close>

theorem stream_close_complete:
  assumes "live_reachable E db" "get_session db sid = Inr s" "jitem s ''status'' = Inr (JStr ''closed'')"
    and "list_all op_ok ops" "list_all op_ok ops'"
  shows "stream_loop sid after ((db, live_run E db ops) # rounds)
    = list_events (live_run E (live_run E db ops) ops') sid after"
  by (rule stream_closed [OF assms])

theorem stream_close_complete_witness:
  "stream_loop ''s'' 0 [(demo_closed_db, live_run demo_ext demo_closed_db [])]
     = list_events (live_run demo_ext (live_run demo_ext demo_closed_db []) [AppendEvent demo_event]) ''s'' 0"
proof -
  obtain d where "get_session demo_closed_db ''s'' = Inr (JObj d)" "map_of d ''status'' = Some (JStr ''closed'')"
    by (rule demo_closed)
  then show ?thesis
    by (intro stream_close_complete [OF demo_reachable(2)]) (auto simp: demo_event_wf)
qed

text \<open>C27. An artifact that was stored is read back byte for byte under the digest that storing it
  returned, and storing another one does not change what is read.\<close>

theorem artifact_store_roundtrip:
  assumes "artifact_put E files data = Inr (digest, files')"
  shows "digest = sha256_prefixed E data \<and> artifact_get E files' digest = Inr data \<and>
    (\<forall>d x. artifact_get E files d = Inr x \<longrightarrow> artifact_get E files' d = Inr x)"
  using artifact_get_put [OF assms] assms by (auto simp: artifact_put_Inr_iff)

theorem artifact_store_roundtrip_witness:
  "\<exists>digest files. artifact_put demo_ext Map.empty ''x'' = Inr (digest, files) \<and> artifact_get demo_ext files digest = Inr ''x''"
proof -
  have "path_for (''sha256:'' @ demo_digest) = Inr [''sha256'', ''aa'', demo_digest]" by code_simp
  then obtain path where "artifact_put demo_ext Map.empty ''x'' = Inr (''sha256:'' @ demo_digest, Map.empty(path \<mapsto> ''x''))"
    by (auto simp: artifact_put_Inr_iff)
  from artifact_store_roundtrip [OF this] this show ?thesis by blast
qed

section \<open>Disputes\<close>

text \<open>C18. An aggregated dispute counts each expected node once: the reviews are by distinct expected
  nodes, on this dispute and its bundle. It is dismissed only if the three expected nodes all
  reviewed it and at least two of them voted to dismiss it, and upheld only with two votes to uphold.\<close>

theorem dispute_quorum:
  assumes "aggregate_reviews E dispute revs expected_nodes = Inr v"
  shows "\<exists>expected nodes. mapE (to_checksum_address E) expected_nodes = Inr expected \<and>
    list_all2 (review_of E dispute expected) revs nodes \<and> distinct nodes \<and>
    (jitem v ''status'' = Inr (JStr ''upheld'') \<longleftrightarrow>
       card (set expected) = 3 \<and> set nodes = set expected \<and> 2 \<le> votes revs ''uphold'') \<and>
    (jitem v ''status'' = Inr (JStr ''dismissed'') \<longleftrightarrow>
       card (set expected) = 3 \<and> set nodes = set expected \<and> 2 \<le> votes revs ''dismiss'') \<and>
    jitem v ''valid_review_count'' = Inr (JStr (dec_nat (length revs)))"
proof (rule aggregate_reviews_Inr [OF assms])
  fix d expected nodes ids
  assume 1: "mapE (to_checksum_address E) expected_nodes = Inr expected"
    "list_all2 (review_of E dispute expected) revs nodes" "distinct nodes"
    "v = JObj (AList.update ''review_ids'' (JArr ids) (AList.update ''valid_review_count'' (JStr (dec_nat (length nodes)))
       (AList.update ''status'' (JStr (quorum_status expected nodes revs)) d)))"
  have len: "length nodes = length revs" using 1(2) by (simp add: list_all2_lengthD)
  have "\<not> 2 \<le> votes revs ''uphold''"
    if "card (set expected) = 3" "set nodes = set expected" "2 \<le> votes revs ''dismiss''"
  proof -
    have "length revs = 3" using that(1,2) 1(3) len by (metis distinct_card)
    then show ?thesis using votes_disjoint [of "''uphold''" "''dismiss''" revs] that(3) by simp
  qed
  with 1 len show ?thesis by (intro exI [of _ expected] exI [of _ nodes]) (auto simp: quorum_status_def)
qed

theorem dispute_quorum_witness:
  "jitem demo_verdict ''valid_review_count'' = Inr (JStr (dec_nat 3)) \<and> 2 \<le> votes demo_reviews ''dismiss''"
proof -
  have "jitem demo_verdict ''status'' = Inr (JStr ''dismissed'')" by (simp add: demo_verdict_def)
  with dispute_quorum [OF demo_aggregate]
  have "jitem demo_verdict ''valid_review_count'' = Inr (JStr (dec_nat (length demo_reviews)))" "2 \<le> votes demo_reviews ''dismiss''"
    by blast+
  moreover have "length demo_reviews = 3" by (simp add: demo_reviews_def)
  ultimately show ?thesis by simp
qed

text \<open>C19. A proposal plan exists only for a closed session with a finalized bundle of that session, and
  a critical dispute whose status the aggregation decided lets it pass only if two of its three
  expected nodes voted to dismiss it.\<close>

theorem critical_dispute_gate:
  assumes "build_proposal_plan E session bundle ds proposal = Inr plan"
    and "aggregate_reviews E dispute revs expected_nodes = Inr item" "item \<in> set ds"
    and "jget item ''severity'' = Inr (JStr ''critical'')"
  shows "jget session ''status'' = Inr (JStr ''closed'') \<and> jget bundle ''status'' = Inr (JStr ''finalized'') \<and>
    (\<exists>x y. jget bundle ''session_id'' = Inr x \<and> jget session ''session_id'' = Inr y \<and> py_eq x y) \<and>
    2 \<le> votes revs ''dismiss'' \<and> length revs = 3"
proof (rule aggregate_reviews_Inr [OF assms(2)])
  fix d expected nodes ids
  assume 1: "list_all2 (review_of E dispute expected) revs nodes" "distinct nodes"
    "item = JObj (AList.update ''review_ids'' (JArr ids) (AList.update ''valid_review_count'' (JStr (dec_nat (length nodes)))
       (AList.update ''status'' (JStr (quorum_status expected nodes revs)) d)))"
  note plan = build_proposal_plan_Inr [OF assms(1)]
  have "is_blocking item = Inr False" using plan(5) assms(3) by blast
  then have "quorum_status expected nodes revs = ''dismissed''"
    using assms(4) 1(3) by (auto simp: is_blocking_def is_critical_def bindE_Inr_iff jget_def)
  then have q: "card (set expected) = 3" "set nodes = set expected" "2 \<le> votes revs ''dismiss''"
    by (auto simp: quorum_status_def split: if_splits)
  moreover have "length revs = 3" using 1 q by (metis distinct_card list_all2_lengthD)
  ultimately show ?thesis using plan(1-3) by simp
qed

theorem critical_dispute_gate_witness:
  "\<exists>plan. build_proposal_plan demo_ext (demo_session ''closed'' ''1'' ZERO_HASH) demo_bundle [demo_verdict] JNull = Inr plan \<and>
     2 \<le> votes demo_reviews ''dismiss'' \<and> length demo_reviews = 3"
proof -
  obtain plan where plan: "build_proposal_plan demo_ext (demo_session ''closed'' ''1'' ZERO_HASH) demo_bundle [demo_verdict] JNull = Inr plan"
    using demo_plan by blast
  from critical_dispute_gate [OF plan demo_aggregate] plan show ?thesis by (auto simp: demo_verdict_def jget_def)
qed

section \<open>Signed tasks\<close>


text \<open>C24. A V2 task that was built for a recipient and signed by its issuer passes the recipient's
  verification until its deadline.\<close>

theorem task_v2_roundtrip:
  assumes "build_task_v2 E chain registry tid tt issuer recipient manifest payload nonce (JInt d) = Inr t"
    and "jset t ''signature'' (JStr s) = Inr signed"
    and "payload_ok E (JStr tt) payload" "secret_free signed" "schema_error E ''network-task-v2.schema.json'' signed = None"
    and "\<And>v a. checksum_address E v = Inr a \<Longrightarrow> checksum_address E (JStr a) = Inr a" "now \<le> d"
    and "build_task_v2_typed_data E t = Inr typed" "recover_typed E typed (JStr s) = Inr signer"
    and "checksum_address E issuer = Inr signer"
  shows "verify_task_v2 E signed chain registry recipient (Some issuer) (Some manifest) now = Inr signer"
  by (rule built_task_v2_verifies [OF assms])

theorem task_v2_roundtrip_witness:
  "verify_task_v2 demo_ext demo_task (JInt 1) (JStr ''r'') (JStr ''n'') (Some (JStr ''i'')) (Some (JStr (''0x'' @ demo_digest))) 5
     = Inr ''i''"
proof -
  have "build_task_v2 demo_ext (JInt 1) (JStr ''r'') (JStr ''t'') ''review_dispute'' (JStr ''i'') (JStr ''n'')
      (JStr (''0x'' @ demo_digest)) demo_payload (JInt 1) (JInt 9) = Inr demo_unsigned"
    "payload_ok demo_ext (JStr ''review_dispute'') demo_payload" "secret_free demo_task"
    "jset demo_unsigned ''signature'' (JStr ''i'') = Inr demo_task"
    "build_task_v2_typed_data demo_ext demo_unsigned = Inr demo_typed"
    by code_simp+
  then show ?thesis
    by (intro task_v2_roundtrip [where t = demo_unsigned and s = "''i''" and typed = demo_typed])
      (auto simp: demo_ext_def split: json.splits)
qed

text \<open>C28. One signature covers one task: two tasks with the same typed data agree in chain, registry, task id,
  type, issuer, recipient, release, payload hash, nonce and deadline, unless their hashed identifiers collide.\<close>

theorem task_signature_binding:
  assumes "build_task_v2_typed_data E t = Inr typed" "build_task_v2_typed_data E t' = Inr typed"
    and "inj_on (keccak_hex E) {str_of t ''task_id'', str_of t' ''task_id'', str_of t ''task_type'', str_of t' ''task_type''}"
  shows "int_item t ''chain_id'' = int_item t' ''chain_id'' \<and> addr_item E t ''registry'' = addr_item E t' ''registry'' \<and>
    jitem t ''task_id'' = jitem t' ''task_id'' \<and> jitem t ''task_type'' = jitem t' ''task_type'' \<and>
    addr_item E t ''issuer'' = addr_item E t' ''issuer'' \<and> addr_item E t ''recipient'' = addr_item E t' ''recipient'' \<and>
    bytes32_item t ''manifest_hash'' = bytes32_item t' ''manifest_hash'' \<and>
    bytes32_item t ''payload_hash'' = bytes32_item t' ''payload_hash'' \<and>
    int_item t ''nonce'' = int_item t' ''nonce'' \<and> int_item t ''deadline'' = int_item t' ''deadline''"
proof -
  obtain m where "task_message E t = Inr m" "task_message E t' = Inr m" using typed_data_inject(1) [OF assms(1,2)] by blast
  with task_message_inject [OF this assms(3)] typed_data_inject(2,3) [OF assms(1,2)] show ?thesis by blast
qed

theorem task_signature_binding_witness:
  "addr_item demo_id_ext demo_unsigned ''issuer'' = addr_item demo_id_ext demo_task ''issuer''"
proof -
  have "build_task_v2_typed_data demo_id_ext demo_unsigned = build_task_v2_typed_data demo_id_ext demo_task"
    "\<not> isl (build_task_v2_typed_data demo_id_ext demo_task)"
    by code_simp+
  then obtain typed where "build_task_v2_typed_data demo_id_ext demo_unsigned = Inr typed"
    "build_task_v2_typed_data demo_id_ext demo_task = Inr typed"
    by (cases "build_task_v2_typed_data demo_id_ext demo_task") auto
  from task_signature_binding [OF this] show ?thesis by (simp add: demo_id_ext_def)
qed

text \<open>The text that a node signs to authenticate determines the chain, the registry, the node and the
  relay's nonce, so a signature for one relay or node is none for another.\<close>

lemma challenge_binding:
  assumes "relay_challenge_signing_text E v node = Inr t" "relay_challenge_signing_text E v' node' = Inr t"
    and "\<And>x a. checksum_address E x = Inr a \<Longrightarrow> CHR 0x0A \<notin> set a"
    and "CHR 0x0A \<notin> set (str_of v ''chain_id'')" "CHR 0x0A \<notin> set (str_of v' ''chain_id'')"
  shows "jitem v ''chain_id'' = jitem v' ''chain_id'' \<and> addr_item E v ''registry'' = addr_item E v' ''registry'' \<and>
    to_checksum_address E node = to_checksum_address E node' \<and>
    (\<exists>k k'. jitem v ''nonce'' = Inr k \<and> jitem v' ''nonce'' = Inr k' \<and> py_str k = py_str k')"
proof -
  obtain d c registry reg n nonce where v: "v = JObj d" "map_of d ''chain_id'' = Some (JStr c)"
    "map_of d ''registry'' = Some registry" "checksum_address E registry = Inr reg" "checksum_address E node = Inr n"
    "map_of d ''nonce'' = Some nonce" "t = challenge_text c reg n (py_str nonce)"
    by (rule signing_text_Inr [OF assms(1)])
  obtain d' c' registry' reg' n' nonce' where v': "v' = JObj d'" "map_of d' ''chain_id'' = Some (JStr c')"
    "map_of d' ''registry'' = Some registry'" "checksum_address E registry' = Inr reg'" "checksum_address E node' = Inr n'"
    "map_of d' ''nonce'' = Some nonce'" "t = challenge_text c' reg' n' (py_str nonce')"
    by (rule signing_text_Inr [OF assms(2)])
  have "challenge_text c reg n (py_str nonce) = challenge_text c' reg' n' (py_str nonce')"
    using v(7) v'(7) by simp
  from challenge_text_inject [OF this] have "c = c' \<and> reg = reg' \<and> n = n' \<and> py_str nonce = py_str nonce'"
    using assms(3-5) v v' by auto
  with v v' show ?thesis by (simp add: addr_item_def to_checksum_address_def)
qed

lemma challenge_binding_witness:
  "to_checksum_address demo_plain_ext (JStr ''n'') = to_checksum_address demo_plain_ext (JStr ''n'') \<and>
     (\<exists>k. jitem demo_challenge ''nonce'' = Inr k)"
proof -
  have "\<not> isl (relay_challenge_signing_text demo_plain_ext demo_challenge (JStr ''n''))" by code_simp
  then obtain t where t: "relay_challenge_signing_text demo_plain_ext demo_challenge (JStr ''n'') = Inr t"
    by (cases "relay_challenge_signing_text demo_plain_ext demo_challenge (JStr ''n'')") auto
  have "CHR 0x0A \<notin> set a" if "checksum_address demo_plain_ext x = Inr a" for x a
    using that by (auto simp: demo_plain_ext_def split: json.splits if_splits)
  from challenge_binding [OF t t this] show ?thesis by (auto simp: demo_challenge_def)
qed

text \<open>C29. An accepted bootstrap bundle lists profiles of distinct nodes, each signed by its node for the
  bundle's chain and registry and not expired; the bundle carries the hash of that list, is in time and
  is signed by its publisher.\<close>

theorem bootstrap_directory:
  assumes "verify_bootstrap_v2 E bootstrap chain_id registry now = Inr r"
  shows "\<exists>ps ns chain reg typed publisher d. jitem bootstrap ''directory'' = Inr (JArr ps) \<and> distinct ns \<and>
    jitem bootstrap ''chain_id'' = Inr chain \<and> jitem bootstrap ''registry'' = Inr reg \<and>
    list_all2 (\<lambda>p n. verify_node_profile_v2 E p now (Some chain) (Some reg) = Inr n) ps ns \<and>
    jitem bootstrap ''directory_hash'' = Inr (JStr (payload_hash E (JArr ps))) \<and>
    int_item bootstrap ''valid_until'' = Inr d \<and> now \<le> d \<and>
    build_bootstrap_v2_typed_data E bootstrap = Inr typed \<and> signed_by E typed bootstrap ''publisher'' publisher"
  by (rule verify_bootstrap_Inr [OF assms [unfolded verify_bootstrap_v2_def]]) blast

theorem bootstrap_directory_witness:
  "\<exists>ps. jitem demo_signed_bootstrap ''directory'' = Inr (JArr ps) \<and> ps \<noteq> []"
proof -
  have "verify_bootstrap_v2 demo_ext demo_signed_bootstrap (JStr ''1'') (JStr ''r'') 5 = Inr True" by code_simp
  from bootstrap_directory [OF this] show ?thesis by (auto simp: demo_signed_bootstrap_def)
qed



section \<open>The relay\<close>

text \<open>C10. The rows of the relay store refine a machine of four phases: in every reachable store, an
  operation leaves each row in its place with its recipient, task, issuer, nonce and payload, moves it at most
  one phase forward, and no sequence of operations changes a recorded receipt.\<close>

theorem relay_phases:
  assumes "i < length (relay_run [] cs)"
  shows "same_identity (relay_run [] cs ! i) (relay_op (relay_run [] cs) c ! i) \<and>
    phase_step (phase_of (relay_run [] cs ! i)) (phase_of (relay_op (relay_run [] cs) c ! i)) \<and>
    (\<forall>x. m_receipt (relay_run [] cs ! i) = Some x \<longrightarrow> m_receipt (relay_run (relay_run [] cs) ds ! i) = Some x)"
proof -
  have inv: "relay_inv (relay_run [] cs)" by (rule relay_run_inv) (simp add: relay_inv_def)
  have "row_inv (relay_run [] cs ! i)" using inv assms by (auto simp: relay_inv_def list_all_iff)
  from row_op_phase [OF this, of c] relay_run_nth [OF assms, where cs = ds] relay_op_nth(2) [OF assms, of c]
    row_op_identity [of "relay_run [] cs ! i" c] show ?thesis by simp
qed

theorem relay_phases_witness:
  "phase_of (relay_op (relay_run [] demo_relay_cmds) (Ack ''n'' ''t'' ''x'') ! 0) = Acknowledged \<and>
   m_receipt (relay_run (relay_run [] (demo_relay_cmds @ [Ack ''n'' ''t'' ''x''])) [Ack ''n'' ''t'' ''y'', Confirm ''n'' ''t''] ! 0) = Some ''x''"
proof -
  have e: "phase_of (relay_run [] demo_relay_cmds ! 0) = Accepted" "0 < length (relay_run [] demo_relay_cmds)"
    "phase_of (relay_op (relay_run [] demo_relay_cmds) (Ack ''n'' ''t'' ''x'') ! 0) = Acknowledged"
    "0 < length (relay_run [] (demo_relay_cmds @ [Ack ''n'' ''t'' ''x'']))"
    "m_receipt (relay_run [] (demo_relay_cmds @ [Ack ''n'' ''t'' ''x'']) ! 0) = Some ''x''"
    by code_simp+
  from relay_phases [OF e(4), of "Confirm ''n'' ''t''" "[Ack ''n'' ''t'' ''y'', Confirm ''n'' ''t'']"] e show ?thesis by simp
qed

text \<open>C31. A receipt is recorded exactly for a task that its recipient accepted and that has none yet, and it is
  the receipt that the store returns from then on.\<close>

theorem relay_ack_exact:
  "(fst (ack (relay_run [] cs) rc t receipt) \<longleftrightarrow>
     (\<exists>r. task_state (relay_run [] cs) rc t = Some r \<and> m_accepted r \<and> m_receipt r = None)) \<and>
   (fst (ack (relay_run [] cs) rc t receipt) \<longrightarrow> stored_receipt (snd (ack (relay_run [] cs) rc t receipt)) rc t = Some receipt)"
proof -
  have inv: "relay_inv (relay_run [] cs)" by (rule relay_run_inv) (simp add: relay_inv_def)
  show ?thesis
    using ack_iff [OF inv, of rc t receipt] ack_receipt [OF inv, of rc t receipt "snd (ack (relay_run [] cs) rc t receipt)"]
    by (metis prod.collapse)
qed

theorem relay_ack_exact_witness:
  "stored_receipt (snd (ack (relay_run [] demo_relay_cmds) ''n'' ''t'' ''x'')) ''n'' ''t'' = Some ''x''"
proof -
  have "fst (ack (relay_run [] demo_relay_cmds) ''n'' ''t'' ''x'')" by code_simp
  with relay_ack_exact [of demo_relay_cmds "''n''" "''t''" "''x''"] show ?thesis by blast
qed

text \<open>A reviewer's result passes the operator's check of its task: whatever answers a node got, a result that it
  signs for a current review payload repeats the payload's dispute, bundle, session, revision, count and head,
  and says that the evidence was verified.\<close>

lemma review_result_accepted:
  assumes "review_result E task verdicts origin rs = Inr v" "jitem task ''payload'' = Inr payload"
    and "is_current_review_payload payload"
  shows "require_verified_review_result E payload v task_id = Inr v"
  by (rule review_result_bound [OF assms])

lemma review_result_accepted_witness:
  "\<exists>v. require_verified_review_result demo_ext review_payload v ''t'' = Inr v"
proof -
  obtain v where "review_result demo_ext review_task [(''d'', ''uphold'')] (JStr ''http://h'') demo_review_answers = Inr v"
    using demo_review_result by blast
  from review_result_accepted [OF this, of review_payload "''t''"] show ?thesis
    by (auto simp: review_task_def is_current_review_payload_def review_payload_def)
qed



text \<open>C8. Every receipt that a hub keeps belongs to a task of its store and was checked: it is signed by the
  recipient of the task on the hub's chain and registry, carries the task's nonce, and was completed by the
  deadline. This holds for any interleaving of connections, deliveries and messages.\<close>

theorem hub_receipts_checked:
  assumes "hub_reachable E (h, cs)" "receipt \<in> set (h_receipts h)"
  shows "\<exists>row \<in> set (h_store h). m_receipt row = Some (dumps_ascii receipt) \<and>
    (\<exists>task. load_json (m_payload row) = Inr task \<and>
       receipt_answers E (h_bootstrap h) receipt task (m_recipient row))"
  using hub_reachable_sound [OF assms(1)] assms(2) by (simp add: hub_sound_def receipt_sound_def)

theorem hub_receipts_checked_witness:
  "\<exists>row \<in> set (h_store demo_acked). m_receipt row = Some (dumps_ascii (jnorm demo_receipt))"
proof -
  have "jnorm demo_receipt \<in> set (h_receipts demo_acked)" by (simp add: demo_acked_def demo_hub_def)
  from hub_receipts_checked [OF demo_hub_reachable(2) this] show ?thesis by blast
qed

section \<open>The node\<close>

text \<open>C7. A task that a node claimed and answered is answered with the same receipt when it comes again, with a
  journal in memory as with one in SQLite.\<close>

theorem journal_replay_answer:
  assumes "journal_inv j" "journal_claim E j task = Inr (r, j1)" "task_id_of task = Inr i" "nonce_key E task = Inr nk"
    and "wf_json receipt" "journal_save_receipt j1 i receipt = Inr j2"
  shows "\<exists>r' j3. journal_claim E j2 task = Inr (Some r', j3) \<and> canonical_json_bytes r' = canonical_json_bytes receipt"
  using task_journal.save_then_claim [OF assms] by auto

theorem journal_replay_answer_witness:
  "\<exists>r j. journal_claim demo_ext demo_journal_answered demo_task = Inr (Some r, j)"
proof -
  have "journal_claim demo_ext (new_journal True) demo_task = Inr (None, demo_journal)" "task_id_of demo_task = Inr ''t''"
    "nonce_key demo_ext demo_task = Inr (''i'', ''1'')" "journal_save_receipt demo_journal ''t'' demo_receipt = Inr demo_journal_answered"
    by code_simp+
  moreover have "wf_json demo_receipt" by (simp add: demo_receipt_def)
  ultimately show ?thesis using journal_replay_answer [OF new_journal_props(1)] by blast
qed



text \<open>C9. A node never sends two different receipts for a task, however often it is restarted with its durable
  journal and whatever the relays send it.\<close>

theorem node_one_receipt:
  assumes "node_history envs j out" "\<forall>env \<in> envs. env_ok env"
    and "r \<in> set (sent_receipts out)" "r' \<in> set (sent_receipts out)" "rid r = rid r'"
  shows "canonical_json_bytes r = canonical_json_bytes r'"
  by (rule history_receipt_unique [OF assms])

theorem node_one_receipt_witness:
  "\<exists>r r'. r \<in> set (sent_receipts (ss_out demo_first)) \<and> r' \<in> set (sent_receipts (ss_out demo_second)) \<and>
     canonical_json_bytes r = canonical_json_bytes r'"
proof -
  have "canonical_json_bytes demo_made_receipt = canonical_json_bytes (jnorm demo_made_receipt)"
    by (rule node_one_receipt [OF demo_history(2)])
      (use demo_sent demo_env_ok in \<open>auto simp: sent_receipts_append simp del: jnorm.simps\<close>)
  with demo_sent show ?thesis by auto
qed

text \<open>C33. A node sends receipts only for tasks that its checks accepted: domain, recipient, issuer, release,
  deadline, payload, signature and declared capability.\<close>

theorem node_receipts_accepted:
  assumes "node_history envs j out" "\<forall>env \<in> envs. env_ok env" "r \<in> set (sent_receipts out)"
  shows "\<exists>env \<in> envs. \<exists>task signer. env_verify env task = Inr signer \<and> jitem task ''task_id'' = jitem r ''task_id''"
  using history_receipt_verified [OF assms] by (auto simp: accepted_tasks_def)

theorem node_receipts_accepted_witness:
  "\<exists>r \<in> set (sent_receipts (ss_out demo_first)). \<exists>task signer. env_verify demo_env task = Inr signer \<and>
     jitem task ''task_id'' = jitem r ''task_id''"
proof -
  from node_receipts_accepted [OF demo_history(1), of demo_made_receipt] demo_env_ok demo_sent(1) show ?thesis by auto
qed

text \<open>C34. When a node's run returns, after at most one attempt more than the reconnects it was allowed, it reports
  at least the expected number of receipts, of distinct tasks, each the one in its journal.\<close>

theorem node_run_result:
  assumes "node_history envs j out" "\<forall>env \<in> envs. env_ok env" "env \<in> envs"
    and "run_agent_session env addr lim idle attempts j = (Inr v, s)"
  shows "\<exists>n rs. jitem v ''receipts'' = Inr (JArr rs) \<and> env_expected_tasks env \<le> length rs \<and> distinct (map rid rs) \<and>
    (\<forall>r \<in> set rs. saved (journal_abs (ss_journal s)) r) \<and>
    jitem v ''connection_attempts'' = Inr (JInt (int n)) \<and> 1 \<le> n \<and> int n \<le> lim + 1"
proof -
  from node_history_inv [OF assms(1,2)]
  have j: "journal_inv j" "journal_ok (accepted_tasks envs) (journal_abs j)" by auto
  have e: "env_ok env" "accepts (accepted_tasks envs) env" using assms(2,3) by (auto simp: accepts_def accepted_tasks_def)
  have "sess_inv (accepted_tasks envs) {} s" by (rule run_agent_session_inv(1) [OF assms(4) e j]) simp
  moreover obtain n node where "1 \<le> n" "int n \<le> lim + 1" "env_expected_tasks env \<le> length (ss_receipts s)"
    "v = JObj [(''node'', JStr node), (''receipts'', JArr (ss_receipts s)), (''rejected'', JInt (int (ss_rejected s))),
         (''connection_attempts'', JInt (int n)), (''reconnects'', JInt (int n - 1))]"
    using run_agent_session_inv(2) [OF assms(4) e j, of "{}"] by auto
  ultimately show ?thesis by (intro exI [of _ n] exI [of _ "ss_receipts s"]) (auto simp: sess_inv_def)
qed

theorem node_run_result_witness:
  "\<exists>v rs. fst (demo_run (new_journal True)) = Inr v \<and> jitem v ''receipts'' = Inr (JArr rs) \<and> 1 \<le> length rs"
proof -
  obtain v where v: "fst (demo_run (new_journal True)) = Inr v"
    using demo_results(1) by (cases "fst (demo_run (new_journal True))") auto
  then have "run_agent_session demo_env (JStr ''n'') 0 30 (\<lambda>_. demo_attempt) (new_journal True) = (Inr v, demo_first)"
    by (simp add: demo_first_def demo_run_def prod_eq_iff)
  from node_run_result [OF node_history.history_start _ _ this, of "{demo_env}"] demo_env_ok v show ?thesis
    by (auto simp: demo_env_def)
qed

section \<open>Logs, files and texts\<close>

text \<open>Writing a record to an audit log that verifies gives a log that verifies, with one more record.\<close>

lemma audit_write_keeps:
  assumes "verify_audit_log E (Some (al_lines log)) = Inr (n, JStr (al_previous log))" "details_ok details"
  shows "verify_audit_log E (Some (al_lines (audit_write E log now event details)))
    = Inr (Suc n, JStr (al_previous (audit_write E log now event details)))"
  by (rule audit_write_verifies [OF assms])

lemma audit_write_keeps_witness:
  "verify_audit_log demo_ext (Some (al_lines (audit_write demo_ext demo_audit 8 ''stop'' [(''code'', JInt 0)])))
    = Inr (Suc 1, JStr (al_previous (audit_write demo_ext demo_audit 8 ''stop'' [(''code'', JInt 0)])))"
  by (rule audit_write_keeps [OF demo_audit_verifies]) (simp add: details_ok_def)

text \<open>C35. The last hash of an audit log determines the log: two logs that verify with the same last hash have the
  same records, unless two hashed texts collide or one hashes to the start value.\<close>

theorem audit_head_determines:
  assumes "verify_audit_log E (Some ls) = Inr (n, head)" "verify_audit_log E (Some ls') = Inr (n', head)"
    and "inj_on (sha256_prefixed E) (audit_body ` (set ls \<union> set ls'))"
    and "AUDIT_START \<notin> sha256_prefixed E ` audit_body ` (set ls \<union> set ls')"
  shows "\<exists>vs ws. mapE load_json ls = Inr vs \<and> mapE load_json ls' = Inr ws \<and> map jnorm vs = map jnorm ws"
  by (rule audit_heads_agree [OF assms])

theorem audit_head_determines_witness:
  "\<exists>vs. mapE load_json (al_lines demo_audit) = Inr vs"
proof -
  have l: "length (al_lines demo_audit) = 1" "AUDIT_START \<noteq> ''sha256:'' @ demo_digest" by code_simp+
  then obtain x where x: "al_lines demo_audit = [x]" by (auto simp: length_Suc_conv)
  have v: "verify_audit_log demo_ext (Some [x]) = Inr (1, JStr (al_previous demo_audit))"
    using demo_audit_verifies unfolding x .
  from audit_head_determines [OF v v] l(2) show ?thesis by (auto simp: x)
qed

text \<open>C36. The canonical text of a value determines it up to the order of its members: parsing it gives the value
  back, and two values have the same text only if they are the same.\<close>

theorem canonical_text:
  assumes "wf_json v" "wf_json w"
  shows "json_loads (canonical_json_bytes v) = Some (jnorm v) \<and>
    (canonical_json_bytes v = canonical_json_bytes w \<longleftrightarrow> jnorm v = jnorm w)"
  using json_loads_canonical [OF assms(1)] canonical_inject [OF assms] by blast

theorem canonical_text_witness:
  "json_loads (canonical_json_bytes demo_task) = Some (jnorm demo_task)"
proof -
  have w: "wf_json demo_task" by (simp add: demo_task_def demo_payload_def)
  from canonical_text [OF w w] show ?thesis by blast
qed

text \<open>The secret check passes exactly the values that have no forbidden key at any depth.\<close>

lemma secrets_rejected:
  "check_secrets v = Inr () \<longleftrightarrow> list_all (\<lambda>k. normalize_key k \<notin> set FORBIDDEN_KEYS) (all_keys v)"
  by (simp add: check_secrets_Inr_iff secret_free_def list_all_iff)

text \<open>The hash of a text source does not depend on the line ends of the checkout.\<close>

lemma source_hash_line_ends:
  assumes "CHR 0x0D \<notin> set data" "py_lower suffix \<in> set TEXT_SOURCE_SUFFIXES"
  shows "source_sha256_prefixed E suffix (to_crlf data) = source_sha256_prefixed E suffix data"
  using assms by (simp add: source_sha256_prefixed_def source_bytes_for_hash_def replace_crlf_to_crlf replace_crlf_id)

lemma source_hash_line_ends_witness:
  "source_sha256_prefixed demo_id_ext ''.PY'' (to_crlf [CHR ''a'', CHR 0x0A]) = source_sha256_prefixed demo_id_ext ''.PY'' [CHR ''a'', CHR 0x0A]"
proof -
  have "py_lower ''.PY'' \<in> set TEXT_SOURCE_SUFFIXES" by code_simp
  then show ?thesis by (intro source_hash_line_ends) simp_all
qed

text \<open>C37. What is read as a restricted file is the stripped text of a regular file, within the given length,
  without a NUL, and readable by its owner alone (except on Windows). A symbolic link is followed: the check
  for links comes after the path was resolved and never refuses one.\<close>

theorem restricted_file_read:
  "read_restricted_text_file n fs nt path label lo hi = Inr v \<longleftrightarrow>
     (\<exists>p contents mode. fs_resolve n fs path = Inr p \<and> fs p = Some (Regular (Some contents) mode) \<and> v = py_strip contents \<and>
        lo \<le> py_len v \<and> py_len v \<le> hi \<and> CHR 0x00 \<notin> set v \<and> (nt \<or> mode mod 64 = 0))"
proof -
  have "\<not> is_symlink fs p" if "fs_resolve n fs path = Inr p" for p using that by (rule fs_resolve_not_symlink)
  then show ?thesis
    by (cases "fs_resolve n fs path") (auto simp: read_restricted_text_file_def Let_def split: option.splits fnode.splits if_splits)
qed

section \<open>Admission\<close>

text \<open>C38. Queued tasks are written once: whatever is queued afterwards, a task stays with its text, and a later
  task for the same recipient with the same identifier is either the same text or refused.\<close>

theorem ingress_write_once:
  assumes "foldE (task_queue.put_state E) (relay_run [] cs) vs = Inr store" "v \<in> set vs" "w \<in> set vs" "task_key v = task_key w"
  shows "task_look store (task_key v) = Some (canonical_json_bytes (fst v)) \<and>
    canonical_json_bytes (fst v) = canonical_json_bytes (fst w)"
proof -
  have inv: "relay_inv (relay_run [] cs)" by (rule relay_run_inv) (simp add: relay_inv_def)
  from task_queue.run_stored [OF assms(1) inv TrueI assms(2)] task_queue.run_agree [OF assms(1) inv TrueI assms(2-4)]
  show ?thesis by simp
qed

theorem ingress_write_once_witness:
  "\<exists>store. foldE (task_queue.put_state demo_ext) (relay_run [] []) [(demo_task, ''n''), (demo_task, ''n'')] = Inr store \<and>
     task_look store (task_key (demo_task, ''n'')) = Some (canonical_json_bytes demo_task)"
proof -
  have q: "queue_task demo_ext [] (demo_task, ''n'') = Inr (QueuedNow, [demo_row 0 False None])"
    "queue_task demo_ext [demo_row 0 False None] (demo_task, ''n'') = Inr (IdempotentReplay, [demo_row 0 False None])"
    by code_simp+
  then have f: "foldE (task_queue.put_state demo_ext) (relay_run [] []) [(demo_task, ''n''), (demo_task, ''n'')] = Inr [demo_row 0 False None]"
    by (simp add: task_queue.put_state_def relay_run_def)
  from ingress_write_once [OF f, of "(demo_task, ''n'')" "(demo_task, ''n'')"] f show ?thesis by auto
qed



section \<open>Observation\<close>

text \<open>C20. Whatever an observation returns, also an error, its cursor store gained at most one position: the
  one after a chain of events that continues from the stored position (or from the start of the task), each
  streamed by the server, verified, of the session, in sequence, and with its artifact fetched and equal to
  its content. Other cursors stay. So an observation that is started again goes on where checked events ended.\<close>

theorem observation_resumes:
  assumes run: "observe_live_session E payload cursor_db consumer origin rounds = (r, cursor_db')"
    and start: "start_observation E payload cursor_db consumer origin = Inr (recovered, s)"
    and sid: "text_item payload ''session_id'' = Inr sid" "jitem payload ''session_id'' = Inr session_id"
  shows "\<exists>es h. seen_chain E (concat rounds) session_id (ob_cursor s + 1) (ob_head s) es h \<and>
    list_all (streamed (concat rounds)) es \<and>
    (\<forall>c i. cursor_get cursor_db' c i =
       (if (c, i) = (consumer, sid) \<and> es \<noteq> []
        then Some \<lparr>cu_sequence = ob_cursor s + int (length es), cu_head = h, cu_count = ob_cursor s + int (length es)\<rparr>
        else cursor_get cursor_db c i))"
proof -
  have "ob_cursors s = cursor_db" using start_observation_Inr [OF start] by metis
  with observation_outcome [OF run start sid] show ?thesis
    unfolding progressed_def cursor_get_def list_all_iff by metis
qed

theorem observation_resumes_witness:
  "\<exists>es h. seen_chain demo_ext demo_round (JStr ''s'') 1 ZERO_HASH es h \<and> length es = 1"
proof -
  obtain es h where e: "seen_chain demo_ext demo_round (JStr ''s'') 1 ZERO_HASH es h"
    "cursor_get (ob_cursors (demo_seen 4)) ''c'' ''s'' =
       (if es \<noteq> [] then Some \<lparr>cu_sequence = int (length es), cu_head = h, cu_count = int (length es)\<rparr> else None)"
    using observation_resumes [OF demo_observation demo_start watch_payload_items(2,1)]
    by (auto simp: demo_obs_def cursor_get_def)
  then have "length es = 1" by (auto simp: demo_seen_def cursor_get_def split: if_splits)
  with e show ?thesis by blast
qed

text \<open>C12. A node that observed a session from its start and whose result carries the head of that session saw
  the session's events, all of them and in their order, unless two of the hashed texts have the same digest;
  the bundle of its result carries its own hash and the number of these events.\<close>

theorem observation_agrees:
  assumes run: "observe_live_session E payload cursor_db consumer origin rounds = (Inr v, cursor_db')"
    and start: "start_observation E payload cursor_db consumer origin = Inr (False, s)" "ob_cursor s = 0" "ob_head s = ZERO_HASH"
    and live: "live_reachable E db" "get_session db sid = Inr w" "list_events db sid 0 = Inr vs"
    and head: "jitem v ''head_event_hash'' = Inr (JStr h)" "jitem w ''head_event_hash'' = Inr (JStr h')" "py_lower h = py_lower h'"
    and inj: "inj_on (lower_keccak E) (event_preimage ` (set vs \<union> {x. streamed (concat rounds) x}))"
    and zero: "py_lower ZERO_HASH \<notin> lower_keccak E ` event_preimage ` (set vs \<union> {x. streamed (concat rounds) x})"
  shows "\<exists>es session_id body b hash. seen_chain E (concat rounds) session_id 1 ZERO_HASH es h \<and> map jnorm es = map jnorm vs \<and>
    served (concat rounds) body \<and> load_json body = Inr b \<and> evidence_bundle_hash E b = Inr hash \<and>
    jitem v ''bundle_hash'' = Inr (JStr hash) \<and> int_item b ''event_count'' = Inr (int (length vs))"
proof -
  obtain tid session_id where sid: "text_item payload ''session_id'' = Inr tid" "jitem payload ''session_id'' = Inr session_id"
    and count: "ob_count s = ob_cursor s"
    by (rule start_observation_Inr [OF start(1)]) (auto split: option.splits)
  from observation_outcome [OF run start(1) sid] obtain es t bh where
    p: "progressed E (concat rounds) session_id (consumer, tid) es s t" "bundle_matches E (concat rounds) session_id t bh"
    and v: "v = observation_result session_id (ob_cursor s) False t bh" by blast
  obtain vs' g where vs': "list_events db sid 0 = Inr vs'" "event_chain E 1 ZERO_HASH vs' g"
    "jitem w ''head_event_hash'' = Inr (JStr g)" "\<And>v. v \<in> set vs' \<Longrightarrow> wf_json v \<and> text_item v ''session_id'' = Inr sid"
    by (rule session_events [OF live_reachable_inv [OF live(1)] live(2)]) blast
  then have vs: "event_chain E 1 ZERO_HASH vs g" "jitem w ''head_event_hash'' = Inr (JStr g)" "\<And>v. v \<in> set vs \<Longrightarrow> wf_json v"
    using live(3) by auto
  have h: "h = ob_head t" "g = h'" using head vs(2) v by (auto simp: observation_result_def)
  have agree: "seen_chain E (concat rounds) session_id 1 ZERO_HASH es (ob_head t)" "map jnorm es = map jnorm vs"
    using progressed_agrees [OF p(1) start(2,3) vs(1) vs(3) _ inj zero] head(3) h by auto
  have "ob_count t = int (length vs)"
    using p(1) count start(2) map_eq_imp_length_eq [OF agree(2)] by (auto simp: progressed_def)
  moreover obtain body b where b: "served (concat rounds) body" "load_json body = Inr b" "check_bundle E session_id t b = Inr bh"
    using p(2) by (auto simp: bundle_matches_def)
  moreover have "jitem v ''bundle_hash'' = Inr bh" by (simp add: v observation_result_def)
  ultimately show ?thesis
    using agree h(1) check_bundle_Inr [OF b(3)] by metis
qed

theorem observation_agrees_witness:
  "\<exists>es session_id. seen_chain demo_ext demo_round session_id 1 ZERO_HASH es demo_head \<and> length es = 1"
proof -
  obtain d where d: "get_session demo_db ''s'' = Inr (JObj d)" "map_of d ''head_event_hash'' = Some (JStr (''0x'' @ demo_digest))"
    by (rule demo_sessions)
  have start: "ob_cursor demo_obs = 0" "ob_head demo_obs = ZERO_HASH" by (simp_all add: demo_obs_def)
  have head: "jitem (JObj d) ''head_event_hash'' = Inr (JStr demo_head)" using d(2) by (simp add: demo_head_def)
  from observation_agrees [OF demo_observation demo_start start demo_reachable(1) d(1) demo_listed(1) demo_result_items(1)
      head refl demo_texts_apart]
  obtain es session_id where "seen_chain demo_ext (concat [demo_round]) session_id 1 ZERO_HASH es demo_head"
    "map jnorm es = map jnorm [jnorm demo_event]" by blast
  then show ?thesis by (metis append_Nil2 concat.simps length_map length_Cons list.size(3) One_nat_def)
qed



text \<open>A set of observations exists only for three receipts that three distinct expected nodes signed on the
  given chain and registry, all completed and equal in session, last sequence, count, head and bundle; the set
  carries these values and its own hash.\<close>

lemma observation_quorum:
  assumes "aggregate_observations E receipts expected_nodes chain_id registry = Inr v"
  shows "length receipts = 3 \<and>
    (\<exists>c nodes. list_all2 (observed_by E expected_nodes chain_id registry c) receipts nodes \<and> distinct nodes \<and>
       list_all (\<lambda>k. jitem v k = jitem c k) [''session_id'', ''event_count'', ''head_event_hash'', ''bundle_hash'']) \<and>
    (\<exists>hash. observation_set_hash E v = Inr hash \<and> jitem v ''observation_set_hash'' = Inr (JStr hash))"
  by (rule aggregate_observations_Inr [OF assms]) auto

lemma observation_quorum_witness: "length watch_receipts = 3 \<and> (\<exists>nodes c.
    list_all2 (observed_by demo_ext watch_nodes (JStr ''1'') (JStr ''r'') c) watch_receipts nodes \<and> distinct nodes)"
proof -
  obtain v where "aggregate_observations demo_ext watch_receipts watch_nodes (JStr ''1'') (JStr ''r'') = Inr v"
    using watch_aggregate by (auto split: sum.splits)
  from observation_quorum [OF this] show ?thesis by blast
qed

section \<open>Reviews of the evidence\<close>



text \<open>C14. What a gateway finalized passes an independent review: when the answers carry the bundle of a session,
  its events and their contents, the schemas accept them, the task names the bundle and they are within the
  reviewer's limits, the verification succeeds.\<close>

theorem review_accepts:
  assumes live: "live_reachable E db" "get_session db sid = Inr s" "list_events db sid 0 = Inr vs"
    and rev: "py_int (JStr revision) = Inr i" "find_bundle db sid i = None"
    and f: "finalize_evidence_bundle E db files sid revision at = Inr (b, db')"
    and task: "reject_secret_fields payload ''$'' = Inr ()" "validate_review_urls E payload origin = Inr ()" "names_bundle payload b"
    and urls: "jitem payload ''evidence_url'' = Inr (JStr u1)" "jitem payload ''events_url'' = Inr (JStr u2)"
      "jitem payload ''artifact_base_url'' = Inr (JStr base)" "jitem payload ''session_id'' = Inr session_id"
    and valid: "validate_schema E b ''evidence-bundle-v2.schema.json'' = Inr ()"
      "list_all (\<lambda>v. validate_schema E v ''live-event-v1.schema.json'' = Inr () \<and> jitem v ''session_id'' = Inr session_id) vs"
    and small: "length vs \<le> 1000" "content_bytes vs \<le> MAX_REVIEW_ARTIFACT_BYTES"
    and answers: "json_answer ''review_evidence_unavailable'' (st1, b1) = Inr b"
      "json_answer ''review_events_unavailable'' (st2, b2) = Inr (JObj [(''events'', JArr vs)])" "list_all2 artifact_answer vs as"
  shows "\<exists>v. verify_review_evidence E payload origin
      (Response st1 b1 # Response st2 b2 # map (\<lambda>(st, bufs). Response st bufs) as) = Inr v"
  by (rule review_accepts_finalized [OF live_reachable_inv [OF live(1)] live(2,3) rev f task urls valid small answers])

theorem review_accepts_witness: "\<exists>v. verify_review_evidence demo_ext review_payload (JStr ''http://h'')
    [Response 200 [plain_text '' '' final_bundle], Response 200 [plain_text '' '' events_value], Response 200 [''x'']] = Inr v"
proof -
  obtain d where d: "get_session demo_closed_db ''s'' = Inr (JObj d)" by (rule demo_closed)
  have rev: "py_int (JStr ''1'') = Inr 1" "find_bundle demo_closed_db ''s'' 1 = None"
    using demo_bundles demo_one by (simp_all add: find_bundle_def del: py_int_simps)
  obtain db' where f: "finalize_evidence_bundle demo_ext demo_closed_db demo_files ''s'' ''1'' ''9'' = Inr (final_bundle, db')"
    using demo_finalized by blast
  from review_accepts [OF demo_reachable(2) d demo_listed(2) rev f review_payload_ok final_names
      review_payload_items(1-4) demo_valid _ demo_content_bytes review_answers demo_artifact_answer]
  show ?thesis by simp
qed

section \<open>Transcripts of a run\<close>

text \<open>C2. A core transcript that was accepted tells the whole session: when its session's head is the head of a
  session that the gateway's store recorded, the events of the transcript are that session's events, all of them
  and in their order, unless two of the hashed texts have the same digest; the bundle carries its own hash and
  refers to exactly these events, and three nodes signed that they observed them.\<close>

theorem core_transcript_events:
  assumes accepted: "verify_core_transcript E rpc secondary p v = Inr r"
    and live: "live_reachable E db" "get_session db sid = Inr w" "list_events db sid 0 = Inr vs"
    and head: "jitem2 v ''session'' ''head_event_hash'' = Inr (JStr h)" "jitem w ''head_event_hash'' = Inr (JStr h')" "py_lower h = py_lower h'"
    and declared: "jitem v ''events'' = Inr (JArr es)" "list_all wf_json es"
    and inj: "inj_on (lower_keccak E) (event_preimage ` (set vs \<union> set es))"
    and zero: "py_lower ZERO_HASH \<notin> lower_keccak E ` event_preimage ` (set vs \<union> set es)"
  shows "map jnorm es = map jnorm vs \<and>
    (\<exists>session b hash rs. jitem v ''session'' = Inr session \<and> jitem v ''evidence_bundle'' = Inr b \<and>
       evidence_bundle_hash E b = Inr hash \<and> jitem b ''bundle_hash'' = Inr (JStr hash) \<and> refers_to b es \<and>
       jitem b ''event_count'' = Inr (JStr (dec_nat (length vs))) \<and>
       list_item v ''observation_receipts'' = Inr rs \<and> observers_agree E v session b rs)"
proof -
  obtain allowed members tasks where "verify_witness_evidence_stages E v allowed False = Inr (members, tasks)"
    by (rule core_transcript_stages [OF accepted])
  then obtain es' g session b rs where s: "list_item v ''events'' = Inr es'" "event_chain E 1 ZERO_HASH es' g"
    "jitem v ''session'' = Inr session" "jitem session ''head_event_hash'' = Inr (JStr g)"
    "jitem v ''evidence_bundle'' = Inr b" "verify_session_bundle E v session b = Inr ()"
    "list_item v ''observation_receipts'' = Inr rs" "observers_agree E v session b rs"
    by (rule stages_Inr) blast
  have es: "es' = es" using s(1) declared(1) by (simp add: list_item_Inr_iff)
  have g: "g = h" using head(1) s(3,4) by (simp add: jitem2_def)
  obtain vs' k where vs: "list_events db sid 0 = Inr vs'" "event_chain E 1 ZERO_HASH vs' k"
    "jitem w ''head_event_hash'' = Inr (JStr k)" "\<And>v. v \<in> set vs' \<Longrightarrow> wf_json v \<and> text_item v ''session_id'' = Inr sid"
    by (rule session_events [OF live_reachable_inv [OF live(1)] live(2)]) blast
  then have vs': "event_chain E 1 ZERO_HASH vs k" "\<And>v. v \<in> set vs \<Longrightarrow> wf_json v" and k: "k = h'" using live(3) head(2) by auto
  have wf: "wf_json x" if "x \<in> set es" for x
    using declared(2) that by (simp add: list_all_iff)
  have same: "map jnorm es = map jnorm vs"
  proof (rule read_chains_agree [OF event_chain_read [OF s(2) [unfolded es]] event_chain_read [OF vs'(1)]])
    show "py_lower g = py_lower k" using head(3) g k by simp
    show "wf_json x" if "x \<in> set es \<union> set vs" for x using that wf vs'(2) by blast
    show "inj_on (lower_keccak E) (event_preimage ` (set es \<union> set vs))" using inj by (simp add: Un_commute)
    show "py_lower ZERO_HASH \<notin> lower_keccak E ` event_preimage ` (set es \<union> set vs)" using zero by (simp add: Un_commute)
  qed
  then have "length es = length vs" by (rule map_eq_imp_length_eq)
  with verify_session_bundle_Inr [OF s(6,1)] s same es show ?thesis by auto
qed

theorem core_transcript_events_witness:
  "\<exists>es vs. jitem run_transcript ''events'' = Inr (JArr es) \<and> list_events demo_closed_db ''s'' 0 = Inr vs \<and>
     map jnorm es = map jnorm vs \<and> length es = 1"
proof -
  obtain r where r: "verify_core_transcript demo_ext (Some run_primary) (Some run_secondary) (Some (PolicyValue run_policy)) run_transcript = Inr r"
    using run_core by blast
  obtain d where d: "get_session demo_closed_db ''s'' = Inr (JObj d)"
    "map_of d ''head_event_hash'' = Some (JStr (''0x'' @ demo_digest))" by (rule demo_closed)
  have head: "jitem2 run_transcript ''session'' ''head_event_hash'' = Inr (JStr demo_head)"
    "jitem (JObj d) ''head_event_hash'' = Inr (JStr demo_head)" using d(2) by (simp_all add: demo_head_def jitem2_def)
  have events: "jitem run_transcript ''events'' = Inr (JArr [demo_event])" "list_all wf_json [demo_event]"
    using demo_event_wf by simp_all
  from core_transcript_events [OF r demo_reachable(2) d(1) demo_listed(2) head refl events run_texts_apart] events(1) demo_listed(2)
  show ?thesis by fastforce
qed

text \<open>C4. An accepted core transcript with a critical dispute holds three verified receipts of three distinct
  nodes that reviewed the dispute, at least two of which dismissed it.\<close>

theorem core_transcript_critical_dispute:
  assumes "verify_core_transcript E rpc secondary p v = Inr r"
    and "jitem v ''dispute'' = Inr dispute" "jget dispute ''severity'' = Inr (JStr ''critical'')"
  shows "\<exists>rs nodes. list_item v ''review_receipts'' = Inr rs \<and> distinct nodes \<and> length nodes = 3 \<and>
    list_all2 (\<lambda>r n. (\<exists>m. addr_item E r ''node'' = Inr m \<and> to_checksum_address E (JStr m) = Inr n) \<and>
      (\<exists>c g signer. jitem2 v ''chain'' ''chain_id'' = Inr c \<and> jitem2 v ''chain'' ''registry'' = Inr g \<and>
         verify_receipt_v2 E r c g = Inr signer)) rs nodes \<and>
    2 \<le> length (filter (\<lambda>r. jitem2 r ''result'' ''verdict'' = Inr (JStr ''dismiss'')) rs)"
proof -
  obtain allowed members tasks where "verify_witness_evidence_stages E v allowed False = Inr (members, tasks)"
    by (rule core_transcript_stages [OF assms(1)])
  then obtain rs where s: "list_item v ''review_receipts'' = Inr rs" "receipts_answer E v tasks REVIEW False rs"
    "verify_dispute_and_gate E v members tasks = Inr ()" by (rule stages_Inr) blast
  from s(3) obtain rs' cs expected nodes session eb proposal gate where d: "list_item v ''review_receipts'' = Inr rs'" "length rs' = 3"
    "list_all2 (reviewed_as E v dispute) rs' cs" "list_all2 (review_of E dispute expected) cs nodes" "distinct nodes"
    "jitem dispute ''status'' = Inr (JStr (quorum_status expected nodes cs))"
    "build_proposal_plan E session eb [dispute] proposal = Inr gate"
    using assms(2) by (elim verify_dispute_and_gate_Inr) auto
  have rs: "rs' = rs" using d(1) s(1) by simp
  have "is_blocking dispute = Inr False" by (rule build_proposal_plan_Inr(5) [OF d(7)]) simp
  then have "quorum_status expected nodes cs = ''dismissed''"
    using d(6) assms(3) by (auto simp: is_blocking_def is_critical_def bindE_Inr_iff jget_def jget_or_def jitem_Inr_iff)
  then have two: "2 \<le> votes cs ''dismiss''" by (simp add: quorum_status_def split: if_splits)
  note one = reviewed_receipt and signed = answered_receipt [OF s(2)]
  have "list_all2 (\<lambda>r n. \<exists>c. reviewed_as E v dispute r c \<and> review_of E dispute expected c n) rs nodes"
    by (rule list_all2_trans [OF _ d(3) [unfolded rs] d(4)]) blast
  then have "list_all2 (\<lambda>r n. (\<exists>m. addr_item E r ''node'' = Inr m \<and> to_checksum_address E (JStr m) = Inr n) \<and>
      (\<exists>c g signer. jitem2 v ''chain'' ''chain_id'' = Inr c \<and> jitem2 v ''chain'' ''registry'' = Inr g \<and>
         verify_receipt_v2 E r c g = Inr signer)) rs nodes"
    by (rule list.rel_mono_strong) (use one signed in blast)
  moreover have "length (filter (\<lambda>r. jitem2 r ''result'' ''verdict'' = Inr (JStr ''dismiss'')) rs) = votes cs ''dismiss''"
    unfolding votes_def
    by (rule length_filter_list_all2 [OF list_all2_conj_right [OF d(3) [unfolded rs] d(4)]]) (use one in blast)
  moreover have "length nodes = 3" using d(2) list_all2_lengthD [OF d(3)] list_all2_lengthD [OF d(4)] by simp
  ultimately show ?thesis using s(1) d(5) two by (intro exI [of _ rs] exI [of _ nodes]) simp
qed

theorem core_transcript_critical_dispute_witness:
  "\<exists>nodes. length nodes = (3 :: nat) \<and> distinct (nodes :: string list) \<and> verdict_receipts \<noteq> [] \<and>
     2 \<le> length (filter (\<lambda>r. jitem2 r ''result'' ''verdict'' = Inr (JStr ''dismiss'')) verdict_receipts)"
proof -
  obtain r where "verify_core_transcript demo_ext (Some run_primary) (Some run_secondary) (Some (PolicyValue run_policy)) run_transcript = Inr r"
    using run_core by blast
  from core_transcript_critical_dispute [OF this run_items(12) dispute_items(4)]
  show ?thesis by (auto simp: list_item_def)
qed

text \<open>C6. An accepted core transcript of version 2 has one signed declaration for each participant, made for
  this run, release and service configuration and valid at its time; there are three participants or more, in two
  operator groups and two network groups or more, and every receipt is by a participant.\<close>

theorem core_transcript_participants:
  assumes "verify_core_v2 E rpc secondary p v = Inr r"
  shows "\<exists>attestations nodes se now service_hash observed reviewed.
    list_item v ''participant_attestations'' = Inr attestations \<and> run_of v service_hash se \<and> int_item v ''verified_at'' = Inr now \<and>
    list_all2 (declared_by E se now) attestations nodes \<and> distinct nodes \<and> 3 \<le> length nodes \<and>
    2 \<le> card ((\<lambda>a. lower_of a ''operator_group_hash'') ` set attestations) \<and>
    2 \<le> card ((\<lambda>a. lower_of a ''network_group_hash'') ` set attestations) \<and>
    list_item v ''observation_receipts'' = Inr observed \<and> list_item v ''review_receipts'' = Inr reviewed \<and>
    (\<forall>x \<in> set (observed @ reviewed). \<exists>m. addr_item E x ''node'' = Inr m \<and> (\<exists>n \<in> set nodes. to_checksum_address E (JStr m) = Inr n))"
proof (rule core_v2_Inr [OF assms])
  fix service_hash policy allowed members tasks participants diversity
  assume 1: "participants_of E v members = Inr participants" "attested_participants E v service_hash participants = Inr diversity"
  obtain observed reviewed where 2: "list_item v ''observation_receipts'' = Inr observed" "list_item v ''review_receipts'' = Inr reviewed"
    "\<And>x. x \<in> set (observed @ reviewed) \<Longrightarrow> \<exists>n \<in> set participants. addr_item E x ''node'' = Inr n"
    by (rule participants_of_Inr [OF 1(1)]) blast
  obtain attestations se now where 3: "list_item v ''participant_attestations'' = Inr attestations" "run_of v service_hash se"
    "int_item v ''verified_at'' = Inr now"
    "verify_participant_attestation_set E attestations (map JStr participants) se now = Inr diversity"
    by (rule attested_participants_Inr [OF 1(2)])
  obtain addresses nodes where 4: "mapE (to_checksum_address E) (map JStr participants) = Inr addresses"
    "list_all2 (declared_by E se now) attestations nodes" "distinct nodes" "set nodes = set addresses" "3 \<le> length nodes"
    "2 \<le> card ((\<lambda>a. lower_of a ''operator_group_hash'') ` set attestations)"
    "2 \<le> card ((\<lambda>a. lower_of a ''network_group_hash'') ` set attestations)"
    by (rule verify_participant_attestation_set_Inr [OF 3(4)])
  have "\<exists>m. addr_item E x ''node'' = Inr m \<and> (\<exists>n \<in> set nodes. to_checksum_address E (JStr m) = Inr n)"
    if x: "x \<in> set (observed @ reviewed)" for x
  proof -
    obtain m where m: "m \<in> set participants" "addr_item E x ''node'' = Inr m" using 2(3) [OF x] by blast
    from m(1) have "JStr m \<in> set (map JStr participants)" by simp
    from list_all2_set1 [OF 4(1) [unfolded mapE_Inr_iff] this] m(2) show ?thesis by (auto simp: 4(4))
  qed
  with 2 3 4 show ?thesis
    by (intro exI [of _ attestations] exI [of _ nodes] exI [of _ se] exI [of _ now] exI [of _ service_hash] exI [of _ observed] exI [of _ reviewed]) simp
qed

theorem core_transcript_participants_witness:
  "\<exists>attestations nodes. list_item run_transcript ''participant_attestations'' = Inr attestations \<and> distinct (nodes :: string list) \<and>
     3 \<le> length nodes \<and> length attestations = length nodes"
proof -
  from core_transcript_participants [OF run_accepted] show ?thesis using list_all2_lengthD by blast
qed



text \<open>C11. The votes of an accepted pilot transcript are signed by distinct listed witnesses, each for the proposal
  and its payload, in support and before its deadline; their number reaches the minimum and is the number that the
  proposal declares.\<close>

theorem pilot_vote_quorum:
  assumes "verify_votes E v = Inr signers"
  shows "\<exists>proposal chain ws witnesses approvals minimum. jitem v ''proposal'' = Inr proposal \<and> jitem v ''chain'' = Inr chain \<and>
    list_item chain ''witnesses'' = Inr ws \<and> mapE (to_checksum_address E) ws = Inr witnesses \<and>
    list_item v ''vote_approvals'' = Inr approvals \<and> list_all2 (vote_by E v chain proposal) approvals signers \<and>
    distinct signers \<and> set signers \<subseteq> set witnesses \<and>
    int_item chain ''min_valid_votes'' = Inr minimum \<and> minimum \<le> int (length signers) \<and>
    int_item proposal ''total_votes'' = Inr (int (length signers)) \<and> int_item proposal ''support_votes'' = Inr (int (length signers))"
  by (rule verify_votes_Inr [OF assms]) blast

theorem pilot_vote_quorum_witness:
  "\<exists>approvals. list_item vote_transcript ''vote_approvals'' = Inr approvals \<and> length approvals = length [''A'', ''B'']"
  using pilot_vote_quorum [OF votes_accepted] list_all2_lengthD by blast

text \<open>C17. A participant's declaration is accepted for at most an hour, whatever is expected of it: two times at which
  it is accepted are at most 3600 seconds apart, it names the same node at both, and it is accepted in between.\<close>

theorem attestation_lifetime:
  assumes "verify_participant_attestation E v ex t1 = Inr n1" "verify_participant_attestation E v ex' t2 = Inr n2"
  shows "n1 = n2 \<and> \<bar>t1 - t2\<bar> \<le> 3600 \<and> (\<forall>t \<in> {t1..t2} \<union> {t2..t1}. verify_participant_attestation E v ex t = Inr n1)"
  using assms unfolding verify_participant_attestation_Inr_iff window_holds_def self_signed_def
  by (auto simp: MAX_ATTESTATION_TTL_SECONDS_def)

theorem attestation_lifetime_witness:
  "verify_participant_attestation demo_ext (run_attestation ''a'' hash_b)
     (attestation_expected run_expect (Some (JStr demo_head)) (JStr ''oa'', JStr demo_head) (JStr (''sha256:'' @ demo_digest))) 7 = Inr ''a''"
proof -
  have "window_holds (run_attestation ''a'' hash_b) 1" "window_holds (run_attestation ''a'' hash_b) 9"
    by (simp_all add: window_holds_def int_item_def MAX_ATTESTATION_TTL_SECONDS_def)
  with attestation_ok [OF run_groups(1) run_groups(1), of "''a''"]
  have at: "verify_participant_attestation demo_ext (run_attestation ''a'' hash_b)
     (attestation_expected run_expect (Some (JStr demo_head)) (JStr ''oa'', JStr demo_head) (JStr (''sha256:'' @ demo_digest))) t = Inr ''a''"
    if "t \<in> {1, 9}" for t using that unfolding verify_participant_attestation_Inr_iff by auto
  have "(7 :: int) \<in> {1..9} \<union> {9..1}" by simp
  with attestation_lifetime [OF at at, of 1 9] show ?thesis by blast
qed





end
